(* ===== verification/Prelude.thy ===== *)
theory Prelude
  imports Main "HOL-Library.Word" "HOL-Library.Monad_Syntax"
begin

text \<open>
  Shared vocabulary of the development: the C integer types as words, byte memory with
  checked accesses, the byte-order macros of \<^verbatim>\<open>zc_common.h\<close>, the return codes, and the
  lemmas on words and lists that the component theories share.

  A C object is a \<^typ>\<open>8 word list\<close> of its size. An access outside the object, a read
  through a null pointer and a length taken from an uninitialised variable are undefined
  behaviour in C; every operation that can do one of these returns an \<open>option\<close>, and
  \<^term>\<open>None\<close> means exactly "the C code has no defined behaviour from here on".
\<close>

unbundle bit_operations_syntax

named_theorems mem_simps \<open>rewriting checked memory accesses\<close>
named_theorems len_simps \<open>lengths of encoded structures and buffers\<close>
named_theorems wire_simps \<open>unfolding the byte layout of the wire structures\<close>

subsection \<open>Integer types\<close>

type_synonym u8 = "8 word"
type_synonym u16 = "16 word"
type_synonym u32 = "32 word"
type_synonym bytes = "8 word list"

abbreviation (input) ZC_RET_OK :: u32 where "ZC_RET_OK \<equiv> 0"
abbreviation (input) ZC_RET_ERROR :: u32 where "ZC_RET_ERROR \<equiv> 1"

subsection \<open>Byte order\<close>

text \<open>The build does not define \<^verbatim>\<open>ZC_BIG_ENDIAN\<close>, so both macros swap.\<close>

definition ZC_HTONS :: "u16 \<Rightarrow> u16" where
  "ZC_HTONS n = push_bit 8 n OR drop_bit 8 n"

definition ZC_HTONL :: "u32 \<Rightarrow> u32" where
  "ZC_HTONL n = drop_bit 24 (n AND 0xff000000) OR drop_bit 8 (n AND 0x00ff0000)
     OR push_bit 8 (n AND 0x0000ff00) OR push_bit 24 (n AND 0x000000ff)"

lemma bit_ZC_HTONS:
  "bit (ZC_HTONS n) i \<longleftrightarrow> (if i < 8 then bit n (i + 8) else 8 \<le> i \<and> i < 16 \<and> bit n (i - 8))"
  by (auto simp: ZC_HTONS_def bit_simps add.commute dest: bit_imp_le_length)

lemma ZC_HTONS_involution [simp]: "ZC_HTONS (ZC_HTONS n) = n"
  by (rule bit_eqI) (auto simp: bit_ZC_HTONS dest: bit_imp_le_length)

lemma ZC_HTONS_inject [simp]: "ZC_HTONS m = ZC_HTONS n \<longleftrightarrow> m = n"
  by (metis ZC_HTONS_involution)

subsection \<open>Little-endian layout of multi-byte fields\<close>

definition le16 :: "u8 \<Rightarrow> u8 \<Rightarrow> u16" where
  "le16 b0 b1 = ucast b0 OR push_bit 8 (ucast b1)"

definition le16_bytes :: "u16 \<Rightarrow> bytes" where
  "le16_bytes n = [ucast n, ucast (drop_bit 8 n)]"

definition le32 :: "u8 \<Rightarrow> u8 \<Rightarrow> u8 \<Rightarrow> u8 \<Rightarrow> u32" where
  "le32 b0 b1 b2 b3 = ucast b0 OR push_bit 8 (ucast b1) OR push_bit 16 (ucast b2)
     OR push_bit 24 (ucast b3)"

definition le32_bytes :: "u32 \<Rightarrow> bytes" where
  "le32_bytes n = [ucast n, ucast (drop_bit 8 n), ucast (drop_bit 16 n), ucast (drop_bit 24 n)]"

lemma length_le_bytes [simp, len_simps]:
  "length (le16_bytes n) = 2" "length (le32_bytes m) = 4"
  by (simp_all add: le16_bytes_def le32_bytes_def)

lemma le16_roundtrip [simp]: "le16 (ucast n) (ucast (drop_bit 8 n)) = n"
  by (rule bit_eqI) (auto simp: le16_def bit_simps le_Suc_ex dest: bit_imp_le_length)

lemma le16_ucast [simp]:
  "ucast (le16 a b) = a" "ucast (drop_bit 8 (le16 a b)) = b"
  by (rule bit_eqI; auto simp: le16_def bit_simps dest: bit_imp_le_length)+

lemma le16_inject [simp]: "le16 a b = le16 c d \<longleftrightarrow> a = c \<and> b = d"
  by (metis le16_ucast)

lemma le32_roundtrip [simp]:
  "le32 (ucast n) (ucast (drop_bit 8 n)) (ucast (drop_bit 16 n)) (ucast (drop_bit 24 n)) = n"
proof (rule bit_eqI)
  fix i
  show "bit (le32 (ucast n) (ucast (drop_bit 8 n)) (ucast (drop_bit 16 n))
      (ucast (drop_bit 24 n))) i = bit n i"
    by (cases "i < 8"; cases "i < 16"; cases "i < 24")
      (auto simp: le32_def bit_simps dest: bit_imp_le_length)
qed

subsection \<open>Checked memory accesses\<close>

text \<open>\<open>rd m off n\<close>: the \<open>n\<close> bytes at \<open>off\<close>; \<open>wr m off bs\<close>: the object after
  \<open>bs\<close> has been stored at \<open>off\<close>. Both are undefined outside the object.\<close>

definition rd :: "'a list \<Rightarrow> nat \<Rightarrow> nat \<Rightarrow> 'a list option" where
  "rd m off n = (if off + n \<le> length m then Some (take n (drop off m)) else None)"

definition wr :: "'a list \<Rightarrow> nat \<Rightarrow> 'a list \<Rightarrow> 'a list option" where
  "wr m off bs = (if off + length bs \<le> length m
     then Some (take off m @ bs @ drop (off + length bs) m) else None)"

definition memcpy :: "'a list \<Rightarrow> nat \<Rightarrow> 'a list \<Rightarrow> nat \<Rightarrow> 'a list option" where
  "memcpy dst off src n = do { bs \<leftarrow> rd src 0 n; wr dst off bs }"

lemma rd_eq_Some [mem_simps]:
  "rd m off n = Some bs \<longleftrightarrow> off + n \<le> length m \<and> bs = take n (drop off m)"
  by (auto simp: rd_def)

lemma wr_eq_Some [mem_simps]:
  "wr m off bs = Some m' \<longleftrightarrow>
     off + length bs \<le> length m \<and> m' = take off m @ bs @ drop (off + length bs) m"
  by (auto simp: wr_def)

lemma memcpy_eq_Some [mem_simps]:
  "memcpy dst off src n = Some m' \<longleftrightarrow>
     n \<le> length src \<and> off + n \<le> length dst \<and> m' = take off dst @ take n src @ drop (off + n) dst"
  by (auto simp: memcpy_def rd_def wr_def split: if_splits)

lemma memcpy_Some:
  "n \<le> length src \<Longrightarrow> off + n \<le> length dst \<Longrightarrow>
     memcpy dst off src n = Some (take off dst @ take n src @ drop (off + n) dst)"
  by (simp add: mem_simps)

lemma length_rd: "rd m off n = Some bs \<Longrightarrow> length bs = n"
  by (auto simp: rd_def split: if_splits)

lemma length_wr: "wr m off bs = Some m' \<Longrightarrow> length m' = length m"
  by (auto simp: wr_eq_Some)

lemma length_memcpy: "memcpy dst off src n = Some m' \<Longrightarrow> length m' = length dst"
  by (auto simp: memcpy_eq_Some)

lemma rd_wr_same: "wr m off bs = Some m' \<Longrightarrow> rd m' off (length bs) = Some bs"
  by (auto simp: wr_eq_Some rd_def)

lemma rd_None [mem_simps]: "rd m off n = None \<longleftrightarrow> length m < off + n"
  by (auto simp: rd_def)

subsection \<open>Words as numbers\<close>

lemma unat_u8_lt: "unat (x :: u8) < 256"
  using unsigned_less [of x, where 'a = nat] by simp

lemma unat_u16_lt: "unat (x :: u16) < 65536"
  using unsigned_less [of x, where 'a = nat] by simp

lemma unat_u32_lt: "unat (x :: u32) < 4294967296"
  using unsigned_less [of x, where 'a = nat] by simp

lemma unat_ucast_16_32 [simp]: "unat (ucast (x :: u16) :: u32) = unat x"
  using unat_u16_lt [of x] by (simp add: unsigned_ucast_eq take_bit_nat_eq_self_iff)

lemma unat_ucast_8_32 [simp]: "unat (ucast (x :: u8) :: u32) = unat x"
  using unat_u8_lt [of x] by (simp add: unsigned_ucast_eq take_bit_nat_eq_self_iff)

lemma unat_ucast_8_16 [simp]: "unat (ucast (x :: u8) :: u16) = unat x"
  using unat_u8_lt [of x] by (simp add: unsigned_ucast_eq take_bit_nat_eq_self_iff)

lemma ucast_of_nat_u8: "n < 256 \<Longrightarrow> ucast (of_nat n :: u8) = (of_nat n :: u32)"
  by (simp add: word_unat_eq_iff unat_of_nat take_bit_nat_eq_self_iff)

lemma unat_add_lt: "unat a + unat b < 4294967296 \<Longrightarrow> unat (a + b :: u32) = unat a + unat b"
  by (simp add: unat_word_ariths)

lemma unat_sub_le: "b \<le> a \<Longrightarrow> unat (a - b :: u32) = unat a - unat b"
  by (rule unat_sub)

text \<open>Facts about all bytes are decided by evaluating them on the 256 values.\<close>

lemma all_u8_by_cases:
  assumes "list_all (\<lambda>n. P (of_nat n)) [0..<256]"
  shows "P (x :: u8)"
proof -
  have "P (of_nat n)" if "n < 256" for n
    using assms that by (simp add: list_all_iff)
  from this [OF unat_u8_lt [of x]] show ?thesis by simp
qed

subsection \<open>Lists\<close>

lemma length_le_concat: "d \<in> set ds \<Longrightarrow> length d \<le> length (concat ds)"
  by (induction ds) auto

end
