(* ===== verification/Crc.thy ===== *)
theory Crc
  imports Prelude
begin

text \<open>
  \<^verbatim>\<open>src/src/ZC/crc.c\<close>: the three CRC-CCITT routines (bit by bit, by byte with a table of 256
  entries, by half byte with a table of 16) and \<^verbatim>\<open>crc16_ccitt\<close>, which the protocol uses.
  The loops run over the list of the bytes read. The theory shows that the three routines
  compute the same function, that this function is linear over XOR, and that it detects
  every error confined to two adjacent bytes.
\<close>

subsection \<open>The routines\<close>

definition CRC_CCITT :: u32 where
  "CRC_CCITT = 0x1021"

definition crc_ta_8 :: "u32 list" where
  "crc_ta_8 = [
    0x0000, 0x1021, 0x2042, 0x3063, 0x4084, 0x50a5, 0x60c6, 0x70e7,
    0x8108, 0x9129, 0xa14a, 0xb16b, 0xc18c, 0xd1ad, 0xe1ce, 0xf1ef,
    0x1231, 0x0210, 0x3273, 0x2252, 0x52b5, 0x4294, 0x72f7, 0x62d6,
    0x9339, 0x8318, 0xb37b, 0xa35a, 0xd3bd, 0xc39c, 0xf3ff, 0xe3de,
    0x2462, 0x3443, 0x0420, 0x1401, 0x64e6, 0x74c7, 0x44a4, 0x5485,
    0xa56a, 0xb54b, 0x8528, 0x9509, 0xe5ee, 0xf5cf, 0xc5ac, 0xd58d,
    0x3653, 0x2672, 0x1611, 0x0630, 0x76d7, 0x66f6, 0x5695, 0x46b4,
    0xb75b, 0xa77a, 0x9719, 0x8738, 0xf7df, 0xe7fe, 0xd79d, 0xc7bc,
    0x48c4, 0x58e5, 0x6886, 0x78a7, 0x0840, 0x1861, 0x2802, 0x3823,
    0xc9cc, 0xd9ed, 0xe98e, 0xf9af, 0x8948, 0x9969, 0xa90a, 0xb92b,
    0x5af5, 0x4ad4, 0x7ab7, 0x6a96, 0x1a71, 0x0a50, 0x3a33, 0x2a12,
    0xdbfd, 0xcbdc, 0xfbbf, 0xeb9e, 0x9b79, 0x8b58, 0xbb3b, 0xab1a,
    0x6ca6, 0x7c87, 0x4ce4, 0x5cc5, 0x2c22, 0x3c03, 0x0c60, 0x1c41,
    0xedae, 0xfd8f, 0xcdec, 0xddcd, 0xad2a, 0xbd0b, 0x8d68, 0x9d49,
    0x7e97, 0x6eb6, 0x5ed5, 0x4ef4, 0x3e13, 0x2e32, 0x1e51, 0x0e70,
    0xff9f, 0xefbe, 0xdfdd, 0xcffc, 0xbf1b, 0xaf3a, 0x9f59, 0x8f78,
    0x9188, 0x81a9, 0xb1ca, 0xa1eb, 0xd10c, 0xc12d, 0xf14e, 0xe16f,
    0x1080, 0x00a1, 0x30c2, 0x20e3, 0x5004, 0x4025, 0x7046, 0x6067,
    0x83b9, 0x9398, 0xa3fb, 0xb3da, 0xc33d, 0xd31c, 0xe37f, 0xf35e,
    0x02b1, 0x1290, 0x22f3, 0x32d2, 0x4235, 0x5214, 0x6277, 0x7256,
    0xb5ea, 0xa5cb, 0x95a8, 0x8589, 0xf56e, 0xe54f, 0xd52c, 0xc50d,
    0x34e2, 0x24c3, 0x14a0, 0x0481, 0x7466, 0x6447, 0x5424, 0x4405,
    0xa7db, 0xb7fa, 0x8799, 0x97b8, 0xe75f, 0xf77e, 0xc71d, 0xd73c,
    0x26d3, 0x36f2, 0x0691, 0x16b0, 0x6657, 0x7676, 0x4615, 0x5634,
    0xd94c, 0xc96d, 0xf90e, 0xe92f, 0x99c8, 0x89e9, 0xb98a, 0xa9ab,
    0x5844, 0x4865, 0x7806, 0x6827, 0x18c0, 0x08e1, 0x3882, 0x28a3,
    0xcb7d, 0xdb5c, 0xeb3f, 0xfb1e, 0x8bf9, 0x9bd8, 0xabbb, 0xbb9a,
    0x4a75, 0x5a54, 0x6a37, 0x7a16, 0x0af1, 0x1ad0, 0x2ab3, 0x3a92,
    0xfd2e, 0xed0f, 0xdd6c, 0xcd4d, 0xbdaa, 0xad8b, 0x9de8, 0x8dc9,
    0x7c26, 0x6c07, 0x5c64, 0x4c45, 0x3ca2, 0x2c83, 0x1ce0, 0x0cc1,
    0xef1f, 0xff3e, 0xcf5d, 0xdf7c, 0xaf9b, 0xbfba, 0x8fd9, 0x9ff8,
    0x6e17, 0x7e36, 0x4e55, 0x5e74, 0x2e93, 0x3eb2, 0x0ed1, 0x1ef0]"

definition crc_ta_4 :: "u32 list" where
  "crc_ta_4 = [
    0x0000, 0x1021, 0x2042, 0x3063, 0x4084, 0x50a5, 0x60c6, 0x70e7,
    0x8108, 0x9129, 0xa14a, 0xb16b, 0xc18c, 0xd1ad, 0xe1ce, 0xf1ef]"

text \<open>The body of the inner loop of \<^verbatim>\<open>crc_cal_by_bit\<close> for one mask \<open>i\<close>.\<close>

definition crc_bit_body :: "u32 \<Rightarrow> u8 \<Rightarrow> u8 \<Rightarrow> u32" where
  "crc_bit_body crc p i =
     (let crc = crc * 2;
          crc = (if crc AND 0x10000 \<noteq> 0 then crc XOR 0x11021 else crc)
      in if p AND i \<noteq> 0 then crc XOR CRC_CCITT else crc)"

text \<open>\<^verbatim>\<open>for (i = 0x80; i != 0; i /= 2)\<close>.\<close>

function crc_bit_loop :: "u8 \<Rightarrow> u8 \<Rightarrow> u32 \<Rightarrow> u32" where
  "crc_bit_loop i p crc =
     (if i = 0 then crc else crc_bit_loop (i div 2) p (crc_bit_body crc p i))"
  by pat_completeness auto
termination
  by (relation "measure (\<lambda>(i, p, crc). unat i)")
    (auto simp: unat_div unat_gt_0 intro: div_less_dividend)

declare crc_bit_loop.simps [simp del]

fun crc_by_bit_bytes :: "bytes \<Rightarrow> u32 \<Rightarrow> u32" where
  "crc_by_bit_bytes [] crc = crc"
| "crc_by_bit_bytes (p # ptr) crc = crc_by_bit_bytes ptr (crc_bit_loop 0x80 p crc)"

definition crc_cal_by_bit :: "bytes \<Rightarrow> u32" where
  "crc_cal_by_bit ptr = crc_by_bit_bytes ptr 0"

text \<open>\<open>crc\<close> is an \<^verbatim>\<open>unsigned short\<close> here; the table entry is truncated by the XOR-assignment.\<close>

definition crc_byte_body :: "u16 \<Rightarrow> u8 \<Rightarrow> u16" where
  "crc_byte_body crc p =
     (let high = ucast (crc div 256) :: u32
      in push_bit 8 crc XOR ucast (crc_ta_8 ! unat (high XOR ucast p)))"

fun crc_by_byte_bytes :: "bytes \<Rightarrow> u16 \<Rightarrow> u16" where
  "crc_by_byte_bytes [] crc = crc"
| "crc_by_byte_bytes (p # ptr) crc = crc_by_byte_bytes ptr (crc_byte_body crc p)"

definition crc_cal_by_byte :: "bytes \<Rightarrow> u32" where
  "crc_cal_by_byte ptr = ucast (crc_by_byte_bytes ptr 0)"

definition crc_halfbyte_body :: "u16 \<Rightarrow> u8 \<Rightarrow> u16" where
  "crc_halfbyte_body crc p =
     (let high = ucast (crc div 4096) :: u8;
          crc = push_bit 4 crc XOR ucast (crc_ta_4 ! unat (high XOR p div 16));
          high = ucast (crc div 4096) :: u8
      in push_bit 4 crc XOR ucast (crc_ta_4 ! unat (high XOR (p AND 0x0f))))"

fun crc_by_halfbyte_bytes :: "bytes \<Rightarrow> u16 \<Rightarrow> u16" where
  "crc_by_halfbyte_bytes [] crc = crc"
| "crc_by_halfbyte_bytes (p # ptr) crc = crc_by_halfbyte_bytes ptr (crc_halfbyte_body crc p)"

definition crc_cal_by_halfbyte :: "bytes \<Rightarrow> u32" where
  "crc_cal_by_halfbyte ptr = ucast (crc_by_halfbyte_bytes ptr 0)"

definition crc16_ccitt :: "bytes \<Rightarrow> u16" where
  "crc16_ccitt buf = ucast (crc_cal_by_bit buf)"

subsection \<open>The register and its rounds\<close>

text \<open>One round of the shift register, without input: the shift and the feedback.\<close>

definition crc_shl :: "'a::len word \<Rightarrow> 'a word" where
  "crc_shl c = push_bit 1 c"

lemma bit_crc_shl: "bit (crc_shl c) n \<longleftrightarrow> n < LENGTH('a) \<and> 0 < n \<and> bit c (n - 1)" for c :: "'a::len word"
  unfolding crc_shl_def bit_push_bit_iff by auto

lemma crc_shl_xor: "crc_shl (c XOR d) = crc_shl c XOR crc_shl d"
  by (rule bit_eqI) (auto simp: bit_crc_shl bit_xor_iff)

lemma mult_2_crc_shl: "c * 2 = crc_shl c" for c :: "'a::len word"
  by (simp add: crc_shl_def)

definition crc_t :: "u16 \<Rightarrow> u16" where
  "crc_t c = (if bit c 15 then crc_shl c XOR 0x1021 else crc_shl c)"

fun crc_feed :: "bool list \<Rightarrow> u16 \<Rightarrow> u16" where
  "crc_feed [] c = c"
| "crc_feed (b # bs) c = crc_feed bs (crc_t (c XOR (if b then 0x8000 else 0)))"

lemma crc_t_xor: "crc_t (c XOR d) = crc_t c XOR crc_t d"
  by (simp add: crc_t_def bit_xor_iff crc_shl_xor xor.assoc xor.left_commute xor.commute)

text \<open>\<open>n\<close> rounds of the register.\<close>

definition crc_steps :: "nat \<Rightarrow> u16 \<Rightarrow> u16" where
  "crc_steps n = crc_t ^^ n"

lemma crc_steps_0: "crc_steps 0 c = c"
  by (simp add: crc_steps_def)

lemma crc_steps_Suc: "crc_steps (Suc n) c = crc_steps n (crc_t c)"
  by (simp only: crc_steps_def funpow_Suc_right o_apply)

lemma crc_steps_Suc': "crc_steps (Suc n) c = crc_t (crc_steps n c)"
  by (simp add: crc_steps_def)

lemma crc_steps_add: "crc_steps m (crc_steps n c) = crc_steps (m + n) c"
  by (simp add: crc_steps_def funpow_add)

lemma crc_steps_xor: "crc_steps n (c XOR d) = crc_steps n c XOR crc_steps n d"
  by (induction n) (simp_all add: crc_t_xor crc_steps_0 crc_steps_Suc')

lemma crc_feed_xor: "crc_feed bs (c XOR d) = crc_steps (length bs) c XOR crc_feed bs d"
proof (induction bs arbitrary: c d)
  case (Cons b bs)
  then show ?case by (simp add: crc_t_xor xor.assoc crc_steps_Suc)
qed (simp add: crc_steps_0)

lemma crc_t_eq_0: "crc_t c = 0 \<longleftrightarrow> c = 0"
proof
  assume z: "crc_t c = 0"
  show "c = 0"
  proof (cases "bit c 15")
    case True
    then have "bit (crc_t c) 0" by (simp add: crc_t_def bit_crc_shl bit_xor_iff)
    with z show ?thesis by simp
  next
    case False
    have "\<not> bit c n" for n
    proof
      assume b: "bit c n"
      then have "n < 16" using bit_imp_le_length by fastforce
      moreover from b False have "n \<noteq> 15" by auto
      ultimately have "bit (crc_t c) (Suc n)"
        using b False by (simp add: crc_t_def bit_crc_shl)
      with z show False by simp
    qed
    then show ?thesis by (simp add: bit_eq_iff)
  qed
qed (simp add: crc_t_def crc_shl_def)

lemma crc_steps_eq_0: "crc_steps n c = 0 \<longleftrightarrow> c = 0"
  by (induction n) (simp_all add: crc_t_eq_0 crc_steps_0 crc_steps_Suc')

lemma word_xor_eq_0_iff: "c XOR d = 0 \<longleftrightarrow> c = d" for c d :: "'a::len word"
  by (auto simp: bit_eq_iff bit_xor_iff)

lemma crc_steps_inject: "crc_steps n c = crc_steps n d \<longleftrightarrow> c = d"
  using crc_steps_eq_0 [of n "c XOR d"] by (simp only: crc_steps_xor word_xor_eq_0_iff)

lemma bit_0x10000: "bit (0x10000 :: u32) n \<longleftrightarrow> n = 16"
proof -
  have "(0x10000 :: u32) = push_bit 16 1" by simp
  then show ?thesis by (simp only: bit_push_bit_iff) (auto simp: bit_1_iff)
qed

definition bit16 :: u32 where "bit16 = 0x10000"

lemma bit_bit16: "bit bit16 n \<longleftrightarrow> n = 16"
  by (simp only: bit16_def bit_0x10000)

lemma crc_shl_wide:
  "crc_shl (ucast (c :: u16) :: u32) = (if bit c 15 then bit16 else 0) XOR ucast (crc_shl c)"
proof (rule bit_word_eqI)
  fix n assume "n < LENGTH(32)"
  then have "n < 16 \<or> n = 16 \<or> 16 < n" by auto
  then show "bit (crc_shl (ucast c :: u32)) n =
      bit ((if bit c 15 then bit16 else 0) XOR ucast (crc_shl c)) n"
    by (elim disjE) (auto simp: bit_xor_iff bit_unsigned_iff bit_crc_shl bit_bit16
       dest: bit_imp_le_length)
qed

lemma ucast_and_bit16: "(ucast (c :: u16) :: u32) AND bit16 = 0"
  by (rule bit_eqI) (auto simp: bit_and_iff bit_unsigned_iff bit_bit16 dest: bit_imp_le_length)

lemma crc_bit_body_eq:
  "crc_bit_body (ucast c) p i = ucast (crc_t (c XOR (if p AND i \<noteq> 0 then 0x8000 else 0)))"
proof -
  have c21: "(0x11021 :: u32) = bit16 XOR ucast (0x1021 :: u16)" by (simp add: bit16_def)
  have t: "crc_t 0x8000 = 0x1021" by (simp add: crc_t_def crc_shl_def bit_simps)
  have t0: "crc_t 0 = 0" by (simp add: crc_t_eq_0)
  have nz: "bit16 \<noteq> 0" by (simp add: bit16_def)
  have step: "(if crc_shl (ucast c :: u32) AND bit16 \<noteq> 0 then crc_shl (ucast c) XOR 0x11021
      else crc_shl (ucast c)) = (ucast (crc_t c) :: u32)"
    by (cases "bit c 15")
      (simp_all add: crc_shl_wide c21 crc_t_def unsigned_xor_eq xor.assoc xor.left_commute
        xor.commute bit.conj_xor_distrib2 ucast_and_bit16 nz)
  show ?thesis
    using step by (simp add: crc_bit_body_def Let_def mult_2_crc_shl crc_t_xor t t0 CRC_CCITT_def
       unsigned_xor_eq bit16_def [symmetric] del: if_split)
qed


fun tab_ok :: "u16 list \<Rightarrow> u16 list \<Rightarrow> bool" where
  "tab_ok [] xs = True"
| "tab_ok (t # ts) (e # d # r) = (e = crc_t t \<and> d = e XOR 0x1021 \<and> tab_ok ts r)"
| "tab_ok _ _ = False"

lemma crc_ta_8_ok: "tab_ok (map ucast (take 128 crc_ta_8)) (map ucast crc_ta_8)"
  by code_simp

lemma tab_ok_nth:
  "tab_ok ts xs \<Longrightarrow> h < length ts \<Longrightarrow>
     xs ! (2 * h) = crc_t (ts ! h) \<and> xs ! Suc (2 * h) = crc_t (ts ! h) XOR 0x1021"
  by (induction ts xs arbitrary: h rule: tab_ok.induct) (auto simp: nth_Cons split: nat.splits)

text \<open>Feeding bits into the top of the register is XOR-ing them in and running the rounds.\<close>

fun top_bits :: "bool list \<Rightarrow> u16" where
  "top_bits [] = 0"
| "top_bits (b # bs) = (if b then 0x8000 else 0) XOR drop_bit 1 (top_bits bs)"

lemma bit_0x8000: "bit (0x8000 :: u16) n \<longleftrightarrow> n = 15"
proof -
  have "(0x8000 :: u16) = push_bit 15 1" by simp
  then show ?thesis by (simp only: bit_push_bit_iff) (auto simp: bit_1_iff)
qed

lemma bit_top_bits: "bit (top_bits bs) n \<longleftrightarrow> n < 16 \<and> 15 - n < length bs \<and> bs ! (15 - n)"
proof (induction bs arbitrary: n)
  case (Cons b bs)
  have "bit (if b then 0x8000 else 0 :: u16) n \<longleftrightarrow> b \<and> n = 15" by (simp only: bit_0x8000 split: if_split) simp
  moreover have "15 - n = Suc (15 - Suc n)" if "n < 15" using that by arith
  ultimately show ?case
    using Cons.IH [of "Suc n"] by (cases "n < 15") (auto simp: bit_xor_iff bit_drop_bit_eq nth_Cons')
qed simp

lemma crc_t_drop: "\<not> bit w 0 \<Longrightarrow> crc_t (drop_bit 1 w) = w"
proof (rule bit_word_eqI)
  fix n assume "\<not> bit w 0" "n < LENGTH(16)"
  moreover have "\<not> bit w 16" using bit_imp_le_length [of w 16] by auto
  ultimately show "bit (crc_t (drop_bit 1 w)) n = bit w n"
    by (cases n) (auto simp: crc_t_def bit_crc_shl bit_drop_bit_eq)
qed

lemma crc_feed_eq:
  "length bs \<le> 15 \<Longrightarrow> crc_feed bs c = crc_steps (length bs) (c XOR top_bits bs)"
proof (induction bs arbitrary: c)
  case (Cons b bs)
  have "\<not> bit (top_bits bs) 0" using Cons.prems by (simp add: bit_top_bits)
  then have "crc_t (c XOR top_bits (b # bs)) = crc_t (c XOR (if b then 0x8000 else 0)) XOR top_bits bs"
    by (simp add: crc_t_xor crc_t_drop xor.assoc del: if_split One_nat_def)
  with Cons show ?case by (simp add: crc_steps_Suc)
qed (simp add: crc_steps_0)

lemma crc_steps_low:
  "(\<And>n. bit x n \<Longrightarrow> n + k < 16) \<Longrightarrow> crc_steps k x = push_bit k x"
proof (induction k)
  case (Suc k)
  have "\<not> bit (push_bit k x) 15" using Suc.prems [of "15 - k"] by (auto simp: bit_push_bit_iff)
  moreover have "crc_steps k x = push_bit k x" using Suc by fastforce
  ultimately have "crc_steps (Suc k) x = push_bit 1 (push_bit k x)"
    by (simp only: crc_steps_Suc' crc_t_def crc_shl_def if_False)
  then show ?case by (simp only: push_bit_push_bit plus_1_eq_Suc)
qed (simp add: crc_steps_0)

lemma top_bits_byte: "top_bits (map (bit p) [7,6,5,4,3,2,1,0]) = push_bit 8 (ucast (p :: u8))"
proof -
  have e: "map (bit p) [7,6,5,4,3,2,1,0] = map (bit p) (rev [0..<8])"
    by (rule arg_cong [where f = "map (bit p)"]) code_simp
  show ?thesis unfolding e
  by (rule bit_word_eqI) (auto simp: bit_top_bits rev_nth bit_push_bit_iff bit_unsigned_iff)
qed

lemma word_and_exp_neq_0: "x AND push_bit k 1 \<noteq> 0 \<longleftrightarrow> bit x k" for x :: "'a::len word"
proof
  assume nz: "x AND push_bit k 1 \<noteq> 0"
  show "bit x k"
  proof (rule ccontr)
    assume "\<not> bit x k"
    then have "x AND push_bit k 1 = 0"
      by (intro bit_word_eqI) (auto simp: bit_and_iff bit_exp_iff)
    with nz show False by simp
  qed
next
  assume "bit x k"
  then have "bit (x AND push_bit k 1) k"
    by (auto simp: bit_and_iff bit_exp_iff dest: bit_imp_le_length)
  then show "x AND push_bit k 1 \<noteq> 0" by auto
qed

lemma mask_bits:
  "p AND 0x80 \<noteq> 0 \<longleftrightarrow> bit p 7" "p AND 0x40 \<noteq> 0 \<longleftrightarrow> bit p 6" "p AND 0x20 \<noteq> 0 \<longleftrightarrow> bit p 5"
  "p AND 0x10 \<noteq> 0 \<longleftrightarrow> bit p 4" "p AND 0x8 \<noteq> 0 \<longleftrightarrow> bit p 3" "p AND 0x4 \<noteq> 0 \<longleftrightarrow> bit p 2"
  "p AND 0x2 \<noteq> 0 \<longleftrightarrow> bit p 1" "p AND 0x1 \<noteq> 0 \<longleftrightarrow> bit p 0" for p :: u8
proof -
  note m = word_and_exp_neq_0 [of p]
  show "p AND 0x80 \<noteq> 0 \<longleftrightarrow> bit p 7" "p AND 0x40 \<noteq> 0 \<longleftrightarrow> bit p 6" "p AND 0x20 \<noteq> 0 \<longleftrightarrow> bit p 5"
  "p AND 0x10 \<noteq> 0 \<longleftrightarrow> bit p 4" "p AND 0x8 \<noteq> 0 \<longleftrightarrow> bit p 3" "p AND 0x4 \<noteq> 0 \<longleftrightarrow> bit p 2"
  "p AND 0x2 \<noteq> 0 \<longleftrightarrow> bit p 1" "p AND 0x1 \<noteq> 0 \<longleftrightarrow> bit p 0"
    using m [of 7] m [of 6] m [of 5] m [of 4] m [of 3] m [of 2] m [of 1] m [of 0] by simp_all
qed

lemma crc_bit_loop_eq:
  "crc_bit_loop 0x80 p (ucast c) = ucast (crc_steps 8 (c XOR push_bit 8 (ucast p)))"
proof -
  have "crc_bit_loop 0x80 p (ucast c) = ucast (crc_feed (map (bit p) [7,6,5,4,3,2,1,0]) c)"
    by (simp add: crc_bit_loop.simps crc_bit_body_eq mask_bits)
  also have "crc_feed (map (bit p) [7,6,5,4,3,2,1,0]) c = crc_steps 8 (c XOR push_bit 8 (ucast p))"
  proof -
    have "length (map (bit p) [7,6,5,4,3,2,1,0]) = 8" by simp
    then show ?thesis using crc_feed_eq [of "map (bit p) [7,6,5,4,3,2,1,0]" c]
      by (simp only: top_bits_byte)
  qed
  finally show ?thesis .
qed

subsection \<open>The three routines compute the same function\<close>

lemma crc_tab_step:
  assumes "h < 128"
  shows "ucast (crc_ta_8 ! (2 * h)) = crc_t (ucast (crc_ta_8 ! h))"
    and "ucast (crc_ta_8 ! Suc (2 * h)) = crc_t (ucast (crc_ta_8 ! h)) XOR 0x1021"
proof -
  have l: "length crc_ta_8 = 256" by (simp add: crc_ta_8_def)
  show "ucast (crc_ta_8 ! (2 * h)) = crc_t (ucast (crc_ta_8 ! h))"
    "ucast (crc_ta_8 ! Suc (2 * h)) = crc_t (ucast (crc_ta_8 ! h)) XOR 0x1021"
    using tab_ok_nth [OF crc_ta_8_ok, of h] assms by (simp_all add: l)
qed

lemma crc_steps_8_tab: "n < 256 \<Longrightarrow> crc_steps 8 (push_bit 8 (of_nat n)) = ucast (crc_ta_8 ! n)"
proof (induction n rule: less_induct)
  case (less n)
  have one: "crc_steps 8 (push_bit 8 1) = 0x1021" by code_simp
  have dbl: "crc_steps 8 (push_bit 8 (of_nat (2 * h))) = crc_t (crc_steps 8 (push_bit 8 (of_nat h)))"
    if "h < 128" for h
  proof -
    have h7: "\<not> bit (of_nat h :: u16) 7"
    proof -
      have "\<not> bit h 7" using that by (simp add: bit_iff_odd)
      then show ?thesis by (simp only: bit_of_nat_iff) simp
    qed
    define x :: u16 where "x = of_nat h"
    have "push_bit 8 (crc_shl x) = crc_t (push_bit 8 x)"
      using h7 [folded x_def]
      by (intro bit_word_eqI) (auto simp: crc_t_def bit_crc_shl bit_push_bit_iff)
    moreover have "of_nat (2 * h) = crc_shl x" by (simp add: x_def crc_shl_def)
    ultimately have "push_bit 8 (of_nat (2 * h)) = crc_t (push_bit 8 (of_nat h))"
      by (simp only: x_def)
    then show ?thesis by (simp only: crc_steps_Suc [symmetric] crc_steps_Suc' [symmetric])
  qed
  show ?case
  proof (cases "n = 0")
    case True
    then show ?thesis by (simp add: crc_steps_eq_0 crc_ta_8_def)
  next
    case False
    define h where "h = n div 2"
    have h: "h < n" "h < 128" "h < 256" using False less.prems by (simp_all add: h_def)
    note IH = less.IH [OF h(1,3)]
    show ?thesis
    proof (cases "even n")
      case True
      then have "n = 2 * h" by (simp add: h_def)
      then show ?thesis using dbl [OF h(2)] crc_tab_step(1) [OF h(2)] IH by simp
    next
      case odd: False
      then have n: "n = Suc (2 * h)" by (simp add: h_def)
      have "(of_nat n :: u16) = of_nat (2 * h) XOR 1" by (simp add: n xor_one_eq)
      then have "crc_steps 8 (push_bit 8 (of_nat n)) = crc_t (ucast (crc_ta_8 ! h)) XOR 0x1021"
        using dbl [OF h(2)] IH by (simp only: push_bit_xor crc_steps_xor one)
      then show ?thesis using crc_tab_step(2) [OF h(2)] by (simp only: n)
    qed
  qed
qed

lemma crc_steps_split:
  assumes "m + k = 16"
  shows "crc_steps k c = crc_steps k (push_bit m (drop_bit m c)) XOR push_bit k c"
proof -
  have c: "c = push_bit m (drop_bit m c) XOR take_bit m c"
    by (rule bit_word_eqI) (auto simp: bit_xor_iff bit_push_bit_iff bit_drop_bit_eq bit_take_bit_iff)
  have "crc_steps k (take_bit m c) = push_bit k (take_bit m c)"
    using assms by (intro crc_steps_low) (auto simp: bit_take_bit_iff)
  also have "\<dots> = push_bit k c"
    using assms by (intro bit_word_eqI) (auto simp: bit_push_bit_iff bit_take_bit_iff)
  finally show ?thesis by (subst c) (simp only: crc_steps_xor)
qed

lemma unat_take_bit_8: "unat (take_bit 8 w) < 256" for w :: u16
  using take_bit_nat_less_exp [of 8 "unat w"] by (simp add: unsigned_take_bit_eq)

lemma crc_byte_body_eq: "crc_byte_body c p = crc_steps 8 (c XOR push_bit 8 (ucast p))"
proof -
  let ?h = "drop_bit 8 c XOR ucast p :: u16"
  have i: "ucast (c div 256) XOR ucast p = (ucast ?h :: u32)"
    by (rule bit_word_eqI) (auto simp: bit_xor_iff bit_unsigned_iff simp flip: drop_bit_eq_div [where n = 8, simplified] dest: bit_imp_le_length)
  have lt: "unat ?h < 256"
  proof -
    have "?h = take_bit 8 ?h"
      by (rule bit_word_eqI) (auto simp: bit_xor_iff bit_unsigned_iff bit_drop_bit_eq bit_take_bit_iff
          dest: bit_imp_le_length)
    then show ?thesis using unat_take_bit_8 by metis
  qed
  have "drop_bit 8 (c XOR push_bit 8 (ucast p)) = ?h"
    by (rule bit_word_eqI) (auto simp: bit_xor_iff bit_push_bit_iff bit_unsigned_iff bit_drop_bit_eq
        dest: bit_imp_le_length)
  moreover have "push_bit 8 (c XOR push_bit 8 (ucast p)) = push_bit 8 c"
    by (rule bit_word_eqI) (auto simp: bit_xor_iff bit_push_bit_iff bit_unsigned_iff
        dest: bit_imp_le_length)
  ultimately have "crc_steps 8 (c XOR push_bit 8 (ucast p)) = ucast (crc_ta_8 ! unat ?h) XOR push_bit 8 c"
    using crc_steps_split [of 8 8 "c XOR push_bit 8 (ucast p)"] crc_steps_8_tab [OF lt] by simp
  then show ?thesis
    by (simp only: crc_byte_body_def Let_def i unat_ucast_16_32) (simp only: xor.commute)
qed

lemma crc_steps_4_tab: "n < 16 \<Longrightarrow> crc_steps 4 (push_bit 12 (of_nat n)) = ucast (crc_ta_4 ! n)"
proof -
  have "list_all (\<lambda>n. crc_steps 4 (push_bit 12 (of_nat n)) = ucast (crc_ta_4 ! n)) [0..<16]" by code_simp
  then show "n < 16 \<Longrightarrow> ?thesis" by (simp add: list_all_iff)
qed

definition crc_nibble :: "u16 \<Rightarrow> u8 \<Rightarrow> u16" where
  "crc_nibble c n = push_bit 4 c XOR ucast (crc_ta_4 ! unat (ucast (c div 4096) XOR n))"

lemma bit_small_nibble:
  assumes "n < 16" and "bit (n :: u8) i"
  shows "i < 4"
proof (rule ccontr)
  assume "\<not> i < 4"
  then have "(2 :: nat) ^ 4 \<le> 2 ^ i" by (intro power_increasing) auto
  moreover have "unat n < 16" using assms(1) by (simp add: word_less_nat_alt)
  ultimately have "unat n div 2 ^ i = 0" by simp
  moreover have "bit (unat n) i" using assms(2) by (simp add: bit_unsigned_iff)
  ultimately show False by (simp add: bit_iff_odd)
qed

lemma unat_take_bit_4: "unat (take_bit 4 w) < 16" for w :: u16
  using take_bit_nat_less_exp [of 4 "unat w"] by (simp add: unsigned_take_bit_eq)

lemma crc_nibble_eq:
  assumes n: "n < 16"
  shows "crc_nibble c n = crc_steps 4 (c XOR push_bit 12 (ucast n))"
proof -
  let ?h = "drop_bit 12 c XOR ucast n :: u16"
  note nb = bit_small_nibble [OF n]
  have h: "?h = take_bit 4 ?h"
    by (rule bit_word_eqI) (auto simp: bit_xor_iff bit_unsigned_iff bit_drop_bit_eq bit_take_bit_iff
        dest: bit_imp_le_length nb)
  have lt: "unat ?h < 16"
    using h unat_take_bit_4 by metis
  have i: "unat (ucast (c div 4096) XOR n) = unat ?h"
  proof -
    have "ucast (c div 4096) XOR n = (ucast ?h :: u8)"
      by (rule bit_word_eqI) (auto simp: bit_xor_iff bit_unsigned_iff
          simp flip: drop_bit_eq_div [where n = 12, simplified])
    then show ?thesis using lt by (simp add: unsigned_ucast_eq take_bit_nat_eq_self)
  qed
  have "drop_bit 12 (c XOR push_bit 12 (ucast n)) = ?h"
    by (rule bit_word_eqI) (auto simp: bit_xor_iff bit_push_bit_iff bit_unsigned_iff bit_drop_bit_eq
        dest: bit_imp_le_length nb)
  moreover have "push_bit 4 (c XOR push_bit 12 (ucast n)) = push_bit 4 c"
    by (rule bit_word_eqI) (auto simp: bit_xor_iff bit_push_bit_iff bit_unsigned_iff
        dest: bit_imp_le_length)
  ultimately have "crc_steps 4 (c XOR push_bit 12 (ucast n)) = ucast (crc_ta_4 ! unat ?h) XOR push_bit 4 c"
    using crc_steps_split [of 12 4 "c XOR push_bit 12 (ucast n)"] crc_steps_4_tab [OF lt] by simp
  then show ?thesis by (simp only: crc_nibble_def i) (simp only: xor.commute)
qed

lemma crc_halfbyte_body_eq:
  "crc_halfbyte_body c p = crc_steps 8 (c XOR push_bit 8 (ucast p))"
proof -
  let ?hi = "p div 16" and ?lo = "p AND 0x0f"
  have hi: "?hi < 16"
    using unat_u8_lt [of p] by (simp add: word_less_nat_alt unat_div)
  have lo: "?lo < 16"
    using word_and_le1 [of p "0x0f"] by (simp add: word_le_nat_alt word_less_nat_alt)
  have low: "crc_steps 4 (push_bit 8 (ucast ?lo)) = push_bit 12 (ucast ?lo)"
    by (subst crc_steps_low)
      (auto simp: bit_push_bit_iff bit_unsigned_iff push_bit_push_bit simp del: bit_and_iff
        dest!: bit_small_nibble [OF lo])
  have p: "push_bit 12 (ucast ?hi) XOR push_bit 8 (ucast ?lo) = (push_bit 8 (ucast p) :: u16)"
  proof (rule bit_word_eqI)
    fix n
    have lo_bit: "bit ?lo i \<longleftrightarrow> i < 4 \<and> bit p i" for i
    proof -
      have "?lo = take_bit 4 p" by (simp add: take_bit_eq_mask mask_eq_decr_exp)
      then show ?thesis by (simp only: bit_take_bit_iff)
    qed
    show "bit (push_bit 12 (ucast ?hi) XOR push_bit 8 (ucast ?lo) :: u16) n = bit (push_bit 8 (ucast p) :: u16) n"
      by (auto simp: bit_xor_iff bit_push_bit_iff bit_unsigned_iff lo_bit bit_drop_bit_eq
          simp flip: drop_bit_eq_div [where n = 4, simplified] simp del: bit_and_iff
          dest: bit_imp_le_length)
  qed
  have "crc_halfbyte_body c p = crc_nibble (crc_nibble c ?hi) ?lo"
    by (simp add: crc_halfbyte_body_def crc_nibble_def Let_def)
  also have "\<dots> = crc_steps 4 (crc_steps 4 (c XOR push_bit 12 (ucast ?hi)) XOR
      crc_steps 4 (push_bit 8 (ucast ?lo)))"
    by (simp only: crc_nibble_eq [OF hi] crc_nibble_eq [OF lo] low)
  also have "\<dots> = crc_steps 8 (c XOR push_bit 8 (ucast p))"
    by (simp add: crc_steps_xor [symmetric] crc_steps_add xor.assoc p)
  finally show ?thesis .
qed

fun crc_register :: "bytes \<Rightarrow> u16 \<Rightarrow> u16" where
  "crc_register [] c = c"
| "crc_register (p # ptr) c = crc_register ptr (crc_steps 8 (c XOR push_bit 8 (ucast p)))"

lemma crc_by_bit_bytes_eq: "crc_by_bit_bytes ptr (ucast c) = ucast (crc_register ptr c)"
  by (induction ptr arbitrary: c) (simp_all add: crc_bit_loop_eq)

lemma crc_by_byte_bytes_eq: "crc_by_byte_bytes ptr c = crc_register ptr c"
  by (induction ptr arbitrary: c) (simp_all add: crc_byte_body_eq)

lemma crc_by_halfbyte_bytes_eq: "crc_by_halfbyte_bytes ptr c = crc_register ptr c"
  by (induction ptr arbitrary: c) (simp_all add: crc_halfbyte_body_eq)

lemma crc_cal_by_bit_eq: "crc_cal_by_bit ptr = ucast (crc_register ptr 0)"
  using crc_by_bit_bytes_eq [of ptr 0] by (simp add: crc_cal_by_bit_def)

lemma crc16_ccitt_eq: "crc16_ccitt buf = crc_register buf 0"
  by (rule bit_word_eqI) (simp add: crc16_ccitt_def crc_cal_by_bit_eq bit_unsigned_iff)

lemma crc_register_append: "crc_register (xs @ ys) c = crc_register ys (crc_register xs c)"
  by (induction xs arbitrary: c) simp_all

lemma crc_register_xor:
  "length xs = length ys \<Longrightarrow>
    crc_register (map2 (XOR) xs ys) (c XOR d) = crc_register xs c XOR crc_register ys d"
proof (induction xs ys arbitrary: c d rule: list_induct2)
  case (Cons x xs y ys)
  have "(c XOR d) XOR push_bit 8 (ucast (x XOR y)) =
     (c XOR push_bit 8 (ucast x)) XOR (d XOR push_bit 8 (ucast y) :: u16)"
    by (rule bit_word_eqI) (auto simp: bit_xor_iff bit_push_bit_iff bit_unsigned_iff)
  then show ?case
    by (simp only: list.map zip_Cons_Cons case_prod_conv crc_register.simps Cons.IH
        crc_steps_xor [of 8 "c XOR push_bit 8 (ucast x)" "d XOR push_bit 8 (ucast y)"])
qed simp

lemma word_xor_cancel:
  "c XOR y = c XOR z \<longleftrightarrow> y = z" "y XOR c = z XOR c \<longleftrightarrow> y = z" for c :: "'a::len word"
  by (auto simp: bit_eq_iff bit_xor_iff)

lemma crc_register_inject: "crc_register xs c = crc_register xs d \<longleftrightarrow> c = d"
proof (induction xs arbitrary: c d)
  case (Cons x xs)
  then show ?case by (simp only: crc_register.simps crc_steps_inject word_xor_cancel)
qed simp

text \<open>Two bytes make one 16-bit word of the register, and the register step is injective.\<close>

lemma crc_register_two:
  "crc_register [a, b] c = crc_steps 16 (c XOR (push_bit 8 (ucast a) XOR ucast b))"
proof -
  have "crc_steps 8 (ucast b) = push_bit 8 (ucast b)"
    by (rule crc_steps_low) (auto simp: bit_unsigned_iff dest: bit_imp_le_length)
  then have "crc_register [a, b] c = crc_steps 8 (crc_steps 8 (c XOR push_bit 8 (ucast a)) XOR crc_steps 8 (ucast b))"
    by simp
  then show ?thesis by (simp only: crc_steps_xor [symmetric] crc_steps_add xor.assoc) simp
qed

lemma two_bytes_inject:
  "push_bit 8 (ucast a) XOR ucast b = (push_bit 8 (ucast a') XOR ucast b' :: u16) \<longleftrightarrow> a = a' \<and> b = b'"
    (is "?l = ?r \<longleftrightarrow> _") for a b a' b' :: u8
proof
  assume eq: "?l = ?r"
  have "bit a i = bit a' i" for i
  proof (cases "i < 8")
    case True
    from eq have "bit ?l (i + 8) = bit ?r (i + 8)" by simp
    with True show ?thesis by (auto simp: bit_xor_iff bit_push_bit_iff bit_unsigned_iff dest: bit_imp_le_length)
  qed (auto dest: bit_imp_le_length)
  moreover have "bit b i = bit b' i" for i
  proof (cases "i < 8")
    case True
    from eq have "bit ?l i = bit ?r i" by simp
    with True show ?thesis by (auto simp: bit_xor_iff bit_push_bit_iff bit_unsigned_iff dest: bit_imp_le_length)
  qed (auto dest: bit_imp_le_length)
  ultimately show "a = a' \<and> b = b'" by (auto simp: bit_eq_iff)
qed simp

subsection \<open>Properties\<close>

text \<open>C25: the three routines of \<^verbatim>\<open>crc.c\<close>, by bit, by byte with the 256-entry table and by half
  byte with the 16-entry table, return the same value for every buffer.\<close>

theorem crc_equiv:
  "crc_cal_by_byte ptr = crc_cal_by_bit ptr \<and> crc_cal_by_halfbyte ptr = crc_cal_by_bit ptr"
  by (simp add: crc_cal_by_byte_def crc_cal_by_halfbyte_def crc_by_byte_bytes_eq
      crc_by_halfbyte_bytes_eq crc_cal_by_bit_eq)

lemma crc_burst_two:
  "crc16_ccitt (xs @ [a, b] @ zs) = crc16_ccitt (xs @ [a', b'] @ zs) \<longleftrightarrow> a = a' \<and> b = b'"
  by (simp only: crc16_ccitt_eq crc_register_append crc_register_inject crc_register_two
      crc_steps_inject word_xor_cancel two_bytes_inject)

text \<open>The CRC that the protocol computes tells any two messages apart that differ only
  within two adjacent bytes, wherever these are and whatever surrounds them: an error burst
  that stays within two neighbouring bytes is always detected.\<close>

lemma crc16_two_bytes:
  "crc16_ccitt (xs @ [a, b] @ zs) = crc16_ccitt (xs @ [a', b'] @ zs) \<longleftrightarrow> a = a' \<and> b = b'"
  by (rule crc_burst_two)

end
