(* ===== verification/Reassembly.thy ===== *)
theory Reassembly
  imports Prelude
begin

text \<open>
  The contract shared by the two stream receivers of the firmware, \<^verbatim>\<open>MSG_RecvData\<close> (TCP from
  the cloud and from local clients) and \<^verbatim>\<open>ZC_AssemblePkt\<close> (serial line from the device): a
  receiver collects a message that may arrive in any number of pieces, learns the total
  length from a header of fixed size, refuses headers it does not accept, and holds the
  completed message until it is consumed. The contract is the locale \<open>reassembler\<close>; its
  lemmas say that the way the stream is cut into pieces does not matter.
\<close>

text \<open>What a receiver must do when the bytes collected so far, the new ones included, are
  \<open>all\<close>: the return code, whether the message is complete, the bytes held, and the number of
  bytes left over. \<open>ml\<close> reads the total length from the header, \<^term>\<open>None\<close> refuses it.\<close>

definition reasm :: "nat \<Rightarrow> (bytes \<Rightarrow> nat option) \<Rightarrow> bytes \<Rightarrow> u32 \<times> bool \<times> bytes \<times> nat" where
  "reasm hdr ml all =
     (if length all < hdr then (ZC_RET_OK, False, all, 0)
      else case ml (take hdr all) of
        None \<Rightarrow> (ZC_RET_ERROR, False, [], 0)
      | Some n \<Rightarrow> if n \<le> length all then (ZC_RET_OK, True, take n all, length all - n)
                  else (ZC_RET_OK, False, all, 0))"

text \<open>Feeding a list of pieces, one call each; the calls' return codes are collected.\<close>

fun feed :: "('b \<Rightarrow> bytes \<Rightarrow> (u32 \<times> 'b) option) \<Rightarrow> 'b \<Rightarrow> bytes list \<Rightarrow> (u32 list \<times> 'b) option" where
  "feed recv b [] = Some ([], b)"
| "feed recv b (d # ds) = do {
     (r, b) \<leftarrow> recv b d;
     (rs, b) \<leftarrow> feed recv b ds;
     Some (r # rs, b) }"

locale reassembler =
  fixes hdr dmax :: nat
    and ml :: "bytes \<Rightarrow> nat option"
    and recv :: "'b \<Rightarrow> bytes \<Rightarrow> (u32 \<times> 'b) option"
    and full :: "'b \<Rightarrow> bool"
    and got :: "'b \<Rightarrow> bytes"
    and inv :: "'b \<Rightarrow> bool"
  assumes ml_hdr: "ml h = Some n \<Longrightarrow> hdr \<le> n"
    and recv_full: "inv b \<Longrightarrow> full b \<Longrightarrow> recv b d = Some (ZC_RET_ERROR, b)"
    and recv_step: "inv b \<Longrightarrow> \<not> full b \<Longrightarrow> length d \<le> dmax \<Longrightarrow>
      \<exists>r b' f g k. recv b d = Some (r, b') \<and> inv b' \<and> reasm hdr ml (got b @ d) = (r, f, g, k) \<and>
        full b' = f \<and> got b' = g"
begin

lemma recv_total: "inv b \<Longrightarrow> length d \<le> dmax \<Longrightarrow> \<exists>r b'. recv b d = Some (r, b') \<and> inv b'"
  using recv_full recv_step by (cases "full b") blast+

text \<open>Every call on pieces within the bound is defined and keeps the invariant.\<close>

lemma feed_total:
  "inv b \<Longrightarrow> \<forall>d \<in> set ds. length d \<le> dmax \<Longrightarrow> \<exists>rs b'. feed recv b ds = Some (rs, b') \<and> inv b'"
proof (induction ds arbitrary: b)
  case (Cons d ds)
  then obtain r b1 where "recv b d = Some (r, b1)" "inv b1" using recv_total [of b d] by auto
  with Cons.IH [of b1] Cons.prems show ?case by auto
qed simp

text \<open>While the message is incomplete, two pieces do what their concatenation does.\<close>

lemma recv_split:
  assumes "inv b" "\<not> full b" "length d1 \<le> dmax" "length d2 \<le> dmax" "length (d1 @ d2) \<le> dmax"
    and "recv b d1 = Some (ZC_RET_OK, b1)" "\<not> full b1"
  shows "\<exists>r b2 b2'. recv b1 d2 = Some (r, b2) \<and> recv b (d1 @ d2) = Some (r, b2') \<and>
    full b2 = full b2' \<and> got b2 = got b2'"
proof -
  from recv_step [OF assms(1,2,3)] assms(6,7) have 1: "inv b1" "got b1 = got b @ d1"
    by (auto simp: reasm_def split: if_splits option.splits)
  from recv_step [OF 1(1) assms(7) assms(4)] recv_step [OF assms(1,2,5)]
  show ?thesis unfolding 1(2) by fastforce
qed

text \<open>One piece of a message \<open>m\<close> that arrives in the pieces \<open>d # ds\<close>: it is accepted, and it
  completes the message if and only if it is the last.\<close>

lemma feed_step:
  assumes "inv b" "\<not> full b" "m = got b @ concat (d # ds)"
    and "\<forall>d' \<in> set (d # ds). d' \<noteq> [] \<and> length d' \<le> dmax"
    and "hdr \<le> length m" "ml (take hdr m) = Some (length m)"
  shows "\<exists>b1. recv b d = Some (ZC_RET_OK, b1) \<and> inv b1 \<and> full b1 = (ds = []) \<and> got b1 = got b @ d"
proof (cases "ds = []")
  case True
  with assms recv_step [OF assms(1,2), of d] show ?thesis by (auto simp: reasm_def)
next
  case False
  with assms(4) have "concat ds \<noteq> []" by (cases ds) auto
  with assms(3) have short: "length (got b @ d) < length m" by simp
  have "take hdr (got b @ d) = take hdr m" if "hdr \<le> length (got b @ d)"
    using that assms(3) by simp
  with short assms(6) have "reasm hdr ml (got b @ d) = (ZC_RET_OK, False, got b @ d, 0)"
    by (auto simp: reasm_def)
  with recv_step [OF assms(1,2), of d] assms(4) False show ?thesis by auto
qed

text \<open>A whole message \<open>m\<close>, however it is cut into non-empty pieces, is accepted piece by piece
  and is what the receiver holds at the end.\<close>

lemma feed_message:
  assumes "inv b" "\<not> full b" "m = got b @ concat ds" "ds \<noteq> []"
    and "\<forall>d \<in> set ds. d \<noteq> [] \<and> length d \<le> dmax"
    and "hdr \<le> length m" "ml (take hdr m) = Some (length m)"
  shows "\<exists>b'. feed recv b ds = Some (replicate (length ds) ZC_RET_OK, b') \<and> inv b' \<and> full b' \<and> got b' = m"
  using assms
proof (induction ds arbitrary: b)
  case (Cons d ds)
  from feed_step [OF Cons.prems(1-3,5-7)] obtain b1 where
    b1: "recv b d = Some (ZC_RET_OK, b1)" "inv b1" "full b1 = (ds = [])" "got b1 = got b @ d" by blast
  show ?case
  proof (cases "ds = []")
    case True
    with b1 Cons.prems(3) show ?thesis by simp
  next
    case False
    with Cons.IH [OF b1(2) _ _ False _ Cons.prems(6,7)] b1 Cons.prems(3,5) show ?thesis by auto
  qed
qed simp

end

end
