(* ===== verification/MsgRecv.thy ===== *)
theory MsgRecv
  imports Reassembly
begin

text \<open>
  \<^verbatim>\<open>MSG_RecvData\<close> of \<^verbatim>\<open>src/src/ZC/src/zc/zc_message_queue.c\<close> with the message buffer of
  \<^verbatim>\<open>zc_message_queue.h\<close> and the security header of \<^verbatim>\<open>zc_protocol_interface.h\<close>. The receiver
  is proved to satisfy the contract \<open>reassembler\<close>: it never writes outside its buffer, and
  a message is reassembled from any segmentation of the TCP stream.
\<close>

subsection \<open>Buffer and security header\<close>

abbreviation (input) MSG_BUFFER_IDLE :: "'a::len word" where "MSG_BUFFER_IDLE \<equiv> 0"
abbreviation (input) MSG_BUFFER_FULL :: "'a::len word" where "MSG_BUFFER_FULL \<equiv> 1"
abbreviation (input) MSG_BUFFER_SEGMENT_NOHEAD :: "'a::len word" where "MSG_BUFFER_SEGMENT_NOHEAD \<equiv> 2"
abbreviation (input) MSG_BUFFER_SEGMENT_HEAD :: "'a::len word" where "MSG_BUFFER_SEGMENT_HEAD \<equiv> 3"
abbreviation (input) MSG_BUFFER_MAXLEN :: nat where "MSG_BUFFER_MAXLEN \<equiv> 424"
abbreviation (input) MSG_BULID_BUFFER_MAXLEN :: nat where "MSG_BULID_BUFFER_MAXLEN \<equiv> 424"

record MSG_Buffer =
  u32Len :: u32
  u8Status :: u8
  u8MsgBuffer :: bytes

record ZC_SecHead =
  u16TotalMsg :: u16
  u8SecType :: u8
  u8Resver :: u8

definition SecHead_of :: "bytes \<Rightarrow> ZC_SecHead" where
  "SecHead_of bs = \<lparr>u16TotalMsg = le16 (bs ! 0) (bs ! 1), u8SecType = bs ! 2, u8Resver = bs ! 3\<rparr>"

definition SecHead_bytes :: "ZC_SecHead \<Rightarrow> bytes" where
  "SecHead_bytes h = le16_bytes (u16TotalMsg h) @ [u8SecType h, u8Resver h]"

text \<open>\<^verbatim>\<open>(ZC_SecHead *)p\<close> for a pointer \<open>off\<close> bytes into an object.\<close>

definition rd_SecHead :: "bytes \<Rightarrow> nat \<Rightarrow> ZC_SecHead option" where
  "rd_SecHead m off = map_option SecHead_of (rd m off 4)"

lemma SecHead_roundtrip [simp]: "SecHead_of (SecHead_bytes h) = h"
  by (simp add: SecHead_of_def SecHead_bytes_def le16_bytes_def)

lemma length_SecHead_bytes [simp, len_simps]: "length (SecHead_bytes h) = 4"
  by (simp add: SecHead_bytes_def)

text \<open>\<^verbatim>\<open>ZC_HTONS(pstruMsg->u16TotalMsg) + sizeof(ZC_SecHead)\<close>.\<close>

definition sec_msg_len :: "ZC_SecHead \<Rightarrow> u32" where
  "sec_msg_len h = ucast (ZC_HTONS (u16TotalMsg h)) + 4"

lemma unat_sec_msg_len: "unat (sec_msg_len h) = unat (ZC_HTONS (u16TotalMsg h)) + 4"
  using unat_u16_lt [of "ZC_HTONS (u16TotalMsg h)"] by (simp add: sec_msg_len_def unat_add_lt)

subsection \<open>The receiver\<close>

text \<open>The three parts of the function, one per status of the buffer.\<close>

definition MSG_RecvData_idle :: "MSG_Buffer \<Rightarrow> bytes \<Rightarrow> u32 \<Rightarrow> (u32 \<times> MSG_Buffer) option" where
  "MSG_RecvData_idle b pu8Data u32DataLen =
     (if u32DataLen < 4 then do {
        m \<leftarrow> memcpy (u8MsgBuffer b) 0 pu8Data (unat u32DataLen);
        Some (ZC_RET_OK, b\<lparr>u8MsgBuffer := m, u8Status := MSG_BUFFER_SEGMENT_NOHEAD, u32Len := u32DataLen\<rparr>)
      } else do {
        pstruMsg \<leftarrow> rd_SecHead pu8Data 0;
        let u32MsgLen = sec_msg_len pstruMsg;
        if u32MsgLen > of_nat MSG_BUFFER_MAXLEN then
          Some (ZC_RET_ERROR, b\<lparr>u8Status := MSG_BUFFER_IDLE, u32Len := 0\<rparr>)
        else if u32MsgLen \<le> u32DataLen then do {
          m \<leftarrow> memcpy (u8MsgBuffer b) 0 pu8Data (unat u32MsgLen);
          Some (ZC_RET_OK, b\<lparr>u8MsgBuffer := m, u8Status := MSG_BUFFER_FULL, u32Len := u32MsgLen\<rparr>)
        } else do {
          m \<leftarrow> memcpy (u8MsgBuffer b) 0 pu8Data (unat u32DataLen);
          Some (ZC_RET_OK, b\<lparr>u8MsgBuffer := m, u8Status := MSG_BUFFER_SEGMENT_HEAD, u32Len := u32DataLen\<rparr>)
        }
      })"

definition MSG_RecvData_head :: "MSG_Buffer \<Rightarrow> bytes \<Rightarrow> u32 \<Rightarrow> (u32 \<times> MSG_Buffer) option" where
  "MSG_RecvData_head b pu8Data u32DataLen = do {
     pstruMsg \<leftarrow> rd_SecHead (u8MsgBuffer b) 0;
     let u32MsgLen = sec_msg_len pstruMsg;
     if u32MsgLen \<le> u32DataLen + u32Len b then do {
       m \<leftarrow> memcpy (u8MsgBuffer b) (unat (u32Len b)) pu8Data (unat (u32MsgLen - u32Len b));
       Some (ZC_RET_OK, b\<lparr>u8MsgBuffer := m, u8Status := MSG_BUFFER_FULL, u32Len := u32MsgLen\<rparr>)
     } else do {
       m \<leftarrow> memcpy (u8MsgBuffer b) (unat (u32Len b)) pu8Data (unat u32DataLen);
       Some (ZC_RET_OK, b\<lparr>u8MsgBuffer := m, u32Len := u32Len b + u32DataLen,
         u8Status := MSG_BUFFER_SEGMENT_HEAD\<rparr>)
     }
   }"

definition MSG_RecvData_nohead :: "MSG_Buffer \<Rightarrow> bytes \<Rightarrow> u32 \<Rightarrow> (u32 \<times> MSG_Buffer) option" where
  "MSG_RecvData_nohead b pu8Data u32DataLen =
     (if u32Len b + u32DataLen < 4 then do {
        m \<leftarrow> memcpy (u8MsgBuffer b) (unat (u32Len b)) pu8Data (unat u32DataLen);
        Some (ZC_RET_OK, b\<lparr>u8MsgBuffer := m, u32Len := u32Len b + u32DataLen,
          u8Status := MSG_BUFFER_SEGMENT_NOHEAD\<rparr>)
      } else do {
        m \<leftarrow> memcpy (u8MsgBuffer b) (unat (u32Len b)) pu8Data (unat (4 - u32Len b));
        let b = b\<lparr>u8MsgBuffer := m\<rparr>;
        pstruMsg \<leftarrow> rd_SecHead (u8MsgBuffer b) 0;
        let u32MsgLen = sec_msg_len pstruMsg;
        if u32MsgLen > of_nat MSG_BUFFER_MAXLEN then
          Some (ZC_RET_ERROR, b\<lparr>u8Status := MSG_BUFFER_IDLE, u32Len := 0\<rparr>)
        else if u32MsgLen \<le> u32DataLen + u32Len b then do {
          m \<leftarrow> memcpy (u8MsgBuffer b) (unat (u32Len b)) pu8Data (unat (u32MsgLen - u32Len b));
          Some (ZC_RET_OK, b\<lparr>u8MsgBuffer := m, u8Status := MSG_BUFFER_FULL, u32Len := u32MsgLen\<rparr>)
        } else do {
          m \<leftarrow> memcpy (u8MsgBuffer b) (unat (u32Len b)) pu8Data (unat u32DataLen);
          Some (ZC_RET_OK, b\<lparr>u8MsgBuffer := m, u8Status := MSG_BUFFER_SEGMENT_HEAD,
            u32Len := u32Len b + u32DataLen\<rparr>)
        }
      })"

definition MSG_RecvData :: "MSG_Buffer \<Rightarrow> bytes \<Rightarrow> u32 \<Rightarrow> (u32 \<times> MSG_Buffer) option" where
  "MSG_RecvData b pu8Data u32DataLen =
     (if u8Status b = MSG_BUFFER_FULL then Some (ZC_RET_ERROR, b)
      else if u8Status b = MSG_BUFFER_IDLE then MSG_RecvData_idle b pu8Data u32DataLen
      else if u8Status b = MSG_BUFFER_SEGMENT_HEAD then MSG_RecvData_head b pu8Data u32DataLen
      else if u8Status b = MSG_BUFFER_SEGMENT_NOHEAD then MSG_RecvData_nohead b pu8Data u32DataLen
      else Some (ZC_RET_ERROR, b))"


subsection \<open>The contract\<close>

definition rbuf_got :: "MSG_Buffer \<Rightarrow> bytes" where
  "rbuf_got b = take (unat (u32Len b)) (u8MsgBuffer b)"

definition rbuf_full :: "MSG_Buffer \<Rightarrow> bool" where
  "rbuf_full b \<longleftrightarrow> u8Status b = MSG_BUFFER_FULL"

definition rbuf_msg_len :: "bytes \<Rightarrow> nat option" where
  "rbuf_msg_len h = (let n = unat (sec_msg_len (SecHead_of h)) in
     if n \<le> MSG_BUFFER_MAXLEN then Some n else None)"

text \<open>The buffer between two calls: the recorded length never exceeds the buffer, and it fits
  the status.\<close>

definition rbuf_inv :: "MSG_Buffer \<Rightarrow> bool" where
  "rbuf_inv b \<longleftrightarrow> length (u8MsgBuffer b) = MSG_BULID_BUFFER_MAXLEN \<and>
     (u8Status b = MSG_BUFFER_IDLE \<and> u32Len b = 0 \<or>
      u8Status b = MSG_BUFFER_FULL \<and> unat (u32Len b) \<le> MSG_BUFFER_MAXLEN \<or>
      u8Status b = MSG_BUFFER_SEGMENT_NOHEAD \<and> unat (u32Len b) < 4 \<or>
      u8Status b = MSG_BUFFER_SEGMENT_HEAD \<and> 4 \<le> unat (u32Len b) \<and>
        (\<exists>n. rbuf_msg_len (take 4 (u8MsgBuffer b)) = Some n \<and> unat (u32Len b) < n))"

abbreviation recv_max :: nat where "recv_max \<equiv> 4294966000"

definition MSG_Recv :: "MSG_Buffer \<Rightarrow> bytes \<Rightarrow> (u32 \<times> MSG_Buffer) option" where
  "MSG_Recv b d = MSG_RecvData b d (of_nat (length d))"

lemma SecHead_of_take [simp]: "4 \<le> n \<Longrightarrow> SecHead_of (take n bs) = SecHead_of bs"
  by (simp add: SecHead_of_def)

lemma SecHead_of_append [simp]: "4 \<le> length a \<Longrightarrow> SecHead_of (a @ b) = SecHead_of a"
  by (auto simp: SecHead_of_def nth_append)

lemma sec_msg_len_gt: "sec_msg_len h > 424 \<longleftrightarrow> 424 < unat (sec_msg_len h)"
  by (simp add: word_less_nat_alt)

lemma unat_recv_len: "length d \<le> recv_max \<Longrightarrow> unat (of_nat (length d) :: u32) = length d"
  by (simp add: unat_of_nat take_bit_nat_eq_self_iff)

lemma rbuf_step_idle:
  assumes "length (u8MsgBuffer b) = 424" "u8Status b = 0" "u32Len b = 0" "length d \<le> recv_max"
  shows "\<exists>r b' f g k. MSG_Recv b d = Some (r, b') \<and> rbuf_inv b' \<and>
    reasm 4 rbuf_msg_len (rbuf_got b @ d) = (r, f, g, k) \<and> rbuf_full b' = f \<and> rbuf_got b' = g"
proof -
  note u = unat_recv_len [OF assms(4)]
  have lt: "(of_nat (length d) :: u32) < 4 \<longleftrightarrow> length d < 4"
    using u by (simp add: word_less_nat_alt)
  have le: "w \<le> (of_nat (length d) :: u32) \<longleftrightarrow> unat w \<le> length d" for w :: u32
    using u by (simp add: word_le_nat_alt)
  show ?thesis
    using assms u unat_sec_msg_len [of "SecHead_of d"]
    by (auto simp: MSG_Recv_def MSG_RecvData_def MSG_RecvData_idle_def rd_SecHead_def rd_def lt le
        Let_def sec_msg_len_gt memcpy_Some reasm_def rbuf_msg_len_def rbuf_inv_def rbuf_got_def
        rbuf_full_def word_less_nat_alt split: if_splits)
qed

lemma rbuf_step_head:
  assumes "rbuf_inv b" "u8Status b = 3" "length d \<le> recv_max"
  shows "\<exists>r b' f g k. MSG_Recv b d = Some (r, b') \<and> rbuf_inv b' \<and>
    reasm 4 rbuf_msg_len (rbuf_got b @ d) = (r, f, g, k) \<and> rbuf_full b' = f \<and> rbuf_got b' = g"
proof -
  define l where "l = unat (u32Len b)"
  define h where "h = sec_msg_len (SecHead_of (u8MsgBuffer b))"
  note u = unat_recv_len [OF assms(3)]
  from assms(1,2) have i: "length (u8MsgBuffer b) = 424" "4 \<le> l" "l < unat h" "unat h \<le> 424"
    by (auto simp: rbuf_inv_def rbuf_msg_len_def l_def h_def Let_def split: if_splits)
  have s: "unat (of_nat (length d) + u32Len b) = length d + l"
    "unat (u32Len b + of_nat (length d)) = l + length d"
    using u i assms(3) by (simp_all add: unat_add_lt l_def)
  have le: "h \<le> of_nat (length d) + u32Len b \<longleftrightarrow> unat h \<le> length d + l"
    by (simp add: word_le_nat_alt s)
  have sub: "unat (h - u32Len b) = unat h - l"
    using i by (simp add: unat_sub_le word_le_nat_alt l_def)
  have m4: "rbuf_msg_len (take 4 (u8MsgBuffer b)) = Some (unat h)"
    "rbuf_msg_len (take 4 (rbuf_got b @ d)) = Some (unat h)"
    using i by (simp_all add: rbuf_msg_len_def rbuf_got_def l_def [symmetric] h_def min_def)
  show ?thesis
  proof (cases "unat h \<le> length d + l")
    case True
    then show ?thesis
      using assms i m4
      by (simp add: MSG_Recv_def MSG_RecvData_def MSG_RecvData_head_def rd_SecHead_def rd_def le
          h_def [symmetric] l_def [symmetric] sub memcpy_Some reasm_def rbuf_inv_def rbuf_got_def rbuf_full_def)
  next
    case False
    then show ?thesis
      using assms i m4 u s
      by (simp add: MSG_Recv_def MSG_RecvData_def MSG_RecvData_head_def rd_SecHead_def rd_def le
          h_def [symmetric] l_def [symmetric] memcpy_Some reasm_def rbuf_inv_def rbuf_got_def rbuf_full_def)
  qed
qed

lemma rbuf_step_nohead:
  assumes "rbuf_inv b" "u8Status b = 2" "length d \<le> recv_max"
  shows "\<exists>r b' f g k. MSG_Recv b d = Some (r, b') \<and> rbuf_inv b' \<and>
    reasm 4 rbuf_msg_len (rbuf_got b @ d) = (r, f, g, k) \<and> rbuf_full b' = f \<and> rbuf_got b' = g"
proof -
  define l where "l = unat (u32Len b)"
  define h where "h = sec_msg_len (SecHead_of (rbuf_got b @ d))"
  note u = unat_recv_len [OF assms(3)]
  from assms(1,2) have i: "length (u8MsgBuffer b) = 424" "l < 4" by (auto simp: rbuf_inv_def l_def)
  have s: "unat (of_nat (length d) + u32Len b) = length d + l"
    "unat (u32Len b + of_nat (length d)) = l + length d" "unat (4 - u32Len b) = 4 - l"
    using u i assms(3) by (simp_all add: unat_add_lt unat_sub_le word_le_nat_alt l_def)
  show ?thesis
  proof (cases "l + length d < 4")
    case True
    then show ?thesis
      using assms(2) i u s
      by (simp add: MSG_Recv_def MSG_RecvData_def MSG_RecvData_nohead_def word_less_nat_alt l_def [symmetric]
          memcpy_Some reasm_def rbuf_inv_def rbuf_got_def rbuf_full_def)
  next
    case False
    define m where "m = take l (u8MsgBuffer b) @ take (4 - l) d @ drop 4 (u8MsgBuffer b)"
    have m: "memcpy (u8MsgBuffer b) l d (4 - l) = Some m" "length m = 424"
      "take l m = take l (u8MsgBuffer b)"
      using False i by (simp_all add: m_def memcpy_Some)
    have t4: "take 4 m = take 4 (rbuf_got b @ d)" "take 4 m = take l (u8MsgBuffer b) @ take (4 - l) d"
      using False i by (simp_all add: m_def rbuf_got_def l_def [symmetric])
    have h: "sec_msg_len (SecHead_of m) = h"
      using t4(1) SecHead_of_take [of 4 "rbuf_got b @ d"] SecHead_of_take [of 4 m] by (simp add: h_def)
    have m4: "rbuf_msg_len (take 4 m) = (if unat h \<le> 424 then Some (unat h) else None)"
      by (simp add: rbuf_msg_len_def Let_def h)
    have h4: "4 \<le> unat h" by (simp add: h_def unat_sec_msg_len)
    have le: "h \<le> of_nat (length d) + u32Len b \<longleftrightarrow> unat h \<le> length d + l"
      by (simp add: word_le_nat_alt s)
    have sub: "unat (h - u32Len b) = unat h - l"
      using i h4 by (simp add: unat_sub_le word_le_nat_alt l_def)
    have gt: "424 < h \<longleftrightarrow> 424 < unat h" by (simp add: word_less_nat_alt)
    have nl: "\<not> u32Len b + of_nat (length d) < 4" using False s by (simp add: word_less_nat_alt)
    have base: "MSG_Recv b d = (let b = b\<lparr>u8MsgBuffer := m\<rparr> in
        if h > 424 then Some (ZC_RET_ERROR, b\<lparr>u8Status := 0, u32Len := 0\<rparr>)
        else if unat h \<le> length d + l then do {
          m \<leftarrow> memcpy m l d (unat h - l);
          Some (ZC_RET_OK, b\<lparr>u8MsgBuffer := m, u8Status := 1, u32Len := h\<rparr>)
        } else do {
          m \<leftarrow> memcpy m l d (length d);
          Some (ZC_RET_OK, b\<lparr>u8MsgBuffer := m, u8Status := 3, u32Len := u32Len b + of_nat (length d)\<rparr>)
        })"
      using assms(2) nl m s u le sub h
      by (simp add: MSG_Recv_def MSG_RecvData_def MSG_RecvData_nohead_def l_def [symmetric]
          rd_SecHead_def rd_def Let_def)
    have r: "reasm 4 rbuf_msg_len (rbuf_got b @ d) =
        (if 424 < unat h then (ZC_RET_ERROR, False, [], 0)
         else if unat h \<le> length d + l then (ZC_RET_OK, True, take (unat h) (rbuf_got b @ d), l + length d - unat h)
         else (ZC_RET_OK, False, rbuf_got b @ d, 0))"
      using False i m4 t4(1)
      by (simp add: reasm_def rbuf_got_def l_def [symmetric] add.commute split: option.splits)
    have g: "take (unat h) (rbuf_got b @ d) = take l (u8MsgBuffer b) @ take (unat h - l) d"
      "rbuf_got b = take l (u8MsgBuffer b)"
      using h4 i by (simp_all add: rbuf_got_def l_def [symmetric])
    have c: "take 4 (take l (u8MsgBuffer b) @ take k d) = take 4 m" if "4 \<le> l + k" for k
      using i that unfolding t4(2) by (auto simp: min_def)
    show ?thesis
    proof (cases "424 < unat h")
      case True
      then show ?thesis unfolding base r using m(2)
        by (simp add: gt rbuf_inv_def rbuf_got_def rbuf_full_def)
    next
      case F: False
      show ?thesis
      proof (cases "unat h \<le> length d + l")
        case True
        with F i h4 m show ?thesis unfolding base r g(1)
          by (simp add: l_def [symmetric] gt memcpy_Some rbuf_inv_def rbuf_full_def rbuf_got_def)
      next
        case False
        with F i h4 m s m4 c [of "length d"] \<open>\<not> l + length d < 4\<close> show ?thesis unfolding base r g(1)
          by (simp add: l_def [symmetric] gt memcpy_Some rbuf_inv_def rbuf_full_def rbuf_got_def)
      qed
    qed
  qed
qed

lemma MSG_Recv_step:
  assumes "rbuf_inv b" "\<not> rbuf_full b" "length d \<le> recv_max"
  shows "\<exists>r b' f g k. MSG_Recv b d = Some (r, b') \<and> rbuf_inv b' \<and>
    reasm 4 rbuf_msg_len (rbuf_got b @ d) = (r, f, g, k) \<and> rbuf_full b' = f \<and> rbuf_got b' = g"
proof -
  from assms consider "u8Status b = 0 \<and> u32Len b = 0" | "u8Status b = 3" | "u8Status b = 2"
    by (auto simp: rbuf_inv_def rbuf_full_def)
  then show ?thesis
    using rbuf_step_idle [of b d] rbuf_step_head [OF assms(1) _ assms(3)]
      rbuf_step_nohead [OF assms(1) _ assms(3)] assms(1,3)
    by cases (auto simp: rbuf_inv_def)
qed

interpretation rbuf: reassembler 4 recv_max rbuf_msg_len MSG_Recv rbuf_full rbuf_got rbuf_inv
proof
  fix h n assume "rbuf_msg_len h = Some n"
  then show "4 \<le> n" by (auto simp: rbuf_msg_len_def Let_def unat_sec_msg_len split: if_splits)
next
  fix b d assume "rbuf_full b"
  then show "MSG_Recv b d = Some (ZC_RET_ERROR, b)"
    by (simp add: MSG_Recv_def MSG_RecvData_def rbuf_full_def)
qed (rule MSG_Recv_step)

subsection \<open>Properties\<close>

text \<open>C18: Every call of \<^verbatim>\<open>MSG_RecvData\<close> on a well-formed buffer stays inside the buffer and keeps it
  well-formed; unless a complete message is waiting, return code, completion and bytes held are
  those of the specification \<open>reasm\<close> applied to everything received so far (a length above 424
  is refused and the buffer emptied), and a waiting message is never touched.\<close>

theorem MSG_RecvData_correct:
  assumes "rbuf_inv b" "length d \<le> recv_max"
  shows "\<exists>r b'. MSG_RecvData b d (of_nat (length d)) = Some (r, b') \<and> rbuf_inv b' \<and>
    (if u8Status b = MSG_BUFFER_FULL then r = ZC_RET_ERROR \<and> b' = b
     else \<exists>k. reasm 4 rbuf_msg_len (rbuf_got b @ d) = (r, rbuf_full b', rbuf_got b', k))"
proof (cases "rbuf_full b")
  case True
  with assms rbuf.recv_full [of b d] show ?thesis by (simp add: MSG_Recv_def rbuf_full_def)
next
  case False
  with assms MSG_Recv_step [of b d] show ?thesis by (auto simp: MSG_Recv_def rbuf_full_def)
qed

lemma MSG_RecvData_correct_witness:
  "\<exists>r b'. MSG_RecvData \<lparr>u32Len = 2, u8Status = 2, u8MsgBuffer = [0, 1] @ replicate 422 0\<rparr> [0, 0, 7]
     (of_nat (length [0, 0, 7 :: u8])) = Some (r, b') \<and> rbuf_inv b'"
proof -
  define b where "b = \<lparr>u32Len = 2, u8Status = 2, u8MsgBuffer = [0, 1] @ replicate 422 0 :: bytes\<rparr>"
  have "rbuf_inv b" by (simp add: b_def rbuf_inv_def)
  from MSG_RecvData_correct [OF this, of "[0, 0, 7]"] show ?thesis
    unfolding b_def [symmetric] by auto
qed

text \<open>A message of 4 to 424 bytes whose header announces its length is received completely and
  unchanged from every segmentation of it into non-empty pieces: every call returns OK, and the
  buffer is full, holding exactly the message, after the last piece.\<close>

lemma MSG_RecvData_any_segmentation:
  assumes "rbuf_inv b" "u8Status b = MSG_BUFFER_IDLE" "ds \<noteq> []" "\<forall>d \<in> set ds. d \<noteq> []"
    and "concat ds = SecHead_bytes h @ payload" "length payload = unat (ZC_HTONS (u16TotalMsg h))"
    and "length payload \<le> 420"
  shows "\<exists>b'. feed MSG_Recv b ds = Some (replicate (length ds) ZC_RET_OK, b') \<and>
    u8Status b' = MSG_BUFFER_FULL \<and> unat (u32Len b') = 4 + length payload \<and>
    take (unat (u32Len b')) (u8MsgBuffer b') = SecHead_bytes h @ payload"
proof -
  let ?m = "SecHead_bytes h @ payload"
  have idle: "\<not> rbuf_full b" "?m = rbuf_got b @ concat ds"
    using assms(1,2,5) by (auto simp: rbuf_inv_def rbuf_got_def rbuf_full_def)
  have "length d \<le> length ?m" if "d \<in> set ds" for d
    using length_le_concat [OF that] by (simp add: assms(5))
  with assms(4,7) have pieces: "\<forall>d \<in> set ds. d \<noteq> [] \<and> length d \<le> recv_max" by fastforce
  have ml: "rbuf_msg_len (take 4 ?m) = Some (length ?m)"
    using assms(6,7) by (simp add: rbuf_msg_len_def Let_def unat_sec_msg_len)
  from rbuf.feed_message [OF assms(1) idle assms(3) pieces _ ml] obtain b' where
    b': "feed MSG_Recv b ds = Some (replicate (length ds) ZC_RET_OK, b')" "rbuf_inv b'" "rbuf_full b'"
      "rbuf_got b' = ?m" by auto
  from b'(2,3) have len: "unat (u32Len b') \<le> length (u8MsgBuffer b')"
    by (auto simp: rbuf_inv_def rbuf_full_def)
  from b'(4) have "length (take (unat (u32Len b')) (u8MsgBuffer b')) = length ?m"
    by (simp add: rbuf_got_def)
  with len have "unat (u32Len b') = 4 + length payload" by simp
  with b' show ?thesis by (auto simp: rbuf_full_def rbuf_got_def)
qed

end
