(* ===== verification/Wire.thy ===== *)
theory Wire
  imports Crc MsgRecv
begin

text \<open>
  The ZCloud message of \<^verbatim>\<open>zc_protocol_interface.h\<close> and the functions that build and check it:
  \<^verbatim>\<open>EVENT_BuildEmptyMsg\<close>, \<^verbatim>\<open>EVENT_BuildHeartMsg\<close>, \<^verbatim>\<open>EVENT_BuildMsg\<close> of
  \<^verbatim>\<open>src/src/ZC/src/zc/zc_cloud_event.c\<close>, \<^verbatim>\<open>AC_BuildMessage\<close> of \<^verbatim>\<open>src/src/AC/src/ac_api.c\<close> and
  \<^verbatim>\<open>PCT_CheckCrc\<close> of \<^verbatim>\<open>zc_protocol_controller.c\<close>. A built message is accepted by the check, and a message
  damaged within two adjacent payload bytes is not.
\<close>

subsection \<open>Message codes\<close>

abbreviation (input) ZC_CODE_EQ_BEGIN :: u8 where "ZC_CODE_EQ_BEGIN \<equiv> 0"
abbreviation (input) ZC_CODE_EQ_DONE :: u8 where "ZC_CODE_EQ_DONE \<equiv> 1"
abbreviation (input) ZC_CODE_WIFI_CONNECTED :: u8 where "ZC_CODE_WIFI_CONNECTED \<equiv> 2"
abbreviation (input) ZC_CODE_WIFI_DISCONNECTED :: u8 where "ZC_CODE_WIFI_DISCONNECTED \<equiv> 3"
abbreviation (input) ZC_CODE_CLOUD_CONNECTED :: u8 where "ZC_CODE_CLOUD_CONNECTED \<equiv> 4"
abbreviation (input) ZC_CODE_CLOUD_DISCONNECTED :: u8 where "ZC_CODE_CLOUD_DISCONNECTED \<equiv> 5"
abbreviation (input) ZC_CODE_CONFIG :: u8 where "ZC_CODE_CONFIG \<equiv> 6"
abbreviation (input) ZC_CODE_REGSITER :: u8 where "ZC_CODE_REGSITER \<equiv> 7"
abbreviation (input) ZC_CODE_REST :: u8 where "ZC_CODE_REST \<equiv> 8"
abbreviation (input) ZC_CODE_HANDSHAKE_1 :: u8 where "ZC_CODE_HANDSHAKE_1 \<equiv> 9"
abbreviation (input) ZC_CODE_HANDSHAKE_2 :: u8 where "ZC_CODE_HANDSHAKE_2 \<equiv> 10"
abbreviation (input) ZC_CODE_HANDSHAKE_3 :: u8 where "ZC_CODE_HANDSHAKE_3 \<equiv> 11"
abbreviation (input) ZC_CODE_HANDSHAKE_4 :: u8 where "ZC_CODE_HANDSHAKE_4 \<equiv> 12"
abbreviation (input) ZC_CODE_HEARTBEAT :: u8 where "ZC_CODE_HEARTBEAT \<equiv> 13"
abbreviation (input) ZC_CODE_EMPTY :: u8 where "ZC_CODE_EMPTY \<equiv> 14"
abbreviation (input) ZC_CODE_ACK :: u8 where "ZC_CODE_ACK \<equiv> 15"
abbreviation (input) ZC_CODE_ERR :: u8 where "ZC_CODE_ERR \<equiv> 16"
abbreviation (input) ZC_CODE_ZOTA_BEGIN :: u8 where "ZC_CODE_ZOTA_BEGIN \<equiv> 22"
abbreviation (input) ZC_CODE_ZOTA_FILE_BEGIN :: u8 where "ZC_CODE_ZOTA_FILE_BEGIN \<equiv> 23"
abbreviation (input) ZC_CODE_ZOTA_FILE_CHUNK :: u8 where "ZC_CODE_ZOTA_FILE_CHUNK \<equiv> 24"
abbreviation (input) ZC_CODE_ZOTA_FILE_END :: u8 where "ZC_CODE_ZOTA_FILE_END \<equiv> 25"
abbreviation (input) ZC_CODE_ZOTA_END :: u8 where "ZC_CODE_ZOTA_END \<equiv> 26"
abbreviation (input) ZC_CODE_BC_INFO :: u8 where "ZC_CODE_BC_INFO \<equiv> 27"
abbreviation (input) ZC_CODE_CLIENT_QUERY_REQ :: u8 where "ZC_CODE_CLIENT_QUERY_REQ \<equiv> 30"
abbreviation (input) ZC_CODE_CLIENT_QUERY_RSP :: u8 where "ZC_CODE_CLIENT_QUERY_RSP \<equiv> 31"
abbreviation (input) ZC_CODE_TOKEN_SET :: u8 where "ZC_CODE_TOKEN_SET \<equiv> 32"
abbreviation (input) ZC_CODE_ACCESS_POINT_RSP :: u8 where "ZC_CODE_ACCESS_POINT_RSP \<equiv> 33"
abbreviation (input) ZC_CODE_RESET_NETWORK :: u8 where "ZC_CODE_RESET_NETWORK \<equiv> 34"
abbreviation (input) ZC_CODE_UNBIND :: u8 where "ZC_CODE_UNBIND \<equiv> 36"
abbreviation (input) ZC_CODE_EXT :: u8 where "ZC_CODE_EXT \<equiv> 63"
abbreviation (input) ZC_CODE_EVENT_BASE :: u8 where "ZC_CODE_EVENT_BASE \<equiv> 64"
abbreviation (input) ZC_VERSION :: u8 where "ZC_VERSION \<equiv> 1"

subsection \<open>The message head\<close>

record ZC_MessageHead =
  Version :: u8
  MsgId :: u8
  MsgCode :: u8
  OptNum :: u8
  Payloadlen :: u16
  TotalMsgCrc :: "u8 \<times> u8"

definition MsgHead_of :: "bytes \<Rightarrow> ZC_MessageHead" where
  "MsgHead_of bs = \<lparr>Version = bs ! 0, MsgId = bs ! 1, MsgCode = bs ! 2, OptNum = bs ! 3,
     Payloadlen = le16 (bs ! 4) (bs ! 5), TotalMsgCrc = (bs ! 6, bs ! 7)\<rparr>"

definition MsgHead_bytes :: "ZC_MessageHead \<Rightarrow> bytes" where
  "MsgHead_bytes h = [Version h, MsgId h, MsgCode h, OptNum h] @ le16_bytes (Payloadlen h) @
     [fst (TotalMsgCrc h), snd (TotalMsgCrc h)]"

text \<open>\<^verbatim>\<open>(ZC_MessageHead *)p\<close> for a pointer \<open>off\<close> bytes into an object.\<close>

definition rd_MsgHead :: "bytes \<Rightarrow> nat \<Rightarrow> ZC_MessageHead option" where
  "rd_MsgHead m off = map_option MsgHead_of (rd m off 8)"

lemma MsgHead_roundtrip [simp]: "MsgHead_of (MsgHead_bytes h) = h"
  by (simp add: MsgHead_of_def MsgHead_bytes_def le16_bytes_def)

lemma length_MsgHead_bytes [simp, len_simps]: "length (MsgHead_bytes h) = 8"
  by (simp add: MsgHead_bytes_def)

lemma MsgHead_of_append [simp]: "MsgHead_of (MsgHead_bytes h @ bs) = h"
  by (simp add: MsgHead_of_def MsgHead_bytes_def le16_bytes_def)

lemma MsgHead_of_take [simp]: "8 \<le> n \<Longrightarrow> MsgHead_of (take n bs) = MsgHead_of bs"
  by (simp add: MsgHead_of_def)

text \<open>The two CRC bytes, high byte first: \<^verbatim>\<open>(crc&0xff00)>>8\<close> and \<^verbatim>\<open>(crc&0xff)\<close>.\<close>

definition crc_bytes :: "u16 \<Rightarrow> u8 \<times> u8" where
  "crc_bytes crc = (ucast (drop_bit 8 (crc AND 0xff00)), ucast (crc AND 0xff))"

text \<open>\<^verbatim>\<open>(pu8Crc[0] << 8) + pu8Crc[1]\<close>, computed in \<^verbatim>\<open>int\<close> and stored in a \<^verbatim>\<open>u16\<close>.\<close>

definition crc_of_bytes :: "u8 \<times> u8 \<Rightarrow> u16" where
  "crc_of_bytes c = push_bit 8 (ucast (fst c)) + ucast (snd c)"

subsection \<open>Building messages\<close>

text \<open>\<open>m\<close> is the object the message pointer points into, \<open>off\<close> the pointer's offset. The
  functions return the object and the length they store through \<^verbatim>\<open>pu16Len\<close>.\<close>

definition EVENT_BuildEmptyMsg :: "u8 \<Rightarrow> bytes \<Rightarrow> nat \<Rightarrow> (bytes \<times> u16) option" where
  "EVENT_BuildEmptyMsg u8MsgId m off = do {
     crc \<leftarrow> Some (crc16_ccitt []);
     m \<leftarrow> wr m off (MsgHead_bytes \<lparr>Version = ZC_VERSION, MsgId = u8MsgId, MsgCode = ZC_CODE_EMPTY,
       OptNum = 0, Payloadlen = 0, TotalMsgCrc = crc_bytes crc\<rparr>);
     Some (m, 8) }"

definition EVENT_BuildHeartMsg :: "bytes \<Rightarrow> nat \<Rightarrow> (bytes \<times> u16) option" where
  "EVENT_BuildHeartMsg m off = do {
     crc \<leftarrow> Some (crc16_ccitt []);
     m \<leftarrow> wr m off (MsgHead_bytes \<lparr>Version = ZC_VERSION, MsgId = 0, MsgCode = ZC_CODE_HEARTBEAT,
       OptNum = 0, Payloadlen = 0, TotalMsgCrc = crc_bytes crc\<rparr>);
     Some (m, 8) }"

definition EVENT_BuildMsg ::
  "u8 \<Rightarrow> u8 \<Rightarrow> bytes \<Rightarrow> nat \<Rightarrow> bytes \<Rightarrow> u16 \<Rightarrow> (bytes \<times> u16) option" where
  "EVENT_BuildMsg u8MsgCode u8MsgId m off pu8Payload u16PayloadLen = do {
     p \<leftarrow> rd pu8Payload 0 (unat u16PayloadLen);
     let crc = crc16_ccitt p;
     m \<leftarrow> wr m off (MsgHead_bytes \<lparr>Version = ZC_VERSION, MsgId = u8MsgId, MsgCode = u8MsgCode,
       OptNum = 0, Payloadlen = ZC_HTONS u16PayloadLen, TotalMsgCrc = crc_bytes crc\<rparr>);
     m \<leftarrow> memcpy m (off + 8) pu8Payload (unat u16PayloadLen);
     Some (m, 8 + u16PayloadLen) }"

text \<open>\<^verbatim>\<open>AC_BuildMessage\<close> leaves \<^verbatim>\<open>OptNum\<close> as it finds it (the body of \<^verbatim>\<open>AC_BuildOption\<close> is
  compiled out, so the option length stays 0), and its version is 0.\<close>

definition AC_BuildMessage ::
  "u8 \<Rightarrow> u8 \<Rightarrow> bytes \<Rightarrow> u16 \<Rightarrow> bytes \<Rightarrow> (bytes \<times> u16) option" where
  "AC_BuildMessage u8MsgCode u8MsgId pu8Payload u16PayloadLen m = do {
     h \<leftarrow> rd_MsgHead m 0;
     m \<leftarrow> memcpy m 8 pu8Payload (unat u16PayloadLen);
     p \<leftarrow> rd m 8 (unat u16PayloadLen);
     let crc = crc16_ccitt p;
     m \<leftarrow> wr m 0 (MsgHead_bytes (h\<lparr>MsgCode := u8MsgCode, MsgId := u8MsgId, Version := 0,
       Payloadlen := ZC_HTONS u16PayloadLen, TotalMsgCrc := crc_bytes crc\<rparr>));
     Some (m, 8 + u16PayloadLen) }"

text \<open>The check reads \<^verbatim>\<open>u16Len\<close> bytes at the data pointer.\<close>

definition PCT_CheckCrc :: "u8 \<times> u8 \<Rightarrow> bytes \<Rightarrow> nat \<Rightarrow> u16 \<Rightarrow> u32 option" where
  "PCT_CheckCrc pu8Crc m off u16Len = do {
     bs \<leftarrow> rd m off (unat u16Len);
     Some (if crc16_ccitt bs = crc_of_bytes pu8Crc then ZC_RET_OK else ZC_RET_ERROR) }"

text \<open>The check of a whole message: the call every handler makes with the message's own head.\<close>

definition msg_check :: "bytes \<Rightarrow> nat \<Rightarrow> u32 option" where
  "msg_check m off = do {
     h \<leftarrow> rd_MsgHead m off;
     PCT_CheckCrc (TotalMsgCrc h) m (off + 8) (ZC_HTONS (Payloadlen h)) }"


subsection \<open>What is built is accepted\<close>

lemma crc_roundtrip [simp]: "crc_of_bytes (crc_bytes c) = c"
proof (rule bit_word_eqI)
  fix n assume n: "n < LENGTH(16)"
  have h: "(0xff00 :: u16) = push_bit 8 (mask 8)" "(0xff :: u16) = mask 8"
    by (simp_all add: mask_eq_exp_minus_1)
  have "crc_of_bytes (crc_bytes c) = push_bit 8 (ucast (fst (crc_bytes c))) OR ucast (snd (crc_bytes c))"
    unfolding crc_of_bytes_def
    by (rule disjunctive_add) (auto simp: bit_simps dest: bit_imp_le_length)
  then show "bit (crc_of_bytes (crc_bytes c)) n \<longleftrightarrow> bit c n"
    using n by (auto simp: crc_bytes_def h bit_or_iff bit_push_bit_iff bit_unsigned_iff bit_drop_bit_eq
        bit_and_iff bit_mask_iff not_less dest: bit_imp_le_length)
qed

lemma rd_append_drop:
  "length a = off \<Longrightarrow> length b = n \<Longrightarrow> rd (a @ b @ c) off n = Some b"
  by (simp add: rd_def)

lemma EVENT_BuildMsg_eq:
  assumes "off + 8 + unat n \<le> length m" "unat n \<le> length p"
  shows "EVENT_BuildMsg code i m off p n = Some (take off m @
    MsgHead_bytes \<lparr>Version = 1, MsgId = i, MsgCode = code, OptNum = 0, Payloadlen = ZC_HTONS n,
      TotalMsgCrc = crc_bytes (crc16_ccitt (take (unat n) p))\<rparr> @ take (unat n) p @
      drop (off + 8 + unat n) m, 8 + n)"
  using assms by (simp add: EVENT_BuildMsg_def rd_def wr_def memcpy_Some Let_def ac_simps)

lemma msg_check_append:
  assumes "length a = off" "length b = unat (ZC_HTONS (Payloadlen h))"
  shows "msg_check (a @ MsgHead_bytes h @ b @ c) off =
    Some (if crc16_ccitt b = crc_of_bytes (TotalMsgCrc h) then ZC_RET_OK else ZC_RET_ERROR)"
proof -
  have "rd (a @ MsgHead_bytes h @ b @ c) off 8 = Some (MsgHead_bytes h)"
    using rd_append_drop [OF assms(1), of "MsgHead_bytes h" 8] by simp
  moreover have "rd (a @ MsgHead_bytes h @ b @ c) (off + 8) (unat (ZC_HTONS (Payloadlen h))) = Some b"
    using rd_append_drop [of "a @ MsgHead_bytes h" "off + 8" b] assms by simp
  ultimately show ?thesis by (simp add: msg_check_def rd_MsgHead_def PCT_CheckCrc_def)
qed

text \<open>C23: A message built by \<^verbatim>\<open>EVENT_BuildMsg\<close> in a buffer with room for it changes only its own
  8 + len bytes, carries the given code, id and payload, and is accepted by \<^verbatim>\<open>PCT_CheckCrc\<close>.\<close>

theorem EVENT_BuildMsg_accepted:
  assumes "off + 8 + unat n \<le> length m" "unat n \<le> length p"
  shows "\<exists>m' h. EVENT_BuildMsg code i m off p n = Some (m', 8 + n) \<and>
    rd_MsgHead m' off = Some h \<and> MsgCode h = code \<and> MsgId h = i \<and> ZC_HTONS (Payloadlen h) = n \<and>
    rd m' (off + 8) (unat n) = Some (take (unat n) p) \<and> msg_check m' off = Some ZC_RET_OK \<and>
    length m' = length m \<and> take off m' = take off m \<and>
    drop (off + 8 + unat n) m' = drop (off + 8 + unat n) m"
proof -
  define h where "h = \<lparr>Version = 1, MsgId = i, MsgCode = code, OptNum = 0, Payloadlen = ZC_HTONS n,
    TotalMsgCrc = crc_bytes (crc16_ccitt (take (unat n) p))\<rparr>"
  define m' where "m' = take off m @ MsgHead_bytes h @ take (unat n) p @ drop (off + 8 + unat n) m"
  have "EVENT_BuildMsg code i m off p n = Some (m', 8 + n)"
    using EVENT_BuildMsg_eq [OF assms] by (simp add: m'_def h_def)
  moreover have "rd_MsgHead m' off = Some h"
    using assms by (simp add: m'_def rd_MsgHead_def rd_append_drop)
  moreover have "rd m' (off + 8) (unat n) = Some (take (unat n) p)"
    using rd_append_drop [of "take off m @ MsgHead_bytes h" "off + 8"] assms by (simp add: m'_def)
  moreover have "msg_check m' off = Some ZC_RET_OK"
    using assms unfolding m'_def by (subst msg_check_append) (simp_all add: h_def)
  moreover have "length m' = length m" "take off m' = take off m"
    "drop (off + 8 + unat n) m' = drop (off + 8 + unat n) m"
    using assms by (simp_all add: m'_def)
  ultimately show ?thesis unfolding h_def by auto
qed

lemma EVENT_BuildMsg_accepted_witness:
  "\<exists>m' h. EVENT_BuildMsg 20 7 (replicate 16 0) 4 [1, 2, 3] 3 = Some (m', 8 + 3) \<and>
    rd_MsgHead m' 4 = Some h \<and> MsgCode h = 20 \<and> msg_check m' 4 = Some ZC_RET_OK"
  using EVENT_BuildMsg_accepted [of 4 3 "replicate 16 0" "[1, 2, 3]" 20 7] by auto

text \<open>C24: A message of any content accepted by the check is refused after any change confined to
  two adjacent bytes of its payload.\<close>

theorem msg_check_two_bytes:
  assumes "length a = off" "unat (ZC_HTONS (Payloadlen h)) = length (b @ [x, y] @ c)"
    and "msg_check (a @ MsgHead_bytes h @ (b @ [x, y] @ c) @ d) off = Some ZC_RET_OK"
    and "(x, y) \<noteq> (x', y')"
  shows "msg_check (a @ MsgHead_bytes h @ (b @ [x', y'] @ c) @ d) off = Some ZC_RET_ERROR"
proof -
  have l: "length (b @ [x, y] @ c) = unat (ZC_HTONS (Payloadlen h))"
    "length (b @ [x', y'] @ c) = unat (ZC_HTONS (Payloadlen h))"
    using assms(2) by simp_all
  have "crc16_ccitt (b @ [x, y] @ c) = crc_of_bytes (TotalMsgCrc h)"
    using assms(3) unfolding msg_check_append [OF assms(1) l(1)] by (simp split: if_splits)
  moreover have "crc16_ccitt (b @ [x', y'] @ c) \<noteq> crc16_ccitt (b @ [x, y] @ c)"
    using assms(4) crc_burst_two by auto
  ultimately show ?thesis unfolding msg_check_append [OF assms(1) l(2)] by simp
qed

lemma msg_check_two_bytes_witness:
  "msg_check ([] @ MsgHead_bytes \<lparr>Version = 1, MsgId = 0, MsgCode = 4, OptNum = 0, Payloadlen = 0x300,
     TotalMsgCrc = crc_bytes (crc16_ccitt [1, 2, 3])\<rparr> @ ([1] @ [2, 2] @ []) @ []) 0 = Some ZC_RET_ERROR"
proof -
  define h where "h = \<lparr>Version = 1, MsgId = 0, MsgCode = 4, OptNum = 0, Payloadlen = 0x300,
     TotalMsgCrc = crc_bytes (crc16_ccitt [1, 2, 3])\<rparr>"
  have l: "unat (ZC_HTONS (Payloadlen h)) = 3" by (simp add: h_def ZC_HTONS_def)
  have "msg_check ([] @ MsgHead_bytes h @ ([1] @ [2, 3] @ []) @ []) 0 = Some ZC_RET_OK"
    using l by (subst msg_check_append) (simp_all add: h_def)
  from msg_check_two_bytes [OF _ _ this, of 2 2] l show ?thesis
    unfolding h_def [symmetric] by simp
qed

end
