(* ===== verification/MsgQueue.thy ===== *)
theory MsgQueue
  imports Prelude
begin

text \<open>
  The ring queue of \<^verbatim>\<open>src/src/ZC/src/zc/zc_message_queue.c\<close> (\<^verbatim>\<open>MSG_InitQueue\<close>,
  \<^verbatim>\<open>MSG_PushMsg\<close>, \<^verbatim>\<open>MSG_PopMsg\<close>) and its contract: a bounded FIFO of capacity
  \<^verbatim>\<open>MSG_QUEUE_MAXLEN\<close>. The contract is the locale \<open>bounded_fifo\<close>; the ring of
  \<^verbatim>\<open>MSG_QUEUE_MAXLEN + 1\<close> nodes linked by pointers is proved to satisfy it.
\<close>

subsection \<open>The interface: a bounded FIFO\<close>

datatype 'm fifo_op = Push 'm | Pop

datatype 'm fifo_res = Pushed u32 | Popped "'m option"

text \<open>What the client of a queue observes when it runs a sequence of operations.\<close>

fun fifo_run :: "('q \<Rightarrow> 'm \<Rightarrow> (u32 \<times> 'q) option) \<Rightarrow> ('q \<Rightarrow> ('m option \<times> 'q) option) \<Rightarrow>
    'm fifo_op list \<Rightarrow> 'q \<Rightarrow> ('m fifo_res list \<times> 'q) option" where
  "fifo_run push pop [] q = Some ([], q)"
| "fifo_run push pop (Push m # ops) q = do {
     (r, q) \<leftarrow> push q m;
     (rs, q) \<leftarrow> fifo_run push pop ops q;
     Some (Pushed r # rs, q) }"
| "fifo_run push pop (Pop # ops) q = do {
     (r, q) \<leftarrow> pop q;
     (rs, q) \<leftarrow> fifo_run push pop ops q;
     Some (Popped r # rs, q) }"

text \<open>The same on the abstract queue, a list of at most \<open>cap\<close> messages, oldest first.\<close>

fun fifo_spec :: "nat \<Rightarrow> 'm fifo_op list \<Rightarrow> 'm list \<Rightarrow> 'm fifo_res list \<times> 'm list" where
  "fifo_spec cap [] ms = ([], ms)"
| "fifo_spec cap (Push m # ops) ms =
     (if length ms < cap then apfst ((#) (Pushed ZC_RET_OK)) (fifo_spec cap ops (ms @ [m]))
      else apfst ((#) (Pushed ZC_RET_ERROR)) (fifo_spec cap ops ms))"
| "fifo_spec cap (Pop # ops) ms =
     (case ms of [] \<Rightarrow> apfst ((#) (Popped None)) (fifo_spec cap ops [])
      | m # ms \<Rightarrow> apfst ((#) (Popped (Some m))) (fifo_spec cap ops ms))"

locale bounded_fifo =
  fixes cap :: nat
    and init :: "'q \<Rightarrow> 'q"
    and push :: "'q \<Rightarrow> 'm \<Rightarrow> (u32 \<times> 'q) option"
    and pop :: "'q \<Rightarrow> ('m option \<times> 'q) option"
    and storage :: "'q \<Rightarrow> bool"
    and inv :: "'q \<Rightarrow> bool"
    and cont :: "'q \<Rightarrow> 'm list"
  assumes init_inv: "storage q \<Longrightarrow> inv (init q)"
    and init_cont: "storage q \<Longrightarrow> cont (init q) = []"
    and inv_cap: "inv q \<Longrightarrow> length (cont q) \<le> cap"
    and push_room: "inv q \<Longrightarrow> length (cont q) < cap \<Longrightarrow>
      \<exists>q'. push q m = Some (ZC_RET_OK, q') \<and> inv q' \<and> cont q' = cont q @ [m]"
    and push_full: "inv q \<Longrightarrow> length (cont q) = cap \<Longrightarrow> push q m = Some (ZC_RET_ERROR, q)"
    and pop_empty: "inv q \<Longrightarrow> cont q = [] \<Longrightarrow> pop q = Some (None, q)"
    and pop_Cons: "inv q \<Longrightarrow> cont q = m # ms \<Longrightarrow>
      \<exists>q'. pop q = Some (Some m, q') \<and> inv q' \<and> cont q' = ms"
begin

lemma push_total: "inv q \<Longrightarrow> \<exists>r q'. push q m = Some (r, q') \<and> inv q'"
  by (metis inv_cap le_neq_implies_less push_room push_full)

lemma pop_total: "inv q \<Longrightarrow> \<exists>r q'. pop q = Some (r, q') \<and> inv q'"
  by (metis list.exhaust pop_empty pop_Cons)

lemma run_refines:
  "inv q \<Longrightarrow> \<exists>q'. fifo_run push pop ops q = Some (fst (fifo_spec cap ops (cont q)), q') \<and>
     inv q' \<and> cont q' = snd (fifo_spec cap ops (cont q))"
proof (induction ops arbitrary: q)
  case Nil
  then show ?case by simp
next
  case (Cons x ops)
  show ?case
  proof (cases x)
    case (Push m)
    show ?thesis
    proof (cases "length (cont q) < cap")
      case True
      with push_room [OF Cons.prems] obtain q' where
        "push q m = Some (ZC_RET_OK, q')" "inv q'" "cont q' = cont q @ [m]" by blast
      with Cons.IH [of q'] True Push show ?thesis by auto
    next
      case False
      with inv_cap [OF Cons.prems] have "length (cont q) = cap" by simp
      with Cons.IH [OF Cons.prems] Push push_full [OF Cons.prems] show ?thesis by auto
    qed
  next
    case Pop
    show ?thesis
    proof (cases "cont q")
      case Nil
      with Cons Pop pop_empty show ?thesis by fastforce
    next
      case C: (Cons m ms)
      with pop_Cons [OF Cons.prems] obtain q' where
        "pop q = Some (Some m, q')" "inv q'" "cont q' = ms" by blast
      with Cons.IH [of q'] C Pop show ?thesis by auto
    qed
  qed
qed

lemma run_from_init:
  "storage q \<Longrightarrow> \<exists>q'. fifo_run push pop ops (init q) = Some (fst (fifo_spec cap ops []), q')"
  using run_refines [OF init_inv] init_cont by fastforce

end

subsection \<open>The ring of nodes\<close>

abbreviation (input) MSG_QUEUE_MAXLEN :: nat where "MSG_QUEUE_MAXLEN \<equiv> 2"

text \<open>A pointer to a node of the queue's own array is its index, \<^verbatim>\<open>NULL\<close> is \<^term>\<open>None\<close>.\<close>

record 'm MSG_QueNode =
  pstruNext :: "nat option"
  pu8Msg :: "'m option"

record 'm MSG_Queue =
  pstruHead :: "nat option"
  pstruTail :: "nat option"
  struQueue :: "'m MSG_QueNode list"

definition que_deref :: "'m MSG_Queue \<Rightarrow> nat option \<Rightarrow> 'm MSG_QueNode option" where
  "que_deref q p = do { i \<leftarrow> p; if i < length (struQueue q) then Some (struQueue q ! i) else None }"

definition que_store :: "'m MSG_Queue \<Rightarrow> nat option \<Rightarrow> 'm MSG_QueNode \<Rightarrow> 'm MSG_Queue option" where
  "que_store q p n = do { i \<leftarrow> p;
     if i < length (struQueue q) then Some (q\<lparr>struQueue := (struQueue q)[i := n]\<rparr>) else None }"

text \<open>The loop of \<^verbatim>\<open>MSG_InitQueue\<close> chains every node to the one before it.\<close>

fun init_nodes :: "nat \<Rightarrow> nat option \<Rightarrow> 'm MSG_QueNode list \<Rightarrow> 'm MSG_QueNode list" where
  "init_nodes i prev [] = []"
| "init_nodes i prev (n # ns) =
     n\<lparr>pstruNext := prev, pu8Msg := None\<rparr> # init_nodes (Suc i) (Some i) ns"

definition MSG_InitQueue :: "'m MSG_Queue \<Rightarrow> 'm MSG_Queue" where
  "MSG_InitQueue q =
     (let ns = init_nodes 0 None (struQueue q);
          ns = ns[0 := (ns ! 0)\<lparr>pstruNext := Some MSG_QUEUE_MAXLEN\<rparr>]
      in q\<lparr>struQueue := ns, pstruHead := Some 0, pstruTail := Some 0\<rparr>)"

definition MSG_PushMsg :: "'m MSG_Queue \<Rightarrow> 'm \<Rightarrow> (u32 \<times> 'm MSG_Queue) option" where
  "MSG_PushMsg q m = do {
     t \<leftarrow> que_deref q (pstruTail q);
     if pstruNext t = pstruHead q then Some (ZC_RET_ERROR, q)
     else do {
       q \<leftarrow> que_store q (pstruTail q) (t\<lparr>pu8Msg := Some m\<rparr>);
       Some (ZC_RET_OK, q\<lparr>pstruTail := pstruNext t\<rparr>)
     }
   }"

definition MSG_PopMsg :: "'m MSG_Queue \<Rightarrow> ('m option \<times> 'm MSG_Queue) option" where
  "MSG_PopMsg q =
     (if pstruHead q = pstruTail q then Some (None, q)
      else do {
        h \<leftarrow> que_deref q (pstruHead q);
        q \<leftarrow> que_store q (pstruHead q) (h\<lparr>pu8Msg := None\<rparr>);
        Some (pu8Msg h, q\<lparr>pstruHead := pstruNext h\<rparr>)
      })"

subsection \<open>The ring implements the FIFO\<close>

definition que_storage :: "'m MSG_Queue \<Rightarrow> bool" where
  "que_storage q \<longleftrightarrow> length (struQueue q) = MSG_QUEUE_MAXLEN + 1"

text \<open>The number of messages between head and tail, and the messages, oldest first. The
  nodes are chained downwards: 0 to 2, 2 to 1, 1 to 0.\<close>

definition que_count :: "nat \<Rightarrow> nat \<Rightarrow> nat" where
  "que_count h t = (h + 3 - t) mod 3"

definition que_slots :: "nat \<Rightarrow> nat \<Rightarrow> nat list" where
  "que_slots h t = map (\<lambda>k. (h + 2 * k) mod 3) [0..<que_count h t]"

definition que_cont :: "'m MSG_Queue \<Rightarrow> 'm list" where
  "que_cont q = (case (pstruHead q, pstruTail q) of
     (Some h, Some t) \<Rightarrow> map (\<lambda>i. the (pu8Msg (struQueue q ! i))) (que_slots h t)
   | _ \<Rightarrow> [])"

definition que_inv :: "'m MSG_Queue \<Rightarrow> bool" where
  "que_inv q \<longleftrightarrow> que_storage q \<and>
     map pstruNext (struQueue q) = [Some 2, Some 0, Some 1] \<and>
     (\<exists>h < 3. \<exists>t < 3. pstruHead q = Some h \<and> pstruTail q = Some t \<and>
        (\<forall>i \<in> set (que_slots h t). pu8Msg (struQueue q ! i) \<noteq> None))"

lemma less_3_cases: "(i :: nat) < 3 \<Longrightarrow> i = 0 \<or> i = 1 \<or> i = 2"
  by arith

lemma length_3_cases: "length xs = Suc (Suc (Suc 0)) \<Longrightarrow> \<exists>a b c. xs = [a, b, c]"
  by (metis length_0_conv length_Suc_conv)

lemma que_slots_simps:
  "que_slots 0 0 = []" "que_slots 1 1 = []" "que_slots 2 2 = []"
  "que_slots 0 2 = [0]" "que_slots 2 1 = [2]" "que_slots 1 0 = [1]"
  "que_slots 0 1 = [0, 2]" "que_slots 2 0 = [2, 1]" "que_slots 1 2 = [1, 0]"
  by (simp_all add: que_slots_def que_count_def upt_rec)

lemmas que_slots_eqs = que_slots_simps que_slots_simps [unfolded One_nat_def]

lemmas que_simps = que_deref_def que_store_def que_storage_def que_inv_def que_cont_def

text \<open>Case analysis of an initialised queue: its three nodes and the places of head and tail.\<close>

lemma que_invE:
  assumes "que_inv q"
  obtains a b c h t where "struQueue q = [a, b, c]" "pstruNext a = Some 2" "pstruNext b = Some 0"
    "pstruNext c = Some 1" "pstruHead q = Some h" "pstruTail q = Some t"
    "h = 0 \<or> h = 1 \<or> h = 2" "t = 0 \<or> t = 1 \<or> t = 2"
    "\<forall>i \<in> set (que_slots h t). pu8Msg ([a, b, c] ! i) \<noteq> None"
  using assms less_3_cases length_3_cases [of "struQueue q"]
  by (fastforce simp: que_inv_def que_storage_def)

lemma MSG_InitQueue_inv:
  "que_storage q \<Longrightarrow> que_inv (MSG_InitQueue q) \<and> que_cont (MSG_InitQueue q) = []"
  using length_3_cases [of "struQueue q"]
  by (auto simp: que_simps MSG_InitQueue_def que_slots_eqs Let_def)

lemma MSG_PushMsg_inv:
  assumes "que_inv q"
  shows "if length (que_cont q) < MSG_QUEUE_MAXLEN
    then (\<exists>q'. MSG_PushMsg q m = Some (ZC_RET_OK, q') \<and> que_inv q' \<and> que_cont q' = que_cont q @ [m])
    else MSG_PushMsg q m = Some (ZC_RET_ERROR, q) \<and> length (que_cont q) = MSG_QUEUE_MAXLEN"
  using assms
proof (rule que_invE)
  fix a b c h t
  assume q: "struQueue q = [a, b, c]" "pstruNext a = Some 2" "pstruNext b = Some 0"
    "pstruNext c = Some 1" "pstruHead q = Some h" "pstruTail q = Some t"
    and ht: "h = 0 \<or> h = 1 \<or> h = 2" "t = 0 \<or> t = 1 \<or> t = 2"
    and m: "\<forall>i \<in> set (que_slots h t). pu8Msg ([a, b, c] ! i) \<noteq> None"
  from ht m show ?thesis
    by (elim disjE) (simp_all add: q que_simps MSG_PushMsg_def que_slots_eqs)
qed

lemma MSG_PopMsg_inv:
  assumes "que_inv q"
  shows "case que_cont q of [] \<Rightarrow> MSG_PopMsg q = Some (None, q)
    | m # ms \<Rightarrow> \<exists>q'. MSG_PopMsg q = Some (Some m, q') \<and> que_inv q' \<and> que_cont q' = ms"
  using assms
proof (rule que_invE)
  fix a b c h t
  assume q: "struQueue q = [a, b, c]" "pstruNext a = Some 2" "pstruNext b = Some 0"
    "pstruNext c = Some 1" "pstruHead q = Some h" "pstruTail q = Some t"
    and ht: "h = 0 \<or> h = 1 \<or> h = 2" "t = 0 \<or> t = 1 \<or> t = 2"
    and m: "\<forall>i \<in> set (que_slots h t). pu8Msg ([a, b, c] ! i) \<noteq> None"
  from ht m show ?thesis
    by (elim disjE) (auto simp add: q que_simps MSG_PopMsg_def que_slots_eqs)
qed

interpretation msgq: bounded_fifo MSG_QUEUE_MAXLEN MSG_InitQueue MSG_PushMsg MSG_PopMsg
  que_storage que_inv que_cont
proof unfold_locales
  fix q :: "'m MSG_Queue" and m ms
  show "que_storage q \<Longrightarrow> que_inv (MSG_InitQueue q)" "que_storage q \<Longrightarrow> que_cont (MSG_InitQueue q) = []"
    using MSG_InitQueue_inv by blast+
  assume inv: "que_inv q"
  note push = MSG_PushMsg_inv [OF inv, of m] and pop = MSG_PopMsg_inv [OF inv]
  from push show "length (que_cont q) \<le> MSG_QUEUE_MAXLEN" by (auto split: if_splits)
  from push show "length (que_cont q) < MSG_QUEUE_MAXLEN \<Longrightarrow>
      \<exists>q'. MSG_PushMsg q m = Some (ZC_RET_OK, q') \<and> que_inv q' \<and> que_cont q' = que_cont q @ [m]"
    by simp
  from push show "length (que_cont q) = MSG_QUEUE_MAXLEN \<Longrightarrow> MSG_PushMsg q m = Some (ZC_RET_ERROR, q)"
    by simp
  from pop show "que_cont q = [] \<Longrightarrow> MSG_PopMsg q = Some (None, q)" by simp
  from pop show "que_cont q = m # ms \<Longrightarrow>
      \<exists>q'. MSG_PopMsg q = Some (Some m, q') \<and> que_inv q' \<and> que_cont q' = ms"
    by simp
qed

subsection \<open>Properties\<close>

text \<open>C22: after \<^verbatim>\<open>MSG_InitQueue\<close> on any storage of three nodes, every sequence of
  \<^verbatim>\<open>MSG_PushMsg\<close> and \<^verbatim>\<open>MSG_PopMsg\<close> calls is defined and returns exactly what a bounded
  FIFO of capacity 2 returns: messages in order, \<^verbatim>\<open>ZC_RET_ERROR\<close> when two are queued,
  \<^verbatim>\<open>NULL\<close> when none is.\<close>

theorem MSG_Queue_refines_fifo:
  assumes "que_storage q"
  shows "\<exists>q'. fifo_run MSG_PushMsg MSG_PopMsg ops (MSG_InitQueue q)
      = Some (fst (fifo_spec MSG_QUEUE_MAXLEN ops []), q')"
  using assms by (rule msgq.run_from_init)

theorem MSG_Queue_refines_fifo_witness:
  "\<exists>q'. fifo_run MSG_PushMsg MSG_PopMsg [Push (7 :: nat), Push 8, Push 9, Pop, Pop, Pop]
     (MSG_InitQueue \<lparr>pstruHead = None, pstruTail = None,
        struQueue = replicate 3 \<lparr>pstruNext = None, pu8Msg = None\<rparr>\<rparr>)
   = Some ([Pushed 0, Pushed 0, Pushed 1, Popped (Some 7), Popped (Some 8), Popped None], q')"
  using MSG_Queue_refines_fifo [of "\<lparr>pstruHead = None, pstruTail = None,
        struQueue = replicate 3 \<lparr>pstruNext = None, pu8Msg = None\<rparr>\<rparr>"
      "[Push (7 :: nat), Push 8, Push 9, Pop, Pop, Pop]"]
  by (simp add: que_storage_def)

end
