(* ===== verification/UartAsm.thy ===== *)
theory UartAsm
  imports Wire Reassembly
begin

text \<open>
  \<^verbatim>\<open>ZC_AssemblePkt\<close> of \<^verbatim>\<open>src/src/ZC/src/zc/zc_moudle_manager.c\<close>: the assembly of the packets that
  the device sends over the serial line. A packet is the four magic bytes 2, 3, 4, 5, a message
  head and the payload; several packets may arrive in one piece, and the function reports how many
  bytes are left after the packet it completed. It is the second implementation of the contract
  \<open>reassembler\<close>.
\<close>

subsection \<open>The buffer\<close>

abbreviation (input) ZC_MAX_UARTBUF_LEN :: nat where "ZC_MAX_UARTBUF_LEN \<equiv> 1000"

record ZC_UartBuffer =
  u32Status :: u32
  u32RecvLen :: u32
  u8UartBuffer :: bytes

definition u8MagicHead :: bytes where
  "u8MagicHead = [0x02, 0x03, 0x04, 0x05]"

text \<open>\<^verbatim>\<open>ZC_HTONS(pstruMsg->Payloadlen) + sizeof(ZC_MessageHead) + u32MagicLen\<close>.\<close>

definition uart_msg_len :: "ZC_MessageHead \<Rightarrow> u32" where
  "uart_msg_len h = ucast (ZC_HTONS (Payloadlen h)) + 8 + 4"

lemma unat_uart_msg_len: "unat (uart_msg_len h) = unat (ZC_HTONS (Payloadlen h)) + 12"
proof -
  have "unat (ucast (ZC_HTONS (Payloadlen h)) + 12 :: u32) = unat (ZC_HTONS (Payloadlen h)) + 12"
    using unat_u16_lt [of "ZC_HTONS (Payloadlen h)"] by (simp add: unat_add_lt)
  then show ?thesis by (simp add: uart_msg_len_def add.commute)
qed

definition uart_reset :: "ZC_UartBuffer \<Rightarrow> ZC_UartBuffer" where
  "uart_reset b = b\<lparr>u32Status := MSG_BUFFER_IDLE, u32RecvLen := 0\<rparr>"

subsection \<open>The function\<close>

text \<open>One definition per status of the buffer. The result is the return code, the number stored
  through \<^verbatim>\<open>pu32LeftLen\<close>, and the buffer.\<close>

definition ZC_AssemblePkt_idle :: "ZC_UartBuffer \<Rightarrow> bytes \<Rightarrow> u32 \<Rightarrow> (u32 \<times> u32 \<times> ZC_UartBuffer) option" where
  "ZC_AssemblePkt_idle b pu8Data u32DataLen =
     (if u32DataLen < 12 then do {
        m \<leftarrow> memcpy (u8UartBuffer b) 0 pu8Data (unat u32DataLen);
        Some (ZC_RET_OK, 0, b\<lparr>u8UartBuffer := m, u32Status := MSG_BUFFER_SEGMENT_NOHEAD,
          u32RecvLen := u32DataLen\<rparr>)
      } else do {
        magic \<leftarrow> rd pu8Data 0 4;
        if magic \<noteq> u8MagicHead then Some (ZC_RET_ERROR, 0, uart_reset b)
        else do {
          pstruMsg \<leftarrow> rd_MsgHead pu8Data 4;
          let u32MsgLen = uart_msg_len pstruMsg;
          if u32MsgLen > of_nat ZC_MAX_UARTBUF_LEN then Some (ZC_RET_ERROR, 0, uart_reset b)
          else if u32MsgLen \<le> u32DataLen then do {
            m \<leftarrow> memcpy (u8UartBuffer b) 0 pu8Data (unat u32MsgLen);
            Some (ZC_RET_OK, u32DataLen - u32MsgLen, b\<lparr>u8UartBuffer := m,
              u32Status := MSG_BUFFER_FULL, u32RecvLen := u32MsgLen\<rparr>)
          } else do {
            m \<leftarrow> memcpy (u8UartBuffer b) 0 pu8Data (unat u32DataLen);
            Some (ZC_RET_OK, 0, b\<lparr>u8UartBuffer := m, u32Status := MSG_BUFFER_SEGMENT_HEAD,
              u32RecvLen := u32DataLen\<rparr>)
          }
        }
      })"

definition ZC_AssemblePkt_head :: "ZC_UartBuffer \<Rightarrow> bytes \<Rightarrow> u32 \<Rightarrow> (u32 \<times> u32 \<times> ZC_UartBuffer) option" where
  "ZC_AssemblePkt_head b pu8Data u32DataLen = do {
     pstruMsg \<leftarrow> rd_MsgHead (u8UartBuffer b) 4;
     let u32MsgLen = uart_msg_len pstruMsg;
     if u32MsgLen \<le> u32DataLen + u32RecvLen b then do {
       m \<leftarrow> memcpy (u8UartBuffer b) (unat (u32RecvLen b)) pu8Data (unat (u32MsgLen - u32RecvLen b));
       Some (ZC_RET_OK, u32DataLen + u32RecvLen b - u32MsgLen, b\<lparr>u8UartBuffer := m,
         u32Status := MSG_BUFFER_FULL, u32RecvLen := u32MsgLen\<rparr>)
     } else do {
       m \<leftarrow> memcpy (u8UartBuffer b) (unat (u32RecvLen b)) pu8Data (unat u32DataLen);
       Some (ZC_RET_OK, 0, b\<lparr>u8UartBuffer := m, u32RecvLen := u32RecvLen b + u32DataLen,
         u32Status := MSG_BUFFER_SEGMENT_HEAD\<rparr>)
     }
   }"

definition ZC_AssemblePkt_nohead :: "ZC_UartBuffer \<Rightarrow> bytes \<Rightarrow> u32 \<Rightarrow> (u32 \<times> u32 \<times> ZC_UartBuffer) option" where
  "ZC_AssemblePkt_nohead b pu8Data u32DataLen =
     (if u32RecvLen b + u32DataLen < 12 then do {
        m \<leftarrow> memcpy (u8UartBuffer b) (unat (u32RecvLen b)) pu8Data (unat u32DataLen);
        Some (ZC_RET_OK, 0, b\<lparr>u8UartBuffer := m, u32RecvLen := u32RecvLen b + u32DataLen,
          u32Status := MSG_BUFFER_SEGMENT_NOHEAD\<rparr>)
      } else do {
        m \<leftarrow> memcpy (u8UartBuffer b) (unat (u32RecvLen b)) pu8Data (unat (12 - u32RecvLen b));
        let b = b\<lparr>u8UartBuffer := m\<rparr>;
        magic \<leftarrow> rd (u8UartBuffer b) 0 4;
        if magic \<noteq> u8MagicHead then Some (ZC_RET_ERROR, 0, uart_reset b)
        else do {
          pstruMsg \<leftarrow> rd_MsgHead (u8UartBuffer b) 4;
          let u32MsgLen = uart_msg_len pstruMsg;
          if u32MsgLen > of_nat ZC_MAX_UARTBUF_LEN then Some (ZC_RET_ERROR, 0, uart_reset b)
          else if u32MsgLen \<le> u32DataLen + u32RecvLen b then do {
            m \<leftarrow> memcpy (u8UartBuffer b) (unat (u32RecvLen b)) pu8Data (unat (u32MsgLen - u32RecvLen b));
            Some (ZC_RET_OK, u32DataLen + u32RecvLen b - u32MsgLen, b\<lparr>u8UartBuffer := m,
              u32Status := MSG_BUFFER_FULL, u32RecvLen := u32MsgLen\<rparr>)
          } else do {
            m \<leftarrow> memcpy (u8UartBuffer b) (unat (u32RecvLen b)) pu8Data (unat u32DataLen);
            Some (ZC_RET_OK, 0, b\<lparr>u8UartBuffer := m, u32Status := MSG_BUFFER_SEGMENT_HEAD,
              u32RecvLen := u32RecvLen b + u32DataLen\<rparr>)
          }
        }
      })"

definition ZC_AssemblePkt :: "ZC_UartBuffer \<Rightarrow> bytes \<Rightarrow> u32 \<Rightarrow> (u32 \<times> u32 \<times> ZC_UartBuffer) option" where
  "ZC_AssemblePkt b pu8Data u32DataLen =
     (if u32Status b = MSG_BUFFER_FULL then Some (ZC_RET_ERROR, 0, b)
      else if u32Status b = MSG_BUFFER_IDLE then ZC_AssemblePkt_idle b pu8Data u32DataLen
      else if u32Status b = MSG_BUFFER_SEGMENT_HEAD then ZC_AssemblePkt_head b pu8Data u32DataLen
      else if u32Status b = MSG_BUFFER_SEGMENT_NOHEAD then ZC_AssemblePkt_nohead b pu8Data u32DataLen
      else Some (ZC_RET_ERROR, 0, b))"

subsection \<open>The contract\<close>

definition uart_got :: "ZC_UartBuffer \<Rightarrow> bytes" where
  "uart_got b = take (unat (u32RecvLen b)) (u8UartBuffer b)"

definition uart_full :: "ZC_UartBuffer \<Rightarrow> bool" where
  "uart_full b \<longleftrightarrow> u32Status b = MSG_BUFFER_FULL"

text \<open>The length a packet header announces; \<^term>\<open>None\<close> for a wrong magic and for more than the
  buffer holds.\<close>

definition uart_pkt_len :: "bytes \<Rightarrow> nat option" where
  "uart_pkt_len h = (let n = unat (uart_msg_len (MsgHead_of (drop 4 h))) in
     if take 4 h = u8MagicHead \<and> n \<le> ZC_MAX_UARTBUF_LEN then Some n else None)"

definition uart_inv :: "ZC_UartBuffer \<Rightarrow> bool" where
  "uart_inv b \<longleftrightarrow> length (u8UartBuffer b) = ZC_MAX_UARTBUF_LEN \<and>
     (u32Status b = MSG_BUFFER_IDLE \<and> u32RecvLen b = 0 \<or>
      u32Status b = MSG_BUFFER_FULL \<and> unat (u32RecvLen b) \<le> ZC_MAX_UARTBUF_LEN \<or>
      u32Status b = MSG_BUFFER_SEGMENT_NOHEAD \<and> unat (u32RecvLen b) < 12 \<or>
      u32Status b = MSG_BUFFER_SEGMENT_HEAD \<and> 12 \<le> unat (u32RecvLen b) \<and>
        (\<exists>n. uart_pkt_len (take 12 (u8UartBuffer b)) = Some n \<and> unat (u32RecvLen b) < n))"

definition uart_Recv :: "ZC_UartBuffer \<Rightarrow> bytes \<Rightarrow> (u32 \<times> ZC_UartBuffer) option" where
  "uart_Recv b d = map_option (\<lambda>(r, l, b). (r, b)) (ZC_AssemblePkt b d (of_nat (length d)))"


text \<open>What one call does, the number of bytes left over included.\<close>

definition uart_step :: "ZC_UartBuffer \<Rightarrow> bytes \<Rightarrow> bool" where
  "uart_step b d \<longleftrightarrow> (\<exists>r b' f g k. ZC_AssemblePkt b d (of_nat (length d)) = Some (r, of_nat k, b') \<and>
     uart_inv b' \<and> reasm 12 uart_pkt_len (uart_got b @ d) = (r, f, g, k) \<and>
     uart_full b' = f \<and> uart_got b' = g)"

lemma uart_pkt_len_take [simp]:
  assumes "12 \<le> n"
  shows "uart_pkt_len (take n bs) = uart_pkt_len bs"
proof -
  have "MsgHead_of (drop 4 (take n bs)) = MsgHead_of (drop 4 bs)"
    using assms by (simp add: drop_take)
  then show ?thesis using assms by (simp add: uart_pkt_len_def min_def)
qed

lemma reasm_uart:
  "12 \<le> length xs \<Longrightarrow> reasm 12 uart_pkt_len xs = (case uart_pkt_len xs of
     None \<Rightarrow> (ZC_RET_ERROR, False, [], 0)
   | Some n \<Rightarrow> if n \<le> length xs then (ZC_RET_OK, True, take n xs, length xs - n)
       else (ZC_RET_OK, False, xs, 0))"
  by (simp add: reasm_def)

lemma uart_pkt_len_Some:
  "uart_pkt_len bs = Some n \<Longrightarrow> take 4 bs = u8MagicHead \<and>
     n = unat (uart_msg_len (MsgHead_of (drop 4 bs))) \<and> n \<le> 1000 \<and> 12 \<le> n"
  by (auto simp: uart_pkt_len_def Let_def unat_uart_msg_len split: if_splits)

lemma rd_MsgHead_4: "12 \<le> length bs \<Longrightarrow> rd_MsgHead bs 4 = Some (MsgHead_of (drop 4 bs))"
  by (simp add: rd_MsgHead_def rd_def)

lemma uart_msg_len_gt: "uart_msg_len h > 1000 \<longleftrightarrow> 1000 < unat (uart_msg_len h)"
  by (simp add: word_less_nat_alt)

lemma of_nat_diff_unat: "unat w \<le> n \<Longrightarrow> (of_nat (n - unat w) :: u32) = of_nat n - w"
  by (simp add: of_nat_diff)

lemma uart_step_idle:
  assumes "length (u8UartBuffer b) = 1000" "u32Status b = 0" "u32RecvLen b = 0" "length d \<le> recv_max"
  shows "uart_step b d"
proof -
  note u = unat_recv_len [OF assms(4)]
  define h where "h = uart_msg_len (MsgHead_of (drop 4 d))"
  have lt: "(of_nat (length d) :: u32) < 12 \<longleftrightarrow> length d < 12"
    using u by (simp add: word_less_nat_alt)
  have le: "w \<le> (of_nat (length d) :: u32) \<longleftrightarrow> unat w \<le> length d" for w :: u32
    using u by (simp add: word_le_nat_alt)
  have got: "uart_got b = []" by (simp add: uart_got_def assms)
  show ?thesis
  proof (cases "length d < 12")
    case True
    then show ?thesis using assms u
      by (simp add: uart_step_def ZC_AssemblePkt_def ZC_AssemblePkt_idle_def lt memcpy_Some got
          reasm_def uart_inv_def uart_full_def uart_got_def)
  next
    case F: False
    show ?thesis
    proof (cases "uart_pkt_len d")
      case None
      have r: "reasm 12 uart_pkt_len (uart_got b @ d) = (ZC_RET_ERROR, False, [], 0)"
        using F None by (simp add: reasm_def got)
      have bad: "take 4 d \<noteq> u8MagicHead \<or> uart_msg_len (MsgHead_of (drop 4 d)) > 1000"
        using None by (auto simp: uart_pkt_len_def Let_def uart_msg_len_gt split: if_splits)
      have "ZC_AssemblePkt b d (of_nat (length d)) = Some (ZC_RET_ERROR, of_nat 0, uart_reset b)"
        using F bad assms by (auto simp: ZC_AssemblePkt_def ZC_AssemblePkt_idle_def lt rd_def rd_MsgHead_4 Let_def)
      with assms show ?thesis unfolding uart_step_def r
        by (auto simp: uart_inv_def uart_full_def uart_got_def uart_reset_def)
    next
      case (Some n)
      note n = uart_pkt_len_Some [OF Some]
      have base: "ZC_AssemblePkt b d (of_nat (length d)) =
          (if n \<le> length d then do {
             m \<leftarrow> memcpy (u8UartBuffer b) 0 d n;
             Some (ZC_RET_OK, of_nat (length d) - h, b\<lparr>u8UartBuffer := m, u32Status := 1, u32RecvLen := h\<rparr>)
           } else do {
             m \<leftarrow> memcpy (u8UartBuffer b) 0 d (length d);
             Some (ZC_RET_OK, 0, b\<lparr>u8UartBuffer := m, u32Status := 3, u32RecvLen := of_nat (length d)\<rparr>)
           })"
        using F n assms u
        by (simp add: ZC_AssemblePkt_def ZC_AssemblePkt_idle_def lt le rd_def rd_MsgHead_4
            uart_msg_len_gt h_def Let_def)
      have uh: "unat h = n" using n by (simp add: h_def)
      show ?thesis
      proof (cases "n \<le> length d")
        case True
        have r: "reasm 12 uart_pkt_len (uart_got b @ d) = (ZC_RET_OK, True, take n d, length d - n)"
          using F Some True by (simp add: reasm_def got)
        have left: "of_nat (length d) - h = of_nat (length d - n)"
          using of_nat_diff_unat [of h "length d"] True uh by simp
        show ?thesis unfolding uart_step_def base r left using True n assms uh
          by (simp add: memcpy_Some uart_inv_def uart_full_def uart_got_def)
      next
        case False
        have r: "reasm 12 uart_pkt_len (uart_got b @ d) = (ZC_RET_OK, False, d, 0)"
          using F Some False by (simp add: reasm_def got)
        have t: "uart_pkt_len (d @ xs) = Some n" for xs
          using uart_pkt_len_take [of 12 "d @ xs"] uart_pkt_len_take [of 12 d] F Some by simp
        show ?thesis unfolding uart_step_def base r using False F n assms u t
          by (simp add: memcpy_Some uart_inv_def uart_full_def uart_got_def)
      qed
    qed
  qed
qed

lemma uart_step_head:
  assumes "uart_inv b" "u32Status b = 3" "length d \<le> recv_max"
  shows "uart_step b d"
proof -
  define l where "l = unat (u32RecvLen b)"
  define h where "h = uart_msg_len (MsgHead_of (drop 4 (u8UartBuffer b)))"
  note u = unat_recv_len [OF assms(3)]
  from assms(1,2) obtain n where i: "length (u8UartBuffer b) = 1000" "12 \<le> l" "l < n"
    "uart_pkt_len (u8UartBuffer b) = Some n"
    by (auto simp: uart_inv_def l_def)
  note n = uart_pkt_len_Some [OF i(4)]
  then have uh: "unat h = n" by (simp add: h_def)
  have s: "unat (of_nat (length d) + u32RecvLen b) = length d + l"
    "unat (u32RecvLen b + of_nat (length d)) = l + length d"
    using u i n assms(3) by (simp_all add: unat_add_lt l_def)
  have le: "h \<le> of_nat (length d) + u32RecvLen b \<longleftrightarrow> n \<le> length d + l"
    by (simp add: word_le_nat_alt s uh)
  have sub: "unat (h - u32RecvLen b) = n - l"
    using i uh by (simp add: unat_sub_le word_le_nat_alt l_def)
  have p: "uart_pkt_len (take l (u8UartBuffer b) @ xs) = Some n" for xs
    using uart_pkt_len_take [of 12 "take l (u8UartBuffer b) @ xs"]
      uart_pkt_len_take [of 12 "u8UartBuffer b"] i by simp
  have got: "uart_got b = take l (u8UartBuffer b)" by (simp add: uart_got_def l_def)
  have hd: "rd_MsgHead (u8UartBuffer b) 4 = Some (MsgHead_of (drop 4 (u8UartBuffer b)))"
    using i by (simp add: rd_MsgHead_4)
  have base: "ZC_AssemblePkt b d (of_nat (length d)) =
      (if n \<le> length d + l then do {
         m \<leftarrow> memcpy (u8UartBuffer b) l d (n - l);
         Some (ZC_RET_OK, of_nat (length d) + u32RecvLen b - h, b\<lparr>u8UartBuffer := m, u32Status := 1, u32RecvLen := h\<rparr>)
       } else do {
         m \<leftarrow> memcpy (u8UartBuffer b) l d (length d);
         Some (ZC_RET_OK, 0, b\<lparr>u8UartBuffer := m, u32RecvLen := u32RecvLen b + of_nat (length d), u32Status := 3\<rparr>)
       })"
    using assms(2) le u
    by (simp add: ZC_AssemblePkt_def ZC_AssemblePkt_head_def hd h_def [symmetric] l_def [symmetric] sub)
  show ?thesis
  proof (cases "n \<le> length d + l")
    case True
    have r: "reasm 12 uart_pkt_len (uart_got b @ d) =
        (ZC_RET_OK, True, take l (u8UartBuffer b) @ take (n - l) d, length d + l - n)"
      using True i n p by (simp add: reasm_def got min_def)
    have left: "of_nat (length d) + u32RecvLen b - h = of_nat (length d + l - n)"
      using True uh of_nat_diff_unat [of h "length d + l"] by (simp add: l_def)
    show ?thesis unfolding uart_step_def base r left using True i n uh
      by (simp add: memcpy_Some uart_inv_def uart_full_def uart_got_def)
  next
    case False
    have r: "reasm 12 uart_pkt_len (uart_got b @ d) = (ZC_RET_OK, False, take l (u8UartBuffer b) @ d, 0)"
      using False i n p by (simp add: reasm_def got min_def)
    show ?thesis unfolding uart_step_def base r using False i n s p u
      by (simp add: memcpy_Some uart_inv_def uart_full_def uart_got_def)
  qed
qed

lemma uart_step_nohead:
  assumes "uart_inv b" "u32Status b = 2" "length d \<le> recv_max"
  shows "uart_step b d"
proof -
  define l where "l = unat (u32RecvLen b)"
  note u = unat_recv_len [OF assms(3)]
  from assms(1,2) have i: "length (u8UartBuffer b) = 1000" "l < 12" by (auto simp: uart_inv_def l_def)
  have s: "unat (of_nat (length d) + u32RecvLen b) = length d + l"
    "unat (u32RecvLen b + of_nat (length d)) = l + length d" "unat (12 - u32RecvLen b) = 12 - l"
    using u i assms(3) by (simp_all add: unat_add_lt unat_sub_le word_le_nat_alt l_def)
  have got: "uart_got b = take l (u8UartBuffer b)" by (simp add: uart_got_def l_def)
  show ?thesis
  proof (cases "l + length d < 12")
    case True
    then show ?thesis
      using assms(2) i u s
      by (simp add: uart_step_def ZC_AssemblePkt_def ZC_AssemblePkt_nohead_def word_less_nat_alt
          l_def [symmetric] memcpy_Some reasm_def uart_inv_def uart_got_def uart_full_def)
  next
    case False
    define m where "m = take l (u8UartBuffer b) @ take (12 - l) d @ drop 12 (u8UartBuffer b)"
    have m: "memcpy (u8UartBuffer b) l d (12 - l) = Some m" "length m = 1000"
      "take l m = take l (u8UartBuffer b)" "length (uart_got b) = l"
      using False i by (simp_all add: m_def memcpy_Some got)
    have t12: "take 12 m = take 12 (uart_got b @ d)"
      using False i by (simp add: m_def got)
    have p: "uart_pkt_len m = uart_pkt_len (uart_got b @ d)"
      using uart_pkt_len_take [of 12 m] uart_pkt_len_take [of 12 "uart_got b @ d"] t12 by simp
    have nl: "\<not> u32RecvLen b + of_nat (length d) < 12" using False s by (simp add: word_less_nat_alt)
    define h where "h = uart_msg_len (MsgHead_of (drop 4 m))"
    have start: "ZC_AssemblePkt b d (of_nat (length d)) = (let b = b\<lparr>u8UartBuffer := m\<rparr> in
        if take 4 m \<noteq> u8MagicHead then Some (ZC_RET_ERROR, 0, uart_reset b)
        else if h > 1000 then Some (ZC_RET_ERROR, 0, uart_reset b)
        else if h \<le> of_nat (length d) + u32RecvLen b then do {
          m \<leftarrow> memcpy m l d (unat (h - u32RecvLen b));
          Some (ZC_RET_OK, of_nat (length d) + u32RecvLen b - h, b\<lparr>u8UartBuffer := m, u32Status := 1, u32RecvLen := h\<rparr>)
        } else do {
          m \<leftarrow> memcpy m l d (length d);
          Some (ZC_RET_OK, 0, b\<lparr>u8UartBuffer := m, u32Status := 3, u32RecvLen := u32RecvLen b + of_nat (length d)\<rparr>)
        })"
      using assms(2) nl m s u
      by (simp add: ZC_AssemblePkt_def ZC_AssemblePkt_nohead_def l_def [symmetric] rd_def
          rd_MsgHead_4 Let_def h_def)
    show ?thesis
    proof (cases "uart_pkt_len m")
      case None
      then have bad: "take 4 m \<noteq> u8MagicHead \<or> h > 1000"
        by (auto simp: uart_pkt_len_def Let_def uart_msg_len_gt h_def split: if_splits)
      have r: "reasm 12 uart_pkt_len (uart_got b @ d) = (ZC_RET_ERROR, False, [], 0)"
        using False None m p by (simp add: reasm_uart)
      have "ZC_AssemblePkt b d (of_nat (length d)) =
          Some (ZC_RET_ERROR, of_nat 0, uart_reset (b\<lparr>u8UartBuffer := m\<rparr>))"
        unfolding start using bad by (auto simp: Let_def)
      with m show ?thesis unfolding uart_step_def r
        by (auto simp: uart_inv_def uart_full_def uart_got_def uart_reset_def)
    next
      case (Some n)
      note n = uart_pkt_len_Some [OF Some]
      then have uh: "unat h = n" and bnd: "12 \<le> n" "n \<le> 1000" by (simp_all add: h_def)
      have sm: "uart_pkt_len (take l (u8UartBuffer b) @ d) = Some n" using Some p by (simp add: got)
      have le: "h \<le> of_nat (length d) + u32RecvLen b \<longleftrightarrow> n \<le> length d + l"
        by (simp add: word_le_nat_alt s uh)
      have sub: "unat (h - u32RecvLen b) = n - l"
        using i uh n by (simp add: unat_sub_le word_le_nat_alt l_def)
      have gt: "\<not> h > 1000" using n uh by (simp add: word_less_nat_alt)
      have base: "ZC_AssemblePkt b d (of_nat (length d)) = (let b = b\<lparr>u8UartBuffer := m\<rparr> in
          if n \<le> length d + l then do {
            m \<leftarrow> memcpy m l d (n - l);
            Some (ZC_RET_OK, of_nat (length d) + u32RecvLen b - h, b\<lparr>u8UartBuffer := m, u32Status := 1, u32RecvLen := h\<rparr>)
          } else do {
            m \<leftarrow> memcpy m l d (length d);
            Some (ZC_RET_OK, 0, b\<lparr>u8UartBuffer := m, u32Status := 3, u32RecvLen := u32RecvLen b + of_nat (length d)\<rparr>)
          })"
        unfolding start using n gt le sub by (simp add: Let_def)
      show ?thesis
      proof (cases "n \<le> length d + l")
        case True
        have r: "reasm 12 uart_pkt_len (uart_got b @ d) =
            (ZC_RET_OK, True, take l (u8UartBuffer b) @ take (n - l) d, length d + l - n)"
          using True False i bnd by (simp add: reasm_uart got sm min_def)
        have left: "of_nat (length d) + u32RecvLen b - h = of_nat (length d + l - n)"
          using True uh of_nat_diff_unat [of h "length d + l"] by (simp add: l_def)
        show ?thesis unfolding uart_step_def base r using True i bnd uh m left
          by (simp add: memcpy_Some uart_inv_def uart_full_def uart_got_def)
      next
        case F: False
        have r: "reasm 12 uart_pkt_len (uart_got b @ d) = (ZC_RET_OK, False, take l (u8UartBuffer b) @ d, 0)"
          using F False i bnd by (simp add: reasm_uart got sm min_def)
        have t: "uart_pkt_len (take l (u8UartBuffer b) @ d @ xs) = Some n" for xs
          using uart_pkt_len_take [of 12 "take l (u8UartBuffer b) @ d @ xs"]
            uart_pkt_len_take [of 12 "take l (u8UartBuffer b) @ d"] False sm i by simp
        show ?thesis unfolding uart_step_def base r using F False i bnd s u m t
          by (simp add: memcpy_Some uart_inv_def uart_full_def uart_got_def)
      qed
    qed
  qed
qed

lemma uart_step_not_full:
  assumes "uart_inv b" "\<not> uart_full b" "length d \<le> recv_max"
  shows "uart_step b d"
proof -
  from assms consider "u32Status b = 0 \<and> u32RecvLen b = 0" | "u32Status b = 3" | "u32Status b = 2"
    by (auto simp: uart_inv_def uart_full_def)
  then show ?thesis
    using uart_step_idle [of b d] uart_step_head [OF assms(1) _ assms(3)]
      uart_step_nohead [OF assms(1) _ assms(3)] assms(1,3)
    by cases (auto simp: uart_inv_def)
qed

interpretation uart: reassembler 12 recv_max uart_pkt_len uart_Recv uart_full uart_got uart_inv
proof
  fix h n assume "uart_pkt_len h = Some n"
  then show "12 \<le> n" using uart_pkt_len_Some by blast
next
  fix b d assume "uart_full b"
  then show "uart_Recv b d = Some (ZC_RET_ERROR, b)"
    by (simp add: uart_Recv_def ZC_AssemblePkt_def uart_full_def)
next
  fix b and d :: bytes assume "uart_inv b" "\<not> uart_full b" "length d \<le> recv_max"
  from uart_step_not_full [OF this] show "\<exists>r b' f g k. uart_Recv b d = Some (r, b') \<and> uart_inv b' \<and>
      reasm 12 uart_pkt_len (uart_got b @ d) = (r, f, g, k) \<and> uart_full b' = f \<and> uart_got b' = g"
    unfolding uart_step_def uart_Recv_def by fastforce
qed

subsection \<open>Properties\<close>

text \<open>C19: Every call of \<^verbatim>\<open>ZC_AssemblePkt\<close> on a well-formed buffer stays inside the 1000 bytes and keeps
  the buffer well-formed; unless a packet is waiting, it does what \<open>reasm\<close> specifies for all bytes
  received so far: a wrong magic or an announced length above 1000 empties the buffer and is an
  error, a complete packet is held alone, and \<^verbatim>\<open>*pu32LeftLen\<close> is the number of bytes that follow it.\<close>

theorem ZC_AssemblePkt_correct:
  assumes "uart_inv b" "length d \<le> recv_max"
  shows "\<exists>r k b'. ZC_AssemblePkt b d (of_nat (length d)) = Some (r, of_nat k, b') \<and> uart_inv b' \<and>
    (if u32Status b = MSG_BUFFER_FULL then r = ZC_RET_ERROR \<and> b' = b \<and> k = 0
     else reasm 12 uart_pkt_len (uart_got b @ d) = (r, uart_full b', uart_got b', k))"
proof (cases "uart_full b")
  case True
  then have "ZC_AssemblePkt b d (of_nat (length d)) = Some (ZC_RET_ERROR, of_nat 0, b)"
    by (simp add: ZC_AssemblePkt_def uart_full_def)
  with True assms show ?thesis unfolding uart_full_def by fastforce
next
  case False
  from uart_step_not_full [OF assms(1) False assms(2)] False show ?thesis
    unfolding uart_step_def uart_full_def by fastforce
qed

lemma ZC_AssemblePkt_correct_witness:
  "\<exists>r k b'. ZC_AssemblePkt \<lparr>u32Status = 2, u32RecvLen = 2, u8UartBuffer = [2, 3] @ replicate 998 0\<rparr>
     [4, 5, 1, 0, 4, 0, 0, 0, 0, 0, 9, 9] (of_nat (length [4, 5, 1, 0, 4, 0, 0, 0, 0, 0, 9, 9 :: u8])) =
     Some (r, of_nat k, b') \<and> uart_inv b'"
proof -
  define b where "b = \<lparr>u32Status = 2, u32RecvLen = 2, u8UartBuffer = [2, 3] @ replicate 998 0 :: bytes\<rparr>"
  have "uart_inv b" by (simp add: b_def uart_inv_def)
  from ZC_AssemblePkt_correct [OF this, of "[4, 5, 1, 0, 4, 0, 0, 0, 0, 0, 9, 9]"] show ?thesis
    unfolding b_def [symmetric] by auto
qed

end
