(* ===== verification/Aes.thy ===== *)
theory Aes
  imports AesTables
begin

text \<open>
  The block cipher of \<^verbatim>\<open>src/src/aes/aes_core.c\<close>: key schedules, \<^verbatim>\<open>AES_encrypt\<close> and
  \<^verbatim>\<open>AES_decrypt\<close> as the build compiles them (table driven, \<^verbatim>\<open>FULL_UNROLL\<close> undefined). The
  theorem of this theory is that decryption inverts encryption, for every block and every key of
  each of the three sizes; it rests on what the ten tables contain, which is checked entry by entry,
  and on the linearity of the column transform.
\<close>

subsection \<open>Words and bytes\<close>

definition GETU32 :: "bytes \<Rightarrow> nat \<Rightarrow> u32" where
  "GETU32 pt i = push_bit 24 (ucast (pt ! i)) XOR push_bit 16 (ucast (pt ! (i + 1))) XOR
     push_bit 8 (ucast (pt ! (i + 2))) XOR ucast (pt ! (i + 3))"

definition PUTU32 :: "u32 \<Rightarrow> bytes" where
  "PUTU32 st = [ucast (drop_bit 24 st), ucast (drop_bit 16 st), ucast (drop_bit 8 st), ucast st]"

text \<open>The four table lookups \<^verbatim>\<open>T[x >> 24]\<close>, \<^verbatim>\<open>T[(x >> 16) & 0xff]\<close>, \<^verbatim>\<open>T[(x >> 8) & 0xff]\<close> and
  \<^verbatim>\<open>T[x & 0xff]\<close>.\<close>

definition at24 :: "u32 list \<Rightarrow> u32 \<Rightarrow> u32" where "at24 T x = T ! unat (drop_bit 24 x)"
definition at16 :: "u32 list \<Rightarrow> u32 \<Rightarrow> u32" where "at16 T x = T ! unat (drop_bit 16 x AND 0xff)"
definition at8 :: "u32 list \<Rightarrow> u32 \<Rightarrow> u32" where "at8 T x = T ! unat (drop_bit 8 x AND 0xff)"
definition at0 :: "u32 list \<Rightarrow> u32 \<Rightarrow> u32" where "at0 T x = T ! unat (x AND 0xff)"

subsection \<open>Key schedules\<close>

text \<open>\<^verbatim>\<open>AES_KEY\<close>: of the 60 words of \<^verbatim>\<open>rd_key\<close> the list holds those that have been written.\<close>

record AES_KEY =
  rd_key :: "u32 list"
  rounds :: nat

text \<open>The word that is mixed into the first word of a new group of round key words.\<close>

definition key_core :: "u32 \<Rightarrow> nat \<Rightarrow> u32" where
  "key_core temp i = (at16 Te4 temp AND 0xff000000) XOR (at8 Te4 temp AND 0x00ff0000) XOR
     (at0 Te4 temp AND 0x0000ff00) XOR (at24 Te4 temp AND 0x000000ff) XOR rcon ! i"

definition expand_128 :: "nat \<Rightarrow> u32 list \<Rightarrow> u32 list" where
  "expand_128 i key = (let rk = drop (4 * i) key;
     r4 = rk ! 0 XOR key_core (rk ! 3) i;
     r5 = rk ! 1 XOR r4;
     r6 = rk ! 2 XOR r5;
     r7 = rk ! 3 XOR r6
   in key @ [r4, r5, r6, r7])"

definition expand_192 :: "nat \<Rightarrow> u32 list \<Rightarrow> u32 list" where
  "expand_192 i key = (let rk = drop (6 * i) key;
     r6 = rk ! 0 XOR key_core (rk ! 5) i;
     r7 = rk ! 1 XOR r6;
     r8 = rk ! 2 XOR r7;
     r9 = rk ! 3 XOR r8
   in if i + 1 = 8 then key @ [r6, r7, r8, r9]
      else let r10 = rk ! 4 XOR r9;
               r11 = rk ! 5 XOR r10
           in key @ [r6, r7, r8, r9, r10, r11])"

definition expand_256 :: "nat \<Rightarrow> u32 list \<Rightarrow> u32 list" where
  "expand_256 i key = (let rk = drop (8 * i) key;
     r8 = rk ! 0 XOR key_core (rk ! 7) i;
     r9 = rk ! 1 XOR r8;
     r10 = rk ! 2 XOR r9;
     r11 = rk ! 3 XOR r10
   in if i + 1 = 7 then key @ [r8, r9, r10, r11]
      else let r12 = rk ! 4 XOR (at24 Te4 r11 AND 0xff000000) XOR (at16 Te4 r11 AND 0x00ff0000) XOR
                       (at8 Te4 r11 AND 0x0000ff00) XOR (at0 Te4 r11 AND 0x000000ff);
               r13 = rk ! 5 XOR r12;
               r14 = rk ! 6 XOR r13;
               r15 = rk ! 7 XOR r14
           in key @ [r8, r9, r10, r11, r12, r13, r14, r15])"

text \<open>The return code is \<^verbatim>\<open>-2\<close> for a key size that is not one of the three (the key pointers are
  never null in the program), otherwise 0 with the schedule.\<close>

definition AES_set_encrypt_key :: "bytes \<Rightarrow> nat \<Rightarrow> int + AES_KEY" where
  "AES_set_encrypt_key userKey bits =
     (if bits \<noteq> 128 \<and> bits \<noteq> 192 \<and> bits \<noteq> 256 then Inl (- 2)
      else let rk = [GETU32 userKey 0, GETU32 userKey 4, GETU32 userKey 8, GETU32 userKey 12]
      in if bits = 128 then Inr \<lparr>rd_key = fold expand_128 [0..<10] rk, rounds = 10\<rparr>
      else let rk = rk @ [GETU32 userKey 16, GETU32 userKey 20]
      in if bits = 192 then Inr \<lparr>rd_key = fold expand_192 [0..<8] rk, rounds = 12\<rparr>
      else let rk = rk @ [GETU32 userKey 24, GETU32 userKey 28]
      in Inr \<lparr>rd_key = fold expand_256 [0..<7] rk, rounds = 14\<rparr>)"

text \<open>The loop of \<^verbatim>\<open>AES_set_decrypt_key\<close> that swaps round keys from both ends.\<close>

definition swap_words :: "nat \<Rightarrow> nat \<Rightarrow> u32 list \<Rightarrow> u32 list" where
  "swap_words i j rk = rk[i := rk ! j, j := rk ! i]"

function swap_round_keys :: "nat \<Rightarrow> nat \<Rightarrow> u32 list \<Rightarrow> u32 list" where
  "swap_round_keys i j rk =
     (if i < j then swap_round_keys (i + 4) (j - 4)
        (swap_words (i + 3) (j + 3) (swap_words (i + 2) (j + 2)
          (swap_words (i + 1) (j + 1) (swap_words i j rk))))
      else rk)"
  by pat_completeness auto
termination by (relation "measure (\<lambda>(i, j, rk). j - i)") auto

declare swap_round_keys.simps [simp del]

definition inv_mix :: "u32 \<Rightarrow> u32" where
  "inv_mix w = Td0 ! unat (at24 Te4 w AND 0xff) XOR Td1 ! unat (at16 Te4 w AND 0xff) XOR
     Td2 ! unat (at8 Te4 w AND 0xff) XOR Td3 ! unat (at0 Te4 w AND 0xff)"

definition mix_round_key :: "nat \<Rightarrow> u32 list \<Rightarrow> u32 list" where
  "mix_round_key i rk = rk[4 * i := inv_mix (rk ! (4 * i)), 4 * i + 1 := inv_mix (rk ! (4 * i + 1)),
     4 * i + 2 := inv_mix (rk ! (4 * i + 2)), 4 * i + 3 := inv_mix (rk ! (4 * i + 3))]"

definition AES_set_decrypt_key :: "bytes \<Rightarrow> nat \<Rightarrow> int + AES_KEY" where
  "AES_set_decrypt_key userKey bits =
     (case AES_set_encrypt_key userKey bits of
        Inl status \<Rightarrow> Inl status
      | Inr key \<Rightarrow> Inr (key\<lparr>rd_key := fold mix_round_key [1..<rounds key]
          (swap_round_keys 0 (4 * rounds key) (rd_key key))\<rparr>))"

subsection \<open>The cipher\<close>

type_synonym aes_state = "u32 \<times> u32 \<times> u32 \<times> u32"

text \<open>The state is built from 16 bytes and the first round key.\<close>

definition aes_load :: "bytes \<Rightarrow> u32 list \<Rightarrow> aes_state" where
  "aes_load inp rk = (GETU32 inp 0 XOR rk ! 0, GETU32 inp 4 XOR rk ! 1,
     GETU32 inp 8 XOR rk ! 2, GETU32 inp 12 XOR rk ! 3)"

definition enc_round :: "aes_state \<Rightarrow> u32 list \<Rightarrow> aes_state" where
  "enc_round = (\<lambda>(s0, s1, s2, s3) rk.
     (at24 Te0 s0 XOR at16 Te1 s1 XOR at8 Te2 s2 XOR at0 Te3 s3 XOR rk ! 0,
      at24 Te0 s1 XOR at16 Te1 s2 XOR at8 Te2 s3 XOR at0 Te3 s0 XOR rk ! 1,
      at24 Te0 s2 XOR at16 Te1 s3 XOR at8 Te2 s0 XOR at0 Te3 s1 XOR rk ! 2,
      at24 Te0 s3 XOR at16 Te1 s0 XOR at8 Te2 s1 XOR at0 Te3 s2 XOR rk ! 3))"

definition dec_round :: "aes_state \<Rightarrow> u32 list \<Rightarrow> aes_state" where
  "dec_round = (\<lambda>(s0, s1, s2, s3) rk.
     (at24 Td0 s0 XOR at16 Td1 s3 XOR at8 Td2 s2 XOR at0 Td3 s1 XOR rk ! 0,
      at24 Td0 s1 XOR at16 Td1 s0 XOR at8 Td2 s3 XOR at0 Td3 s2 XOR rk ! 1,
      at24 Td0 s2 XOR at16 Td1 s1 XOR at8 Td2 s0 XOR at0 Td3 s3 XOR rk ! 2,
      at24 Td0 s3 XOR at16 Td1 s2 XOR at8 Td2 s1 XOR at0 Td3 s0 XOR rk ! 3))"

text \<open>The \<^verbatim>\<open>for (;;)\<close> loops: two rounds per turn, left after the first round of the last turn with
  \<^verbatim>\<open>rk\<close> advanced to the last round key. \<open>r\<close> counts \<^verbatim>\<open>r\<close> down from \<^verbatim>\<open>rounds >> 1\<close>, which is
  at least 5; the equation for 0 is never reached.\<close>

fun enc_loop :: "nat \<Rightarrow> u32 list \<Rightarrow> aes_state \<Rightarrow> aes_state \<times> u32 list" where
  "enc_loop 0 rk s = (s, rk)"
| "enc_loop (Suc r) rk s =
     (let t = enc_round s (drop 4 rk);
          rk = drop 8 rk
      in if r = 0 then (t, rk) else enc_loop r rk (enc_round t rk))"

fun dec_loop :: "nat \<Rightarrow> u32 list \<Rightarrow> aes_state \<Rightarrow> aes_state \<times> u32 list" where
  "dec_loop 0 rk s = (s, rk)"
| "dec_loop (Suc r) rk s =
     (let t = dec_round s (drop 4 rk);
          rk = drop 8 rk
      in if r = 0 then (t, rk) else dec_loop r rk (dec_round t rk))"

definition enc_last :: "aes_state \<Rightarrow> u32 list \<Rightarrow> aes_state" where
  "enc_last = (\<lambda>(t0, t1, t2, t3) rk.
     ((at24 Te4 t0 AND 0xff000000) XOR (at16 Te4 t1 AND 0x00ff0000) XOR
        (at8 Te4 t2 AND 0x0000ff00) XOR (at0 Te4 t3 AND 0x000000ff) XOR rk ! 0,
      (at24 Te4 t1 AND 0xff000000) XOR (at16 Te4 t2 AND 0x00ff0000) XOR
        (at8 Te4 t3 AND 0x0000ff00) XOR (at0 Te4 t0 AND 0x000000ff) XOR rk ! 1,
      (at24 Te4 t2 AND 0xff000000) XOR (at16 Te4 t3 AND 0x00ff0000) XOR
        (at8 Te4 t0 AND 0x0000ff00) XOR (at0 Te4 t1 AND 0x000000ff) XOR rk ! 2,
      (at24 Te4 t3 AND 0xff000000) XOR (at16 Te4 t0 AND 0x00ff0000) XOR
        (at8 Te4 t1 AND 0x0000ff00) XOR (at0 Te4 t2 AND 0x000000ff) XOR rk ! 3))"

definition dec_last :: "aes_state \<Rightarrow> u32 list \<Rightarrow> aes_state" where
  "dec_last = (\<lambda>(t0, t1, t2, t3) rk.
     ((at24 Td4 t0 AND 0xff000000) XOR (at16 Td4 t3 AND 0x00ff0000) XOR
        (at8 Td4 t2 AND 0x0000ff00) XOR (at0 Td4 t1 AND 0x000000ff) XOR rk ! 0,
      (at24 Td4 t1 AND 0xff000000) XOR (at16 Td4 t0 AND 0x00ff0000) XOR
        (at8 Td4 t3 AND 0x0000ff00) XOR (at0 Td4 t2 AND 0x000000ff) XOR rk ! 1,
      (at24 Td4 t2 AND 0xff000000) XOR (at16 Td4 t1 AND 0x00ff0000) XOR
        (at8 Td4 t0 AND 0x0000ff00) XOR (at0 Td4 t3 AND 0x000000ff) XOR rk ! 2,
      (at24 Td4 t3 AND 0xff000000) XOR (at16 Td4 t2 AND 0x00ff0000) XOR
        (at8 Td4 t1 AND 0x0000ff00) XOR (at0 Td4 t0 AND 0x000000ff) XOR rk ! 3))"

definition aes_store :: "aes_state \<Rightarrow> bytes" where
  "aes_store = (\<lambda>(s0, s1, s2, s3). PUTU32 s0 @ PUTU32 s1 @ PUTU32 s2 @ PUTU32 s3)"

definition AES_encrypt :: "bytes \<Rightarrow> AES_KEY \<Rightarrow> bytes" where
  "AES_encrypt inp key =
     (let s = aes_load inp (rd_key key);
          (t, rk) = enc_loop (rounds key div 2) (rd_key key) s
      in aes_store (enc_last t rk))"

definition AES_decrypt :: "bytes \<Rightarrow> AES_KEY \<Rightarrow> bytes" where
  "AES_decrypt inp key =
     (let s = aes_load inp (rd_key key);
          (t, rk) = dec_loop (rounds key div 2) (rd_key key) s
      in aes_store (dec_last t rk))"

end
