(* ===== verification/Cbc.thy ===== *)
theory Cbc
  imports Aes
begin

text \<open>
  The block chaining of \<^verbatim>\<open>src/src/aes/aes_cbc.c\<close> with the padding the firmware adds: every
  plaintext is extended by 1 to 16 bytes that hold their number. A pointer argument is the list of
  the bytes from the pointer to the end of its object.
\<close>

definition xor_block :: "bytes \<Rightarrow> bytes \<Rightarrow> bytes" where
  "xor_block a b = map2 (XOR) a b"

subsection \<open>Encryption\<close>

text \<open>The loop over whole blocks and the padded last block of \<^verbatim>\<open>AES_cbc_core\<close> with \<^verbatim>\<open>enc\<close> set.
  The previous ciphertext block is the next vector. In place (\<^verbatim>\<open>in == out\<close>) the same bytes are
  written, as every block is read before it is overwritten.\<close>

function cbc_encrypt :: "AES_KEY \<Rightarrow> bytes \<Rightarrow> bytes \<Rightarrow> bytes" where
  "cbc_encrypt key iv inp =
     (if 16 \<le> length inp then
        let out = AES_encrypt (xor_block (take 16 inp) iv) key
        in out @ cbc_encrypt key out (drop 16 inp)
      else if 0 < length inp then
        let paddingLen = 16 - length inp
        in AES_encrypt (xor_block (inp @ replicate paddingLen (of_nat paddingLen)) iv) key
      else AES_encrypt (xor_block (replicate 16 16) iv) key)"
  by pat_completeness auto
termination by (relation "measure (\<lambda>(key, iv, inp). length inp)") auto

declare cbc_encrypt.simps [simp del]

definition cbc_padding :: "u32 \<Rightarrow> u32" where
  "cbc_padding len = (let r = len mod 16 in if r \<noteq> 0 then 16 - r else 16)"

subsection \<open>Decryption\<close>

text \<open>The branch \<^verbatim>\<open>in != out\<close>: the bytes written to \<^verbatim>\<open>out\<close>. A last partial block is decrypted from
  16 bytes of the input object, of which only the first \<^verbatim>\<open>len\<close> were announced.\<close>

function cbc_decrypt :: "AES_KEY \<Rightarrow> bytes \<Rightarrow> bytes \<Rightarrow> nat \<Rightarrow> bytes option" where
  "cbc_decrypt key iv inp len =
     (if 16 \<le> len then do {
        blk \<leftarrow> rd inp 0 16;
        rest \<leftarrow> cbc_decrypt key blk (drop 16 inp) (len - 16);
        Some (xor_block (AES_decrypt blk key) iv @ rest)
      } else if 0 < len then do {
        blk \<leftarrow> rd inp 0 16;
        Some (take len (xor_block (AES_decrypt blk key) iv))
      } else Some [])"
  by pat_completeness auto
termination by (relation "measure (\<lambda>(key, iv, inp, len). len)") auto

declare cbc_decrypt.simps [simp del]

text \<open>The branch \<^verbatim>\<open>in == out\<close>: also returns the final vector; a partial block rewrites all 16 bytes.
  The third component is the last byte below \<^verbatim>\<open>len\<close>.\<close>

function cbc_decrypt_inplace :: "AES_KEY \<Rightarrow> bytes \<Rightarrow> bytes \<Rightarrow> nat \<Rightarrow> (bytes \<times> bytes) option" where
  "cbc_decrypt_inplace key ivec inp len =
     (if 16 \<le> len then do {
        tmp \<leftarrow> rd inp 0 16;
        (rest, ivec') \<leftarrow> cbc_decrypt_inplace key tmp (drop 16 inp) (len - 16);
        Some (xor_block (AES_decrypt tmp key) ivec @ rest, ivec')
      } else if 0 < len then do {
        tmp \<leftarrow> rd inp 0 16;
        Some (take len (xor_block (AES_decrypt tmp key) ivec) @ drop len tmp, tmp)
      } else Some ([], ivec))"
  by pat_completeness auto
termination by (relation "measure (\<lambda>(key, ivec, inp, len). len)") auto

declare cbc_decrypt_inplace.simps [simp del]

subsection \<open>The interface\<close>

text \<open>An unsupported key length leaves \<^verbatim>\<open>struKey\<close> uninitialised.\<close>

definition AES_CBC_Encrypt ::
  "bytes \<Rightarrow> u32 \<Rightarrow> bytes \<Rightarrow> u32 \<Rightarrow> bytes \<Rightarrow> (bytes \<times> u32) option" where
  "AES_CBC_Encrypt PlainText PlainTextLength Key KeyLength IV = do {
     k \<leftarrow> rd Key 0 (unat KeyLength);
     struKey \<leftarrow> (case AES_set_encrypt_key k (unat (KeyLength * 8)) of Inr key \<Rightarrow> Some key | Inl _ \<Rightarrow> None);
     iv \<leftarrow> rd IV 0 16;
     inp \<leftarrow> rd PlainText 0 (unat PlainTextLength);
     Some (cbc_encrypt struKey iv inp, PlainTextLength + cbc_padding PlainTextLength) }"

text \<open>The output length is the input length less the last byte written, which for an empty input
  is the byte before the output buffer.\<close>

definition AES_CBC_Decrypt ::
  "bytes \<Rightarrow> u32 \<Rightarrow> bytes \<Rightarrow> u32 \<Rightarrow> bytes \<Rightarrow> (bytes \<times> u32) option" where
  "AES_CBC_Decrypt CipherText CipherTextLength Key KeyLength IV = do {
     k \<leftarrow> rd Key 0 (unat KeyLength);
     struKey \<leftarrow> (case AES_set_decrypt_key k (unat (KeyLength * 8)) of Inr key \<Rightarrow> Some key | Inl _ \<Rightarrow> None);
     iv \<leftarrow> rd IV 0 16;
     out \<leftarrow> cbc_decrypt struKey iv CipherText (unat CipherTextLength);
     if out = [] then None
     else Some (out, CipherTextLength - ucast (last out)) }"

text \<open>The same with the plaintext written over the ciphertext; the vector is updated.\<close>

definition AES_CBC_Decrypt_inplace ::
  "bytes \<Rightarrow> u32 \<Rightarrow> bytes \<Rightarrow> u32 \<Rightarrow> bytes \<Rightarrow> (bytes \<times> bytes \<times> u32) option" where
  "AES_CBC_Decrypt_inplace CipherText CipherTextLength Key KeyLength IV = do {
     k \<leftarrow> rd Key 0 (unat KeyLength);
     struKey \<leftarrow> (case AES_set_decrypt_key k (unat (KeyLength * 8)) of Inr key \<Rightarrow> Some key | Inl _ \<Rightarrow> None);
     iv \<leftarrow> rd IV 0 16;
     (out, iv') \<leftarrow> cbc_decrypt_inplace struKey iv CipherText (unat CipherTextLength);
     if unat CipherTextLength = 0 then None
     else Some (out, iv', CipherTextLength - ucast (out ! (unat CipherTextLength - 1))) }"

end
