(* ===== verification/State.thy ===== *)
theory State
  imports Wire MsgQueue UartAsm Cbc
begin

text \<open>
  The global state of the firmware: the protocol controller, the configuration database, the timer
  table, the message buffers and queues, the device side and the record of what has been done to the
  outside world. Every operation of the component theories is a function on \<open>world\<close>.

  What the firmware calls and does not contain (the SDK of the Wi-Fi module, the sockets, the RSA
  library) is the parameter \<open>sdk\<close> of the operations. An answer of the outside world may depend on
  everything done to it before, so each function of \<open>sdk\<close> takes the list of events so far, latest
  first. \<open>sdk_junk\<close> supplies the bytes of a local variable that the code uses uninitialised.
\<close>

subsection \<open>Events and the outside world\<close>

datatype event =
    E_tcp_send u32 bytes
  | E_udp_send u32 bytes
  | E_uart_send bytes
  | E_flash_erase
  | E_flash_write bytes
  | E_userbin_write nat bytes
  | E_timer_create u8 u32
  | E_timer_start u32
  | E_timer_stop u32
  | E_timer_delete u32
  | E_update_start
  | E_update_write u32 bytes
  | E_update_complete u32
  | E_rand
  | E_gethostbyname bytes
  | E_socket
  | E_connect u32 u16
  | E_close u32
  | E_rsa
  | E_at_cmd bytes
  | E_reboot
  | E_reload
  | E_smartlink_start
  | E_jd_send u8 "u32 list"
  | E_userbin_read nat
  | E_bind u32 u16
  | E_nvm_write u32
  | E_smt_timeout_thread

text \<open>The parts of \<^verbatim>\<open>rsa_context\<close> that the firmware fills in. The RSA functions answer with their
  return value, the value of \<^verbatim>\<open>olen\<close> (decryption) and the bytes they write.\<close>

record rsa_public =
  rsa_N :: bytes
  rsa_E :: bytes

record rsa_private =
  rsa_PN :: bytes
  rsa_P :: bytes
  rsa_Q :: bytes
  rsa_DP :: bytes
  rsa_DQ :: bytes
  rsa_QP :: bytes

record sdk =
  sdk_rand :: "event list \<Rightarrow> u32"
  sdk_update_write :: "event list \<Rightarrow> int"
  sdk_update_complete :: "event list \<Rightarrow> int"
  sdk_gethostbyname :: "event list \<Rightarrow> u32 option"
  sdk_socket :: "event list \<Rightarrow> int"
  sdk_connect :: "event list \<Rightarrow> int"
  sdk_timer_create :: "event list \<Rightarrow> u32"
  sdk_flash_read :: "event list \<Rightarrow> nat \<Rightarrow> nat \<Rightarrow> bytes"
  sdk_rsa_encrypt :: "event list \<Rightarrow> rsa_public \<Rightarrow> bytes \<Rightarrow> int \<times> bytes"
  sdk_rsa_decrypt :: "event list \<Rightarrow> rsa_private \<Rightarrow> bytes \<Rightarrow> nat \<Rightarrow> int \<times> int \<times> bytes"
  sdk_at_reply :: "event list \<Rightarrow> bytes"
  sdk_nready_high :: "event list \<Rightarrow> bool"
  sdk_userbin_read :: "event list \<Rightarrow> nat \<Rightarrow> nat \<Rightarrow> bytes"
  sdk_reset_reason :: "event list \<Rightarrow> u32"
  sdk_junk :: "event list \<Rightarrow> nat \<Rightarrow> u8"

subsection \<open>The configuration database\<close>

record ZC_SwitchInfo =
  u32TraceSwitch :: u32
  u32SecSwitch :: u32
  u32WifiConfig :: u32
  u32ServerAddrConfig :: u32
  sw_Ssid :: bytes
  sw_Password :: bytes
  u32ServerIp :: u32
  u16ServerPort :: u16
  sw_Pad :: u16

record ZC_CloudInfo =
  u8CloudKey :: bytes
  u8CloudAddr :: bytes
  u8TokenKey :: bytes

record ZC_RegisterInfo =
  u8PrivateKey :: bytes
  u8DeviciId :: bytes
  u8EqVersion :: bytes

record ZC_ConnectionInfo =
  conn_MagicFlag :: u32
  conn_Ssid :: bytes
  conn_Password :: bytes

record ZC_JdInfo =
  jd_MagicFlag :: u32
  u8Feedid :: bytes

record ZC_DeviceInfo =
  u32UnBindFlag :: u32

record ZC_ConfigDB =
  u32MagicFlag :: u32
  struConnection :: ZC_ConnectionInfo
  struCloudInfo :: ZC_CloudInfo
  struSwitchInfo :: ZC_SwitchInfo
  struJdInfo :: ZC_JdInfo
  struDeviceInfo :: ZC_DeviceInfo

subsection \<open>The protocol controller\<close>

text \<open>A pointer to a message buffer names one of the four global buffers.\<close>

datatype buf_id = RecvBuf | RetxBuf | ClientBuf | SendBuf

record PTC_Connection =
  u32Socket :: u32
  u8IpType :: u8
  u8ConnectionType :: u8
  u16Port :: u16
  u32ConnectionTimes :: u32

record PTC_OtaInfo =
  u32TotalLen :: u32
  u32RecvOffset :: u32
  u8Crc :: "u8 \<times> u8"

record PTC_ProtocolCon =
  u8MainState :: u8
  u8keyRecv :: u8
  u8ReconnectTimer :: u8
  u8AccessTimer :: u8
  u8SendUnbindTimer :: u8
  u8HeartTimer :: u8
  u8SendMoudleTimer :: u8
  u8RegisterTimer :: u8
  u8ReSendMoudleNum :: u8
  pu8SendMoudleBuffer :: "buf_id option"
  struCloudConnection :: PTC_Connection
  struClientConnection :: PTC_Connection
  u8SessionKey :: bytes
  IvSend :: bytes
  IvRecv :: bytes
  RandMsg :: bytes
  u16SendBcNum :: u16
  struOtaInfo :: PTC_OtaInfo

subsection \<open>Timers, clients, device side\<close>

record ZC_Timer =
  tm_Status :: u8
  tm_Type :: u8
  tm_Timer :: "nat option"

record HF_TimerInfo =
  u32FirstFlag :: u32
  struHandle :: u32

record ZC_ClientInfo =
  u8ClientStates :: u8
  u32ClientBusyId :: u8
  u32ClientVaildFlag :: "u32 list"
  u32ClientFd :: "u32 list"

text \<open>The serial receiver of \<^verbatim>\<open>main.c\<close> and the device message buffer of \<^verbatim>\<open>ac_hal.c\<close>.\<close>

record uart_device =
  g_curtype :: u8
  g_recvdata :: u8
  g_u8CurPktLen :: u8
  g_u8recv_data :: bytes
  g_u8DevMsgBuildBuffer :: bytes
  uart_send_MsgId :: u8
  g_u32CloudStatus :: u32
  g_u32WifiPowerStatus :: u32
  SUB_DOMAIN_ID :: u16

record broadcaster =
  g_Bcfd :: u32
  g_Jdfd :: u32
  g_u32GloablIp :: u32
  g_u32BcSleepCount :: u32
  sleepcount :: u32

record world =
  g_struProtocolController :: PTC_ProtocolCon
  g_struZcConfigDb :: ZC_ConfigDB
  g_struRegisterInfo :: ZC_RegisterInfo
  g_struTimer :: "ZC_Timer list"
  g_struHfTimer :: "HF_TimerInfo list"
  g_struRecvBuffer :: MSG_Buffer
  g_struRetxBuffer :: MSG_Buffer
  g_struClientBuffer :: MSG_Buffer
  g_struSendBuffer :: MSG_Buffer
  g_struRecvQueue :: "buf_id MSG_Queue"
  g_struSendQueue :: "buf_id MSG_Queue"
  g_u8MsgBuildBuffer :: bytes
  g_struUartBuffer :: ZC_UartBuffer
  g_struClientInfo :: ZC_ClientInfo
  g_u32StopJdTask :: u32
  device :: uart_device
  bc :: broadcaster
  io :: "event list"

subsection \<open>Access to the parts\<close>

abbreviation con :: "world \<Rightarrow> PTC_ProtocolCon" where
  "con \<equiv> g_struProtocolController"

abbreviation upd_con :: "(PTC_ProtocolCon \<Rightarrow> PTC_ProtocolCon) \<Rightarrow> world \<Rightarrow> world" where
  "upd_con \<equiv> g_struProtocolController_update"

abbreviation upd_cfg :: "(ZC_ConfigDB \<Rightarrow> ZC_ConfigDB) \<Rightarrow> world \<Rightarrow> world" where
  "upd_cfg \<equiv> g_struZcConfigDb_update"

abbreviation upd_dev :: "(uart_device \<Rightarrow> uart_device) \<Rightarrow> world \<Rightarrow> world" where
  "upd_dev \<equiv> device_update"

abbreviation (input) set_state :: "u8 \<Rightarrow> world \<Rightarrow> world" where
  "set_state s \<equiv> upd_con (u8MainState_update (\<lambda>_. s))"

abbreviation (input) set_keyRecv :: "u8 \<Rightarrow> world \<Rightarrow> world" where
  "set_keyRecv k \<equiv> upd_con (u8keyRecv_update (\<lambda>_. k))"

abbreviation main_state :: "world \<Rightarrow> u8" where
  "main_state w \<equiv> u8MainState (con w)"

abbreviation key_recv :: "world \<Rightarrow> u8" where
  "key_recv w \<equiv> u8keyRecv (con w)"

definition emit :: "event \<Rightarrow> world \<Rightarrow> world" where
  "emit e w = w\<lparr>io := e # io w\<rparr>"

definition get_buf :: "buf_id \<Rightarrow> world \<Rightarrow> MSG_Buffer" where
  "get_buf p w = (case p of RecvBuf \<Rightarrow> g_struRecvBuffer w | RetxBuf \<Rightarrow> g_struRetxBuffer w
     | ClientBuf \<Rightarrow> g_struClientBuffer w | SendBuf \<Rightarrow> g_struSendBuffer w)"

definition upd_buf :: "buf_id \<Rightarrow> (MSG_Buffer \<Rightarrow> MSG_Buffer) \<Rightarrow> world \<Rightarrow> world" where
  "upd_buf p f = (case p of RecvBuf \<Rightarrow> g_struRecvBuffer_update f | RetxBuf \<Rightarrow> g_struRetxBuffer_update f
     | ClientBuf \<Rightarrow> g_struClientBuffer_update f | SendBuf \<Rightarrow> g_struSendBuffer_update f)"

text \<open>\<^verbatim>\<open>pstruBuffer->u32Len = 0; pstruBuffer->u8Status = MSG_BUFFER_IDLE;\<close>.\<close>

definition buf_idle :: "MSG_Buffer \<Rightarrow> MSG_Buffer" where
  "buf_idle b = b\<lparr>u32Len := 0, u8Status := MSG_BUFFER_IDLE\<rparr>"

subsection \<open>Constants\<close>

abbreviation (input) PCT_STATE_SLEEP :: u8 where "PCT_STATE_SLEEP \<equiv> 0"
abbreviation (input) PCT_STATE_INIT :: u8 where "PCT_STATE_INIT \<equiv> 1"
abbreviation (input) PCT_STATE_ACCESS_NET :: u8 where "PCT_STATE_ACCESS_NET \<equiv> 2"
abbreviation (input) PCT_STATE_WAIT_ACCESS :: u8 where "PCT_STATE_WAIT_ACCESS \<equiv> 3"
abbreviation (input) PCT_STATE_WAIT_ACCESSRSP :: u8 where "PCT_STATE_WAIT_ACCESSRSP \<equiv> 4"
abbreviation (input) PCT_STATE_WAIT_MSG4 :: u8 where "PCT_STATE_WAIT_MSG4 \<equiv> 5"
abbreviation (input) PCT_STATE_CONNECT_CLOUD :: u8 where "PCT_STATE_CONNECT_CLOUD \<equiv> 6"
abbreviation (input) PCT_STATE_WAIT_UNBIND :: u8 where "PCT_STATE_WAIT_UNBIND \<equiv> 7"
abbreviation (input) PCT_STATE_DISCONNECT_CLOUD :: u8 where "PCT_STATE_DISCONNECT_CLOUD \<equiv> 8"

abbreviation (input) PCT_TIMER_RECONNECT :: u8 where "PCT_TIMER_RECONNECT \<equiv> 0"
abbreviation (input) PCT_TIMER_REACCESS :: u8 where "PCT_TIMER_REACCESS \<equiv> 1"
abbreviation (input) PCT_TIMER_SENDMOUDLE :: u8 where "PCT_TIMER_SENDMOUDLE \<equiv> 2"
abbreviation (input) PCT_TIMER_SENDHEART :: u8 where "PCT_TIMER_SENDHEART \<equiv> 3"
abbreviation (input) PCT_TIMER_REGISTER :: u8 where "PCT_TIMER_REGISTER \<equiv> 4"
abbreviation (input) PCT_TIMER_SENDUBIND :: u8 where "PCT_TIMER_SENDUBIND \<equiv> 5"

abbreviation (input) PCT_TIMER_INVAILD :: u8 where "PCT_TIMER_INVAILD \<equiv> 0xFF"
abbreviation (input) PCT_KEY_UNRECVED :: u8 where "PCT_KEY_UNRECVED \<equiv> 0"
abbreviation (input) PCT_KEY_RECVED :: u8 where "PCT_KEY_RECVED \<equiv> 1"
abbreviation (input) PCT_INVAILD_SOCKET :: u32 where "PCT_INVAILD_SOCKET \<equiv> 0xFFFFFFFF"
abbreviation (input) ZC_MAGIC_FLAG :: u32 where "ZC_MAGIC_FLAG \<equiv> 0x04083207"
abbreviation (input) ZC_CLOUD_PORT :: u16 where "ZC_CLOUD_PORT \<equiv> 9100"
abbreviation (input) ZC_SERVER_PORT :: u16 where "ZC_SERVER_PORT \<equiv> 9689"
abbreviation (input) ZC_SEC_ALG_NONE :: u8 where "ZC_SEC_ALG_NONE \<equiv> 0"
abbreviation (input) ZC_SEC_ALG_RSA :: u8 where "ZC_SEC_ALG_RSA \<equiv> 1"
abbreviation (input) ZC_SEC_ALG_AES :: u8 where "ZC_SEC_ALG_AES \<equiv> 2"
abbreviation (input) ZC_TIMER_STATUS_IDLE :: u8 where "ZC_TIMER_STATUS_IDLE \<equiv> 0"
abbreviation (input) ZC_TIMER_STATUS_USED :: u8 where "ZC_TIMER_STATUS_USED \<equiv> 1"

text \<open>An array element, undefined out of range.\<close>

definition nth_opt :: "'a list \<Rightarrow> nat \<Rightarrow> 'a option" where
  "nth_opt xs i = (if i < length xs then Some (xs ! i) else None)"

definition upd_opt :: "'a list \<Rightarrow> nat \<Rightarrow> 'a \<Rightarrow> 'a list option" where
  "upd_opt xs i x = (if i < length xs then Some (xs[i := x]) else None)"

lemma upd_buf_io [simp]: "io (upd_buf p f w) = io w"
  by (cases p) (simp_all add: upd_buf_def)

lemma emit_simps [simp]:
  "io (emit e w) = e # io w" "con (emit e w) = con w" "g_struZcConfigDb (emit e w) = g_struZcConfigDb w"
  "g_struRegisterInfo (emit e w) = g_struRegisterInfo w" "g_struTimer (emit e w) = g_struTimer w"
  "g_struHfTimer (emit e w) = g_struHfTimer w" "g_struRecvBuffer (emit e w) = g_struRecvBuffer w"
  "g_struRetxBuffer (emit e w) = g_struRetxBuffer w" "g_struClientBuffer (emit e w) = g_struClientBuffer w"
  "g_struSendBuffer (emit e w) = g_struSendBuffer w" "g_struRecvQueue (emit e w) = g_struRecvQueue w"
  "g_struSendQueue (emit e w) = g_struSendQueue w" "g_u8MsgBuildBuffer (emit e w) = g_u8MsgBuildBuffer w"
  "g_struUartBuffer (emit e w) = g_struUartBuffer w" "g_struClientInfo (emit e w) = g_struClientInfo w"
  "g_u32StopJdTask (emit e w) = g_u32StopJdTask w" "device (emit e w) = device w" "bc (emit e w) = bc w"
  by (simp_all add: emit_def)

subsection \<open>The state before the first statement\<close>

text \<open>C zeroes static storage; the initialised variables are \<^verbatim>\<open>SUB_DOMAIN_ID\<close> and
  \<^verbatim>\<open>g_u32BcSleepCount\<close>. Index fields of the queues are null pointers.\<close>

definition zero_buffer :: MSG_Buffer where
  "zero_buffer = \<lparr>u32Len = 0, u8Status = 0, u8MsgBuffer = replicate MSG_BUFFER_MAXLEN 0\<rparr>"

definition zero_queue :: "buf_id MSG_Queue" where
  "zero_queue = \<lparr>pstruHead = None, pstruTail = None,
     struQueue = replicate 3 \<lparr>pstruNext = None, pu8Msg = None\<rparr>\<rparr>"

definition zero_connection :: PTC_Connection where
  "zero_connection = \<lparr>u32Socket = 0, u8IpType = 0, u8ConnectionType = 0, u16Port = 0, u32ConnectionTimes = 0\<rparr>"

definition zero_controller :: PTC_ProtocolCon where
  "zero_controller = \<lparr>u8MainState = 0, u8keyRecv = 0, u8ReconnectTimer = 0, u8AccessTimer = 0,
     u8SendUnbindTimer = 0, u8HeartTimer = 0, u8SendMoudleTimer = 0, u8RegisterTimer = 0,
     u8ReSendMoudleNum = 0, pu8SendMoudleBuffer = None, struCloudConnection = zero_connection,
     struClientConnection = zero_connection, u8SessionKey = replicate 16 0, IvSend = replicate 16 0,
     IvRecv = replicate 16 0, RandMsg = replicate 32 0, u16SendBcNum = 0,
     struOtaInfo = \<lparr>u32TotalLen = 0, u32RecvOffset = 0, u8Crc = (0, 0)\<rparr>\<rparr>"

definition zero_db :: ZC_ConfigDB where
  "zero_db = \<lparr>u32MagicFlag = 0,
     struConnection = \<lparr>conn_MagicFlag = 0, conn_Ssid = replicate 32 0, conn_Password = replicate 64 0\<rparr>,
     struCloudInfo = \<lparr>u8CloudKey = replicate 36 0, u8CloudAddr = replicate 20 0, u8TokenKey = replicate 16 0\<rparr>,
     struSwitchInfo = \<lparr>u32TraceSwitch = 0, u32SecSwitch = 0, u32WifiConfig = 0, u32ServerAddrConfig = 0,
       sw_Ssid = replicate 32 0, sw_Password = replicate 64 0, u32ServerIp = 0, u16ServerPort = 0, sw_Pad = 0\<rparr>,
     struJdInfo = \<lparr>jd_MagicFlag = 0, u8Feedid = replicate 64 0\<rparr>,
     struDeviceInfo = \<lparr>u32UnBindFlag = 0\<rparr>\<rparr>"

definition zero_world :: world where
  "zero_world = \<lparr>g_struProtocolController = zero_controller, g_struZcConfigDb = zero_db,
     g_struRegisterInfo = \<lparr>u8PrivateKey = replicate 112 0, u8DeviciId = replicate 24 0, u8EqVersion = replicate 4 0\<rparr>,
     g_struTimer = replicate 5 \<lparr>tm_Status = 0, tm_Type = 0, tm_Timer = None\<rparr>,
     g_struHfTimer = replicate 5 \<lparr>u32FirstFlag = 0, struHandle = 0\<rparr>,
     g_struRecvBuffer = zero_buffer, g_struRetxBuffer = zero_buffer, g_struClientBuffer = zero_buffer,
     g_struSendBuffer = zero_buffer, g_struRecvQueue = zero_queue, g_struSendQueue = zero_queue,
     g_u8MsgBuildBuffer = replicate MSG_BULID_BUFFER_MAXLEN 0,
     g_struUartBuffer = \<lparr>u32Status = 0, u32RecvLen = 0, u8UartBuffer = replicate 1000 0\<rparr>,
     g_struClientInfo = \<lparr>u8ClientStates = 0, u32ClientBusyId = 0, u32ClientVaildFlag = replicate 4 0,
       u32ClientFd = replicate 4 0\<rparr>,
     g_u32StopJdTask = 0,
     device = \<lparr>g_curtype = 0, g_recvdata = 0, g_u8CurPktLen = 0, g_u8recv_data = replicate 50 0,
       g_u8DevMsgBuildBuffer = replicate 50 0, uart_send_MsgId = 0, g_u32CloudStatus = 0,
       g_u32WifiPowerStatus = 0, SUB_DOMAIN_ID = 0xFFFF\<rparr>,
     bc = \<lparr>g_Bcfd = 0, g_Jdfd = 0, g_u32GloablIp = 0, g_u32BcSleepCount = 800, sleepcount = 0\<rparr>,
     io = []\<rparr>"

text \<open>An outside world for concrete runs: every call succeeds, files and random numbers are zero.\<close>

definition quiet_sdk :: sdk where
  "quiet_sdk = \<lparr>sdk_rand = \<lambda>_. 0, sdk_update_write = \<lambda>_. 0, sdk_update_complete = \<lambda>_. 0,
     sdk_gethostbyname = \<lambda>_. Some 0, sdk_socket = \<lambda>_. 3, sdk_connect = \<lambda>_. 0, sdk_timer_create = \<lambda>_. 0,
     sdk_flash_read = \<lambda>_ _ n. replicate n 0,
     sdk_rsa_encrypt = \<lambda>_ _ _. (0, replicate 32 0), sdk_rsa_decrypt = \<lambda>_ _ _ _. (0, 0, []),
     sdk_at_reply = \<lambda>_. replicate 16 48, sdk_nready_high = \<lambda>_. True,
     sdk_userbin_read = \<lambda>_ _ n. replicate n 0, sdk_reset_reason = \<lambda>_. 0, sdk_junk = \<lambda>_ _. 0\<rparr>"

end
