(* ===== verification/Config.thy ===== *)
theory Config
  imports State
begin

text \<open>
  The configuration database: \<^verbatim>\<open>src/src/ZC/src/zc/zc_configuration.c\<close> and the flash access of
  \<^verbatim>\<open>src/src/zc_hf_adpter.c\<close>, in the branch that the project files select (\<^verbatim>\<open>__LPB100__\<close>: the
  flash page is erased and written). The flash image is the byte layout of the structure, so a database
  that is written comes back unchanged when it is read after a reboot.
\<close>

subsection \<open>Defaults\<close>

definition g_u8DefaultCloudKey :: bytes where
  "g_u8DefaultCloudKey =
    [0xb8, 0xd9, 0x35, 0xe4, 0xd6, 0xd8, 0xf2, 0xd6, 0xc8, 0x28, 0x2f, 0x9f,
     0xd9, 0x62, 0x48, 0xc7, 0x96, 0xa9, 0xed, 0x5b, 0x5a, 0x1a, 0x95, 0x59,
     0xd2, 0x3c, 0xbb, 0x5f, 0x1b, 0x03, 0x07, 0x3f, 0x01, 0x00, 0x01, 0x00]"

definition g_u8DefaultTokenKey :: bytes where
  "g_u8DefaultTokenKey = [1, 2, 3, 4, 5, 5, 5, 5, 5, 5, 5, 5, 5, 5, 5, 5]"

text \<open>\<^verbatim>\<open>"device.ablecloud.cn"\<close> with its terminator.\<close>

definition default_cloud_addr :: bytes where
  "default_cloud_addr =
    [100, 101, 118, 105, 99, 101, 46, 97, 98, 108, 101, 99, 108, 111, 117, 100, 46, 99, 110, 0]"

subsection \<open>The flash image\<close>

definition ConfigDB_bytes :: "ZC_ConfigDB \<Rightarrow> bytes" where
  "ConfigDB_bytes db = le32_bytes (u32MagicFlag db) @
     (let c = struConnection db in le32_bytes (conn_MagicFlag c) @ conn_Ssid c @ conn_Password c) @
     (let c = struCloudInfo db in u8CloudKey c @ u8CloudAddr c @ u8TokenKey c) @
     (let s = struSwitchInfo db in le32_bytes (u32TraceSwitch s) @ le32_bytes (u32SecSwitch s) @
        le32_bytes (u32WifiConfig s) @ le32_bytes (u32ServerAddrConfig s) @ sw_Ssid s @ sw_Password s @
        le32_bytes (u32ServerIp s) @ le16_bytes (u16ServerPort s) @ le16_bytes (sw_Pad s)) @
     (let j = struJdInfo db in le32_bytes (jd_MagicFlag j) @ u8Feedid j) @
     le32_bytes (u32UnBindFlag (struDeviceInfo db))"

definition fld :: "bytes \<Rightarrow> nat \<Rightarrow> nat \<Rightarrow> bytes" where
  "fld bs off n = take n (drop off bs)"

definition fld32 :: "bytes \<Rightarrow> nat \<Rightarrow> u32" where
  "fld32 bs off = le32 (bs ! off) (bs ! (off + 1)) (bs ! (off + 2)) (bs ! (off + 3))"

definition fld16 :: "bytes \<Rightarrow> nat \<Rightarrow> u16" where
  "fld16 bs off = le16 (bs ! off) (bs ! (off + 1))"

definition ConfigDB_of :: "bytes \<Rightarrow> ZC_ConfigDB" where
  "ConfigDB_of bs = \<lparr>u32MagicFlag = fld32 bs 0,
     struConnection = \<lparr>conn_MagicFlag = fld32 bs 4, conn_Ssid = fld bs 8 32, conn_Password = fld bs 40 64\<rparr>,
     struCloudInfo = \<lparr>u8CloudKey = fld bs 104 36, u8CloudAddr = fld bs 140 20, u8TokenKey = fld bs 160 16\<rparr>,
     struSwitchInfo = \<lparr>u32TraceSwitch = fld32 bs 176, u32SecSwitch = fld32 bs 180,
       u32WifiConfig = fld32 bs 184, u32ServerAddrConfig = fld32 bs 188, sw_Ssid = fld bs 192 32,
       sw_Password = fld bs 224 64, u32ServerIp = fld32 bs 288, u16ServerPort = fld16 bs 292,
       sw_Pad = fld16 bs 294\<rparr>,
     struJdInfo = \<lparr>jd_MagicFlag = fld32 bs 296, u8Feedid = fld bs 300 64\<rparr>,
     struDeviceInfo = \<lparr>u32UnBindFlag = fld32 bs 364\<rparr>\<rparr>"

text \<open>The lengths of the arrays.\<close>

definition wf_db :: "ZC_ConfigDB \<Rightarrow> bool" where
  "wf_db db \<longleftrightarrow> length (conn_Ssid (struConnection db)) = 32 \<and> length (conn_Password (struConnection db)) = 64 \<and>
     length (u8CloudKey (struCloudInfo db)) = 36 \<and> length (u8CloudAddr (struCloudInfo db)) = 20 \<and>
     length (u8TokenKey (struCloudInfo db)) = 16 \<and> length (sw_Ssid (struSwitchInfo db)) = 32 \<and>
     length (sw_Password (struSwitchInfo db)) = 64 \<and> length (u8Feedid (struJdInfo db)) = 64"

definition wf_reg :: "ZC_RegisterInfo \<Rightarrow> bool" where
  "wf_reg r \<longleftrightarrow> length (u8PrivateKey r) = 112 \<and> length (u8DeviciId r) = 24 \<and> length (u8EqVersion r) = 4"

definition HF_WriteDataToFlash :: "bytes \<Rightarrow> world \<Rightarrow> world" where
  "HF_WriteDataToFlash pu8Data w = emit (E_flash_write pu8Data) (emit E_flash_erase w)"

text \<open>\<^verbatim>\<open>pfunWriteFlash((u8* )&g_struZcConfigDb, sizeof(ZC_ConfigDB))\<close>.\<close>

definition write_db :: "world \<Rightarrow> world" where
  "write_db w = HF_WriteDataToFlash (ConfigDB_bytes (g_struZcConfigDb w)) w"

definition HF_ReadDataFormFlash :: "sdk \<Rightarrow> world \<Rightarrow> world" where
  "HF_ReadDataFormFlash S w =
     (if fld32 (sdk_flash_read S (io w) 0 4) 0 = ZC_MAGIC_FLAG
      then w\<lparr>g_struZcConfigDb := ConfigDB_of (sdk_flash_read S (io w) 0 368)\<rparr> else w)"

subsection \<open>Operations\<close>

text \<open>\<^verbatim>\<open>ZC_ResetAccessInfo\<close> writes the user file, not the flash page.\<close>

definition ZC_ResetAccessInfo :: "world \<Rightarrow> world" where
  "ZC_ResetAccessInfo w =
     (let w = upd_cfg (\<lambda>db. db\<lparr>struConnection := (struConnection db)\<lparr>conn_MagicFlag := ZC_MAGIC_FLAG\<rparr>,
            struSwitchInfo := (struSwitchInfo db)\<lparr>u32ServerAddrConfig := 0\<rparr>\<rparr>) w
      in emit (E_userbin_write 0 (ConfigDB_bytes (g_struZcConfigDb w))) w)"

definition ZC_ConfigInitPara :: "world \<Rightarrow> world" where
  "ZC_ConfigInitPara w = upd_cfg (\<lambda>db. db\<lparr>u32MagicFlag := ZC_MAGIC_FLAG,
     struSwitchInfo := (struSwitchInfo db)\<lparr>u32SecSwitch := 1, u32TraceSwitch := 0, u32WifiConfig := 0,
       u32ServerAddrConfig := 0, u16ServerPort := ZC_CLOUD_PORT\<rparr>,
     struCloudInfo := \<lparr>u8CloudKey = g_u8DefaultCloudKey, u8CloudAddr = default_cloud_addr,
       u8TokenKey = g_u8DefaultTokenKey\<rparr>,
     struJdInfo := \<lparr>jd_MagicFlag = 0xFFFFFFFF, u8Feedid = replicate 64 0\<rparr>,
     struConnection := (struConnection db)\<lparr>conn_MagicFlag := 0xFFFFFFFF\<rparr>\<rparr>) w"

text \<open>\<open>ZC_Configuration\<close>: 176 bytes.\<close>

definition ZC_ConfigPara :: "bytes \<Rightarrow> nat \<Rightarrow> world \<Rightarrow> world option" where
  "ZC_ConfigPara m off w = do {
     c \<leftarrow> rd m off 176;
     Some (write_db (upd_cfg (\<lambda>db. db\<lparr>
       struSwitchInfo := (struSwitchInfo db)\<lparr>u32SecSwitch := ZC_HTONL (fld32 c 4),
         u32TraceSwitch := ZC_HTONL (fld32 c 0), u32WifiConfig := ZC_HTONL (fld32 c 8),
         u32ServerAddrConfig := ZC_HTONL (fld32 c 12), u32ServerIp := ZC_HTONL (fld32 c 112),
         u16ServerPort := ZC_HTONS (fld16 c 172), sw_Password := fld c 48 64, sw_Ssid := fld c 16 32\<rparr>,
       struCloudInfo := (struCloudInfo db)\<lparr>u8CloudAddr := fld c 116 20, u8CloudKey := fld c 136 36\<rparr>\<rparr>) w)) }"

text \<open>The body of \<^verbatim>\<open>HF_GetMac\<close> is compiled out: the twelve bytes stay uninitialised.\<close>

definition HF_GetMac :: "sdk \<Rightarrow> world \<Rightarrow> bytes" where
  "HF_GetMac S w = map (sdk_junk S (io w)) [0..<12]"

text \<open>\<open>ZC_RegisterReq\<close>: version 4, module key 112, domain 8, device id 16.\<close>

definition ZC_StoreRegisterInfo :: "sdk \<Rightarrow> bytes \<Rightarrow> nat \<Rightarrow> u8 \<Rightarrow> world \<Rightarrow> world option" where
  "ZC_StoreRegisterInfo S m off u8RegisterFlag w = do {
     q \<leftarrow> rd m off (if u8RegisterFlag \<noteq> 0 then 124 else 140);
     let did = (if u8RegisterFlag \<noteq> 0 then replicate 4 48 @ HF_GetMac S w else fld q 124 16);
     Some (w\<lparr>g_struRegisterInfo := \<lparr>u8PrivateKey = fld q 4 112, u8DeviciId = did @ fld q 116 8,
       u8EqVersion = fld q 0 4\<rparr>\<rparr>) }"

definition ZC_StoreTokenKey :: "bytes \<Rightarrow> nat \<Rightarrow> world \<Rightarrow> world option" where
  "ZC_StoreTokenKey m off w = do {
     k \<leftarrow> rd m off 16;
     Some (write_db (upd_cfg (struCloudInfo_update (u8TokenKey_update (\<lambda>_. k))) w)) }"

definition ZC_StoreConnectionInfo :: "bytes \<Rightarrow> bytes \<Rightarrow> world \<Rightarrow> world option" where
  "ZC_StoreConnectionInfo pu8Ssid pu8Password w = do {
     s \<leftarrow> rd pu8Ssid 0 32;
     p \<leftarrow> rd pu8Password 0 64;
     Some (write_db (upd_cfg (struConnection_update
       (\<lambda>_. \<lparr>conn_MagicFlag = ZC_MAGIC_FLAG, conn_Ssid = s, conn_Password = p\<rparr>)) w)) }"

definition ZC_StoreAccessInfo :: "bytes \<Rightarrow> bytes \<Rightarrow> world \<Rightarrow> world option" where
  "ZC_StoreAccessInfo pu8ServerIp pu8ServerPort w = do {
     a \<leftarrow> rd pu8ServerIp 0 4;
     p \<leftarrow> rd pu8ServerPort 0 2;
     Some (write_db (upd_cfg (\<lambda>db. db\<lparr>
       struConnection := (struConnection db)\<lparr>conn_MagicFlag := ZC_MAGIC_FLAG\<rparr>,
       struSwitchInfo := (struSwitchInfo db)\<lparr>u32ServerAddrConfig := 1, u32ServerIp := fld32 a 0,
         u16ServerPort := fld16 p 0\<rparr>\<rparr>) w)) }"

text \<open>The magic flag is set after the database has been written.\<close>

definition ZC_StoreFeedInfo :: "bytes \<Rightarrow> world \<Rightarrow> world option" where
  "ZC_StoreFeedInfo pu8FeedId w = do {
     f \<leftarrow> rd pu8FeedId 0 64;
     Some (upd_cfg (struJdInfo_update (jd_MagicFlag_update (\<lambda>_. ZC_MAGIC_FLAG)))
       (write_db (upd_cfg (struJdInfo_update (u8Feedid_update (\<lambda>_. f))) w))) }"

definition ZC_ConfigUnBind :: "u32 \<Rightarrow> world \<Rightarrow> world" where
  "ZC_ConfigUnBind flag w =
     write_db (upd_cfg (struDeviceInfo_update (u32UnBindFlag_update (\<lambda>_. flag))) w)"

text \<open>\<^verbatim>\<open>ZC_GetStoreInfor\<close> hands out a pointer to one of the arrays; for another type the caller's
  pointer stays uninitialised.\<close>

abbreviation (input) ZC_GET_TYPE_CLOUDKEY :: u8 where "ZC_GET_TYPE_CLOUDKEY \<equiv> 0"
abbreviation (input) ZC_GET_TYPE_DEVICEID :: u8 where "ZC_GET_TYPE_DEVICEID \<equiv> 1"
abbreviation (input) ZC_GET_TYPE_PRIVATEKEY :: u8 where "ZC_GET_TYPE_PRIVATEKEY \<equiv> 2"
abbreviation (input) ZC_GET_TYPE_VESION :: u8 where "ZC_GET_TYPE_VESION \<equiv> 3"
abbreviation (input) ZC_GET_TYPE_TOKENKEY :: u8 where "ZC_GET_TYPE_TOKENKEY \<equiv> 4"

definition ZC_GetStoreInfor :: "u8 \<Rightarrow> world \<Rightarrow> bytes option" where
  "ZC_GetStoreInfor u8Type w =
     (if u8Type = ZC_GET_TYPE_CLOUDKEY then Some (u8CloudKey (struCloudInfo (g_struZcConfigDb w)))
      else if u8Type = ZC_GET_TYPE_DEVICEID then Some (u8DeviciId (g_struRegisterInfo w))
      else if u8Type = ZC_GET_TYPE_PRIVATEKEY then Some (u8PrivateKey (g_struRegisterInfo w))
      else if u8Type = ZC_GET_TYPE_VESION then Some (u8EqVersion (g_struRegisterInfo w))
      else if u8Type = ZC_GET_TYPE_TOKENKEY then Some (u8TokenKey (struCloudInfo (g_struZcConfigDb w)))
      else None)"

subsection \<open>What is written comes back\<close>

lemma le16_take [simp]: "le16 (le16_bytes n ! 0) (le16_bytes n ! Suc 0) = n"
  by (simp add: le16_bytes_def)

lemma le32_take [simp]:
  "le32 (le32_bytes n ! 0) (le32_bytes n ! Suc 0) (le32_bytes n ! 2) (le32_bytes n ! 3) = n"
  "le32 (le32_bytes n ! 0) (le32_bytes n ! Suc 0) (le32_bytes n ! Suc (Suc 0)) (le32_bytes n ! 3) = n"
  by (simp_all add: le32_bytes_def)

lemma length_ConfigDB_bytes [simp]: "wf_db db \<Longrightarrow> length (ConfigDB_bytes db) = 368"
  by (simp add: wf_db_def ConfigDB_bytes_def Let_def)

lemma fld32_ConfigDB_magic [simp]: "fld32 (take 4 (ConfigDB_bytes db)) 0 = u32MagicFlag db"
  by (simp add: ConfigDB_bytes_def fld32_def nth_append)

lemma ConfigDB_roundtrip:
  assumes "wf_db db"
  shows "ConfigDB_of (ConfigDB_bytes db) = db"
  using assms
  by (cases db; cases "struConnection db"; cases "struCloudInfo db"; cases "struSwitchInfo db";
      cases "struJdInfo db"; cases "struDeviceInfo db")
    (simp add: wf_db_def ConfigDB_of_def ConfigDB_bytes_def Let_def fld_def fld32_def fld16_def nth_append)

text \<open>The flash page as the events leave it: the last image written since the page was erased.\<close>

fun flash_image :: "event list \<Rightarrow> bytes option" where
  "flash_image [] = None"
| "flash_image (E_flash_write bs # es) = Some bs"
| "flash_image (E_flash_erase # es) = None"
| "flash_image (_ # es) = flash_image es"

text \<open>The documented behaviour of \<^verbatim>\<open>hfuflash_read\<close>: it returns the bytes that were written.\<close>

definition flash_spec :: "sdk \<Rightarrow> bool" where
  "flash_spec S \<longleftrightarrow> (\<forall>es bs off n. flash_image es = Some bs \<longrightarrow> off + n \<le> length bs \<longrightarrow>
     sdk_flash_read S es off n = take n (drop off bs))"

fun flash_free :: "event \<Rightarrow> bool" where
  "flash_free (E_flash_write _) = False"
| "flash_free E_flash_erase = False"
| "flash_free _ = True"

lemma flash_image_free: "list_all flash_free es \<Longrightarrow> flash_image (es @ es') = flash_image es'"
proof (induction es)
  case (Cons e es)
  then show ?case by (cases e) simp_all
qed simp

lemma write_db_simps [simp]:
  "g_struZcConfigDb (write_db w) = g_struZcConfigDb w"
  "flash_image (io (write_db w)) = Some (ConfigDB_bytes (g_struZcConfigDb w))"
  by (simp_all add: write_db_def HF_WriteDataToFlash_def)

lemma HF_ReadDataFormFlash_image:
  assumes "flash_spec S" "flash_image (io w) = Some (ConfigDB_bytes db)" "wf_db db"
    "u32MagicFlag db = ZC_MAGIC_FLAG"
  shows "g_struZcConfigDb (HF_ReadDataFormFlash S w) = db"
proof -
  have r: "sdk_flash_read S (io w) 0 n = take n (ConfigDB_bytes db)" if "n \<le> 368" for n
    using assms(1) [unfolded flash_spec_def, rule_format, OF assms(2), of 0 n] that assms(3) by simp
  show ?thesis
    using assms(3,4) by (simp add: HF_ReadDataFormFlash_def r ConfigDB_roundtrip)
qed

subsection \<open>Stored configuration survives a restart\<close>

text \<open>The operations that store a part of the database.\<close>

datatype config_op =
    Store_Para bytes nat
  | Store_TokenKey bytes nat
  | Store_Connection bytes bytes
  | Store_Access bytes bytes
  | Store_UnBind u32

fun run_config_op :: "config_op \<Rightarrow> world \<Rightarrow> world option" where
  "run_config_op (Store_Para m off) w = ZC_ConfigPara m off w"
| "run_config_op (Store_TokenKey m off) w = ZC_StoreTokenKey m off w"
| "run_config_op (Store_Connection s p) w = ZC_StoreConnectionInfo s p w"
| "run_config_op (Store_Access a p) w = ZC_StoreAccessInfo a p w"
| "run_config_op (Store_UnBind f) w = Some (ZC_ConfigUnBind f w)"

fun run_config_ops :: "config_op list \<Rightarrow> world \<Rightarrow> world option" where
  "run_config_ops [] w = Some w"
| "run_config_ops (c # cs) w = do { w \<leftarrow> run_config_op c w; run_config_ops cs w }"

definition db_ok :: "world \<Rightarrow> bool" where
  "db_ok w \<longleftrightarrow> wf_db (g_struZcConfigDb w) \<and> u32MagicFlag (g_struZcConfigDb w) = ZC_MAGIC_FLAG"

definition db_synced :: "world \<Rightarrow> bool" where
  "db_synced w \<longleftrightarrow> flash_image (io w) = Some (ConfigDB_bytes (g_struZcConfigDb w))"

lemma length_fld: "off + n \<le> length bs \<Longrightarrow> length (fld bs off n) = n"
  by (simp add: fld_def)

lemma run_config_op_ok:
  "run_config_op c w = Some w' \<Longrightarrow> db_ok w \<Longrightarrow> db_ok w' \<and> db_synced w'"
  by (cases c) (auto simp: ZC_ConfigPara_def ZC_StoreTokenKey_def ZC_StoreConnectionInfo_def
      ZC_StoreAccessInfo_def ZC_ConfigUnBind_def bind_eq_Some_conv db_ok_def db_synced_def wf_db_def
      rd_eq_Some length_fld)

lemma run_config_ops_ok:
  "run_config_ops cs w = Some w' \<Longrightarrow> db_ok w \<Longrightarrow> cs \<noteq> [] \<or> db_synced w \<Longrightarrow> db_ok w' \<and> db_synced w'"
proof (induction cs arbitrary: w)
  case (Cons c cs)
  then obtain w1 where 1: "run_config_op c w = Some w1" "run_config_ops cs w1 = Some w'"
    by (auto simp: bind_eq_Some_conv)
  from run_config_op_ok [OF 1(1) Cons.prems(2)] Cons.IH [OF 1(2)] show ?case by blast
qed simp

lemma ZC_ConfigInitPara_ok: "wf_db (g_struZcConfigDb w) \<Longrightarrow> db_ok (ZC_ConfigInitPara w)"
  by (simp add: ZC_ConfigInitPara_def db_ok_def wf_db_def g_u8DefaultCloudKey_def
      default_cloud_addr_def g_u8DefaultTokenKey_def)

text \<open>A concrete flash: the image, and erased bytes where there is none.\<close>

definition flash_sdk :: sdk where
  "flash_sdk = quiet_sdk\<lparr>sdk_flash_read := \<lambda>es off n.
     (case flash_image es of Some bs \<Rightarrow> take n (drop off bs) | None \<Rightarrow> replicate n 0xFF)\<rparr>"

lemma flash_sdk_spec: "flash_spec flash_sdk"
  by (simp add: flash_spec_def flash_sdk_def)

lemma wf_zero_db: "wf_db (g_struZcConfigDb zero_world)"
  by (simp add: zero_world_def zero_db_def wf_db_def)



text \<open>The feed id is the exception: \<^verbatim>\<open>ZC_StoreFeedInfo\<close> writes the flash before it sets the magic
  flag of the feed record, so a restarted module finds the new feed id with the old magic flag.\<close>

lemma ZC_StoreFeedInfo_flag_lost:
  assumes "flash_spec S" and "db_ok w" and "ZC_StoreFeedInfo f w = Some w1" and "io w2 = io w1"
  shows "g_struZcConfigDb (HF_ReadDataFormFlash S w2) =
    struJdInfo_update (jd_MagicFlag_update (\<lambda>_. jd_MagicFlag (struJdInfo (g_struZcConfigDb w))))
      (g_struZcConfigDb w1)"
proof -
  let ?db = "struJdInfo_update (u8Feedid_update (\<lambda>_. take 64 f)) (g_struZcConfigDb w)"
  from assms(3) have l: "64 \<le> length f" and
    w1: "w1 = upd_cfg (struJdInfo_update (jd_MagicFlag_update (\<lambda>_. ZC_MAGIC_FLAG)))
       (write_db (upd_cfg (struJdInfo_update (u8Feedid_update (\<lambda>_. take 64 f))) w))"
    by (auto simp: ZC_StoreFeedInfo_def bind_eq_Some_conv rd_eq_Some)
  have "g_struZcConfigDb (HF_ReadDataFormFlash S w2) = ?db"
    using assms(2) l
    by (intro HF_ReadDataFormFlash_image [OF assms(1)]) (simp_all add: assms(4) w1 db_ok_def wf_db_def)
  then show ?thesis by (simp add: w1)
qed

end
