(* ===== verification/Slots.thy ===== *)
theory Slots
  imports Prelude
begin

text \<open>
  The contract of a table with a fixed number of slots, which the timers (\<^verbatim>\<open>zc_timer.c\<close>) and the
  local clients (\<^verbatim>\<open>zc_client_manager.c\<close>) share: an allocation takes an unused slot and fails only when
  there is none, a release gives back the slots it names.
\<close>

datatype ('a, 'k) slot_op = Alloc 'a | Free 'k

locale slot_table =
  fixes cap :: nat
    and inv :: "'s \<Rightarrow> bool"
    and used :: "'s \<Rightarrow> nat set"
    and slots :: "'k \<Rightarrow> 's \<Rightarrow> nat set"
    and alloc :: "'a \<Rightarrow> 's \<Rightarrow> u32 \<times> 's"
    and free :: "'k \<Rightarrow> 's \<Rightarrow> 's option"
  assumes used_bound: "inv s \<Longrightarrow> used s \<subseteq> {..<cap}"
    and alloc_ok: "inv s \<Longrightarrow> alloc a s = (ZC_RET_OK, s') \<Longrightarrow>
      inv s' \<and> (\<exists>i < cap. i \<notin> used s \<and> used s' = insert i (used s))"
    and alloc_fail: "inv s \<Longrightarrow> alloc a s = (r, s') \<Longrightarrow> r \<noteq> ZC_RET_OK \<Longrightarrow> s' = s \<and> used s = {..<cap}"
    and free_ok: "inv s \<Longrightarrow> free k s = Some s' \<Longrightarrow> inv s' \<and> used s' = used s - slots k s"
begin

lemma used_finite: "inv s \<Longrightarrow> finite (used s)"
  using used_bound finite_subset by blast

lemma used_le: "inv s \<Longrightarrow> card (used s) \<le> cap"
  using card_mono [OF _ used_bound] by simp

text \<open>An allocation is refused exactly when every slot is in use.\<close>

lemma alloc_refused_iff:
  assumes "inv s"
  shows "fst (alloc a s) \<noteq> ZC_RET_OK \<longleftrightarrow> card (used s) = cap"
proof
  assume "fst (alloc a s) \<noteq> ZC_RET_OK"
  then show "card (used s) = cap"
    using alloc_fail [OF assms] by (cases "alloc a s") auto
next
  assume c: "card (used s) = cap"
  show "fst (alloc a s) \<noteq> ZC_RET_OK"
  proof
    assume "fst (alloc a s) = ZC_RET_OK"
    then obtain i where "i < cap" "i \<notin> used s"
      using alloc_ok [OF assms] by (metis prod.collapse)
    moreover have "used s = {..<cap}"
      using used_bound [OF assms] c by (intro card_subset_eq) auto
    ultimately show False by simp
  qed
qed

lemma alloc_card:
  assumes "inv s" "alloc a s = (ZC_RET_OK, s')"
  shows "inv s' \<and> card (used s') = Suc (card (used s))"
  using alloc_ok [OF assms] used_finite [OF assms(1)] by auto

text \<open>Any sequence of operations, and the return codes of its allocations.\<close>

fun run_slots :: "('a, 'k) slot_op list \<Rightarrow> 's \<Rightarrow> (u32 list \<times> 's) option" where
  "run_slots [] s = Some ([], s)"
| "run_slots (Alloc a # ops) s = (case alloc a s of (r, s') \<Rightarrow>
     map_option (\<lambda>(rs, t). (r # rs, t)) (run_slots ops s'))"
| "run_slots (Free k # ops) s = Option.bind (free k s) (run_slots ops)"

lemma alloc_inv: "inv s \<Longrightarrow> alloc a s = (r, s') \<Longrightarrow> inv s'"
  using alloc_ok alloc_fail by (cases "r = ZC_RET_OK") blast+

lemma run_slots_inv: "inv s \<Longrightarrow> run_slots ops s = Some (rs, t) \<Longrightarrow> inv t"
proof (induction ops s arbitrary: rs t rule: run_slots.induct)
  case (2 a ops s)
  then show ?case using alloc_inv by (auto split: prod.splits)
next
  case (3 k ops s)
  then show ?case using free_ok by (auto simp: bind_eq_Some_conv)
qed simp

text \<open>Without a release in between, allocations succeed until the table is full and are refused from
  then on.\<close>

lemma run_slots_allocs:
  assumes "inv s"
  shows "\<exists>rs t. run_slots (map Alloc as) s = Some (rs, t) \<and> inv t \<and>
    (\<forall>i < length as. rs ! i = ZC_RET_OK \<longleftrightarrow> card (used s) + i < cap) \<and> length rs = length as"
  using assms
proof (induction as arbitrary: s)
  case (Cons a as)
  obtain r s' where a: "alloc a s = (r, s')" by fastforce
  obtain rs t where IH: "run_slots (map Alloc as) s' = Some (rs, t)" "inv t" "length rs = length as"
    "\<forall>i < length as. rs ! i = ZC_RET_OK \<longleftrightarrow> card (used s') + i < cap"
    using Cons.IH [OF alloc_inv [OF Cons.prems a]] by blast
  have r: "r = ZC_RET_OK \<longleftrightarrow> card (used s) < cap"
    using alloc_refused_iff [OF Cons.prems, of a] used_le [OF Cons.prems] a by auto
  have c: "card (used s') = (if r = ZC_RET_OK then Suc (card (used s)) else card (used s))"
    using alloc_card [OF Cons.prems, of a s'] alloc_fail [OF Cons.prems a] a by auto
  have "(r # rs) ! i = ZC_RET_OK \<longleftrightarrow> card (used s) + i < cap" if "i < length (a # as)" for i
    using that r c IH(4) by (cases i) auto
  then show ?case using a IH by auto
qed simp

end

end
