(* ===== verification/Timers.thy ===== *)
theory Timers
  imports Config Slots
begin

text \<open>
  The timer table of \<^verbatim>\<open>src/src/ZC/src/zc/zc_timer.c\<close> with the timer functions of
  \<^verbatim>\<open>src/src/zc_hf_adpter.c\<close>. \<^verbatim>\<open>TIMER_TimeoutAction\<close> and \<^verbatim>\<open>HF_timer_callback\<close>, which call back into
  the protocol controller, are in \<open>Pct\<close>.
\<close>

definition TIMER_Init :: "world \<Rightarrow> world" where
  "TIMER_Init w = w\<lparr>g_struTimer := map (tm_Status_update (\<lambda>_. ZC_TIMER_STATUS_IDLE)) (g_struTimer w)\<rparr>"

text \<open>The loop of \<^verbatim>\<open>TIMER_FindIdleTimer\<close>; \<^term>\<open>None\<close> is \<^verbatim>\<open>ZC_RET_ERROR\<close>.\<close>

fun find_idle :: "ZC_Timer list \<Rightarrow> nat \<Rightarrow> nat option" where
  "find_idle [] i = None"
| "find_idle (t # ts) i = (if tm_Status t = ZC_TIMER_STATUS_IDLE then Some i else find_idle ts (Suc i))"

definition TIMER_FindIdleTimer :: "world \<Rightarrow> nat option" where
  "TIMER_FindIdleTimer w = find_idle (g_struTimer w) 0"

text \<open>\<^verbatim>\<open>pu8Timer\<close> always points to the entry of \<^verbatim>\<open>g_struHfTimer\<close> with the same index.\<close>

definition TIMER_AllocateTimer :: "u8 \<Rightarrow> nat \<Rightarrow> nat \<Rightarrow> world \<Rightarrow> world" where
  "TIMER_AllocateTimer u8Type i pu8Timer w = w\<lparr>g_struTimer := (g_struTimer w)
     [i := \<lparr>tm_Status = ZC_TIMER_STATUS_USED, tm_Type = u8Type, tm_Timer = Some pu8Timer\<rparr>]\<rparr>"

definition TIMER_GetTimerStatus :: "u8 \<Rightarrow> world \<Rightarrow> u8 option" where
  "TIMER_GetTimerStatus u8TimerIndex w = map_option tm_Status (nth_opt (g_struTimer w) (unat u8TimerIndex))"

definition HF_StopTimer :: "u8 \<Rightarrow> world \<Rightarrow> world option" where
  "HF_StopTimer u8TimerIndex w = do {
     t \<leftarrow> nth_opt (g_struHfTimer w) (unat u8TimerIndex);
     Some (emit (E_timer_delete (struHandle t)) (emit (E_timer_stop (struHandle t)) w)) }"

definition TIMER_StopTimer :: "u8 \<Rightarrow> world \<Rightarrow> world option" where
  "TIMER_StopTimer u8TimerIndex w = do {
     t \<leftarrow> nth_opt (g_struTimer w) (unat u8TimerIndex);
     HF_StopTimer u8TimerIndex (w\<lparr>g_struTimer := (g_struTimer w)
       [unat u8TimerIndex := t\<lparr>tm_Status := ZC_TIMER_STATUS_IDLE\<rparr>]\<rparr>) }"

text \<open>\<^verbatim>\<open>pu8TimeIndex\<close> always points to one of the timer fields of the controller.\<close>

datatype timer_var = V_Reconnect | V_Access | V_SendUnbind | V_Heart | V_SendMoudle | V_Register

fun put_timer :: "timer_var \<Rightarrow> u8 \<Rightarrow> PTC_ProtocolCon \<Rightarrow> PTC_ProtocolCon" where
  "put_timer V_Reconnect i c = c\<lparr>u8ReconnectTimer := i\<rparr>"
| "put_timer V_Access i c = c\<lparr>u8AccessTimer := i\<rparr>"
| "put_timer V_SendUnbind i c = c\<lparr>u8SendUnbindTimer := i\<rparr>"
| "put_timer V_Heart i c = c\<lparr>u8HeartTimer := i\<rparr>"
| "put_timer V_SendMoudle i c = c\<lparr>u8SendMoudleTimer := i\<rparr>"
| "put_timer V_Register i c = c\<lparr>u8RegisterTimer := i\<rparr>"

definition HF_SetTimer :: "sdk \<Rightarrow> u8 \<Rightarrow> u32 \<Rightarrow> timer_var \<Rightarrow> world \<Rightarrow> u32 \<times> world" where
  "HF_SetTimer S u8Type u32Interval pu8TimeIndex w = (case TIMER_FindIdleTimer w of
     None \<Rightarrow> (ZC_RET_ERROR, w)
   | Some i \<Rightarrow>
      let w = TIMER_AllocateTimer u8Type i i w;
          h = sdk_timer_create S (io w);
          w = emit (E_timer_create (of_nat i) u32Interval) w;
          w = w\<lparr>g_struHfTimer := (g_struHfTimer w)[i := \<lparr>u32FirstFlag = 1, struHandle = h\<rparr>]\<rparr>;
          w = emit (E_timer_start h) w
      in (ZC_RET_OK, upd_con (put_timer pu8TimeIndex (of_nat i)) w))"

subsection \<open>The table\<close>

definition timer_inv :: "world \<Rightarrow> bool" where
  "timer_inv w \<longleftrightarrow> length (g_struTimer w) = 5 \<and> length (g_struHfTimer w) = 5"

definition timer_used :: "world \<Rightarrow> nat set" where
  "timer_used w = {i. i < length (g_struTimer w) \<and> tm_Status (g_struTimer w ! i) \<noteq> ZC_TIMER_STATUS_IDLE}"

lemma find_idle_None: "find_idle ts k = None \<longleftrightarrow> (\<forall>t \<in> set ts. tm_Status t \<noteq> ZC_TIMER_STATUS_IDLE)"
  by (induction ts k rule: find_idle.induct) auto

lemma find_idle_Some:
  "find_idle ts k = Some i \<Longrightarrow> k \<le> i \<and> i - k < length ts \<and> tm_Status (ts ! (i - k)) = ZC_TIMER_STATUS_IDLE \<and>
     (\<forall>j < i - k. tm_Status (ts ! j) \<noteq> ZC_TIMER_STATUS_IDLE)"
proof (induction ts k rule: find_idle.induct)
  case (2 t ts k)
  show ?case
  proof (cases "tm_Status t = ZC_TIMER_STATUS_IDLE")
    case False
    with 2 have IH: "Suc k \<le> i" "i - Suc k < length ts" "tm_Status (ts ! (i - Suc k)) = ZC_TIMER_STATUS_IDLE"
      "\<forall>j < i - Suc k. tm_Status (ts ! j) \<noteq> ZC_TIMER_STATUS_IDLE" by auto
    then have "i - k = Suc (i - Suc k)" by simp
    with IH False show ?thesis by (auto simp: less_Suc_eq_0_disj)
  qed (use 2 in auto)
qed simp

lemma HF_SetTimer_fail:
  "HF_SetTimer S t n p w = (r, w') \<Longrightarrow> r \<noteq> ZC_RET_OK \<Longrightarrow> w' = w \<and> timer_used w = {..<length (g_struTimer w)}"
  by (auto simp: HF_SetTimer_def TIMER_FindIdleTimer_def find_idle_None timer_used_def Let_def
      split: option.splits)

lemma HF_SetTimer_ok:
  assumes "HF_SetTimer S t n p w = (ZC_RET_OK, w')"
  shows "\<exists>i < length (g_struTimer w). i \<notin> timer_used w \<and> (\<forall>j < i. j \<in> timer_used w) \<and>
    g_struTimer w' = (g_struTimer w)[i := \<lparr>tm_Status = ZC_TIMER_STATUS_USED, tm_Type = t, tm_Timer = Some i\<rparr>] \<and>
    length (g_struHfTimer w') = length (g_struHfTimer w) \<and> con w' = put_timer p (of_nat i) (con w)"
proof -
  from assms obtain i where f: "find_idle (g_struTimer w) 0 = Some i"
    by (auto simp: HF_SetTimer_def TIMER_FindIdleTimer_def split: option.splits)
  from find_idle_Some [OF f] assms show ?thesis
    by (intro exI [of _ i])
      (auto simp: HF_SetTimer_def TIMER_FindIdleTimer_def f timer_used_def Let_def TIMER_AllocateTimer_def)
qed

lemma timer_used_update:
  "i < length (g_struTimer w) \<Longrightarrow> g_struTimer w' = (g_struTimer w)[i := t] \<Longrightarrow>
     timer_used w' = (if tm_Status t = ZC_TIMER_STATUS_IDLE then timer_used w - {i} else insert i (timer_used w))"
  by (auto simp: timer_used_def nth_list_update split: if_splits)

lemma TIMER_StopTimer_Some:
  assumes "TIMER_StopTimer i w = Some w'"
  shows "unat i < length (g_struTimer w) \<and> timer_used w' = timer_used w - {unat i} \<and>
    length (g_struTimer w') = length (g_struTimer w) \<and> g_struHfTimer w' = g_struHfTimer w \<and> con w' = con w"
proof -
  from assms have "unat i < length (g_struTimer w)"
    by (auto simp: TIMER_StopTimer_def nth_opt_def bind_eq_Some_conv split: if_splits)
  with assms timer_used_update [of "unat i" w w'] show ?thesis
    by (auto simp: TIMER_StopTimer_def HF_StopTimer_def nth_opt_def bind_eq_Some_conv split: if_splits)
qed

text \<open>The table of timers meets the contract.\<close>

interpretation timers: slot_table 5 timer_inv timer_used "\<lambda>i w. {unat i}"
  "\<lambda>(t, n, p). HF_SetTimer S t n p" TIMER_StopTimer for S
proof
  show "timer_inv s \<Longrightarrow> timer_used s \<subseteq> {..<5}" for s
    by (auto simp: timer_inv_def timer_used_def)
  show "timer_inv s' \<and> (\<exists>i < 5. i \<notin> timer_used s \<and> timer_used s' = insert i (timer_used s))"
    if "timer_inv s" "(case a of (t, n, p) \<Rightarrow> HF_SetTimer S t n p) s = (ZC_RET_OK, s')" for s s' a
  proof -
    from that(2) have "HF_SetTimer S (fst a) (fst (snd a)) (snd (snd a)) s = (ZC_RET_OK, s')"
      by (cases a) simp
    from HF_SetTimer_ok [OF this] obtain i where i: "i < length (g_struTimer s)" "i \<notin> timer_used s"
      "g_struTimer s' = (g_struTimer s)[i := \<lparr>tm_Status = ZC_TIMER_STATUS_USED, tm_Type = fst a, tm_Timer = Some i\<rparr>]"
      "length (g_struHfTimer s') = length (g_struHfTimer s)" by blast
    from timer_used_update [OF i(1,3)] that(1) i show ?thesis by (auto simp: timer_inv_def)
  qed
  show "s' = s \<and> timer_used s = {..<5}"
    if "timer_inv s" "(case a of (t, n, p) \<Rightarrow> HF_SetTimer S t n p) s = (r, s')" "r \<noteq> ZC_RET_OK" for s s' r a
    using that HF_SetTimer_fail [of S _ _ _ s r s'] by (cases a) (auto simp: timer_inv_def)
  show "timer_inv s' \<and> timer_used s' = timer_used s - {unat k}"
    if "timer_inv s" "TIMER_StopTimer k s = Some s'" for s s' k
    using TIMER_StopTimer_Some [OF that(2)] that(1) by (simp add: timer_inv_def)
qed

lemma HF_SetTimer_inv: "timer_inv w \<Longrightarrow> HF_SetTimer S t n p w = (r, w') \<Longrightarrow> timer_inv w'"
  using timers.alloc_inv [of w S "(t, n, p)" r w'] by simp

lemma TIMER_StopTimer_inv: "timer_inv w \<Longrightarrow> TIMER_StopTimer i w = Some w' \<Longrightarrow> timer_inv w'"
  using timers.free_ok [of w i w'] by simp

lemma TIMER_StopTimer_defined: "timer_inv w \<Longrightarrow> unat i < 5 \<Longrightarrow> TIMER_StopTimer i w \<noteq> None"
  by (simp add: TIMER_StopTimer_def HF_StopTimer_def nth_opt_def timer_inv_def)

end
