(* ===== verification/AesCorrect.thy ===== *)
theory AesCorrect
  imports Aes
begin

text \<open>
  The correctness of the block cipher of theory \<open>Aes\<close>: decryption inverts encryption. The tables
  are checked entry by entry against the byte substitution and the column transforms they encode;
  the rest is the linearity of the column transform and the order of the round keys.
\<close>

subsection \<open>Columns of four bytes\<close>

definition word4 :: "u8 \<Rightarrow> u8 \<Rightarrow> u8 \<Rightarrow> u8 \<Rightarrow> u32" where
  "word4 a b c d = push_bit 24 (ucast a) OR push_bit 16 (ucast b) OR push_bit 8 (ucast c) OR ucast d"

lemma bit_word4: "bit (word4 a b c d) n \<longleftrightarrow>
    (if n < 8 then bit d n else if n < 16 then bit c (n - 8) else if n < 24 then bit b (n - 16)
     else n < 32 \<and> bit a (n - 24))"
  by (auto simp: word4_def bit_or_iff bit_push_bit_iff bit_unsigned_iff dest: bit_imp_le_length)

lemma word4_bytes [simp]:
  "ucast (drop_bit 24 (word4 a b c d)) = a" "ucast (drop_bit 16 (word4 a b c d)) = b"
  "ucast (drop_bit 8 (word4 a b c d)) = c" "ucast (word4 a b c d) = d"
  by (rule bit_word_eqI; simp add: bit_unsigned_iff bit_drop_bit_eq bit_word4)+

lemma word4_surj:
  "w = word4 (ucast (drop_bit 24 w)) (ucast (drop_bit 16 w)) (ucast (drop_bit 8 w)) (ucast w)"
proof (rule bit_word_eqI)
  fix n assume n: "n < LENGTH(32)"
  then consider "n < 8" | "8 \<le> n \<and> n < 16" | "16 \<le> n \<and> n < 24" | "24 \<le> n \<and> n < 32" by fastforce
  then show "bit w n = bit (word4 (ucast (drop_bit 24 w)) (ucast (drop_bit 16 w)) (ucast (drop_bit 8 w)) (ucast w)) n"
    by cases (auto simp: bit_word4 bit_unsigned_iff bit_drop_bit_eq)
qed

lemma word4_xor [simp]:
  "word4 a b c d XOR word4 a' b' c' d' = word4 (a XOR a') (b XOR b') (c XOR c') (d XOR d')"
  by (rule bit_word_eqI) (simp add: bit_word4 bit_xor_iff)

lemma mask_and_word4:
  "word4 a b c d AND 0xff000000 = word4 a 0 0 0" "word4 a b c d AND 0x00ff0000 = word4 0 b 0 0"
  "word4 a b c d AND 0x0000ff00 = word4 0 0 c 0" "word4 a b c d AND 0x000000ff = word4 0 0 0 d"
proof -
  have m: "(0xff000000 :: u32) = word4 (- 1) 0 0 0" "(0x00ff0000 :: u32) = word4 0 (- 1) 0 0"
    "(0x0000ff00 :: u32) = word4 0 0 (- 1) 0" "(0x000000ff :: u32) = word4 0 0 0 (- 1)"
    by code_simp+
  have lt: "bit x (n - 24) \<Longrightarrow> n < 32" "bit x (n - 24) \<Longrightarrow> n - 24 < 8" for x :: u8 and n
    using bit_imp_le_length [of x "n - 24"] by auto
  show "word4 a b c d AND 0xff000000 = word4 a 0 0 0" "word4 a b c d AND 0x00ff0000 = word4 0 b 0 0"
    "word4 a b c d AND 0x0000ff00 = word4 0 0 c 0" "word4 a b c d AND 0x000000ff = word4 0 0 0 d"
    unfolding m by (rule bit_word_eqI; auto simp: bit_word4 bit_and_iff dest: lt)+
qed

lemma unat_ucast_u8: "unat (ucast (x :: u8) :: u32) = unat x"
  by simp

lemma drop_24_word4: "drop_bit 24 (word4 a b c d) = ucast a"
  by (rule bit_word_eqI) (auto simp: bit_drop_bit_eq bit_word4 bit_unsigned_iff dest: bit_imp_le_length)

lemma and_ff_word4:
  "drop_bit 16 (word4 a b c d) AND 0xff = ucast b" "drop_bit 8 (word4 a b c d) AND 0xff = ucast c"
  "word4 a b c d AND 0xff = ucast d"
proof -
  have m: "(0xff :: u32) = mask 8" by (simp add: mask_eq_exp_minus_1)
  show "drop_bit 16 (word4 a b c d) AND 0xff = ucast b" "drop_bit 8 (word4 a b c d) AND 0xff = ucast c"
    "word4 a b c d AND 0xff = ucast d"
    unfolding m
    by (rule bit_word_eqI; auto simp: bit_and_iff bit_mask_iff bit_drop_bit_eq bit_word4 bit_unsigned_iff
        dest: bit_imp_le_length)+
qed

lemma at_word4 [simp]:
  "at24 T (word4 a b c d) = T ! unat a" "at16 T (word4 a b c d) = T ! unat b"
  "at8 T (word4 a b c d) = T ! unat c" "at0 T (word4 a b c d) = T ! unat d"
  by (simp_all add: at24_def at16_def at8_def at0_def drop_24_word4 and_ff_word4)

subsection \<open>What the tables contain\<close>

text \<open>Multiplication by 2 in the field of the cipher, and the columns of the two transforms.\<close>

definition xt :: "u8 \<Rightarrow> u8" where
  "xt b = (if bit b 7 then push_bit 1 b XOR 0x1b else push_bit 1 b)"

lemma xt_xor: "xt (a XOR b) = xt a XOR xt b"
proof -
  have p: "push_bit 1 (a XOR b) = push_bit 1 a XOR push_bit 1 b" by (rule push_bit_xor)
  show ?thesis unfolding xt_def p
    by (simp add: bit_xor_iff xor.assoc xor.left_commute xor.commute)
qed

definition Sb :: "u8 \<Rightarrow> u8" where "Sb x = ucast (Te4 ! unat x)"
definition Si :: "u8 \<Rightarrow> u8" where "Si x = ucast (Td4 ! unat x)"

definition rep4 :: "u8 \<Rightarrow> u32" where "rep4 s = word4 s s s s"

definition mix_col :: "nat \<Rightarrow> u8 \<Rightarrow> u32" where
  "mix_col i s = (let s2 = xt s; s3 = s2 XOR s in
     if i = 0 then word4 s2 s s s3 else if i = 1 then word4 s3 s2 s s
     else if i = 2 then word4 s s3 s2 s else word4 s s s3 s2)"

definition unmix_col :: "nat \<Rightarrow> u8 \<Rightarrow> u32" where
  "unmix_col i s = (let s2 = xt s; s4 = xt s2; s8 = xt s4; s9 = s8 XOR s; sb = s8 XOR s2 XOR s;
       sd = s8 XOR s4 XOR s; se = s8 XOR s4 XOR s2 in
     if i = 0 then word4 se s9 sd sb else if i = 1 then word4 sb se s9 sd
     else if i = 2 then word4 sd sb se s9 else word4 s9 sd sb se)"

text \<open>The other tables are the first ones with the bytes of every entry rotated.\<close>

definition rot_byte :: "u32 \<Rightarrow> u32" where
  "rot_byte w = word4 (ucast w) (ucast (drop_bit 24 w)) (ucast (drop_bit 16 w)) (ucast (drop_bit 8 w))"

lemma rot_word4 [simp]: "rot_byte (word4 a b c d) = word4 d a b c"
  by (simp add: rot_byte_def)

text \<open>The same column with the multiples passed on as evaluated integers.\<close>

definition unmix4 :: "int \<Rightarrow> int \<Rightarrow> int \<Rightarrow> int \<Rightarrow> u32" where
  "unmix4 s s2 s4 s8 = word4 (word_of_int (s8 XOR s4 XOR s2)) (word_of_int (s8 XOR s))
     (word_of_int (s8 XOR s4 XOR s)) (word_of_int (s8 XOR s2 XOR s))"


definition xti :: "int \<Rightarrow> int" where "xti s = uint (xt (word_of_int s))"

text \<open>Every byte of a table with its multiples by 2, 4 and 8.\<close>

definition multiples :: "u32 list \<Rightarrow> (int \<times> int \<times> int \<times> int) list" where
  "multiples L = map (\<lambda>(s, s2, s4). (s, s2, s4, xti s4)) (map (\<lambda>(s, s2). (s, s2, xti s2))
     (map (\<lambda>s. (s, xti s)) (map (\<lambda>t. uint (ucast t :: u8)) L)))"

text \<open>The checks of the tables, entry by entry.\<close>

lemma Te4_rep: "list_all (\<lambda>t. t = rep4 (ucast t)) Te4" by code_simp
lemma Td4_rep: "list_all (\<lambda>t. t = rep4 (ucast t)) Td4" by code_simp
lemma Te0_mix: "list_all2 (\<lambda>t s. t = mix_col 0 (ucast s)) Te0 Te4" by code_simp
lemma Te1_rot: "list_all2 (\<lambda>t s. t = rot_byte s) Te1 Te0" by code_simp
lemma Te2_rot: "list_all2 (\<lambda>t s. t = rot_byte s) Te2 Te1" by code_simp
lemma Te3_rot: "list_all2 (\<lambda>t s. t = rot_byte s) Te3 Te2" by code_simp
lemma Td0_unmix: "list_all2 (\<lambda>t (s, s2, s4, s8). t = unmix4 s s2 s4 s8) Td0 (multiples Td4)"
  by code_simp
lemma Td1_rot: "list_all2 (\<lambda>t s. t = rot_byte s) Td1 Td0" by code_simp
lemma Td2_rot: "list_all2 (\<lambda>t s. t = rot_byte s) Td2 Td1" by code_simp
lemma Td3_rot: "list_all2 (\<lambda>t s. t = rot_byte s) Td3 Td2" by code_simp
lemma Sb_inverse: "list_all2 (\<lambda>t n. Td4 ! unat (ucast t :: u8) = rep4 n) Te4 (map of_nat [0..<256])"
  by code_simp

subsection \<open>The tables as functions\<close>

lemma table_lengths:
  "length Te0 = 256" "length Te1 = 256" "length Te2 = 256" "length Te3 = 256" "length Te4 = 256"
  "length Td0 = 256" "length Td1 = 256" "length Td2 = 256" "length Td3 = 256" "length Td4 = 256"
  by (simp_all add: Te0_def Te1_def Te2_def Te3_def Te4_def Td0_def Td1_def Td2_def Td3_def Td4_def)

lemma list_all_at: "list_all P T \<Longrightarrow> length T = 256 \<Longrightarrow> P (T ! unat (x :: u8))"
  using unat_u8_lt [of x] by (simp add: list_all_length)

lemma list_all2_at: "list_all2 P T U \<Longrightarrow> length T = 256 \<Longrightarrow> P (T ! unat (x :: u8)) (U ! unat x)"
  using unat_u8_lt [of x] by (auto simp: list_all2_conv_all_nth)

lemma Te4_at: "Te4 ! unat x = rep4 (Sb x)"
  using list_all_at [OF Te4_rep table_lengths(5), of x] by (simp add: Sb_def)

lemma Td4_at: "Td4 ! unat x = rep4 (Si x)"
  using list_all_at [OF Td4_rep table_lengths(10), of x] by (simp add: Si_def)

lemma Te0_at: "Te0 ! unat x = mix_col 0 (Sb x)"
  using list_all2_at [OF Te0_mix table_lengths(1), of x] by (simp add: Sb_def)

lemma rot_mix_col: "rot_byte (mix_col 0 s) = mix_col 1 s" "rot_byte (mix_col 1 s) = mix_col 2 s"
  "rot_byte (mix_col 2 s) = mix_col 3 s"
  by (simp_all add: mix_col_def Let_def)

lemma Te1_at: "Te1 ! unat x = mix_col 1 (Sb x)"
  using list_all2_at [OF Te1_rot table_lengths(2), of x] by (simp add: Te0_at rot_mix_col)

lemma Te2_at: "Te2 ! unat x = mix_col 2 (Sb x)"
  using list_all2_at [OF Te2_rot table_lengths(3), of x] by (simp add: Te1_at rot_mix_col [simplified])

lemma Te3_at: "Te3 ! unat x = mix_col 3 (Sb x)"
  using list_all2_at [OF Te3_rot table_lengths(4), of x] by (simp add: Te2_at rot_mix_col)

lemma word_of_int_xor: "word_of_int (a XOR b) = (word_of_int a XOR word_of_int b :: 'a::len word)"
  by (simp add: bit_eq_iff bit_simps)

lemma unmix4_eq: "unmix4 (uint s) (uint (xt s)) (uint (xt (xt s))) (uint (xt (xt (xt s)))) = unmix_col 0 s"
  by (simp add: unmix4_def unmix_col_def Let_def word_of_int_xor)

lemma Td0_at: "Td0 ! unat x = unmix_col 0 (Si x)"
proof -
  have "multiples Td4 ! unat x = (uint (Si x), uint (xt (Si x)), uint (xt (xt (Si x))), uint (xt (xt (xt (Si x)))))"
    using unat_u8_lt [of x] by (simp add: multiples_def table_lengths xti_def Si_def)
  with list_all2_at [OF Td0_unmix table_lengths(6), of x] show ?thesis by (simp add: unmix4_eq)
qed

lemma rot_unmix_col: "rot_byte (unmix_col 0 s) = unmix_col 1 s" "rot_byte (unmix_col 1 s) = unmix_col 2 s"
  "rot_byte (unmix_col 2 s) = unmix_col 3 s"
  by (simp_all add: unmix_col_def Let_def)

lemma Td1_at: "Td1 ! unat x = unmix_col 1 (Si x)"
  using list_all2_at [OF Td1_rot table_lengths(7), of x] by (simp add: Td0_at rot_unmix_col)

lemma Td2_at: "Td2 ! unat x = unmix_col 2 (Si x)"
  using list_all2_at [OF Td2_rot table_lengths(8), of x] by (simp add: Td1_at rot_unmix_col [simplified])

lemma Td3_at: "Td3 ! unat x = unmix_col 3 (Si x)"
  using list_all2_at [OF Td3_rot table_lengths(9), of x] by (simp add: Td2_at rot_unmix_col)

lemma Si_Sb [simp]: "Si (Sb x) = x"
proof -
  have "rep4 (Si (Sb x)) = rep4 x"
    using list_all2_at [OF Sb_inverse table_lengths(5), of x] unat_u8_lt [of x]
    by (simp add: Te4_at rep4_def) (simp add: Td4_at rep4_def)
  then have "ucast (rep4 (Si (Sb x))) = (ucast (rep4 x) :: u8)" by simp
  then show ?thesis by (simp add: rep4_def)
qed

subsection \<open>The column transform\<close>

definition unmix :: "u8 \<Rightarrow> u8 \<Rightarrow> u8 \<Rightarrow> u8 \<Rightarrow> u32" where
  "unmix a b c d = unmix_col 0 a XOR unmix_col 1 b XOR unmix_col 2 c XOR unmix_col 3 d"

lemma and_ff_rep4: "rep4 s AND 0xff = ucast s"
  by (simp add: rep4_def and_ff_word4)

lemma inv_mix_word4: "inv_mix (word4 a b c d) = unmix a b c d"
  by (simp add: inv_mix_def unmix_def Te4_at and_ff_rep4 Td0_at Td1_at Td2_at Td3_at)

lemma unmix_col_xor: "unmix_col i (a XOR b) = unmix_col i a XOR unmix_col i b"
  by (simp add: unmix_col_def Let_def xt_xor ac_simps)

lemma unmix_xor:
  "unmix (a XOR a') (b XOR b') (c XOR c') (d XOR d') = unmix a b c d XOR unmix a' b' c' d'"
  by (simp add: unmix_def unmix_col_xor ac_simps)

lemma inv_mix_xor: "inv_mix (v XOR w) = inv_mix v XOR inv_mix w"
proof -
  obtain a b c d where v: "v = word4 a b c d" using word4_surj by blast
  obtain a' b' c' d' where w: "w = word4 a' b' c' d'" using word4_surj by blast
  show ?thesis by (simp add: v w inv_mix_word4 unmix_xor)
qed

lemma xor_cancel: "a XOR (a XOR b) = b" for a b :: "'a::len word"
  by (simp add: xor.assoc [symmetric])

lemma inv_mix_mix_col:
  "inv_mix (mix_col 0 s) = word4 s 0 0 0" "inv_mix (mix_col 1 s) = word4 0 s 0 0"
  "inv_mix (mix_col 2 s) = word4 0 0 s 0" "inv_mix (mix_col 3 s) = word4 0 0 0 s"
  by (simp_all add: mix_col_def Let_def inv_mix_word4 unmix_def unmix_col_def xt_xor xor_cancel ac_simps)

lemmas table_at = Te0_at Te1_at Te2_at Te3_at Te4_at Td0_at Td1_at Td2_at Td3_at Td4_at

subsection \<open>Rounds\<close>

definition sub_shift :: "aes_state \<Rightarrow> aes_state" where
  "sub_shift = (\<lambda>(s0, s1, s2, s3).
     let b3 = \<lambda>s. Sb (ucast (drop_bit 24 s)); b2 = \<lambda>s. Sb (ucast (drop_bit 16 s));
         b1 = \<lambda>s. Sb (ucast (drop_bit 8 s)); b0 = \<lambda>s. Sb (ucast s)
     in (word4 (b3 s0) (b2 s1) (b1 s2) (b0 s3), word4 (b3 s1) (b2 s2) (b1 s3) (b0 s0),
         word4 (b3 s2) (b2 s3) (b1 s0) (b0 s1), word4 (b3 s3) (b2 s0) (b1 s1) (b0 s2)))"

definition add_key :: "aes_state \<Rightarrow> u32 list \<Rightarrow> aes_state" where
  "add_key = (\<lambda>(s0, s1, s2, s3) k. (s0 XOR k ! 0, s1 XOR k ! 1, s2 XOR k ! 2, s3 XOR k ! 3))"

definition map_state :: "(u32 \<Rightarrow> u32) \<Rightarrow> aes_state \<Rightarrow> aes_state" where
  "map_state f = (\<lambda>(s0, s1, s2, s3). (f s0, f s1, f s2, f s3))"

lemma state_word4: "\<exists>a b c d. (w :: u32) = word4 a b c d"
  using word4_surj by blast

lemma add_key_twice: "add_key (add_key s k) k = s"
  by (simp add: add_key_def split: prod.splits) (simp add: xor.assoc)

text \<open>A decryption round inverts the column transform; the last round the substitution alone.\<close>

lemma dec_round_sub_shift: "dec_round (sub_shift s) k = add_key (map_state inv_mix s) k"
proof -
  obtain s0 s1 s2 s3 where s: "s = (s0, s1, s2, s3)" by (cases s)
  obtain a0 b0 c0 d0 a1 b1 c1 d1 a2 b2 c2 d2 a3 b3 c3 d3 where
    "s0 = word4 a0 b0 c0 d0" "s1 = word4 a1 b1 c1 d1" "s2 = word4 a2 b2 c2 d2" "s3 = word4 a3 b3 c3 d3"
    using state_word4 by metis
  then show ?thesis
    by (simp add: s sub_shift_def dec_round_def Let_def table_at add_key_def map_state_def
        inv_mix_word4 unmix_def xor.assoc)
qed

lemma enc_round_unmix: "map_state inv_mix (add_key (enc_round s k) k) = sub_shift s"
proof -
  obtain s0 s1 s2 s3 where s: "s = (s0, s1, s2, s3)" by (cases s)
  obtain a0 b0 c0 d0 a1 b1 c1 d1 a2 b2 c2 d2 a3 b3 c3 d3 where
    "s0 = word4 a0 b0 c0 d0" "s1 = word4 a1 b1 c1 d1" "s2 = word4 a2 b2 c2 d2" "s3 = word4 a3 b3 c3 d3"
    using state_word4 by metis
  then show ?thesis
    by (simp add: s sub_shift_def enc_round_def Let_def table_at add_key_def map_state_def
        inv_mix_xor inv_mix_mix_col inv_mix_mix_col [simplified] xor.assoc)
qed

text \<open>One decryption round takes the state before a round key back to the state before the
  round; its key is the transformed one.\<close>

lemma dec_enc_round:
  assumes "\<And>j. j < 4 \<Longrightarrow> k' ! j = inv_mix (k ! j)"
  shows "dec_round (sub_shift (enc_round s k)) k' = sub_shift s"
proof -
  have "dec_round (sub_shift (enc_round s k)) k' = map_state inv_mix (add_key (enc_round s k) k)"
    using assms by (simp add: dec_round_sub_shift add_key_def map_state_def inv_mix_xor split: prod.splits)
  then show ?thesis by (simp add: enc_round_unmix)
qed

lemma mask_and_rep4:
  "rep4 s AND 0xff000000 = word4 s 0 0 0" "rep4 s AND 0x00ff0000 = word4 0 s 0 0"
  "rep4 s AND 0x0000ff00 = word4 0 0 s 0" "rep4 s AND 0x000000ff = word4 0 0 0 s"
  by (simp_all only: rep4_def mask_and_word4)

lemma enc_last_eq: "enc_last s k = add_key (sub_shift s) k"
proof -
  obtain s0 s1 s2 s3 where s: "s = (s0, s1, s2, s3)" by (cases s)
  obtain a0 b0 c0 d0 a1 b1 c1 d1 a2 b2 c2 d2 a3 b3 c3 d3 where
    "s0 = word4 a0 b0 c0 d0" "s1 = word4 a1 b1 c1 d1" "s2 = word4 a2 b2 c2 d2" "s3 = word4 a3 b3 c3 d3"
    using state_word4 by metis
  then show ?thesis
    by (simp add: s sub_shift_def enc_last_def Let_def table_at add_key_def mask_and_rep4
        xor.assoc [symmetric])
qed

lemma dec_last_sub_shift: "dec_last (sub_shift s) k = add_key s k"
proof -
  obtain s0 s1 s2 s3 where s: "s = (s0, s1, s2, s3)" by (cases s)
  obtain a0 b0 c0 d0 a1 b1 c1 d1 a2 b2 c2 d2 a3 b3 c3 d3 where
    "s0 = word4 a0 b0 c0 d0" "s1 = word4 a1 b1 c1 d1" "s2 = word4 a2 b2 c2 d2" "s3 = word4 a3 b3 c3 d3"
    using state_word4 by metis
  then show ?thesis
    by (simp add: s sub_shift_def dec_last_def Let_def table_at add_key_def mask_and_rep4
        xor.assoc [symmetric])
qed

subsection \<open>The loops and the round keys\<close>

text \<open>\<open>rkey i rk\<close>: the words from round key \<open>i\<close> on.\<close>

definition rkey :: "nat \<Rightarrow> u32 list \<Rightarrow> u32 list" where
  "rkey i rk = drop (4 * i) rk"

lemma rkey_drop_8: "rkey i (drop 8 rk) = rkey (i + 2) rk"
  by (simp add: rkey_def add.commute)

lemma fold_shift: "fold f [i + 2..<j + 2] s = fold (\<lambda>i. f (i + 2)) [i..<j] s"
proof -
  have "[i + 2..<j + 2] = map Suc (map Suc [i..<j])" by (simp only: map_Suc_upt) simp
  then show ?thesis by (simp only: fold_map comp_def) simp
qed

lemma fold_two:
  "fold f [1..<2 * Suc (Suc r)] s = fold (\<lambda>i. f (i + 2)) [1..<2 * Suc r] (f 2 (f 1 s))"
proof -
  have "[1..<2 * Suc (Suc r)] = 1 # 2 # [1 + 2..<2 * Suc r + 2]"
    by (simp add: upt_rec numeral_3_eq_3)
  then have "fold f [1..<2 * Suc (Suc r)] s = fold f [1 + 2..<2 * Suc r + 2] (f 2 (f 1 s))"
    by (simp only: fold_simps)
  then show ?thesis by (simp only: fold_shift)
qed

lemma enc_loop_eq:
  "enc_loop (Suc r) rk s = (fold (\<lambda>i s. enc_round s (rkey i rk)) [1..<2 * Suc r] s, rkey (2 * Suc r) rk)"
proof (induction r arbitrary: rk s)
  case 0
  then show ?case by (simp add: Let_def rkey_def upt_rec)
next
  case (Suc r)
  have step: "enc_loop (Suc (Suc r)) rk s =
      enc_loop (Suc r) (drop 8 rk) (enc_round (enc_round s (rkey 1 rk)) (rkey 2 rk))"
    by (simp add: Let_def rkey_def)
  have "2 * Suc r + 2 = 2 * Suc (Suc r)" by simp
  then show ?case by (simp only: step Suc.IH fold_two rkey_drop_8)
qed

lemma dec_loop_eq:
  "dec_loop (Suc r) rk s = (fold (\<lambda>i s. dec_round s (rkey i rk)) [1..<2 * Suc r] s, rkey (2 * Suc r) rk)"
proof (induction r arbitrary: rk s)
  case 0
  then show ?case by (simp add: Let_def rkey_def upt_rec)
next
  case (Suc r)
  have step: "dec_loop (Suc (Suc r)) rk s =
      dec_loop (Suc r) (drop 8 rk) (dec_round (dec_round s (rkey 1 rk)) (rkey 2 rk))"
    by (simp add: Let_def rkey_def)
  have "2 * Suc r + 2 = 2 * Suc (Suc r)" by simp
  then show ?case by (simp only: step Suc.IH fold_two rkey_drop_8)
qed

text \<open>A decryption key schedule belongs to an encryption key schedule of \<open>n\<close> rounds.\<close>

definition inverse_keys :: "nat \<Rightarrow> u32 list \<Rightarrow> u32 list \<Rightarrow> bool" where
  "inverse_keys n ek dk \<longleftrightarrow> (\<forall>i \<le> n. \<forall>j < 4. rkey i dk ! j =
     (if i = 0 \<or> i = n then rkey (n - i) ek ! j else inv_mix (rkey (n - i) ek ! j)))"

lemma dec_rounds:
  assumes "inverse_keys n ek dk" "i < n"
  shows "fold (\<lambda>i s. dec_round s (rkey i dk)) [1..<Suc i]
      (sub_shift (fold (\<lambda>i s. enc_round s (rkey i ek)) [1..<n] s)) =
    sub_shift (fold (\<lambda>i s. enc_round s (rkey i ek)) [1..<n - i] s)"
  using assms(2)
proof (induction i)
  case (Suc i)
  then have "n - i = Suc (n - Suc i)" by simp
  then have u: "[1..<n - i] = [1..<n - Suc i] @ [n - Suc i]" using Suc.prems by simp
  have d: "[1..<Suc (Suc i)] = [1..<Suc i] @ [Suc i]" by simp
  have k: "rkey (Suc i) dk ! j = inv_mix (rkey (n - Suc i) ek ! j)" if "j < 4" for j
    using assms(1) Suc.prems that by (simp add: inverse_keys_def)
  have IH: "fold (\<lambda>i s. dec_round s (rkey i dk)) [1..<Suc i]
      (sub_shift (fold (\<lambda>i s. enc_round s (rkey i ek)) [1..<n] s)) =
    sub_shift (fold (\<lambda>i s. enc_round s (rkey i ek)) [1..<n - i] s)"
    using Suc by simp
  show ?case unfolding d fold_append o_apply IH
    unfolding u fold_append o_apply by (simp add: dec_enc_round [OF k])
qed simp

lemma add_key_cong: "(\<And>j. j < 4 \<Longrightarrow> k ! j = k' ! j) \<Longrightarrow> add_key s k = add_key s k'"
  by (simp add: add_key_def split: prod.splits)

lemma length_aes_store: "length (aes_store s) = 16"
  by (simp add: aes_store_def PUTU32_def split: prod.splits)

lemma GETU32_word4: "GETU32 pt i = word4 (pt ! i) (pt ! (i + 1)) (pt ! (i + 2)) (pt ! (i + 3))"
proof (rule bit_word_eqI)
  fix n assume "n < LENGTH(32)"
  then consider "n < 8" | "8 \<le> n \<and> n < 16" | "16 \<le> n \<and> n < 24" | "24 \<le> n \<and> n < 32" by fastforce
  then show "bit (GETU32 pt i) n = bit (word4 (pt ! i) (pt ! (i + 1)) (pt ! (i + 2)) (pt ! (i + 3))) n"
    by cases (auto simp: GETU32_def bit_word4 bit_xor_iff bit_push_bit_iff bit_unsigned_iff
        dest: bit_imp_le_length)
qed

lemma PUTU32_word4: "PUTU32 (word4 a b c d) = [a, b, c, d]"
  by (simp add: PUTU32_def)

lemma load_store_words:
  "GETU32 (PUTU32 a @ PUTU32 b @ PUTU32 c @ PUTU32 d) 0 = a"
  "GETU32 (PUTU32 a @ PUTU32 b @ PUTU32 c @ PUTU32 d) 4 = b"
  "GETU32 (PUTU32 a @ PUTU32 b @ PUTU32 c @ PUTU32 d) 8 = c"
  "GETU32 (PUTU32 a @ PUTU32 b @ PUTU32 c @ PUTU32 d) 12 = d"
  using word4_surj [of a] word4_surj [of b] word4_surj [of c] word4_surj [of d]
  by (simp_all add: GETU32_word4 PUTU32_def)

lemma nth_swap_words:
  "i < length rk \<Longrightarrow> j < length rk \<Longrightarrow> i \<noteq> j \<Longrightarrow>
     swap_words i j rk ! k = (if k = i then rk ! j else if k = j then rk ! i else rk ! k)"
  by (auto simp: swap_words_def nth_list_update)

lemma length_swap_words [simp]: "length (swap_words i j rk) = length rk"
  by (simp add: swap_words_def)

text \<open>The four swaps of one turn exchange two whole round keys.\<close>

lemma swap_group:
  assumes "4 * a + 4 \<le> 4 * b" "4 * b + 4 \<le> length rk" "k < 4"
  defines "i \<equiv> 4 * a" and "j \<equiv> 4 * b"
  shows "swap_words (i + 3) (j + 3) (swap_words (i + 2) (j + 2) (swap_words (i + 1) (j + 1)
      (swap_words i j rk))) ! (4 * c + k) =
    rk ! (4 * (if c = a then b else if c = b then a else c) + k)"
proof -
  have k: "k = 0 \<or> k = 1 \<or> k = 2 \<or> k = 3" using assms(3) by arith
  have ne: "4 * c + k \<noteq> 4 * d + l" if "k < 4" "l < 4" "c \<noteq> d \<or> k \<noteq> l" for c d k l :: nat
    using that by presburger
  show ?thesis
    using assms(1,2) k unfolding i_def j_def
    by (elim disjE; simp add: nth_swap_words; presburger?)
qed

lemma length_swap_round_keys [simp]: "length (swap_round_keys i j rk) = length rk"
  by (induction i j rk rule: swap_round_keys.induct) (subst swap_round_keys.simps, simp)

lemma nth_swap_round_keys:
  assumes "a + b = n" "4 * n + 4 \<le> length rk" "k < 4"
  shows "swap_round_keys (4 * a) (4 * b) rk ! (4 * c + k) =
    rk ! (4 * (if a \<le> c \<and> c \<le> b then n - c else c) + k)"
  using assms
proof (induction "b - a" arbitrary: a b rk rule: less_induct)
  case less
  show ?case
  proof (cases "a < b")
    case False
    then have "a \<le> c \<and> c \<le> b \<Longrightarrow> n - c = c" using less.prems(1) by arith
    with False show ?thesis by (subst swap_round_keys.simps) (auto split: if_splits)
  next
    case True
    let ?rk = "swap_words (4 * a + 3) (4 * b + 3) (swap_words (4 * a + 2) (4 * b + 2)
      (swap_words (4 * a + 1) (4 * b + 1) (swap_words (4 * a) (4 * b) rk)))"
    have "4 * (a + 1) = 4 * a + 4" "4 * (b - 1) = 4 * b - 4" by simp_all
    with True have e: "swap_round_keys (4 * a) (4 * b) rk = swap_round_keys (4 * (a + 1)) (4 * (b - 1)) ?rk"
      by (subst swap_round_keys.simps) (simp only: if_True mult_less_cancel1, simp)
    have 1: "swap_round_keys (4 * (a + 1)) (4 * (b - 1)) ?rk ! (4 * c + k) =
        ?rk ! (4 * (if a + 1 \<le> c \<and> c \<le> b - 1 then n - c else c) + k)"
      using less.prems True by (intro less.hyps) auto
    have 2: "?rk ! (4 * (if a + 1 \<le> c \<and> c \<le> b - 1 then n - c else c) + k) =
        rk ! (4 * (if a \<le> c \<and> c \<le> b then n - c else c) + k)"
      using True less.prems by (subst swap_group) auto
    show ?thesis unfolding e 1 2 ..
  qed
qed

lemma nth_mix_round_key:
  assumes "4 * i + 4 \<le> length rk" "k < 4"
  shows "mix_round_key i rk ! (4 * c + k) =
    (if c = i then inv_mix (rk ! (4 * c + k)) else rk ! (4 * c + k))"
proof -
  have k: "k = 0 \<or> k = 1 \<or> k = 2 \<or> k = 3" using assms(2) by arith
  show ?thesis using assms(1) k
    by (elim disjE; simp add: mix_round_key_def nth_list_update; presburger?)
qed

lemma length_mix_round_key [simp]: "length (mix_round_key i rk) = length rk"
  by (simp add: mix_round_key_def)

lemma length_mix_round_keys [simp]: "length (fold mix_round_key is rk) = length rk"
  by (induction "is" arbitrary: rk) simp_all

lemma nth_mix_round_keys:
  assumes "4 * m \<le> length rk" "k < 4"
  shows "fold mix_round_key [1..<m] rk ! (4 * c + k) =
    (if 1 \<le> c \<and> c < m then inv_mix (rk ! (4 * c + k)) else rk ! (4 * c + k))"
  using assms(1)
proof (induction m)
  case (Suc m)
  have e: "fold mix_round_key [1..<Suc m] rk =
      (if 1 \<le> m then mix_round_key m (fold mix_round_key [1..<m] rk) else rk)"
    by simp
  show ?case
    using Suc assms(2) by (auto simp: e nth_mix_round_key)
qed simp

lemma inverse_keysI:
  assumes "length ek = 4 * n + 4" "0 < n"
  shows "inverse_keys n ek (fold mix_round_key [1..<n] (swap_round_keys 0 (4 * n) ek))"
proof -
  have swap: "swap_round_keys 0 (4 * n) ek ! (4 * c + k) = ek ! (4 * (n - c) + k)"
    if "c \<le> n" "k < 4" for c k
    using nth_swap_round_keys [of 0 n n ek k c] assms that by simp
  have "fold mix_round_key [1..<n] (swap_round_keys 0 (4 * n) ek) ! (4 * c + k) =
      (if c = 0 \<or> c = n then ek ! (4 * (n - c) + k) else inv_mix (ek ! (4 * (n - c) + k)))"
    if "c \<le> n" "k < 4" for c k
    using nth_mix_round_keys [of n "swap_round_keys 0 (4 * n) ek" k c] assms that swap [OF that] by auto
  with assms show ?thesis
    by (simp add: inverse_keys_def rkey_def del: One_nat_def)
qed

subsection \<open>Decryption inverts encryption\<close>

lemma aes_load_store: "aes_load (aes_store s) k = add_key s k"
  by (simp add: aes_load_def aes_store_def add_key_def load_store_words split: prod.splits)

lemma list_16: "length bs = 16 \<Longrightarrow> \<exists>a0 a1 a2 a3 a4 a5 a6 a7 a8 a9 a10 a11 a12 a13 a14 a15.
    bs = [a0, a1, a2, a3, a4, a5, a6, a7, a8, a9, a10, a11, a12, a13, a14, a15]"
  by (simp add: length_Suc_conv numeral_eq_Suc) metis

lemma aes_store_load: "length bs = 16 \<Longrightarrow> aes_store (add_key (aes_load bs k) k) = bs"
  using list_16 [of bs]
  by (auto simp: aes_store_def add_key_def aes_load_def xor.assoc GETU32_word4 PUTU32_word4)

lemma AES_decrypt_encrypt_keys:
  assumes "inverse_keys (2 * Suc r) (rd_key ek) (rd_key dk)" "rounds ek = 2 * Suc r"
    "rounds dk = 2 * Suc r" "length blk = 16"
  shows "AES_decrypt (AES_encrypt blk ek) dk = blk"
proof -
  let ?n = "2 * Suc r" and ?ek = "rd_key ek" and ?dk = "rd_key dk"
  define s where "s = aes_load blk ?ek"
  define t where "t = fold (\<lambda>i s. enc_round s (rkey i ?ek)) [1..<?n] s"
  have "rounds ek div 2 = Suc r" "rounds dk div 2 = Suc r" using assms(2,3) by simp_all
  note r = this
  have enc: "AES_encrypt blk ek = aes_store (add_key (sub_shift t) (rkey ?n ?ek))"
    unfolding AES_encrypt_def r enc_loop_eq by (simp only: Let_def prod.case enc_last_eq t_def s_def)
  have k: "rkey 0 ?dk ! j = rkey ?n ?ek ! j" "rkey ?n ?dk ! j = rkey 0 ?ek ! j" if "j < 4" for j
    using assms(1) that by (auto simp: inverse_keys_def)
  have "aes_load (AES_encrypt blk ek) ?dk = add_key (add_key (sub_shift t) (rkey ?n ?ek)) (rkey 0 ?dk)"
    unfolding enc aes_load_store by (simp add: rkey_def)
  also have "\<dots> = sub_shift t"
    using add_key_cong [of "rkey 0 ?dk" "rkey ?n ?ek"] k(1) by (simp add: add_key_twice)
  finally have load: "aes_load (AES_encrypt blk ek) ?dk = sub_shift t" .
  have "fold (\<lambda>i s. dec_round s (rkey i ?dk)) [1..<?n] (sub_shift t) = sub_shift s"
    using dec_rounds [OF assms(1), of "?n - 1" s] by (simp add: t_def)
  then have "AES_decrypt (AES_encrypt blk ek) dk = aes_store (add_key s (rkey ?n ?dk))"
    unfolding AES_decrypt_def load r dec_loop_eq by (simp only: Let_def prod.case dec_last_sub_shift)
  also have "\<dots> = aes_store (add_key s (rkey 0 ?ek))"
    using add_key_cong [of "rkey ?n ?dk" "rkey 0 ?ek"] k(2) by simp
  also have "\<dots> = blk" using aes_store_load [OF assms(4)] by (simp add: s_def rkey_def)
  finally show ?thesis .
qed

lemma length_expand:
  "length (expand_128 i key) = length key + 4"
  "length (expand_192 i key) = length key + (if i = 7 then 4 else 6)"
  "length (expand_256 i key) = length key + (if i = 6 then 4 else 8)"
  by (simp_all add: expand_128_def expand_192_def expand_256_def Let_def)

lemma upt_10: "[0..<10] = [0, 1, 2, 3, 4, 5, 6, 7, 8, 9 :: nat]"
  and upt_8: "[0..<8] = [0, 1, 2, 3, 4, 5, 6, 7 :: nat]"
  and upt_7: "[0..<7] = [0, 1, 2, 3, 4, 5, 6 :: nat]"
  by code_simp+

lemma set_encrypt_key_schedule:
  "AES_set_encrypt_key K bits = Inr ek \<Longrightarrow>
     (\<exists>r. rounds ek = 2 * Suc r) \<and> length (rd_key ek) = 4 * rounds ek + 4"
  by (auto simp: AES_set_encrypt_key_def Let_def upt_10 upt_8 upt_7 length_expand split: if_splits)

lemma AES_decrypt_encrypt_block:
  assumes "AES_set_encrypt_key K bits = Inr ek" "AES_set_decrypt_key K bits = Inr dk"
    and "length blk = 16"
  shows "AES_decrypt (AES_encrypt blk ek) dk = blk"
proof -
  from set_encrypt_key_schedule [OF assms(1)] obtain r where
    r: "rounds ek = 2 * Suc r" "length (rd_key ek) = 4 * (2 * Suc r) + 4" by auto
  have dk: "dk = ek\<lparr>rd_key := fold mix_round_key [1..<rounds ek] (swap_round_keys 0 (4 * rounds ek) (rd_key ek))\<rparr>"
    using assms(1,2) by (simp add: AES_set_decrypt_key_def)
  have "inverse_keys (2 * Suc r) (rd_key ek) (rd_key dk)" "rounds dk = 2 * Suc r"
    using inverse_keysI [of "rd_key ek" "2 * Suc r"] r by (simp_all add: dk del: mult_Suc_right)
  with r assms(3) show ?thesis by (intro AES_decrypt_encrypt_keys)
qed

text \<open>C20: The decryption function of the firmware inverts its encryption function: for every key of
  16, 24 or 32 bytes and every block of 16 bytes, decrypting under the decryption schedule of the key
  what was encrypted under its encryption schedule gives the block back.\<close>

theorem AES_decrypt_encrypt:
  assumes "AES_set_encrypt_key K bits = Inr ek" "AES_set_decrypt_key K bits = Inr dk"
    and "length blk = 16"
  shows "AES_decrypt (AES_encrypt blk ek) dk = blk"
  using assms by (rule AES_decrypt_encrypt_block)

lemma AES_decrypt_encrypt_witness:
  "\<exists>ek dk. AES_set_encrypt_key (replicate 16 7) 128 = Inr ek \<and> AES_set_decrypt_key (replicate 16 7) 128 = Inr dk \<and>
     AES_decrypt (AES_encrypt (replicate 16 1) ek) dk = replicate 16 1"
proof -
  obtain ek where ek: "AES_set_encrypt_key (replicate 16 7) 128 = Inr ek"
    by (simp add: AES_set_encrypt_key_def Let_def)
  obtain dk where dk: "AES_set_decrypt_key (replicate 16 7) 128 = Inr dk"
    using ek by (simp add: AES_set_decrypt_key_def)
  from AES_decrypt_encrypt [OF ek dk, of "replicate 16 1"] ek dk show ?thesis by simp
qed

end
