(* ===== verification/CbcCorrect.thy ===== *)
theory CbcCorrect
  imports Cbc AesCorrect
begin

text \<open>
  Encrypting and decrypting with the block chaining of theory \<open>Cbc\<close> is the identity, padding
  included, for plaintexts of every length.
\<close>

lemma length_xor_block [simp]: "length (xor_block a b) = min (length a) (length b)"
  by (simp add: xor_block_def)

lemma xor_block_twice: "length a \<le> length b \<Longrightarrow> xor_block (xor_block a b) b = a"
  by (rule nth_equalityI) (simp_all add: xor_block_def xor.assoc)

lemma length_AES_encrypt [simp]: "length (AES_encrypt b k) = 16"
  by (simp add: AES_encrypt_def Let_def length_aes_store split: prod.splits)

lemma length_AES_decrypt [simp]: "length (AES_decrypt b k) = 16"
  by (simp add: AES_decrypt_def Let_def length_aes_store split: prod.splits)

lemma length_cbc_encrypt: "length iv = 16 \<Longrightarrow> length (cbc_encrypt key iv inp) = 16 * (length inp div 16) + 16"
proof (induction key iv inp rule: cbc_encrypt.induct)
  case (1 key iv inp)
  show ?case
  proof (cases "16 \<le> length inp")
    case True
    then have "length inp div 16 = Suc ((length inp - 16) div 16)" by (simp add: le_div_geq)
    with True 1 show ?thesis by (subst cbc_encrypt.simps) (simp add: Let_def)
  next
    case False
    then show ?thesis by (subst cbc_encrypt.simps) (simp add: Let_def)
  qed
qed

text \<open>The padded plaintext.\<close>

definition padded :: "bytes \<Rightarrow> bytes" where
  "padded inp = (let p = 16 - length inp mod 16 in inp @ replicate p (of_nat p))"

lemma cbc_last_block:
  "length inp < 16 \<Longrightarrow> cbc_encrypt key iv inp = AES_encrypt (xor_block (padded inp) iv) key"
  by (subst cbc_encrypt.simps) (auto simp: padded_def Let_def)

lemma length_padded: "length inp < 16 \<Longrightarrow> length (padded inp) = 16"
  by (simp add: padded_def Let_def)

lemma cbc_decrypt_encrypt:
  assumes inv: "\<And>blk. length blk = 16 \<Longrightarrow> AES_decrypt (AES_encrypt blk ek) dk = blk"
  shows "length iv = 16 \<Longrightarrow> cbc_decrypt dk iv (cbc_encrypt ek iv inp @ junk) (16 * (length inp div 16) + 16) =
    Some (padded inp)"
proof (induction "length inp" arbitrary: iv inp rule: less_induct)
  case less
  show ?case
  proof (cases "16 \<le> length inp")
    case True
    define out where "out = AES_encrypt (xor_block (take 16 inp) iv) ek"
    have d: "length inp div 16 = Suc ((length inp - 16) div 16)"
      using True by (simp add: le_div_geq)
    have p: "padded inp = take 16 inp @ padded (drop 16 inp)"
      using True by (simp add: padded_def Let_def le_mod_geq)
    have e: "cbc_encrypt ek iv inp = out @ cbc_encrypt ek out (drop 16 inp)"
      using True by (subst cbc_encrypt.simps) (simp add: Let_def out_def)
    have IH: "cbc_decrypt dk out (cbc_encrypt ek out (drop 16 inp) @ junk)
        (16 * ((length inp - 16) div 16) + 16) = Some (padded (drop 16 inp))"
      using less(1) [of "drop 16 inp" out] True by (simp add: out_def)
    have "xor_block (AES_decrypt out dk) iv = take 16 inp"
      using True less.prems by (simp add: out_def inv xor_block_twice)
    with IH show ?thesis unfolding d e p
      by (subst cbc_decrypt.simps) (simp add: rd_def out_def add.commute)
  next
    case False
    then have "xor_block (AES_decrypt (cbc_encrypt ek iv inp) dk) iv = padded inp"
      using less.prems by (simp add: cbc_last_block length_padded inv xor_block_twice)
    moreover have "length (cbc_encrypt ek iv inp) = 16"
      using False by (simp add: cbc_last_block)
    moreover have "cbc_decrypt dk b inp 0 = Some []" for b inp by (subst cbc_decrypt.simps) simp
    ultimately show ?thesis using False
      by (subst cbc_decrypt.simps) (simp add: rd_def)
  qed
qed

lemma last_padded: "padded inp \<noteq> [] \<and> last (padded inp) = of_nat (16 - length inp mod 16)"
  by (auto simp: padded_def Let_def)

lemma unat_cbc_padding: "unat (cbc_padding n) = 16 - unat n mod 16"
  by (simp add: cbc_padding_def Let_def unat_mod unat_sub_le word_le_nat_alt unat_eq_0 flip: unat_0_iff)

lemma take_padded: "take (length pt) (padded pt) = pt"
  by (auto simp: padded_def Let_def)

lemma AES_CBC_Encrypt_Decrypt:
  assumes "length key = 16" "length iv = 16" "length pt < 2 ^ 32 - 16"
  shows "\<exists>ct. AES_CBC_Encrypt pt (of_nat (length pt)) key 16 iv =
      Some (ct, of_nat (length ct)) \<and> length ct = 16 * (length pt div 16) + 16 \<and>
    (\<forall>junk. AES_CBC_Decrypt (ct @ junk) (of_nat (length ct)) key 16 iv = Some (padded pt, of_nat (length pt)))"
proof -
  obtain ek where ek: "AES_set_encrypt_key key 128 = Inr ek"
    by (simp add: AES_set_encrypt_key_def Let_def)
  obtain dk where dk: "AES_set_decrypt_key key 128 = Inr dk"
    using ek by (simp add: AES_set_decrypt_key_def)
  define ct where "ct = cbc_encrypt ek iv pt"
  have lct: "length ct = 16 * (length pt div 16) + 16"
    using assms(2) by (simp add: ct_def length_cbc_encrypt)
  have split: "16 * (length pt div 16) + length pt mod 16 = length pt" by (rule mult_div_mod_eq)
  have pad: "length ct = length pt + (16 - length pt mod 16)"
    using lct split mod_less_divisor [of 16 "length pt"] by linarith
  have u: "unat (of_nat (length pt) :: u32) = length pt" "unat (of_nat (length ct) :: u32) = length ct"
    using assms(3) pad by (simp_all only: unat_of_nat take_bit_nat_eq_self_iff) auto
  have 16: "unat (16 * 8 :: u32) = 128" by simp
  have len: "(of_nat (length pt) + cbc_padding (of_nat (length pt)) :: u32) = of_nat (length ct)"
  proof -
    have "cbc_padding (of_nat (length pt)) = of_nat (16 - length pt mod 16)"
    proof -
      have "cbc_padding (of_nat (length pt)) = of_nat (unat (cbc_padding (of_nat (length pt))))" by simp
      also have "\<dots> = of_nat (16 - length pt mod 16)" by (simp only: unat_cbc_padding u)
      finally show ?thesis .
    qed
    then show ?thesis unfolding pad by simp
  qed
  have enc: "AES_CBC_Encrypt pt (of_nat (length pt)) key 16 iv = Some (ct, of_nat (length ct))"
    using assms by (simp add: AES_CBC_Encrypt_def rd_def ek ct_def [symmetric] u len)
  have dec: "cbc_decrypt dk iv (ct @ junk) (length ct) = Some (padded pt)" for junk
    using cbc_decrypt_encrypt [OF AES_decrypt_encrypt_block [OF ek dk] assms(2)] lct by (simp add: ct_def)
  have "(of_nat (length ct) - ucast (last (padded pt)) :: u32) = of_nat (length pt)"
  proof -
    have "ucast (of_nat (16 - length pt mod 16) :: u8) = (of_nat (16 - length pt mod 16) :: u32)"
      by (rule ucast_of_nat_u8) simp
    then show ?thesis unfolding pad by (simp add: last_padded)
  qed
  then have "AES_CBC_Decrypt (ct @ junk) (of_nat (length ct)) key 16 iv = Some (padded pt, of_nat (length pt))" for junk
    using assms dec by (simp add: AES_CBC_Decrypt_def rd_def dk u last_padded)
  with enc lct show ?thesis by blast
qed

text \<open>C21: For every 16-byte key and vector and every plaintext of fewer than 2^32 - 16 bytes,
  \<^verbatim>\<open>AES_CBC_Encrypt\<close> is defined and produces the plaintext's length rounded up to the next multiple of 16
  (never the length itself); \<^verbatim>\<open>AES_CBC_Decrypt\<close> of that ciphertext, whatever follows it in memory,
  returns a buffer that starts with the plaintext, and exactly its length.\<close>

theorem AES_CBC_roundtrip:
  assumes "length key = 16" "length iv = 16" "length pt < 2 ^ 32 - 16"
  shows "\<exists>ct out. AES_CBC_Encrypt pt (of_nat (length pt)) key 16 iv =
      Some (ct, of_nat (length ct)) \<and> length ct = 16 * (length pt div 16) + 16 \<and>
    AES_CBC_Decrypt (ct @ junk) (of_nat (length ct)) key 16 iv = Some (out, of_nat (length pt)) \<and>
    take (length pt) out = pt"
  using AES_CBC_Encrypt_Decrypt [OF assms] take_padded by blast

lemma AES_CBC_roundtrip_witness:
  "\<exists>ct out. AES_CBC_Encrypt [1, 2, 3] (of_nat (length [1, 2, 3 :: u8])) (replicate 16 9) 16 (replicate 16 0) =
      Some (ct, of_nat (length ct)) \<and>
    AES_CBC_Decrypt (ct @ []) (of_nat (length ct)) (replicate 16 9) 16 (replicate 16 0) =
      Some (out, of_nat (length [1, 2, 3 :: u8])) \<and> take (length [1, 2, 3 :: u8]) out = [1, 2, 3]"
proof -
  have "length (replicate 16 9 :: bytes) = 16" "length (replicate 16 0 :: bytes) = 16"
    "length [1, 2, 3 :: u8] < 2 ^ 32 - 16" by simp_all
  from AES_CBC_roundtrip [OF this, of "[]"] show ?thesis by blast
qed

end
