(* ===== verification/Sec.thy ===== *)
theory Sec
  imports Timers CbcCorrect
begin

text \<open>
  The security engine \<^verbatim>\<open>src/src/ZC/src/zc/zc_sec_engine.c\<close>: which algorithm protects a message, how
  long the protected message is, and the encryption and decryption itself. RSA (a vendored library) is
  reached through \<open>sdk\<close>; the splitting of a message into RSA blocks is the firmware's. Destination and
  source of each operation are an object and an offset into it.
\<close>

abbreviation (input) rsa_len :: nat where "rsa_len \<equiv> 32"

subsection \<open>RSA\<close>

definition SEC_InitRsaContextWithPublicKey :: "bytes \<Rightarrow> rsa_public option" where
  "SEC_InitRsaContextWithPublicKey pu8Pubkey = do {
     n \<leftarrow> rd pu8Pubkey 0 32;
     e \<leftarrow> rd pu8Pubkey 32 3;
     Some \<lparr>rsa_N = n, rsa_E = e\<rparr> }"

definition SEC_InitRsaContextWithPrivateKey :: "bytes \<Rightarrow> rsa_private option" where
  "SEC_InitRsaContextWithPrivateKey pu8PrivateKey = do {
     n \<leftarrow> rd pu8PrivateKey 0 32;
     p \<leftarrow> rd pu8PrivateKey 32 16;
     q \<leftarrow> rd pu8PrivateKey 48 16;
     dp \<leftarrow> rd pu8PrivateKey 64 16;
     dq \<leftarrow> rd pu8PrivateKey 80 16;
     qp \<leftarrow> rd pu8PrivateKey 96 16;
     Some \<lparr>rsa_PN = n, rsa_P = p, rsa_Q = q, rsa_DP = dp, rsa_DQ = dq, rsa_QP = qp\<rparr> }"

text \<open>One call of \<^verbatim>\<open>rsa_pkcs1_encrypt\<close>: \<open>n\<close> bytes of the plaintext at \<open>soff\<close> go to \<open>doff\<close>.\<close>

definition rsa_pkcs1_encrypt ::
  "sdk \<Rightarrow> rsa_public \<Rightarrow> bytes \<Rightarrow> nat \<Rightarrow> nat \<Rightarrow> bytes \<Rightarrow> nat \<Rightarrow> world \<Rightarrow> (int \<times> bytes \<times> world) option" where
  "rsa_pkcs1_encrypt S key src soff n dst doff w = do {
     p \<leftarrow> rd src soff n;
     let (ret, out) = sdk_rsa_encrypt S (io w) key p;
     dst \<leftarrow> wr dst doff out;
     Some (ret, dst, emit E_rsa w) }"

text \<open>The loop over full blocks of 21 bytes: the return value of the last call, the number of bytes
  read, the ciphertext length, the destination. The C comparison is in \<^verbatim>\<open>int\<close>.\<close>

function rsa_encrypt_loop ::
  "sdk \<Rightarrow> rsa_public \<Rightarrow> bytes \<Rightarrow> nat \<Rightarrow> nat \<Rightarrow> int \<Rightarrow> nat \<Rightarrow> u16 \<Rightarrow> bytes \<Rightarrow> nat \<Rightarrow> world \<Rightarrow>
     (int \<times> nat \<times> u16 \<times> bytes \<times> world) option" where
  "rsa_encrypt_loop S key src soff len ret readlen clen dst doff w =
     (if readlen + 21 \<le> len then do {
        (ret, dst, w) \<leftarrow> rsa_pkcs1_encrypt S key src (soff + readlen) 21 dst (doff + unat clen) w;
        if ret \<noteq> 0 then Some (ret, readlen, clen, dst, w)
        else rsa_encrypt_loop S key src soff len ret (readlen + 21) (clen + 32) dst doff w
      } else Some (ret, readlen, clen, dst, w))"
  by pat_completeness auto
termination
  by (relation "measure (\<lambda>(S, key, src, soff, len, ret, readlen, clen, dst, doff, w). len - readlen)") auto

declare rsa_encrypt_loop.simps [simp del]

definition SEC_EncryptTextByRsa ::
  "sdk \<Rightarrow> bytes \<Rightarrow> nat \<Rightarrow> bytes \<Rightarrow> nat \<Rightarrow> u16 \<Rightarrow> world \<Rightarrow> (u32 \<times> u16 \<times> bytes \<times> world) option" where
  "SEC_EncryptTextByRsa S dst doff src soff u16Len w = do {
     pu8PublicKey \<leftarrow> ZC_GetStoreInfor ZC_GET_TYPE_CLOUDKEY w;
     rsa \<leftarrow> SEC_InitRsaContextWithPublicKey pu8PublicKey;
     if unat u16Len + 11 > rsa_len then do {
       (ret, readlen, clen, dst, w) \<leftarrow> rsa_encrypt_loop S rsa src soff (unat u16Len) 0 0 0 dst doff w;
       if readlen < unat u16Len then do {
         (ret, dst, w) \<leftarrow>
           rsa_pkcs1_encrypt S rsa src (soff + readlen) (unat u16Len - readlen) dst (doff + unat clen) w;
         Some (if ret \<noteq> 0 then ZC_RET_ERROR else ZC_RET_OK, clen + 32, dst, w)
       } else Some (if ret \<noteq> 0 then ZC_RET_ERROR else ZC_RET_OK, clen, dst, w)
     } else do {
       (ret, dst, w) \<leftarrow> rsa_pkcs1_encrypt S rsa src soff (unat u16Len) dst doff w;
       Some (if ret \<noteq> 0 then ZC_RET_ERROR else ZC_RET_OK, 32, dst, w)
     } }"

definition rsa_pkcs1_decrypt ::
  "sdk \<Rightarrow> rsa_private \<Rightarrow> bytes \<Rightarrow> nat \<Rightarrow> bytes \<Rightarrow> nat \<Rightarrow> u16 \<Rightarrow> world \<Rightarrow> (int \<times> int \<times> bytes \<times> world) option" where
  "rsa_pkcs1_decrypt S key src soff dst doff maxlen w = do {
     c \<leftarrow> rd src soff rsa_len;
     let (ret, olen, out) = sdk_rsa_decrypt S (io w) key c (unat maxlen);
     dst \<leftarrow> wr dst doff out;
     Some (ret, olen, dst, emit E_rsa w) }"

function rsa_decrypt_loop ::
  "sdk \<Rightarrow> rsa_private \<Rightarrow> bytes \<Rightarrow> nat \<Rightarrow> u16 \<Rightarrow> int \<Rightarrow> nat \<Rightarrow> u16 \<Rightarrow> bytes \<Rightarrow> nat \<Rightarrow> world \<Rightarrow>
     (int \<times> nat \<times> u16 \<times> bytes \<times> world) option" where
  "rsa_decrypt_loop S key src soff len ret readlen plen dst doff w =
     (if readlen + rsa_len \<le> unat len then do {
        (ret, olen, dst, w) \<leftarrow> rsa_pkcs1_decrypt S key src (soff + readlen) dst (doff + unat plen) len w;
        if ret \<noteq> 0 then Some (ret, readlen, plen, dst, w)
        else rsa_decrypt_loop S key src soff len ret (readlen + rsa_len) (plen + of_int olen) dst doff w
      } else Some (ret, readlen, plen, dst, w))"
  by pat_completeness auto
termination
  by (relation "measure (\<lambda>(S, key, src, soff, len, ret, readlen, plen, dst, doff, w). unat len - readlen)") auto

declare rsa_decrypt_loop.simps [simp del]

text \<open>A last partial block is decrypted from 32 bytes of the input object.\<close>

definition SEC_DecryptTextByRsa ::
  "sdk \<Rightarrow> bytes \<Rightarrow> nat \<Rightarrow> bytes \<Rightarrow> nat \<Rightarrow> u16 \<Rightarrow> world \<Rightarrow> (u32 \<times> u16 \<times> bytes \<times> world) option" where
  "SEC_DecryptTextByRsa S src soff dst doff u16Len w = do {
     pu8PrivateKey \<leftarrow> ZC_GetStoreInfor ZC_GET_TYPE_PRIVATEKEY w;
     rsa \<leftarrow> SEC_InitRsaContextWithPrivateKey pu8PrivateKey;
     if unat u16Len > rsa_len then do {
       (ret, readlen, plen, dst, w) \<leftarrow> rsa_decrypt_loop S rsa src soff u16Len 0 0 0 dst doff w;
       if readlen < unat u16Len then do {
         (ret, olen, dst, w) \<leftarrow> rsa_pkcs1_decrypt S rsa src (soff + readlen) dst (doff + unat plen) u16Len w;
         Some (if ret \<noteq> 0 then ZC_RET_ERROR else ZC_RET_OK, plen + of_int olen, dst, w)
       } else Some (if ret \<noteq> 0 then ZC_RET_ERROR else ZC_RET_OK, plen, dst, w)
     } else do {
       (ret, olen, dst, w) \<leftarrow> rsa_pkcs1_decrypt S rsa src soff dst doff u16Len w;
       Some (if ret \<noteq> 0 then ZC_RET_ERROR else ZC_RET_OK, of_int olen, dst, w)
     } }"

subsection \<open>AES\<close>

definition SEC_AesEncrypt ::
  "bytes \<Rightarrow> nat \<Rightarrow> bytes \<Rightarrow> nat \<Rightarrow> u16 \<Rightarrow> u16 \<Rightarrow> world \<Rightarrow> (u32 \<times> u16 \<times> bytes) option" where
  "SEC_AesEncrypt dst doff src soff u16Len pu16CiperLen w =
     (if u8keyRecv (con w) \<noteq> PCT_KEY_RECVED then Some (ZC_RET_ERROR, pu16CiperLen, dst)
      else do {
        (out, u32OutLen) \<leftarrow> AES_CBC_Encrypt (drop soff src) (ucast u16Len) (u8SessionKey (con w)) 16 (IvSend (con w));
        dst \<leftarrow> wr dst doff out;
        Some (ZC_RET_OK, ucast u32OutLen, dst) })"

definition SEC_AesDecrypt ::
  "bytes \<Rightarrow> nat \<Rightarrow> bytes \<Rightarrow> nat \<Rightarrow> u16 \<Rightarrow> u16 \<Rightarrow> world \<Rightarrow> (u32 \<times> u16 \<times> bytes) option" where
  "SEC_AesDecrypt src soff dst doff u16Len pu16PlainLen w =
     (if u8keyRecv (con w) \<noteq> PCT_KEY_RECVED then Some (ZC_RET_ERROR, pu16PlainLen, dst)
      else do {
        (out, u32OutLen) \<leftarrow> AES_CBC_Decrypt (drop soff src) (ucast u16Len) (u8SessionKey (con w)) 16 (IvRecv (con w));
        dst \<leftarrow> wr dst doff out;
        Some (ZC_RET_OK, ucast u32OutLen, dst) })"

subsection \<open>The choice of the algorithm\<close>

definition sec_flag :: "u8 \<Rightarrow> world \<Rightarrow> u8" where
  "sec_flag typ w =
     (if u32SecSwitch (struSwitchInfo (g_struZcConfigDb w)) = 0 then ZC_SEC_ALG_NONE
      else if u32SecSwitch (struSwitchInfo (g_struZcConfigDb w)) = 2 then
        (if typ = ZC_SEC_ALG_RSA then ZC_SEC_ALG_NONE else typ)
      else typ)"

definition SEC_PaddingCheck :: "u8 \<Rightarrow> u16 \<Rightarrow> world \<Rightarrow> u32 \<times> u16" where
  "SEC_PaddingCheck typ u16PlainLen w =
     (let u8SecFlag = sec_flag typ w;
          u16PaddingLen =
            (if u8SecFlag = ZC_SEC_ALG_AES then
               (let LastBlockSize = u16PlainLen mod 16
                in if LastBlockSize > 0 then 16 - LastBlockSize else 16)
             else if u8SecFlag = ZC_SEC_ALG_RSA then
               (let LastBlockSize = u16PlainLen mod 32
                in if LastBlockSize > 0 then 32 - LastBlockSize else 0)
             else 0)
      in (ZC_RET_OK, u16PaddingLen))"

text \<open>\<^verbatim>\<open>SEC_Encrypt\<close> changes the type in the head when security is off, and only then.\<close>

definition SEC_Encrypt ::
  "sdk \<Rightarrow> ZC_SecHead \<Rightarrow> bytes \<Rightarrow> nat \<Rightarrow> bytes \<Rightarrow> nat \<Rightarrow> u16 \<Rightarrow> world \<Rightarrow>
     (u32 \<times> ZC_SecHead \<times> u16 \<times> bytes \<times> world) option" where
  "SEC_Encrypt S h dst doff src soff pu16CiperLen w =
     (let h = (if u32SecSwitch (struSwitchInfo (g_struZcConfigDb w)) = 0
               then h\<lparr>u8SecType := ZC_SEC_ALG_NONE\<rparr> else h);
          u16Len = ZC_HTONS (u16TotalMsg h)
      in if u8SecType h = ZC_SEC_ALG_NONE then do {
           p \<leftarrow> rd src soff (unat u16Len);
           dst \<leftarrow> wr dst doff p;
           Some (ZC_RET_OK, h, u16Len, dst, w) }
         else if u8SecType h = ZC_SEC_ALG_RSA then do {
           (r, n, dst, w) \<leftarrow> SEC_EncryptTextByRsa S dst doff src soff u16Len w;
           Some (r, h, n, dst, w) }
         else if u8SecType h = ZC_SEC_ALG_AES then do {
           (r, n, dst) \<leftarrow> SEC_AesEncrypt dst doff src soff u16Len pu16CiperLen w;
           Some (r, h, n, dst, w) }
         else Some (ZC_RET_ERROR, h, pu16CiperLen, dst, w))"

definition SEC_Decrypt ::
  "sdk \<Rightarrow> ZC_SecHead \<Rightarrow> bytes \<Rightarrow> nat \<Rightarrow> bytes \<Rightarrow> nat \<Rightarrow> u16 \<Rightarrow> world \<Rightarrow>
     (u32 \<times> u16 \<times> bytes \<times> world) option" where
  "SEC_Decrypt S h src soff dst doff pu16PlainLen w =
     (let u8SecFlag = sec_flag (u8SecType h) w;
          u16Len = ZC_HTONS (u16TotalMsg h)
      in if u8SecFlag = ZC_SEC_ALG_NONE then do {
           c \<leftarrow> rd src soff (unat u16Len);
           dst \<leftarrow> wr dst doff c;
           Some (ZC_RET_OK, u16Len, dst, w) }
         else if u8SecFlag = ZC_SEC_ALG_RSA then
           SEC_DecryptTextByRsa S src soff dst doff u16Len w
         else if u8SecFlag = ZC_SEC_ALG_AES then do {
           (r, n, dst) \<leftarrow> SEC_AesDecrypt src soff dst doff u16Len pu16PlainLen w;
           Some (r, n, dst, w) }
         else Some (ZC_RET_ERROR, pu16PlainLen, dst, w))"

end
