(* ===== verification/Device.thy ===== *)
theory Device
  imports State
begin

text \<open>
  The device side of the module: \<^verbatim>\<open>src/src/AC/src/ac_hal.c\<close>, \<^verbatim>\<open>AC_RecvMessage\<close> of
  \<^verbatim>\<open>src/src/AC/src/ac_api.c\<close> and \<^verbatim>\<open>HF_SendDataToMoudle\<close> of \<^verbatim>\<open>src/src/zc_hf_adpter.c\<close>, through
  which every message from the protocol controller to the device passes. Option parsing is compiled
  out, so the payload follows the message head.
\<close>

abbreviation (input) CLOUDSTATUS :: u32 where "CLOUDSTATUS \<equiv> 0"
abbreviation (input) WIFIPOWERSTATUS :: u32 where "WIFIPOWERSTATUS \<equiv> 1"
abbreviation (input) CLOUDCONNECT :: u32 where "CLOUDCONNECT \<equiv> 1"
abbreviation (input) CLOUDDISCONNECT :: u32 where "CLOUDDISCONNECT \<equiv> 0"
abbreviation (input) WIFIPOWERON :: u32 where "WIFIPOWERON \<equiv> 1"

definition AC_StoreStatus :: "u32 \<Rightarrow> u32 \<Rightarrow> world \<Rightarrow> world" where
  "AC_StoreStatus u32Type u32Data w =
     (if u32Type = CLOUDSTATUS then upd_dev (g_u32CloudStatus_update (\<lambda>_. u32Data)) w
      else if u32Type = WIFIPOWERSTATUS then upd_dev (g_u32WifiPowerStatus_update (\<lambda>_. u32Data)) w
      else w)"

definition AC_GetStoreStatus :: "u32 \<Rightarrow> world \<Rightarrow> u32" where
  "AC_GetStoreStatus u32Type w =
     (if u32Type = CLOUDSTATUS then g_u32CloudStatus (device w)
      else if u32Type = WIFIPOWERSTATUS then g_u32WifiPowerStatus (device w)
      else ZC_RET_ERROR)"

definition AC_DealNotifyMessage :: "ZC_MessageHead \<Rightarrow> world \<Rightarrow> world" where
  "AC_DealNotifyMessage pstruMsg w =
     (if MsgCode pstruMsg = ZC_CODE_EQ_DONE then AC_StoreStatus WIFIPOWERSTATUS WIFIPOWERON w
      else if MsgCode pstruMsg = ZC_CODE_WIFI_CONNECTED then w
      else if MsgCode pstruMsg = ZC_CODE_CLOUD_CONNECTED then AC_StoreStatus CLOUDSTATUS CLOUDCONNECT w
      else if MsgCode pstruMsg = ZC_CODE_CLOUD_DISCONNECTED then AC_StoreStatus CLOUDSTATUS CLOUDDISCONNECT w
      else w)"

text \<open>The payload, at offset \<open>off\<close> of the object \<open>m\<close>, goes out on the serial line.\<close>

definition AC_DealEvent :: "ZC_MessageHead \<Rightarrow> bytes \<Rightarrow> nat \<Rightarrow> world \<Rightarrow> world option" where
  "AC_DealEvent pstruMsg m off w = do {
     p \<leftarrow> rd m off (unat (ZC_HTONS (Payloadlen pstruMsg)));
     Some (upd_dev (uart_send_MsgId_update (\<lambda>_. MsgId pstruMsg)) (emit (E_uart_send p) w)) }"

definition AC_RecvMessage :: "bytes \<Rightarrow> nat \<Rightarrow> world \<Rightarrow> world option" where
  "AC_RecvMessage m off w = do {
     pstruMsg \<leftarrow> rd_MsgHead m off;
     if MsgCode pstruMsg \<in> {ZC_CODE_EQ_DONE, ZC_CODE_WIFI_CONNECTED, ZC_CODE_WIFI_DISCONNECTED,
         ZC_CODE_CLOUD_CONNECTED, ZC_CODE_CLOUD_DISCONNECTED} then
       Some (AC_DealNotifyMessage pstruMsg w)
     else if MsgCode pstruMsg \<ge> ZC_CODE_EVENT_BASE then AC_DealEvent pstruMsg m (off + 8) w
     else Some w }"

definition HF_SendDataToMoudle :: "bytes \<Rightarrow> nat \<Rightarrow> u16 \<Rightarrow> world \<Rightarrow> world option" where
  "HF_SendDataToMoudle m off u16DataLen w = AC_RecvMessage m off w"

text \<open>The device side changes its own state and the events only, and of those it only adds sends on
  the serial line.\<close>

definition device_io :: "world \<Rightarrow> world \<Rightarrow> bool" where
  "device_io w w' \<longleftrightarrow> (\<exists>d es. w' = w\<lparr>device := d, io := es @ io w\<rparr> \<and> (\<forall>e \<in> set es. \<exists>p. e = E_uart_send p))"

lemma device_io_state: "device_io w (AC_StoreStatus t x w)"
  unfolding device_io_def
  by (rule exI [of _ "device (AC_StoreStatus t x w)"], rule exI [of _ "[]"]) (simp add: AC_StoreStatus_def)

lemma device_io_refl: "device_io w w"
  unfolding device_io_def by (rule exI [of _ "device w"], rule exI [of _ "[]"]) simp

lemma AC_DealNotifyMessage_device: "device_io w (AC_DealNotifyMessage h w)"
  by (simp add: AC_DealNotifyMessage_def device_io_state device_io_refl)

lemma AC_DealEvent_device: "AC_DealEvent h m off w = Some w' \<Longrightarrow> device_io w w'"
proof -
  assume "AC_DealEvent h m off w = Some w'"
  then obtain p where "w' = upd_dev (uart_send_MsgId_update (\<lambda>_. MsgId h)) (emit (E_uart_send p) w)"
    by (auto simp: AC_DealEvent_def bind_eq_Some_conv)
  then show ?thesis unfolding device_io_def
    by (intro exI [of _ "device w'"] exI [of _ "[E_uart_send p]"]) (simp add: emit_def)
qed

lemma HF_SendDataToMoudle_device:
  assumes "HF_SendDataToMoudle m off n w = Some w'"
  shows "device_io w w'"
proof -
  from assms obtain h where h: "rd_MsgHead m off = Some h"
    by (auto simp: HF_SendDataToMoudle_def AC_RecvMessage_def bind_eq_Some_conv)
  let ?c = "MsgCode h \<in> {1, 2, 3, 4, 5}" and ?e = "MsgCode h \<ge> 64"
  have "(if ?c then Some (AC_DealNotifyMessage h w) else if ?e then AC_DealEvent h m (off + 8) w
      else Some w) = Some w'"
    using assms by (simp only: HF_SendDataToMoudle_def AC_RecvMessage_def h bind.simps)
  then show ?thesis
    using AC_DealNotifyMessage_device [of w h] AC_DealEvent_device [of h m "off + 8" w w'] device_io_refl [of w]
    by (simp only: split: if_splits) (simp_all only: option.inject)
qed

lemma device_ioD:
  assumes "device_io w w'"
  shows "con w' = con w" "g_struZcConfigDb w' = g_struZcConfigDb w"
    "g_struRegisterInfo w' = g_struRegisterInfo w" "g_struTimer w' = g_struTimer w"
    "g_struHfTimer w' = g_struHfTimer w" "g_struRecvBuffer w' = g_struRecvBuffer w"
    "g_struRetxBuffer w' = g_struRetxBuffer w" "g_struClientBuffer w' = g_struClientBuffer w"
    "g_struSendBuffer w' = g_struSendBuffer w" "g_struRecvQueue w' = g_struRecvQueue w"
    "g_struSendQueue w' = g_struSendQueue w" "g_u8MsgBuildBuffer w' = g_u8MsgBuildBuffer w"
    "g_struUartBuffer w' = g_struUartBuffer w" "g_struClientInfo w' = g_struClientInfo w"
    "g_u32StopJdTask w' = g_u32StopJdTask w" "bc w' = bc w"
proof -
  from assms obtain d es where w: "w' = w\<lparr>device := d, io := es @ io w\<rparr>"
    unfolding device_io_def by blast
  show "con w' = con w" by (simp add: w)
  show "g_struZcConfigDb w' = g_struZcConfigDb w" by (simp add: w)
  show "g_struRegisterInfo w' = g_struRegisterInfo w" by (simp add: w)
  show "g_struTimer w' = g_struTimer w" by (simp add: w)
  show "g_struHfTimer w' = g_struHfTimer w" by (simp add: w)
  show "g_struRecvBuffer w' = g_struRecvBuffer w" by (simp add: w)
  show "g_struRetxBuffer w' = g_struRetxBuffer w" by (simp add: w)
  show "g_struClientBuffer w' = g_struClientBuffer w" by (simp add: w)
  show "g_struSendBuffer w' = g_struSendBuffer w" by (simp add: w)
  show "g_struRecvQueue w' = g_struRecvQueue w" by (simp add: w)
  show "g_struSendQueue w' = g_struSendQueue w" by (simp add: w)
  show "g_u8MsgBuildBuffer w' = g_u8MsgBuildBuffer w" by (simp add: w)
  show "g_struUartBuffer w' = g_struUartBuffer w" by (simp add: w)
  show "g_struClientInfo w' = g_struClientInfo w" by (simp add: w)
  show "g_u32StopJdTask w' = g_u32StopJdTask w" by (simp add: w)
  show "bc w' = bc w" by (simp add: w)
qed

end
