(* ===== verification/Link.thy ===== *)
theory Link
  imports Sec Device
begin

text \<open>
  The cloud link: \<^verbatim>\<open>MSG_Init\<close>, \<^verbatim>\<open>MSG_RecvDataFromCloud\<close>, \<^verbatim>\<open>MSG_SendDataToCloud\<close> of
  \<^verbatim>\<open>zc_message_queue.c\<close>, \<^verbatim>\<open>EVENT_BuildBcMsg\<close> of \<^verbatim>\<open>zc_cloud_event.c\<close> and
  \<^verbatim>\<open>PCT_SendMsgToCloud\<close> of \<^verbatim>\<open>zc_protocol_controller.c\<close>: framing, encryption and the receive buffer put
  together. What one side sends, a side with the same keys receives, however TCP cuts the stream.
\<close>

definition MSG_Init :: "world \<Rightarrow> world" where
  "MSG_Init w = w\<lparr>g_struRecvQueue := MSG_InitQueue (g_struRecvQueue w),
     g_struSendQueue := MSG_InitQueue (g_struSendQueue w),
     g_struRecvBuffer := buf_idle (g_struRecvBuffer w),
     g_struSendBuffer := buf_idle (g_struSendBuffer w),
     g_struClientBuffer := buf_idle (g_struClientBuffer w)\<rparr>"

definition junk16 :: "sdk \<Rightarrow> world \<Rightarrow> u16" where
  "junk16 S w = le16 (sdk_junk S (io w) 0) (sdk_junk S (io w) 1)"

definition MSG_RecvDataFromCloud :: "sdk \<Rightarrow> bytes \<Rightarrow> u32 \<Rightarrow> world \<Rightarrow> world option" where
  "MSG_RecvDataFromCloud S pu8Data u32DataLen w = do {
     (r, b) \<leftarrow> MSG_RecvData (g_struRecvBuffer w) pu8Data u32DataLen;
     let w = w\<lparr>g_struRecvBuffer := b\<rparr>;
     if r = ZC_RET_OK \<and> u8Status b = MSG_BUFFER_FULL then do {
       h \<leftarrow> rd_SecHead (u8MsgBuffer b) 0;
       (r, u16PlainLen, bb, w) \<leftarrow> SEC_Decrypt S h (u8MsgBuffer b) 4 (g_u8MsgBuildBuffer w) 0 (junk16 S w) w;
       let w = w\<lparr>g_u8MsgBuildBuffer := bb\<rparr>;
       m \<leftarrow> memcpy (u8MsgBuffer b) 0 bb (unat u16PlainLen);
       let w = w\<lparr>g_struRecvBuffer := b\<lparr>u8MsgBuffer := m, u32Len := ucast u16PlainLen\<rparr>\<rparr>;
       if r = ZC_RET_OK then do {
         (r, q) \<leftarrow> MSG_PushMsg (g_struRecvQueue w) RecvBuf;
         Some (w\<lparr>g_struRecvQueue := q\<rparr>)
       } else Some w
     } else Some w }"

definition MSG_SendDataToCloud :: "PTC_Connection \<Rightarrow> world \<Rightarrow> world option" where
  "MSG_SendDataToCloud pstruConnection w = do {
     (p, q) \<leftarrow> MSG_PopMsg (g_struSendQueue w);
     let w = w\<lparr>g_struSendQueue := q\<rparr>;
     case p of None \<Rightarrow> Some w
     | Some p \<Rightarrow> do {
         let u16DataLen = (ucast (u32Len (get_buf p w)) :: u16);
         d \<leftarrow> rd (u8MsgBuffer (get_buf p w)) 0 (unat u16DataLen);
         Some (upd_buf p buf_idle (emit (E_tcp_send (u32Socket pstruConnection) d) w)) } }"

definition EVENT_BuildBcMsg :: "bytes \<Rightarrow> world \<Rightarrow> (bytes \<times> u16) option" where
  "EVENT_BuildBcMsg m w = do {
     did \<leftarrow> ZC_GetStoreInfor ZC_GET_TYPE_DEVICEID w;
     rnd \<leftarrow> rd (RandMsg (con w)) 0 32;
     d \<leftarrow> rd did 0 16;
     dom \<leftarrow> rd did 16 8;
     let p = dom @ d @ rnd;
     m \<leftarrow> wr m 0 (MsgHead_bytes \<lparr>Version = ZC_VERSION, MsgId = 0, MsgCode = ZC_CODE_BC_INFO, OptNum = 0,
       Payloadlen = ZC_HTONS 56, TotalMsgCrc = crc_bytes (crc16_ccitt p)\<rparr> @ p);
     Some (m, 64) }"

text \<open>\<open>plain\<close> is the object \<^verbatim>\<open>pu8PlainData\<close> points into, at offset \<open>poff\<close>; it is never the send
  buffer.\<close>

definition PCT_SendMsgToCloud ::
  "sdk \<Rightarrow> ZC_SecHead \<Rightarrow> bytes \<Rightarrow> nat \<Rightarrow> world \<Rightarrow> (u32 \<times> world) option" where
  "PCT_SendMsgToCloud S h plain poff w =
     (let (r, u16PaddingLen) = SEC_PaddingCheck (u8SecType h) (ZC_HTONS (u16TotalMsg h)) w
      in if r = ZC_RET_ERROR then Some (ZC_RET_ERROR, w)
      else let u16Len = ZC_HTONS (u16TotalMsg h) + 4 + u16PaddingLen
      in if unat u16Len > MSG_BUFFER_MAXLEN then Some (ZC_RET_ERROR, w)
      else if u8Status (g_struSendBuffer w) = MSG_BUFFER_IDLE then do {
        let u16Len = ZC_HTONS (u16TotalMsg h) + u16PaddingLen;
        (r, h, u16Len, m, w) \<leftarrow> SEC_Encrypt S h (u8MsgBuffer (g_struSendBuffer w)) 4 plain poff u16Len w;
        let w = g_struSendBuffer_update (u8MsgBuffer_update (\<lambda>_. m)) w;
        if r = ZC_RET_ERROR then Some (ZC_RET_ERROR, w)
        else do {
          let h = h\<lparr>u16TotalMsg := ZC_HTONS u16Len\<rparr>;
          m \<leftarrow> wr m 0 (SecHead_bytes h);
          let u32SendLen = (ucast u16Len + 4 :: u32);
          d \<leftarrow> rd m 0 (unat (ucast u32SendLen :: u16));
          let w = emit (E_tcp_send (u32Socket (struCloudConnection (con w))) d) w;
          Some (ZC_RET_OK, w\<lparr>g_struSendBuffer := \<lparr>u32Len = 0, u8Status = MSG_BUFFER_IDLE, u8MsgBuffer = m\<rparr>\<rparr>)
        }
      } else Some (ZC_RET_ERROR, w))"

subsection \<open>One protected message\<close>

lemma rd_take_drop: "soff + n \<le> length src \<Longrightarrow> rd (drop soff src) 0 n = rd (take n (drop soff src)) 0 n"
  by (simp add: rd_def)

lemma AES_CBC_Encrypt_take:
  "soff + unat n \<le> length src \<Longrightarrow>
     AES_CBC_Encrypt (drop soff src) n k l iv = AES_CBC_Encrypt (take (unat n) (drop soff src)) n k l iv"
  unfolding AES_CBC_Encrypt_def by (simp only: rd_take_drop)

definition session_keys :: "world \<Rightarrow> bool" where
  "session_keys w \<longleftrightarrow> length (u8SessionKey (con w)) = 16 \<and> length (IvSend (con w)) = 16 \<and>
     length (IvRecv (con w)) = 16"

lemma length_padded_all: "length (padded p) = length p + (16 - length p mod 16)"
  by (simp add: padded_def Let_def)

lemma ucast_of_nat_32_16: "ucast (of_nat k :: u32) = (of_nat k :: u16)"
  by (rule bit_eqI) (simp add: bit_simps)

lemma u16_u32_of_nat: "n < 65536 \<Longrightarrow> ucast (of_nat n :: u16) = (of_nat n :: u32)"
  by (simp add: word_unat_eq_iff unat_of_nat take_bit_nat_eq_self_iff)

text \<open>The ciphertext of a message and what the receiver with the same key makes of it.\<close>

lemma SEC_Aes_roundtrip:
  assumes "session_keys w" "u8keyRecv (con w) = PCT_KEY_RECVED" "soff + unat n \<le> length src"
    "unat n \<le> 1000"
  shows "\<exists>ct. length ct = unat n + (16 - unat n mod 16) \<and>
    (\<forall>dst doff cl. doff + length ct \<le> length dst \<longrightarrow> SEC_AesEncrypt dst doff src soff n cl w =
       Some (ZC_RET_OK, of_nat (length ct), take doff dst @ ct @ drop (doff + length ct) dst)) \<and>
    (\<forall>w' src' soff' dst' pl. u8keyRecv (con w') = PCT_KEY_RECVED \<longrightarrow>
       u8SessionKey (con w') = u8SessionKey (con w) \<longrightarrow> IvRecv (con w') = IvSend (con w) \<longrightarrow>
       soff' + length ct \<le> length src' \<longrightarrow> take (length ct) (drop soff' src') = ct \<longrightarrow>
       length ct \<le> length dst' \<longrightarrow>
       SEC_AesDecrypt src' soff' dst' 0 (of_nat (length ct)) pl w' =
         Some (ZC_RET_OK, n, padded (take (unat n) (drop soff src)) @ drop (length ct) dst'))"
proof -
  let ?p = "take (unat n) (drop soff src)" and ?k = "u8SessionKey (con w)" and ?iv = "IvSend (con w)"
  have lp: "length ?p = unat n" using assms(3) by simp
  have keys: "length ?k = 16" "length ?iv = 16" using assms(1) by (simp_all add: session_keys_def)
  from AES_CBC_Encrypt_Decrypt [OF keys, of ?p] lp assms(4) obtain ct where
    enc: "AES_CBC_Encrypt ?p (of_nat (unat n)) ?k 16 ?iv = Some (ct, of_nat (length ct))"
    and lct: "length ct = 16 * (unat n div 16) + 16"
    and dec: "\<And>junk. AES_CBC_Decrypt (ct @ junk) (of_nat (length ct)) ?k 16 ?iv = Some (padded ?p, of_nat (unat n))"
    by auto
  have len: "length ct = unat n + (16 - unat n mod 16)"
    using lct mult_div_mod_eq [of 16 "unat n"] mod_less_divisor [of 16 "unat n"] by linarith
  have small: "length ct < 65536" using len assms(4) by simp
  have n32: "ucast n = (of_nat (unat n) :: u32)"
    by (simp add: word_unat_eq_iff unat_of_nat take_bit_nat_eq_self_iff unat_u16_lt [THEN less_trans])
  have enc': "AES_CBC_Encrypt (drop soff src) (ucast n) ?k 16 ?iv = Some (ct, of_nat (length ct))"
    using AES_CBC_Encrypt_take [of soff "ucast n" src ?k 16 ?iv] assms(3) enc
    by (simp only: n32 [symmetric] unat_ucast_16_32)
  have bk: "ucast (of_nat (unat n) :: u32) = n" by (simp only: n32 [symmetric], rule bit_eqI) (auto simp: bit_simps dest: bit_imp_le_length)
  have lpad: "length (padded ?p) = length ct" by (simp only: length_padded_all lp len)
  have "SEC_AesEncrypt dst doff src soff n cl w =
      Some (ZC_RET_OK, of_nat (length ct), take doff dst @ ct @ drop (doff + length ct) dst)"
    if "doff + length ct \<le> length dst" for dst doff cl
    using that assms(2) enc' by (simp add: SEC_AesEncrypt_def wr_def ucast_of_nat_32_16)
  moreover have "SEC_AesDecrypt src' soff' dst' 0 (of_nat (length ct)) pl w' =
      Some (ZC_RET_OK, n, padded ?p @ drop (length ct) dst')"
    if "u8keyRecv (con w') = PCT_KEY_RECVED" "u8SessionKey (con w') = ?k" "IvRecv (con w') = ?iv"
      "take (length ct) (drop soff' src') = ct" "length ct \<le> length dst'" for w' src' soff' dst' pl
  proof -
    have "drop soff' src' = ct @ drop (length ct) (drop soff' src')"
      using that(4) by (metis append_take_drop_id)
    then have "AES_CBC_Decrypt (drop soff' src') (of_nat (length ct)) ?k 16 ?iv =
        Some (padded ?p, of_nat (unat n))"
      using dec by metis
    then show ?thesis
      using that(1-3,5) lpad
      by (simp only: SEC_AesDecrypt_def u16_u32_of_nat [OF small] if_False not_True_eq_False refl
          bind.simps case_prod_conv wr_def bk add_0 if_True take0 append_Nil simp_thms)
  qed
  ultimately show ?thesis using len by blast
qed

subsection \<open>Sending\<close>

definition send_ready :: "world \<Rightarrow> bool" where
  "send_ready w \<longleftrightarrow> u8Status (g_struSendBuffer w) = MSG_BUFFER_IDLE \<and>
     length (u8MsgBuffer (g_struSendBuffer w)) = MSG_BUFFER_MAXLEN"

lemma unat_aes_padding:
  "sec_flag t w = ZC_SEC_ALG_AES \<Longrightarrow> SEC_PaddingCheck t n w = (ZC_RET_OK, of_nat (16 - unat n mod 16))"
  by (auto simp: SEC_PaddingCheck_def Let_def word_unat_eq_iff unat_of_nat take_bit_nat_eq_self_iff
      unat_mod unat_sub word_le_nat_alt word_less_nat_alt)

lemma sec_flag_aes:
  "u32SecSwitch (struSwitchInfo (g_struZcConfigDb w)) \<noteq> 0 \<Longrightarrow> sec_flag ZC_SEC_ALG_AES w = ZC_SEC_ALG_AES"
  by (simp add: sec_flag_def)

text \<open>What a message of at most 415 bytes sent under the session key does: one frame goes out, the send
  buffer is free again, nothing else changes.\<close>

definition sent :: "ZC_SecHead \<Rightarrow> bytes \<Rightarrow> bytes \<Rightarrow> world \<Rightarrow> world" where
  "sent h ct m w = w\<lparr>g_struSendBuffer := \<lparr>u32Len = 0, u8Status = MSG_BUFFER_IDLE, u8MsgBuffer = m\<rparr>,
     io := E_tcp_send (u32Socket (struCloudConnection (con w)))
       (SecHead_bytes (h\<lparr>u16TotalMsg := ZC_HTONS (of_nat (length ct))\<rparr>) @ ct) # io w\<rparr>"

lemma PCT_SendMsgToCloud_ct:
  assumes "send_ready w" "u8SecType h = ZC_SEC_ALG_AES" "n = ZC_HTONS (u16TotalMsg h)"
    and "u32SecSwitch (struSwitchInfo (g_struZcConfigDb w)) \<noteq> 0"
    and len: "length ct = unat n + (16 - unat n mod 16)" "unat n \<le> 415"
    and enc: "\<And>dst doff cl. doff + length ct \<le> length dst \<Longrightarrow> SEC_AesEncrypt dst doff plain poff n cl w =
       Some (ZC_RET_OK, of_nat (length ct), take doff dst @ ct @ drop (doff + length ct) dst)"
  shows "\<exists>m. length m = MSG_BUFFER_MAXLEN \<and>
    PCT_SendMsgToCloud S h plain poff w = Some (ZC_RET_OK, sent h ct m w)"
proof -
  let ?b = "u8MsgBuffer (g_struSendBuffer w)"
  have ready: "u8Status (g_struSendBuffer w) = 0" "length ?b = 424" using assms(1) by (simp_all add: send_ready_def)
  have "unat n div 16 \<le> 25" using div_le_mono [OF len(2), of 16] by simp
  then have ct: "length ct \<le> 416"
    using len(1) mult_div_mod_eq [of 16 "unat n"] mod_less_divisor [of 16 "unat n"] by linarith
  note pad = unat_aes_padding [OF sec_flag_aes [OF assms(4)], of n]
  have l1: "n + 4 + of_nat (16 - unat n mod 16) = of_nat (length ct + 4)"
    by (simp add: len(1) flip: of_nat_unat [where 'a = 16]) 
  have l2: "unat (of_nat (length ct + 4) :: u16) = length ct + 4"
    using ct by (simp only: unat_of_nat) simp
  have l3: "unat (ucast (ucast (of_nat (length ct) :: u16) + 4 :: u32) :: u16) = 4 + length ct"
  proof -
    have "(ucast (of_nat (length ct) :: u16) + 4 :: u32) = of_nat (length ct + 4)"
      using ct by (simp add: u16_u32_of_nat)
    then show ?thesis by (simp only: ucast_of_nat_32_16 l2)
  qed
  have gt: "(unat (n + 4 + of_nat (16 - unat n mod 16) :: u16) > 424) = False"
    unfolding l1 l2 using ct by simp
  have e: "SEC_AesEncrypt ?b 4 plain poff n cl w =
      Some (ZC_RET_OK, of_nat (length ct), take 4 ?b @ ct @ drop (4 + length ct) ?b)" for cl
    using enc [of 4 ?b] ct ready(2) by simp
  let ?h = "h\<lparr>u16TotalMsg := ZC_HTONS (of_nat (length ct))\<rparr>"
  let ?m = "SecHead_bytes ?h @ ct @ drop (4 + length ct) ?b"
  have "PCT_SendMsgToCloud S h plain poff w = Some (ZC_RET_OK, sent h ct ?m w)"
    using e ready ct assms(4)
    by (simp only: PCT_SendMsgToCloud_def SEC_Encrypt_def pad Let_def case_prod_conv gt assms(2) assms(3) [symmetric] if_False if_True refl simp_thms bind.simps wr_def rd_def emit_def)
      (simp add: l3 sent_def rd_def emit_def)
  moreover have "length ?m = 424" using ct ready by simp
  ultimately show ?thesis by blast
qed

subsection \<open>Receiving\<close>

text \<open>Pieces of the stream, one \<^verbatim>\<open>recv\<close> each.\<close>

fun recv_pieces :: "sdk \<Rightarrow> bytes list \<Rightarrow> world \<Rightarrow> world option" where
  "recv_pieces S [] w = Some w"
| "recv_pieces S (d # ds) w = do {
     w \<leftarrow> MSG_RecvDataFromCloud S d (of_nat (length d)) w;
     recv_pieces S ds w }"

lemma MSG_RecvDataFromCloud_partial:
  "MSG_Recv (g_struRecvBuffer w) d = Some (r, b) \<Longrightarrow> u8Status b \<noteq> MSG_BUFFER_FULL \<Longrightarrow>
     MSG_RecvDataFromCloud S d (of_nat (length d)) w = Some (w\<lparr>g_struRecvBuffer := b\<rparr>)"
  by (simp add: MSG_RecvDataFromCloud_def MSG_Recv_def)

text \<open>The piece that completes a protected message: it is decrypted in place and queued.\<close>

lemma MSG_RecvDataFromCloud_complete:
  assumes recv: "MSG_Recv (g_struRecvBuffer w) d = Some (ZC_RET_OK, b)" "u8Status b = MSG_BUFFER_FULL"
    and q: "que_inv (g_struRecvQueue w)" "que_cont (g_struRecvQueue w) = []"
    and h: "u8SecType h = ZC_SEC_ALG_AES" "ZC_HTONS (u16TotalMsg h) = of_nat (length ct)"
    and sw: "u32SecSwitch (struSwitchInfo (g_struZcConfigDb w)) \<noteq> 0"
    and buf: "length (u8MsgBuffer b) = 424" "take (4 + length ct) (u8MsgBuffer b) = SecHead_bytes h @ ct"
      "length ct \<le> 416" "length (g_u8MsgBuildBuffer w) = 424"
    and dec: "\<And>src' soff' dst' pl w'. con w' = con w \<Longrightarrow> take (length ct) (drop soff' src') = ct \<Longrightarrow>
       length ct \<le> length dst' \<Longrightarrow> soff' + length ct \<le> length src' \<Longrightarrow>
       SEC_AesDecrypt src' soff' dst' 0 (of_nat (length ct)) pl w' =
         Some (ZC_RET_OK, n, p @ drop (length ct) dst')"
    and p: "unat n \<le> length p" "length p = length ct"
  shows "\<exists>w'. MSG_RecvDataFromCloud S d (of_nat (length d)) w = Some w' \<and>
    que_inv (g_struRecvQueue w') \<and> que_cont (g_struRecvQueue w') = [RecvBuf] \<and>
    u8Status (g_struRecvBuffer w') = MSG_BUFFER_FULL \<and> u32Len (g_struRecvBuffer w') = ucast n \<and>
    take (unat n) (u8MsgBuffer (g_struRecvBuffer w')) = take (unat n) p \<and> con w' = con w"
proof -
  have "take 4 (take (4 + length ct) (u8MsgBuffer b)) = SecHead_bytes h" by (simp only: buf(2)) simp
  then have hd: "rd_SecHead (u8MsgBuffer b) 0 = Some h"
    using buf(1) by (simp add: rd_SecHead_def rd_def)
  have "drop 4 (take (4 + length ct) (u8MsgBuffer b)) = ct" by (simp only: buf(2)) simp
  then have c: "take (length ct) (drop 4 (u8MsgBuffer b)) = ct" by (simp add: drop_take)
  obtain q' where q': "MSG_PushMsg (g_struRecvQueue w) RecvBuf = Some (ZC_RET_OK, q')"
    "que_inv q'" "que_cont q' = [RecvBuf]"
    using msgq.push_room [OF q(1), of RecvBuf] q(2) by auto
  let ?w1 = "w\<lparr>g_struRecvBuffer := b\<rparr>"
  let ?bb = "p @ drop (length ct) (g_u8MsgBuildBuffer w)"
  have d: "SEC_Decrypt S h (u8MsgBuffer b) 4 (g_u8MsgBuildBuffer w) 0 pl ?w1 = Some (ZC_RET_OK, n, ?bb, ?w1)" for pl
    using h sw buf c dec [of ?w1 4 "u8MsgBuffer b" "g_u8MsgBuildBuffer w" pl]
    by (simp add: SEC_Decrypt_def sec_flag_def)
  have "memcpy (u8MsgBuffer b) 0 ?bb (unat n) = Some (take (unat n) p @ drop (unat n) (u8MsgBuffer b))"
    using p buf by (simp add: memcpy_Some)
  with recv q' hd d p(1) show ?thesis
    by (simp add: MSG_RecvDataFromCloud_def MSG_Recv_def)
qed

text \<open>All the pieces of the frame \<open>SecHead_bytes h @ ct\<close>.\<close>

lemma recv_pieces_frame:
  assumes "rbuf_inv (g_struRecvBuffer w)" "\<not> rbuf_full (g_struRecvBuffer w)"
    and "SecHead_bytes h @ ct = rbuf_got (g_struRecvBuffer w) @ concat ds" "ds \<noteq> []" "\<forall>d \<in> set ds. d \<noteq> []"
    and q: "que_inv (g_struRecvQueue w)" "que_cont (g_struRecvQueue w) = []"
    and h: "u8SecType h = ZC_SEC_ALG_AES" "ZC_HTONS (u16TotalMsg h) = of_nat (length ct)"
    and sw: "u32SecSwitch (struSwitchInfo (g_struZcConfigDb w)) \<noteq> 0"
    and buf: "length ct \<le> 416" "length (g_u8MsgBuildBuffer w) = 424"
    and dec: "\<And>src' soff' dst' pl w'. con w' = con w \<Longrightarrow> take (length ct) (drop soff' src') = ct \<Longrightarrow>
       length ct \<le> length dst' \<Longrightarrow> soff' + length ct \<le> length src' \<Longrightarrow>
       SEC_AesDecrypt src' soff' dst' 0 (of_nat (length ct)) pl w' =
         Some (ZC_RET_OK, n, p @ drop (length ct) dst')"
    and p: "unat n \<le> length p" "length p = length ct"
  shows "\<exists>w'. recv_pieces S ds w = Some w' \<and>
    que_inv (g_struRecvQueue w') \<and> que_cont (g_struRecvQueue w') = [RecvBuf] \<and>
    u8Status (g_struRecvBuffer w') = MSG_BUFFER_FULL \<and> u32Len (g_struRecvBuffer w') = ucast n \<and>
    take (unat n) (u8MsgBuffer (g_struRecvBuffer w')) = take (unat n) p \<and> con w' = con w"
  using assms
proof (induction ds arbitrary: w)
  case (Cons d ds)
  let ?m = "SecHead_bytes h @ ct"
  have u: "unat (ZC_HTONS (u16TotalMsg h)) = length ct"
    unfolding Cons.prems(9) using Cons.prems(11) by (simp add: unat_of_nat)
  have ml: "rbuf_msg_len (take 4 ?m) = Some (length ?m)"
    using Cons.prems(11) by (simp add: rbuf_msg_len_def Let_def unat_sec_msg_len u)
  have "length d' \<le> recv_max" if "d' \<in> set (d # ds)" for d'
  proof -
    have "length d' \<le> length (concat (d # ds))" by (rule length_le_concat [OF that])
    also have "\<dots> \<le> length ?m" unfolding Cons.prems(3) by simp
    finally show ?thesis using Cons.prems(11) by simp
  qed
  with Cons.prems(5) have pieces: "\<forall>d' \<in> set (d # ds). d' \<noteq> [] \<and> length d' \<le> recv_max" by blast
  from rbuf.feed_step [OF Cons.prems(1-3) pieces _ ml] obtain b where
    b: "MSG_Recv (g_struRecvBuffer w) d = Some (ZC_RET_OK, b)" "rbuf_inv b" "rbuf_full b = (ds = [])"
      "rbuf_got b = rbuf_got (g_struRecvBuffer w) @ d" by auto
  show ?case
  proof (cases "ds = []")
    case False
    then have nf: "\<not> rbuf_full b" using b(3) by simp
    let ?w = "w\<lparr>g_struRecvBuffer := b\<rparr>"
    have st: "MSG_RecvDataFromCloud S d (of_nat (length d)) w = Some ?w"
      using MSG_RecvDataFromCloud_partial [OF b(1)] nf by (simp add: rbuf_full_def)
    have m: "?m = rbuf_got (g_struRecvBuffer ?w) @ concat ds" using Cons.prems(3) b(4) by simp
    have "\<exists>w'. recv_pieces S ds ?w = Some w' \<and>
        que_inv (g_struRecvQueue w') \<and> que_cont (g_struRecvQueue w') = [RecvBuf] \<and>
        u8Status (g_struRecvBuffer w') = 1 \<and> u32Len (g_struRecvBuffer w') = ucast n \<and>
        take (unat n) (u8MsgBuffer (g_struRecvBuffer w')) = take (unat n) p \<and> con w' = con ?w"
      by (rule Cons.IH [OF _ _ m False]) (use Cons.prems b(2) nf in simp_all)
    with st show ?thesis by simp
  next
    case True
    then have full: "u8Status b = 1" "rbuf_got b = ?m"
      using b(3,4) Cons.prems(3) by (simp_all add: rbuf_full_def)
    from b(2) full(1) have lb: "length (u8MsgBuffer b) = 424" "unat (u32Len b) \<le> 424"
      by (auto simp: rbuf_inv_def)
    have "length (rbuf_got b) = 4 + length ct" by (simp add: full(2))
    then have "unat (u32Len b) = 4 + length ct" using lb by (simp add: rbuf_got_def)
    then have g: "take (4 + length ct) (u8MsgBuffer b) = ?m" using full(2) by (simp add: rbuf_got_def)
    have pc: "recv_pieces S (d # ds) w = MSG_RecvDataFromCloud S d (of_nat (length d)) w"
      by (cases "MSG_RecvDataFromCloud S d (of_nat (length d)) w") (simp_all add: True)
    show ?thesis unfolding pc
      by (rule MSG_RecvDataFromCloud_complete [OF b(1) full(1) Cons.prems(6-10) lb(1) g Cons.prems(11-15)])
  qed
qed simp

definition recv_ready :: "world \<Rightarrow> bool" where
  "recv_ready w \<longleftrightarrow> rbuf_inv (g_struRecvBuffer w) \<and> u8Status (g_struRecvBuffer w) = MSG_BUFFER_IDLE \<and>
     que_inv (g_struRecvQueue w) \<and> que_cont (g_struRecvQueue w) = [] \<and>
     length (g_u8MsgBuildBuffer w) = MSG_BULID_BUFFER_MAXLEN"

text \<open>C17: Between two sides that hold the same session key and vector, a message of at most 415 bytes
  given to \<^verbatim>\<open>PCT_SendMsgToCloud\<close> for AES protection goes out as one frame, and whatever the
  segmentation of that frame into non-empty pieces, \<^verbatim>\<open>MSG_RecvDataFromCloud\<close> on the other side ends
  with the message queued: the receive buffer holds exactly its bytes and its length.\<close>

theorem cloud_link_delivers:
  assumes "session_keys u" "key_recv u = PCT_KEY_RECVED" "send_ready u"
    and "u32SecSwitch (struSwitchInfo (g_struZcConfigDb u)) \<noteq> 0"
    and "u8SecType h = ZC_SEC_ALG_AES" "n = ZC_HTONS (u16TotalMsg h)" "unat n \<le> 415"
    and "poff + unat n \<le> length plain"
    and "recv_ready v" "key_recv v = PCT_KEY_RECVED"
    and "u32SecSwitch (struSwitchInfo (g_struZcConfigDb v)) \<noteq> 0"
    and "u8SessionKey (con v) = u8SessionKey (con u)" "IvRecv (con v) = IvSend (con u)"
  shows "\<exists>frame u'. PCT_SendMsgToCloud S h plain poff u = Some (ZC_RET_OK, u') \<and>
    io u' = E_tcp_send (u32Socket (struCloudConnection (con u))) frame # io u \<and> send_ready u' \<and>
    (\<forall>ds. concat ds = frame \<longrightarrow> (\<forall>d \<in> set ds. d \<noteq> []) \<longrightarrow>
      (\<exists>v'. recv_pieces S' ds v = Some v' \<and> que_cont (g_struRecvQueue v') = [RecvBuf] \<and>
         u8Status (g_struRecvBuffer v') = MSG_BUFFER_FULL \<and> u32Len (g_struRecvBuffer v') = ucast n \<and>
         take (unat n) (u8MsgBuffer (g_struRecvBuffer v')) = take (unat n) (drop poff plain)))"
proof -
  let ?p = "take (unat n) (drop poff plain)"
  have "unat n \<le> 1000" using assms(7) by simp
  from SEC_Aes_roundtrip [OF assms(1,2,8) this] obtain ct where
    len: "length ct = unat n + (16 - unat n mod 16)"
    and enc: "\<And>dst doff cl. doff + length ct \<le> length dst \<Longrightarrow> SEC_AesEncrypt dst doff plain poff n cl u =
       Some (ZC_RET_OK, of_nat (length ct), take doff dst @ ct @ drop (doff + length ct) dst)"
    and dec: "\<And>w' src' soff' dst' pl. u8keyRecv (con w') = PCT_KEY_RECVED \<Longrightarrow>
       u8SessionKey (con w') = u8SessionKey (con u) \<Longrightarrow> IvRecv (con w') = IvSend (con u) \<Longrightarrow>
       soff' + length ct \<le> length src' \<Longrightarrow> take (length ct) (drop soff' src') = ct \<Longrightarrow>
       length ct \<le> length dst' \<Longrightarrow>
       SEC_AesDecrypt src' soff' dst' 0 (of_nat (length ct)) pl w' =
         Some (ZC_RET_OK, n, padded ?p @ drop (length ct) dst')" by blast
  from PCT_SendMsgToCloud_ct [OF assms(3,5,6,4) len assms(7) enc] obtain m where
    m: "length m = 424" "PCT_SendMsgToCloud S h plain poff u = Some (ZC_RET_OK, sent h ct m u)" by blast
  let ?h = "h\<lparr>u16TotalMsg := ZC_HTONS (of_nat (length ct))\<rparr>"
  have lp: "length ?p = unat n" using assms(8) by simp
  have pp: "unat n \<le> length (padded ?p)" "length (padded ?p) = length ct" "take (unat n) (padded ?p) = ?p"
    using length_padded_all [of ?p] take_padded [of ?p] by (simp_all only: lp len)
  have "unat n div 16 \<le> 25" using div_le_mono [OF assms(7), of 16] by simp
  then have ct: "length ct \<le> 416"
    using len mult_div_mod_eq [of 16 "unat n"] mod_less_divisor [of 16 "unat n"] by linarith
  note r = assms(9) [unfolded recv_ready_def]
  have "\<exists>v'. recv_pieces S' ds v = Some v' \<and> que_cont (g_struRecvQueue v') = [RecvBuf] \<and>
      u8Status (g_struRecvBuffer v') = 1 \<and> u32Len (g_struRecvBuffer v') = ucast n \<and>
      take (unat n) (u8MsgBuffer (g_struRecvBuffer v')) = ?p"
    if ds: "concat ds = SecHead_bytes ?h @ ct" "\<forall>d \<in> set ds. d \<noteq> []" for ds
  proof -
    have 1: "\<not> rbuf_full (g_struRecvBuffer v)" "rbuf_got (g_struRecvBuffer v) = []"
      using r by (auto simp: rbuf_full_def rbuf_inv_def rbuf_got_def)
    have 2: "SecHead_bytes ?h @ ct = rbuf_got (g_struRecvBuffer v) @ concat ds" "ds \<noteq> []"
      using ds(1) 1(2) by (auto simp: SecHead_bytes_def)
    have 3: "u8SecType ?h = 2" "ZC_HTONS (u16TotalMsg ?h) = of_nat (length ct)" using assms(5) by simp_all
    from recv_pieces_frame [OF _ 1(1) 2 ds(2) _ _ 3 assms(11) ct _ dec pp(1,2)] r assms(10,12,13) pp(3)
    show ?thesis by fastforce
  qed
  moreover have "send_ready (sent h ct m u)" using m(1) by (simp add: send_ready_def sent_def)
  moreover have "io (sent h ct m u) = E_tcp_send (u32Socket (struCloudConnection (con u)))
      (SecHead_bytes ?h @ ct) # io u" by (simp add: sent_def)
  ultimately show ?thesis using m(2) by blast
qed

text \<open>Two sides right after key exchange, with an all-zero key.\<close>

definition linked_world :: world where
  "linked_world = upd_cfg (struSwitchInfo_update (u32SecSwitch_update (\<lambda>_. 1)))
     (set_keyRecv PCT_KEY_RECVED (MSG_Init zero_world))"

lemma que_inv_zero [simp]:
  "que_inv (MSG_InitQueue zero_queue)" "que_cont (MSG_InitQueue zero_queue) = []"
  using MSG_InitQueue_inv [of zero_queue] by (simp_all add: que_storage_def zero_queue_def)

lemma linked_world_ready:
  "session_keys linked_world" "key_recv linked_world = PCT_KEY_RECVED" "send_ready linked_world"
  "u32SecSwitch (struSwitchInfo (g_struZcConfigDb linked_world)) \<noteq> 0" "recv_ready linked_world"
  by (simp_all add: linked_world_def session_keys_def send_ready_def recv_ready_def MSG_Init_def zero_world_def
      zero_controller_def zero_db_def zero_buffer_def buf_idle_def rbuf_inv_def)

lemma cloud_link_delivers_witness:
  "\<exists>frame u'. PCT_SendMsgToCloud quiet_sdk \<lparr>u16TotalMsg = 0x300, u8SecType = 2, u8Resver = 0\<rparr> [7, 8, 9] 0 linked_world =
     Some (ZC_RET_OK, u') \<and> (\<forall>ds. concat ds = frame \<longrightarrow> (\<forall>d \<in> set ds. d \<noteq> []) \<longrightarrow>
      (\<exists>v'. recv_pieces quiet_sdk ds linked_world = Some v' \<and>
         take 3 (u8MsgBuffer (g_struRecvBuffer v')) = [7, 8, 9]))"
proof -
  have n: "3 = ZC_HTONS 0x300" by (simp add: ZC_HTONS_def)
  let ?h = "\<lparr>u16TotalMsg = 0x300, u8SecType = 2, u8Resver = 0\<rparr>"
  note l = linked_world_ready
  have "u8SecType ?h = 2" "3 = ZC_HTONS (u16TotalMsg ?h)" "unat (3 :: u16) \<le> 415"
    "0 + unat (3 :: u16) \<le> length [7, 8, 9 :: u8]" using n by simp_all
  moreover have "u8SessionKey (con linked_world) = u8SessionKey (con linked_world)"
    "IvRecv (con linked_world) = IvSend (con linked_world)"
    by (simp_all add: linked_world_def MSG_Init_def zero_world_def zero_controller_def)
  ultimately show ?thesis
    using cloud_link_delivers [OF l(1-4) _ _ _ _ l(5,2,4), of ?h 3 0 "[7, 8, 9]" quiet_sdk quiet_sdk] by simp blast
qed

end
