(* ===== verification/Adapter.thy ===== *)
theory Adapter
  imports Link
begin

text \<open>
  The platform adapter \<^verbatim>\<open>src/src/zc_hf_adpter.c\<close>: firmware update, sockets, reboot, and
  \<^verbatim>\<open>ZC_Rand\<close> of \<^verbatim>\<open>zc_common.c\<close>. Each call of the SDK is an event; its answer comes from \<open>sdk\<close>.
  Serial output, timers and flash are in \<open>Device\<close>, \<open>Timers\<close> and \<open>Config\<close>; the tasks are in
  \<open>System\<close>.
\<close>

subsection \<open>Random bytes\<close>

definition rand_letters :: "u32 \<Rightarrow> bytes" where
  "rand_letters r = [(ucast r mod 26) + 65, (ucast (drop_bit 8 r) mod 26) + 65,
     (ucast (drop_bit 16 r) mod 26) + 65, (ucast (drop_bit 24 r) mod 26) + 65]"

fun rand_loop :: "sdk \<Rightarrow> nat \<Rightarrow> world \<Rightarrow> bytes \<times> world" where
  "rand_loop S 0 w = ([], w)"
| "rand_loop S (Suc n) w =
     (let r = sdk_rand S (io w); (bs, w) = rand_loop S n (emit E_rand w) in (rand_letters r @ bs, w))"

definition ZC_Rand :: "sdk \<Rightarrow> world \<Rightarrow> bytes \<times> world" where
  "ZC_Rand S w = rand_loop S 8 w"

definition sdk_rand_call :: "sdk \<Rightarrow> world \<Rightarrow> u32 \<times> world" where
  "sdk_rand_call S w = (sdk_rand S (io w), emit E_rand w)"

subsection \<open>Firmware update\<close>

definition HF_FirmwareUpdateFinish :: "sdk \<Rightarrow> u32 \<Rightarrow> world \<Rightarrow> u32 \<times> world" where
  "HF_FirmwareUpdateFinish S tot w =
     (let retval = sdk_update_complete S (io w); w = emit (E_update_complete tot) w
      in (if retval = 0 then ZC_RET_OK else ZC_RET_ERROR, w))"

text \<open>The data is at offset \<open>off\<close> of the object \<open>m\<close>.\<close>

definition HF_FirmwareUpdate :: "sdk \<Rightarrow> bytes \<Rightarrow> nat \<Rightarrow> u32 \<Rightarrow> u32 \<Rightarrow> world \<Rightarrow> (u32 \<times> world) option" where
  "HF_FirmwareUpdate S m off u32Offset u32DataLen w = do {
     let w = (if u32Offset = 0 then emit E_update_start w else w);
     d \<leftarrow> rd m off (unat u32DataLen);
     let retval = sdk_update_write S (io w);
     let w = emit (E_update_write u32Offset d) w;
     Some (if retval < 0 then ZC_RET_ERROR else ZC_RET_OK, w) }"

subsection \<open>Sockets and reset\<close>

definition HF_SendTcpData :: "u32 \<Rightarrow> bytes \<Rightarrow> u16 \<Rightarrow> world \<Rightarrow> world option" where
  "HF_SendTcpData fd m n w = map_option (\<lambda>d. emit (E_tcp_send fd d) w) (rd m 0 (unat n))"

definition HF_SendUdpData :: "u32 \<Rightarrow> bytes \<Rightarrow> u16 \<Rightarrow> world \<Rightarrow> world option" where
  "HF_SendUdpData fd m n w = map_option (\<lambda>d. emit (E_udp_send fd d) w) (rd m 0 (unat n))"

text \<open>The bodies of \<^verbatim>\<open>HF_Rest\<close> and \<^verbatim>\<open>HF_ListenClient\<close> are compiled out.\<close>

definition HF_Rest :: "world \<Rightarrow> world" where
  "HF_Rest w = w"

definition HF_ListenClient :: "world \<Rightarrow> u32 \<times> world" where
  "HF_ListenClient w = (ZC_RET_OK, w)"

definition HF_Reboot :: "world \<Rightarrow> world" where
  "HF_Reboot w = emit E_reboot w"

text \<open>The address is the stored one or the result of the name service (\<^term>\<open>None\<close> is an error).
  \<^verbatim>\<open>u32ConnectionTimes\<close> counts failed connections; \<^verbatim>\<open>socket\<close> fails with a negative number.\<close>

definition cloud_address :: "sdk \<Rightarrow> world \<Rightarrow> (u32 \<times> u16) option \<times> world" where
  "cloud_address S w =
     (let sw = struSwitchInfo (g_struZcConfigDb w)
      in if u32ServerAddrConfig sw = 1 then (Some (ZC_HTONL (u32ServerIp sw), u16ServerPort sw), w)
         else let ip = sdk_gethostbyname S (io w);
                  w = emit (E_gethostbyname (u8CloudAddr (struCloudInfo (g_struZcConfigDb w)))) w
              in (map_option (\<lambda>a. (a, ZC_CLOUD_PORT)) ip, w))"

definition HF_ConnectToCloud :: "sdk \<Rightarrow> world \<Rightarrow> u32 \<times> world" where
  "HF_ConnectToCloud S w =
     (case cloud_address S w of
        (None, w) \<Rightarrow> (ZC_RET_ERROR, w)
      | (Some (addr, port), w) \<Rightarrow>
          let fd = sdk_socket S (io w); w = emit E_socket w
          in if fd < 0 then (ZC_RET_ERROR, w)
          else let r = sdk_connect S (io w); w = emit (E_connect addr port) w
          in if r < 0 then
               let w = emit (E_close (of_int fd)) w;
                   n = u32ConnectionTimes (struCloudConnection (con w));
                   w = upd_con (struCloudConnection_update (u32ConnectionTimes_update (\<lambda>_. n + 1))) w;
                   w = (if n > 20 then upd_cfg (struSwitchInfo_update (u32ServerAddrConfig_update (\<lambda>_. 0))) w else w)
               in (ZC_RET_ERROR, w)
          else let w = upd_con (struCloudConnection_update
                     (\<lambda>c. c\<lparr>u32ConnectionTimes := 0, u32Socket := of_int fd\<rparr>)) w;
                   (r, w) = ZC_Rand S w
               in (ZC_RET_OK, upd_con (RandMsg_update (\<lambda>_. r)) w))"

end
