(* ===== verification/Pct.thy ===== *)
theory Pct
  imports Adapter
begin

text \<open>
  The protocol controller \<^verbatim>\<open>src/src/ZC/src/zc/zc_protocol_controller.c\<close>, first half: the messages the
  module sends, connecting, disconnecting, the handshake as the module sends it. The arguments
  \<^verbatim>\<open>pstruContoller\<close> always point to \<^verbatim>\<open>g_struProtocolController\<close>. A padding byte that the code leaves
  uninitialised is taken from \<open>sdk_junk\<close>.
\<close>

definition junk8 :: "sdk \<Rightarrow> world \<Rightarrow> u8" where
  "junk8 S w = sdk_junk S (io w) 0"

text \<open>The security head of a message of \<open>n\<close> bytes; \<^verbatim>\<open>u8Resver\<close> is not set.\<close>

definition sec_head :: "sdk \<Rightarrow> u8 \<Rightarrow> u16 \<Rightarrow> world \<Rightarrow> ZC_SecHead" where
  "sec_head S t n w = \<lparr>u16TotalMsg = ZC_HTONS n, u8SecType = t, u8Resver = junk8 S w\<rparr>"

definition set_timer :: "sdk \<Rightarrow> u8 \<Rightarrow> u32 \<Rightarrow> timer_var \<Rightarrow> world \<Rightarrow> world" where
  "set_timer S t n v w = snd (HF_SetTimer S t n v w)"

subsection \<open>Messages\<close>

definition PCT_SendNotifyMsg :: "u8 \<Rightarrow> world \<Rightarrow> world option" where
  "PCT_SendNotifyMsg u8NotifyCode w = do {
     (m, n) \<leftarrow> EVENT_BuildMsg u8NotifyCode 0 (g_u8MsgBuildBuffer w) 0 [] 0;
     HF_SendDataToMoudle m 0 n (w\<lparr>g_u8MsgBuildBuffer := m\<rparr>) }"

definition PCT_SendHeartMsg :: "sdk \<Rightarrow> world \<Rightarrow> world option" where
  "PCT_SendHeartMsg S w = do {
     (m, n) \<leftarrow> EVENT_BuildHeartMsg (replicate 8 (junk8 S w)) 0;
     (r, w) \<leftarrow> PCT_SendMsgToCloud S (sec_head S ZC_SEC_ALG_AES n w) m 0 w;
     Some (set_timer S PCT_TIMER_SENDHEART 60000 V_Heart w) }"

definition PCT_SendEmptyMsg :: "sdk \<Rightarrow> u8 \<Rightarrow> u8 \<Rightarrow> world \<Rightarrow> world option" where
  "PCT_SendEmptyMsg S u8MsgId typ w = do {
     (m, n) \<leftarrow> EVENT_BuildEmptyMsg u8MsgId (replicate 8 (junk8 S w)) 0;
     (r, w) \<leftarrow> PCT_SendMsgToCloud S (sec_head S typ n w) m 0 w;
     Some w }"

text \<open>A message built in \<^verbatim>\<open>g_u8MsgBuildBuffer\<close> and sent under AES.\<close>

definition build_and_send :: "sdk \<Rightarrow> u8 \<Rightarrow> u8 \<Rightarrow> bytes \<Rightarrow> u16 \<Rightarrow> world \<Rightarrow> world option" where
  "build_and_send S code i payload len w = do {
     (m, n) \<leftarrow> EVENT_BuildMsg code i (g_u8MsgBuildBuffer w) 0 payload len;
     let w = w\<lparr>g_u8MsgBuildBuffer := m\<rparr>;
     (r, w) \<leftarrow> PCT_SendMsgToCloud S (sec_head S ZC_SEC_ALG_AES n w) m 0 w;
     Some w }"

definition PCT_SendErrorMsg :: "sdk \<Rightarrow> u8 \<Rightarrow> bytes \<Rightarrow> u16 \<Rightarrow> world \<Rightarrow> world option" where
  "PCT_SendErrorMsg S u8MsgId pu8Error u16ErrorLen w =
     build_and_send S ZC_CODE_ERR u8MsgId pu8Error u16ErrorLen w"

definition PCT_SendAckToCloud :: "sdk \<Rightarrow> u8 \<Rightarrow> world \<Rightarrow> world option" where
  "PCT_SendAckToCloud S u8MsgId w = build_and_send S ZC_CODE_ACK u8MsgId [] 0 w"

definition PCT_SendUnbindMsg :: "sdk \<Rightarrow> world \<Rightarrow> world option" where
  "PCT_SendUnbindMsg S w = do {
     (m, n) \<leftarrow> EVENT_BuildMsg ZC_CODE_UNBIND 0 (replicate 8 (junk8 S w)) 0 [] 0;
     (r, w) \<leftarrow> PCT_SendMsgToCloud S (sec_head S ZC_SEC_ALG_AES n w) m 0 w;
     let (u32Timer, w) = sdk_rand_call S w;
     Some (set_timer S PCT_TIMER_SENDUBIND (1000 * (u32Timer mod 10 + 1)) V_SendUnbind w) }"

subsection \<open>Connections\<close>

definition init_connection :: "u16 \<Rightarrow> PTC_Connection \<Rightarrow> PTC_Connection" where
  "init_connection port c = c\<lparr>u32Socket := PCT_INVAILD_SOCKET, u16Port := port, u8IpType := 0, u8ConnectionType := 1\<rparr>"

definition PCT_Init :: "world \<Rightarrow> world" where
  "PCT_Init w =
     (let w = upd_con (\<lambda>c. c\<lparr>struCloudConnection := init_connection ZC_CLOUD_PORT (struCloudConnection c),
                struClientConnection := init_connection ZC_SERVER_PORT (struClientConnection c)\<rparr>) w;
          w = TIMER_Init (MSG_Init (ZC_ConfigInitPara w))
      in upd_con (\<lambda>c. c\<lparr>u8keyRecv := PCT_KEY_UNRECVED, u8ReconnectTimer := PCT_TIMER_INVAILD,
           u8SendMoudleTimer := PCT_TIMER_INVAILD, u8HeartTimer := PCT_TIMER_INVAILD,
           u8RegisterTimer := PCT_TIMER_INVAILD, u8MainState := PCT_STATE_INIT\<rparr>) w)"

definition PCT_DisConnectCloud :: "world \<Rightarrow> world option" where
  "PCT_DisConnectCloud w =
     PCT_SendNotifyMsg ZC_CODE_CLOUD_DISCONNECTED
       (MSG_Init (set_keyRecv PCT_KEY_UNRECVED (set_state PCT_STATE_DISCONNECT_CLOUD w)))"

definition PCT_ConnectCloud :: "sdk \<Rightarrow> world \<Rightarrow> world" where
  "PCT_ConnectCloud S w =
     (if u8ReconnectTimer (con w) \<noteq> PCT_TIMER_INVAILD then w
      else let (r, w) = HF_ConnectToCloud S w
           in if r \<noteq> ZC_RET_OK then w
              else set_keyRecv PCT_KEY_UNRECVED (set_state PCT_STATE_WAIT_ACCESS w))"

text \<open>The loop over the timer table that stops every timer in use.\<close>

fun stop_used_timers :: "nat list \<Rightarrow> world \<Rightarrow> world option" where
  "stop_used_timers [] w = Some w"
| "stop_used_timers (i # is) w = do {
     t \<leftarrow> nth_opt (g_struTimer w) i;
     w \<leftarrow> (if tm_Status t = ZC_TIMER_STATUS_USED then TIMER_StopTimer (of_nat i) w else Some w);
     stop_used_timers is w }"

definition PCT_ReconnectCloud :: "sdk \<Rightarrow> u32 \<Rightarrow> world \<Rightarrow> world option" where
  "PCT_ReconnectCloud S u32ReConnectTimer w =
     (if u8ReconnectTimer (con w) \<noteq> PCT_TIMER_INVAILD then Some w
      else do {
        w \<leftarrow> stop_used_timers [0..<5] (set_keyRecv PCT_KEY_UNRECVED (MSG_Init w));
        let w = TIMER_Init w;
        let w = upd_con (\<lambda>c. c\<lparr>u8ReconnectTimer := PCT_TIMER_INVAILD, u8SendMoudleTimer := PCT_TIMER_INVAILD,
                  u8HeartTimer := PCT_TIMER_INVAILD, u8MainState := PCT_STATE_INIT\<rparr>) w;
        let w = set_timer S PCT_TIMER_RECONNECT u32ReConnectTimer V_Reconnect w;
        Some (upd_con (\<lambda>c. c\<lparr>struCloudConnection := (struCloudConnection c)\<lparr>u32Socket := PCT_INVAILD_SOCKET\<rparr>,
          u8keyRecv := PCT_KEY_UNRECVED, u8MainState := PCT_STATE_INIT\<rparr>) w)
      })"

subsection \<open>The handshake, sending side\<close>

definition PCT_SendCloudAccessMsg1 :: "sdk \<Rightarrow> world \<Rightarrow> world option" where
  "PCT_SendCloudAccessMsg1 S w = do {
     w \<leftarrow> (if u8ReconnectTimer (con w) \<noteq> PCT_TIMER_INVAILD then do {
              w \<leftarrow> TIMER_StopTimer (u8ReconnectTimer (con w)) w;
              Some (upd_con (u8ReconnectTimer_update (\<lambda>_. PCT_TIMER_INVAILD)) w)
            } else Some w);
     pu8DeviceId \<leftarrow> ZC_GetStoreInfor ZC_GET_TYPE_DEVICEID w;
     rnd \<leftarrow> rd (RandMsg (con w)) 0 32;
     did \<leftarrow> rd pu8DeviceId 0 16;
     dom \<leftarrow> rd pu8DeviceId 16 8;
     (m, n) \<leftarrow> EVENT_BuildMsg ZC_CODE_HANDSHAKE_1 1 (g_u8MsgBuildBuffer w) 0 (rnd @ did @ dom) 56;
     let w = w\<lparr>g_u8MsgBuildBuffer := m\<rparr>;
     (r, w) \<leftarrow> PCT_SendMsgToCloud S \<lparr>u16TotalMsg = ZC_HTONS n, u8SecType = ZC_SEC_ALG_RSA, u8Resver = 0x5A\<rparr> m 0 w;
     if r = ZC_RET_ERROR then PCT_DisConnectCloud w
     else Some (set_timer S PCT_TIMER_REACCESS (1000 * 120) V_Access (set_state PCT_STATE_WAIT_ACCESSRSP w)) }"

text \<open>The project file sets \<^verbatim>\<open>ZC_MODULE_VERSION=100\<close> and \<^verbatim>\<open>ZC_MODULE_TYPE=1\<close>; the three padding
  bytes of the message are uninitialised.\<close>

definition PCT_SendCloudAccessMsg3 :: "sdk \<Rightarrow> world \<Rightarrow> world option" where
  "PCT_SendCloudAccessMsg3 S w = do {
     pu8Vesion \<leftarrow> ZC_GetStoreInfor ZC_GET_TYPE_VESION w;
     rnd \<leftarrow> rd (RandMsg (con w)) 0 32;
     ver \<leftarrow> rd pu8Vesion 0 4;
     let msg3 = rnd @ ver @ [0, 0, 0, 100] @ [1] @ map (sdk_junk S (io w)) [0..<3];
     let w = set_keyRecv PCT_KEY_RECVED w;
     (m, n) \<leftarrow> EVENT_BuildMsg ZC_CODE_HANDSHAKE_3 1 (g_u8MsgBuildBuffer w) 0 msg3 44;
     let w = w\<lparr>g_u8MsgBuildBuffer := m\<rparr>;
     (r, w) \<leftarrow> PCT_SendMsgToCloud S (sec_head S ZC_SEC_ALG_AES n w) m 0 w;
     Some (set_timer S PCT_TIMER_REACCESS (1000 * 10) V_Access (set_state PCT_STATE_WAIT_MSG4 w)) }"

end
