(* ===== verification/PctRecv.thy ===== *)
theory PctRecv
  imports Pct
begin

text \<open>
  The protocol controller \<^verbatim>\<open>src/src/ZC/src/zc/zc_protocol_controller.c\<close>, second half: the messages the
  module receives from the cloud, the relay to and from the device with its retransmission timer, the
  firmware update, and the state machine \<^verbatim>\<open>PCT_Run\<close>. \<^verbatim>\<open>TIMER_TimeoutAction\<close> of \<^verbatim>\<open>zc_timer.c\<close> and
  \<^verbatim>\<open>HF_timer_callback\<close> of \<^verbatim>\<open>zc_hf_adpter.c\<close> close the loop from the timers.
\<close>

subsection \<open>Relay between the cloud and the device\<close>

definition stop_heart :: "world \<Rightarrow> world option" where
  "stop_heart w = (if u8HeartTimer (con w) \<noteq> PCT_TIMER_INVAILD then TIMER_StopTimer (u8HeartTimer (con w)) w
     else Some w)"

definition PCT_SendMoudleTimeout :: "sdk \<Rightarrow> world \<Rightarrow> world option" where
  "PCT_SendMoudleTimeout S w = do {
     p \<leftarrow> pu8SendMoudleBuffer (con w);
     let b = get_buf p w;
     let w = upd_con (\<lambda>c. c\<lparr>u8ReSendMoudleNum := u8ReSendMoudleNum c + 1\<rparr>) w;
     if u8ReSendMoudleNum (con w) > 4 then do {
       let w = upd_buf p buf_idle w;
       let w = upd_con (\<lambda>c. c\<lparr>u8SendMoudleTimer := PCT_TIMER_INVAILD, u8ReSendMoudleNum := 0\<rparr>) w;
       h \<leftarrow> rd_MsgHead (u8MsgBuffer b) 0;
       w \<leftarrow> PCT_SendEmptyMsg S (MsgId h) ZC_SEC_ALG_AES w;
       PCT_SendErrorMsg S (MsgId h) [] 0 w
     } else do {
       w \<leftarrow> HF_SendDataToMoudle (u8MsgBuffer b) 0 (ucast (u32Len b)) w;
       Some (set_timer S PCT_TIMER_SENDMOUDLE 1000 V_SendMoudle w)
     } }"

text \<open>\<open>m\<close> and \<open>off\<close> are the message of the device.\<close>

definition PCT_HandleMoudleEvent :: "sdk \<Rightarrow> bytes \<Rightarrow> nat \<Rightarrow> u16 \<Rightarrow> world \<Rightarrow> world option" where
  "PCT_HandleMoudleEvent S m off u16DataLen w = do {
     w \<leftarrow> (if u8SendMoudleTimer (con w) \<noteq> PCT_TIMER_INVAILD then do {
              h \<leftarrow> rd_MsgHead m off;
              if MsgCode h < 200 then do {
                w \<leftarrow> TIMER_StopTimer (u8SendMoudleTimer (con w)) w;
                p \<leftarrow> pu8SendMoudleBuffer (con w);
                let w = upd_buf p buf_idle w;
                let w = upd_con (\<lambda>c. c\<lparr>u8SendMoudleTimer := PCT_TIMER_INVAILD, u8ReSendMoudleNum := 0\<rparr>) w;
                PCT_SendEmptyMsg S (MsgId h) ZC_SEC_ALG_AES w
              } else Some w
            } else Some w);
     (r, w) \<leftarrow> PCT_SendMsgToCloud S (sec_head S ZC_SEC_ALG_AES u16DataLen w) m off w;
     Some w }"

definition PCT_HandleMoudleMsg :: "sdk \<Rightarrow> buf_id \<Rightarrow> world \<Rightarrow> world option" where
  "PCT_HandleMoudleMsg S p w = do {
     let b = get_buf p w;
     let w = set_timer S PCT_TIMER_SENDMOUDLE 1000 V_SendMoudle w;
     m \<leftarrow> memcpy (u8MsgBuffer (g_struRetxBuffer w)) 0 (u8MsgBuffer b) (unat (u32Len b));
     let w = w\<lparr>g_struRetxBuffer := \<lparr>u32Len = u32Len b, u8Status = MSG_BUFFER_FULL, u8MsgBuffer = m\<rparr>\<rparr>;
     let w = upd_con (\<lambda>c. c\<lparr>pu8SendMoudleBuffer := Some RetxBuf, u8ReSendMoudleNum := 0\<rparr>) w;
     w \<leftarrow> HF_SendDataToMoudle (u8MsgBuffer b) 0 (ucast (u32Len b)) w;
     w \<leftarrow> stop_heart w;
     Some (set_timer S PCT_TIMER_SENDHEART 60000 V_Heart w) }"

subsection \<open>The handshake, receiving side\<close>

text \<open>\<open>handle_popped\<close>: take the next received message, handle it, release its buffer.\<close>

definition handle_popped ::
  "(buf_id \<Rightarrow> bytes \<Rightarrow> ZC_MessageHead \<Rightarrow> world \<Rightarrow> world option) \<Rightarrow> (world \<Rightarrow> world option) \<Rightarrow> world \<Rightarrow> world option" where
  "handle_popped f fin w = do {
     (p, q) \<leftarrow> MSG_PopMsg (g_struRecvQueue w);
     let w = w\<lparr>g_struRecvQueue := q\<rparr>;
     case p of None \<Rightarrow> Some w
     | Some p \<Rightarrow> do {
         let m = u8MsgBuffer (get_buf p w);
         h \<leftarrow> rd_MsgHead m 0;
         w \<leftarrow> f p m h w;
         fin (upd_buf p buf_idle w) } }"

text \<open>\<open>msg_payload_ok\<close>: \<^verbatim>\<open>PCT_CheckCrc\<close> over the payload the head announces; \<^verbatim>\<open>memcmp\<close> of the 32 bytes
  after the head with the random bytes of this connection.\<close>

definition check_payload :: "bytes \<Rightarrow> ZC_MessageHead \<Rightarrow> u32 option" where
  "check_payload m h = PCT_CheckCrc (TotalMsgCrc h) m 8 (ZC_HTONS (Payloadlen h))"

definition same_rand :: "bytes \<Rightarrow> world \<Rightarrow> bool option" where
  "same_rand m w = do { a \<leftarrow> rd m 8 32; b \<leftarrow> rd (RandMsg (con w)) 0 32; Some (a = b) }"

definition RecvMsg2_body :: "sdk \<Rightarrow> buf_id \<Rightarrow> bytes \<Rightarrow> ZC_MessageHead \<Rightarrow> world \<Rightarrow> world option" where
  "RecvMsg2_body S p m h w =
     (if MsgCode h = ZC_CODE_HANDSHAKE_2 \<or> MsgCode h = ZC_CODE_ACCESS_POINT_RSP then do {
        r \<leftarrow> check_payload m h;
        if r = ZC_RET_ERROR then PCT_DisConnectCloud w
        else do {
          w \<leftarrow> TIMER_StopTimer (u8AccessTimer (con w)) w;
          same \<leftarrow> same_rand m w;
          if same then
            if MsgCode h = ZC_CODE_HANDSHAKE_2 then do {
              k \<leftarrow> rd m 40 16;
              PCT_SendCloudAccessMsg3 S (upd_con (\<lambda>c. c\<lparr>u8SessionKey := k, IvRecv := k, IvSend := k\<rparr>) w)
            } else do {
              a \<leftarrow> rd m 40 6;
              w \<leftarrow> ZC_StoreAccessInfo (le32_bytes (ZC_HTONL (fld32 a 0))) (le16_bytes (ZC_HTONS (fld16 a 4))) w;
              PCT_DisConnectCloud w
            }
          else PCT_DisConnectCloud w
        } }
      else Some w)"

definition PCT_RecvAccessMsg2 :: "sdk \<Rightarrow> world \<Rightarrow> world option" where
  "PCT_RecvAccessMsg2 S w = handle_popped (RecvMsg2_body S) Some w"

definition RecvMsg4_body :: "buf_id \<Rightarrow> bytes \<Rightarrow> ZC_MessageHead \<Rightarrow> world \<Rightarrow> world option" where
  "RecvMsg4_body p m h w =
     (if MsgCode h = ZC_CODE_HANDSHAKE_4 then do {
        r \<leftarrow> check_payload m h;
        if r = ZC_RET_ERROR then PCT_DisConnectCloud w
        else do {
          w \<leftarrow> TIMER_StopTimer (u8AccessTimer (con w)) w;
          same \<leftarrow> same_rand m w;
          if same then PCT_SendNotifyMsg ZC_CODE_CLOUD_CONNECTED (set_state PCT_STATE_CONNECT_CLOUD w)
          else PCT_DisConnectCloud w
        } }
      else Some w)"

definition PCT_RecvAccessMsg4 :: "sdk \<Rightarrow> world \<Rightarrow> world option" where
  "PCT_RecvAccessMsg4 S w = handle_popped RecvMsg4_body
     (\<lambda>w. do { w \<leftarrow> stop_heart w; Some (set_timer S PCT_TIMER_SENDHEART 60000 V_Heart w) }) w"

definition Unbind_body :: "buf_id \<Rightarrow> bytes \<Rightarrow> ZC_MessageHead \<Rightarrow> world \<Rightarrow> world option" where
  "Unbind_body p m h w =
     (if MsgCode h = ZC_CODE_UNBIND then do {
        let w = set_state PCT_STATE_CONNECT_CLOUD w;
        w \<leftarrow> (if u8SendUnbindTimer (con w) \<noteq> PCT_TIMER_INVAILD then do {
                 w \<leftarrow> TIMER_StopTimer (u8SendUnbindTimer (con w)) w;
                 Some (upd_con (u8SendUnbindTimer_update (\<lambda>_. PCT_TIMER_INVAILD)) w)
               } else Some w);
        Some (ZC_ConfigUnBind 0xFFFFFFFF w) }
      else Some w)"

definition PCT_HandleUnbindMsg :: "sdk \<Rightarrow> world \<Rightarrow> world option" where
  "PCT_HandleUnbindMsg S w = handle_popped Unbind_body
     (\<lambda>w. Some (set_timer S PCT_TIMER_SENDHEART 60000 V_Heart w)) w"

subsection \<open>Firmware update\<close>

definition PCT_HandleOtaBeginMsg :: "sdk \<Rightarrow> buf_id \<Rightarrow> world \<Rightarrow> world option" where
  "PCT_HandleOtaBeginMsg S p w = do {
     let w = w\<lparr>g_u32StopJdTask := 1\<rparr>;
     h \<leftarrow> rd_MsgHead (u8MsgBuffer (get_buf p w)) 0;
     w \<leftarrow> PCT_SendAckToCloud S (MsgId h) w;
     PCT_SendNotifyMsg ZC_CODE_ZOTA_BEGIN w }"

text \<open>\<open>ZC_OtaFileBeginReq\<close> at offset \<open>off\<close>: type, version, two CRC bytes, length.\<close>

definition ota_begin :: "bytes \<Rightarrow> nat \<Rightarrow> world \<Rightarrow> world option" where
  "ota_begin m off w = do {
     q \<leftarrow> rd m off 8;
     Some (upd_con (\<lambda>c. c\<lparr>struOtaInfo := \<lparr>u32TotalLen = ZC_HTONL (fld32 q 4), u32RecvOffset = 0,
       u8Crc = (q ! 2, q ! 3)\<rparr>\<rparr>) w) }"

definition PCT_ModuleOtaFileBeginMsg :: "bytes \<Rightarrow> nat \<Rightarrow> world \<Rightarrow> world option" where
  "PCT_ModuleOtaFileBeginMsg m off w = do { w \<leftarrow> ota_begin m off w; PCT_SendNotifyMsg ZC_CODE_ACK w }"

definition PCT_HandleOtaFileBeginMsg :: "sdk \<Rightarrow> buf_id \<Rightarrow> world \<Rightarrow> world option" where
  "PCT_HandleOtaFileBeginMsg S p w = do {
     let m = u8MsgBuffer (get_buf p w);
     h \<leftarrow> rd_MsgHead m 0;
     w \<leftarrow> ota_begin m 8 w;
     PCT_SendAckToCloud S (MsgId h) w }"

text \<open>The parameter check of both chunk handlers; the arithmetic wraps at 32 bits.\<close>

definition ota_chunk_bad :: "u32 \<Rightarrow> u32 \<Rightarrow> PTC_OtaInfo \<Rightarrow> bool" where
  "ota_chunk_bad off len i \<longleftrightarrow> off \<noteq> u32RecvOffset i \<or> off + len > u32TotalLen i \<or> len > 384"

definition ota_file_len :: "ZC_MessageHead \<Rightarrow> u32" where
  "ota_file_len h = ucast (ZC_HTONS (Payloadlen h)) - 4"

definition ota_advance :: "u32 \<Rightarrow> world \<Rightarrow> world" where
  "ota_advance len = upd_con (struOtaInfo_update (\<lambda>i. i\<lparr>u32RecvOffset := u32RecvOffset i + len\<rparr>))"

definition PCT_ModuleOtaFileChunkMsg :: "sdk \<Rightarrow> ZC_MessageHead \<Rightarrow> bytes \<Rightarrow> nat \<Rightarrow> world \<Rightarrow> world option" where
  "PCT_ModuleOtaFileChunkMsg S h m off w = do {
     q \<leftarrow> rd m off 4;
     let u32FileLen = ota_file_len h;
     let u32Offset = ZC_HTONL (fld32 q 0);
     if ota_chunk_bad u32Offset u32FileLen (struOtaInfo (con w)) then PCT_SendNotifyMsg ZC_CODE_ERR w
     else do {
       d \<leftarrow> rd m off (unat (ZC_HTONS (Payloadlen h)));
       if crc16_ccitt d \<noteq> crc_of_bytes (TotalMsgCrc h) then PCT_SendNotifyMsg ZC_CODE_ERR w
       else do {
         (r, w) \<leftarrow> HF_FirmwareUpdate S m (off + 4) u32Offset u32FileLen w;
         if r = ZC_RET_ERROR then PCT_SendNotifyMsg ZC_CODE_ERR w
         else PCT_SendNotifyMsg ZC_CODE_ACK (ota_advance u32FileLen w)
       } } }"

definition PCT_ModuleOtaFileEndMsg :: "sdk \<Rightarrow> world \<Rightarrow> world option" where
  "PCT_ModuleOtaFileEndMsg S w =
     (let (r, w) = HF_FirmwareUpdateFinish S (u32TotalLen (struOtaInfo (con w))) w
      in if r = ZC_RET_ERROR then PCT_SendNotifyMsg ZC_CODE_ERR w else PCT_SendNotifyMsg ZC_CODE_ACK w)"

definition PCT_HandleOtaFileChunkMsg :: "sdk \<Rightarrow> buf_id \<Rightarrow> world \<Rightarrow> world option" where
  "PCT_HandleOtaFileChunkMsg S p w = do {
     let m = u8MsgBuffer (get_buf p w);
     h \<leftarrow> rd_MsgHead m 0;
     q \<leftarrow> rd m 8 4;
     let u32FileLen = ota_file_len h;
     let u32Offset = ZC_HTONL (fld32 q 0);
     if ota_chunk_bad u32Offset u32FileLen (struOtaInfo (con w)) then PCT_SendErrorMsg S (MsgId h) [] 0 w
     else do {
       (r, w) \<leftarrow> HF_FirmwareUpdate S m 12 u32Offset u32FileLen w;
       if r = ZC_RET_ERROR then PCT_SendErrorMsg S (MsgId h) [] 0 w
       else PCT_SendAckToCloud S (MsgId h) (ota_advance u32FileLen w)
     } }"

definition PCT_HandleOtaFileEndMsg :: "sdk \<Rightarrow> buf_id \<Rightarrow> world \<Rightarrow> world option" where
  "PCT_HandleOtaFileEndMsg S p w = do {
     h \<leftarrow> rd_MsgHead (u8MsgBuffer (get_buf p w)) 0;
     PCT_SendAckToCloud S (MsgId h) w }"

definition PCT_HandleOtaEndMsg :: "sdk \<Rightarrow> buf_id \<Rightarrow> world \<Rightarrow> world option" where
  "PCT_HandleOtaEndMsg S p w = do {
     h \<leftarrow> rd_MsgHead (u8MsgBuffer (get_buf p w)) 0;
     let (r, w) = HF_FirmwareUpdateFinish S (u32TotalLen (struOtaInfo (con w))) w;
     if r = ZC_RET_ERROR then PCT_SendErrorMsg S (MsgId h) [] 0 w
     else do {
       w \<leftarrow> PCT_SendAckToCloud S (MsgId h) w;
       w \<leftarrow> PCT_SendNotifyMsg ZC_CODE_ZOTA_END w;
       Some ((HF_Reboot w)\<lparr>g_u32StopJdTask := 0\<rparr>)
     } }"

subsection \<open>Commands of the cloud\<close>

definition PCT_SetTokenKey :: "sdk \<Rightarrow> buf_id \<Rightarrow> world \<Rightarrow> world option" where
  "PCT_SetTokenKey S p w = do {
     let m = u8MsgBuffer (get_buf p w);
     h \<leftarrow> rd_MsgHead m 0;
     w \<leftarrow> ZC_StoreTokenKey m 8 w;
     w \<leftarrow> PCT_SendEmptyMsg S (MsgId h) ZC_SEC_ALG_AES w;
     PCT_SendAckToCloud S (MsgId h) w }"

definition PCT_ResetNetWork :: "sdk \<Rightarrow> buf_id \<Rightarrow> world \<Rightarrow> world option" where
  "PCT_ResetNetWork S p w = do {
     h \<leftarrow> rd_MsgHead (u8MsgBuffer (get_buf p w)) 0;
     w \<leftarrow> PCT_DisConnectCloud (ZC_ConfigInitPara w);
     w \<leftarrow> PCT_SendEmptyMsg S (MsgId h) ZC_SEC_ALG_AES w;
     PCT_SendAckToCloud S (MsgId h) w }"

definition dispatch :: "sdk \<Rightarrow> buf_id \<Rightarrow> u8 \<Rightarrow> world \<Rightarrow> world option" where
  "dispatch S p code w =
     (if code = ZC_CODE_ZOTA_BEGIN then PCT_HandleOtaBeginMsg S p w
      else if code = ZC_CODE_ZOTA_FILE_BEGIN then PCT_HandleOtaFileBeginMsg S p w
      else if code = ZC_CODE_ZOTA_FILE_CHUNK then PCT_HandleOtaFileChunkMsg S p w
      else if code = ZC_CODE_ZOTA_FILE_END then PCT_HandleOtaFileEndMsg S p w
      else if code = ZC_CODE_ZOTA_END then PCT_HandleOtaEndMsg S p w
      else if code = ZC_CODE_TOKEN_SET then PCT_SetTokenKey S p w
      else if code = ZC_CODE_RESET_NETWORK then PCT_ResetNetWork S p w
      else if code = ZC_CODE_UNBIND then Some w
      else PCT_HandleMoudleMsg S p w)"

definition Event_body :: "sdk \<Rightarrow> buf_id \<Rightarrow> bytes \<Rightarrow> ZC_MessageHead \<Rightarrow> world \<Rightarrow> world option" where
  "Event_body S p m h w = do {
     r \<leftarrow> check_payload m h;
     if r = ZC_RET_ERROR then do {
       w \<leftarrow> PCT_SendEmptyMsg S (MsgId h) ZC_SEC_ALG_AES w;
       PCT_SendErrorMsg S (MsgId h) [] 0 w
     } else dispatch S p (MsgCode h) w }"

definition PCT_HandleEvent :: "sdk \<Rightarrow> world \<Rightarrow> world option" where
  "PCT_HandleEvent S w =
     (if u32UnBindFlag (struDeviceInfo (g_struZcConfigDb w)) = ZC_MAGIC_FLAG then do {
        let w = set_state PCT_STATE_WAIT_UNBIND w;
        w \<leftarrow> (if u8SendUnbindTimer (con w) \<noteq> PCT_TIMER_INVAILD
              then TIMER_StopTimer (u8SendUnbindTimer (con w)) w else Some w);
        PCT_SendUnbindMsg S w }
      else handle_popped (Event_body S) Some w)"

subsection \<open>The state machine\<close>

definition PCT_Run :: "sdk \<Rightarrow> world \<Rightarrow> world option" where
  "PCT_Run S w =
     (if main_state w = PCT_STATE_ACCESS_NET then Some (PCT_ConnectCloud S w)
      else if main_state w = PCT_STATE_WAIT_ACCESS then PCT_SendCloudAccessMsg1 S w
      else if main_state w = PCT_STATE_WAIT_ACCESSRSP then PCT_RecvAccessMsg2 S w
      else if main_state w = PCT_STATE_WAIT_MSG4 then PCT_RecvAccessMsg4 S w
      else if main_state w = PCT_STATE_CONNECT_CLOUD then PCT_HandleEvent S w
      else if main_state w = PCT_STATE_WAIT_UNBIND then PCT_HandleUnbindMsg S w
      else Some w)"

definition PCT_WakeUp :: "sdk \<Rightarrow> world \<Rightarrow> world option" where
  "PCT_WakeUp S w =
     (if main_state w = PCT_STATE_INIT then do {
        let w = set_timer S PCT_TIMER_REGISTER 1000 V_Register w;
        let w = upd_con (u16SendBcNum_update (\<lambda>_. 0)) w;
        w \<leftarrow> PCT_SendNotifyMsg ZC_CODE_WIFI_CONNECTED w;
        Some (set_state PCT_STATE_ACCESS_NET w) }
      else Some w)"

definition PCT_Sleep :: "world \<Rightarrow> world option" where
  "PCT_Sleep w = do {
     w \<leftarrow> stop_used_timers [0..<5] (set_keyRecv PCT_KEY_UNRECVED (MSG_Init w));
     let w = TIMER_Init w;
     let w = upd_con (\<lambda>c. c\<lparr>u8ReconnectTimer := PCT_TIMER_INVAILD, u8SendMoudleTimer := PCT_TIMER_INVAILD,
               u8HeartTimer := PCT_TIMER_INVAILD, u8MainState := PCT_STATE_INIT,
               u8RegisterTimer := PCT_TIMER_INVAILD\<rparr>) w;
     PCT_SendNotifyMsg ZC_CODE_WIFI_DISCONNECTED w }"

subsection \<open>Expiry of a timer\<close>

definition TIMER_TimeoutAction :: "sdk \<Rightarrow> nat \<Rightarrow> world \<Rightarrow> world option" where
  "TIMER_TimeoutAction S i w = do {
     t \<leftarrow> nth_opt (g_struTimer w) i;
     let typ = tm_Type t;
     if typ = PCT_TIMER_RECONNECT then
       Some (upd_con (\<lambda>c. c\<lparr>u8ReconnectTimer := PCT_TIMER_INVAILD, u8MainState := PCT_STATE_ACCESS_NET\<rparr>) w)
     else if typ = PCT_TIMER_REACCESS then PCT_DisConnectCloud w
     else if typ = PCT_TIMER_SENDMOUDLE then PCT_SendMoudleTimeout S w
     else if typ = PCT_TIMER_SENDHEART then PCT_SendHeartMsg S w
     else if typ = PCT_TIMER_REGISTER then
       PCT_SendNotifyMsg ZC_CODE_WIFI_CONNECTED (set_timer S PCT_TIMER_REGISTER 1000 V_Register w)
     else if typ = PCT_TIMER_SENDUBIND then PCT_SendUnbindMsg S w
     else Some w }"

text \<open>\<open>i\<close> is the number \<^verbatim>\<open>hftimer_get_timer_id\<close> returns for the expired timer. The first expiry only
  starts it again.\<close>

definition HF_timer_callback :: "sdk \<Rightarrow> u8 \<Rightarrow> world \<Rightarrow> world option" where
  "HF_timer_callback S i w = do {
     t \<leftarrow> nth_opt (g_struHfTimer w) (unat i);
     if u32FirstFlag t = 1 then
       Some (emit (E_timer_start (struHandle t))
         (w\<lparr>g_struHfTimer := (g_struHfTimer w)[unat i := t\<lparr>u32FirstFlag := 0\<rparr>]\<rparr>))
     else do {
       w \<leftarrow> TIMER_TimeoutAction S (unat i) w;
       TIMER_StopTimer i w
     } }"

end
