(* ===== verification/Outbound.thy ===== *)
theory Outbound
  imports PctRecv
begin

text \<open>
  What sending changes. The relation \<open>outbound\<close> holds between two states when only the send buffer,
  the build buffer, the device and the events differ, the send buffer keeps its size and status, and
  the new events are bytes on the serial line, calls of the RSA library and frames on the cloud socket
  whose header announces their length. Every message the controller sends is of this kind, and
  sending never leaves the memory of the program.
\<close>

subsection \<open>The relation\<close>

definition frame_ok :: "bytes \<Rightarrow> bool" where
  "frame_ok d \<longleftrightarrow> 4 \<le> length d \<and> unat (ZC_HTONS (u16TotalMsg (SecHead_of d))) = length d - 4"

definition out_event :: "u32 \<Rightarrow> nat \<Rightarrow> event \<Rightarrow> bool" where
  "out_event sock maxlen e = (case e of E_uart_send _ \<Rightarrow> True | E_rsa \<Rightarrow> True
     | E_tcp_send fd d \<Rightarrow> fd = sock \<and> frame_ok d \<and> length d \<le> maxlen | _ \<Rightarrow> False)"

abbreviation send_len :: "world \<Rightarrow> nat" where
  "send_len w \<equiv> length (u8MsgBuffer (g_struSendBuffer w))"

abbreviation cloud_socket :: "world \<Rightarrow> u32" where
  "cloud_socket w \<equiv> u32Socket (struCloudConnection (con w))"

definition outbound :: "world \<Rightarrow> world \<Rightarrow> bool" where
  "outbound w w' \<longleftrightarrow> (\<exists>sb mb d es. w' = w\<lparr>g_struSendBuffer := sb, g_u8MsgBuildBuffer := mb, device := d,
       io := es @ io w\<rparr> \<and> length (u8MsgBuffer sb) = send_len w \<and>
     u8Status sb = u8Status (g_struSendBuffer w) \<and> length mb = length (g_u8MsgBuildBuffer w) \<and>
     (\<forall>e \<in> set es. out_event (cloud_socket w) (send_len w) e))"

lemma outboundI:
  assumes "w' = w\<lparr>g_struSendBuffer := sb, g_u8MsgBuildBuffer := mb, device := d, io := es @ io w\<rparr>"
    and "length (u8MsgBuffer sb) = send_len w" "u8Status sb = u8Status (g_struSendBuffer w)"
    and "length mb = length (g_u8MsgBuildBuffer w)"
    and "\<forall>e \<in> set es. out_event (cloud_socket w) (send_len w) e"
  shows "outbound w w'"
  unfolding outbound_def using assms by blast

lemma outboundE:
  assumes "outbound w w'"
  obtains sb mb d es where
    "w' = w\<lparr>g_struSendBuffer := sb, g_u8MsgBuildBuffer := mb, device := d, io := es @ io w\<rparr>"
    "length (u8MsgBuffer sb) = send_len w" "u8Status sb = u8Status (g_struSendBuffer w)"
    "length mb = length (g_u8MsgBuildBuffer w)" "\<forall>e \<in> set es. out_event (cloud_socket w) (send_len w) e"
  using assms unfolding outbound_def by blast

lemma outbound_refl [intro]: "outbound w w"
  by (rule outboundI [where sb = "g_struSendBuffer w" and mb = "g_u8MsgBuildBuffer w" and d = "device w" and es = "[]"]) simp_all

lemma outbound_trans [trans]:
  assumes "outbound w w1" "outbound w1 w2"
  shows "outbound w w2"
proof -
  from assms(1) obtain sb mb d es where
    1: "w1 = w\<lparr>g_struSendBuffer := sb, g_u8MsgBuildBuffer := mb, device := d, io := es @ io w\<rparr>"
    "length (u8MsgBuffer sb) = send_len w" "u8Status sb = u8Status (g_struSendBuffer w)"
    "length mb = length (g_u8MsgBuildBuffer w)" "\<forall>e \<in> set es. out_event (cloud_socket w) (send_len w) e"
    by (rule outboundE)
  from assms(2) obtain sb' mb' d' es' where
    2: "w2 = w1\<lparr>g_struSendBuffer := sb', g_u8MsgBuildBuffer := mb', device := d', io := es' @ io w1\<rparr>"
    "length (u8MsgBuffer sb') = send_len w1" "u8Status sb' = u8Status (g_struSendBuffer w1)"
    "length mb' = length (g_u8MsgBuildBuffer w1)" "\<forall>e \<in> set es'. out_event (cloud_socket w1) (send_len w1) e"
    by (rule outboundE)
  have "w2 = w\<lparr>g_struSendBuffer := sb', g_u8MsgBuildBuffer := mb', device := d', io := (es' @ es) @ io w\<rparr>"
    by (simp add: 1(1) 2(1))
  then show ?thesis
    by (rule outboundI) (use 1 2 in \<open>auto simp: 1(1)\<close>)
qed

lemma outbound_device: "device_io w w' \<Longrightarrow> outbound w w'"
proof -
  assume "device_io w w'"
  then obtain d es where w: "w' = w\<lparr>device := d, io := es @ io w\<rparr>" and es: "\<forall>e \<in> set es. \<exists>p. e = E_uart_send p"
    unfolding device_io_def by blast
  have "w' = w\<lparr>g_struSendBuffer := g_struSendBuffer w, g_u8MsgBuildBuffer := g_u8MsgBuildBuffer w,
      device := d, io := es @ io w\<rparr>" by (simp add: w)
  then show ?thesis by (rule outboundI) (use es in \<open>auto simp: out_event_def\<close>)
qed

lemma outbound_build: "length mb = length (g_u8MsgBuildBuffer w) \<Longrightarrow> outbound w (w\<lparr>g_u8MsgBuildBuffer := mb\<rparr>)"
  by (rule outboundI [where sb = "g_struSendBuffer w" and mb = mb and d = "device w" and es = "[]"]) simp_all

text \<open>The parts of the state that sending leaves alone.\<close>

lemma outboundD:
  assumes "outbound w w'"
  shows "con w' = con w" "g_struZcConfigDb w' = g_struZcConfigDb w" "g_struRegisterInfo w' = g_struRegisterInfo w"
    "g_struTimer w' = g_struTimer w" "g_struHfTimer w' = g_struHfTimer w" "g_struRecvBuffer w' = g_struRecvBuffer w"
    "g_struRetxBuffer w' = g_struRetxBuffer w" "g_struClientBuffer w' = g_struClientBuffer w"
    "g_struRecvQueue w' = g_struRecvQueue w" "g_struSendQueue w' = g_struSendQueue w"
    "g_struUartBuffer w' = g_struUartBuffer w" "g_struClientInfo w' = g_struClientInfo w"
    "g_u32StopJdTask w' = g_u32StopJdTask w" "bc w' = bc w"
    "length (g_u8MsgBuildBuffer w') = length (g_u8MsgBuildBuffer w)" "send_len w' = send_len w"
    "u8Status (g_struSendBuffer w') = u8Status (g_struSendBuffer w)"
    "\<exists>es. io w' = es @ io w \<and> (\<forall>e \<in> set es. out_event (cloud_socket w) (send_len w) e)"
proof -
  from assms obtain sb mb d es where
    1: "w' = w\<lparr>g_struSendBuffer := sb, g_u8MsgBuildBuffer := mb, device := d, io := es @ io w\<rparr>"
    "length (u8MsgBuffer sb) = send_len w" "u8Status sb = u8Status (g_struSendBuffer w)"
    "length mb = length (g_u8MsgBuildBuffer w)" "\<forall>e \<in> set es. out_event (cloud_socket w) (send_len w) e"
    by (rule outboundE)
  note [simp] = 1(1)
  show "con w' = con w" "g_struZcConfigDb w' = g_struZcConfigDb w" "g_struRegisterInfo w' = g_struRegisterInfo w"
    "g_struTimer w' = g_struTimer w" "g_struHfTimer w' = g_struHfTimer w" "g_struRecvBuffer w' = g_struRecvBuffer w"
    "g_struRetxBuffer w' = g_struRetxBuffer w" "g_struClientBuffer w' = g_struClientBuffer w"
    "g_struRecvQueue w' = g_struRecvQueue w" "g_struSendQueue w' = g_struSendQueue w"
    "g_struUartBuffer w' = g_struUartBuffer w" "g_struClientInfo w' = g_struClientInfo w"
    "g_u32StopJdTask w' = g_u32StopJdTask w" "bc w' = bc w"
    "length (g_u8MsgBuildBuffer w') = length (g_u8MsgBuildBuffer w)" "send_len w' = send_len w"
    "u8Status (g_struSendBuffer w') = u8Status (g_struSendBuffer w)"
    using 1 by simp_all
  show "\<exists>es. io w' = es @ io w \<and> (\<forall>e \<in> set es. out_event (cloud_socket w) (send_len w) e)"
    using 1(5) by (intro exI [of _ es]) simp
qed

subsection \<open>Encryption\<close>

definition rsa_calls :: "world \<Rightarrow> world \<Rightarrow> bool" where
  "rsa_calls w w' \<longleftrightarrow> (\<exists>k. w' = w\<lparr>io := replicate k E_rsa @ io w\<rparr>)"

lemma rsa_calls_refl [intro]: "rsa_calls w w"
  unfolding rsa_calls_def by (rule exI [of _ 0]) simp

lemma rsa_calls_emit: "rsa_calls w w' \<Longrightarrow> rsa_calls w (emit E_rsa w')"
  unfolding rsa_calls_def by (auto simp: emit_def intro: exI [of _ "Suc _"])

lemma rsa_calls_emit_left: "rsa_calls (emit E_rsa w) w' \<Longrightarrow> rsa_calls w w'"
  unfolding rsa_calls_def
proof (elim exE)
  fix k assume "w' = emit E_rsa w\<lparr>io := replicate k E_rsa @ io (emit E_rsa w)\<rparr>"
  then have "w' = w\<lparr>io := replicate (Suc k) E_rsa @ io w\<rparr>"
    by (simp add: emit_def replicate_app_Cons_same)
  then show "\<exists>k. w' = w\<lparr>io := replicate k E_rsa @ io w\<rparr>" by blast
qed

lemma rsa_pkcs1_encrypt_Some:
  "rsa_pkcs1_encrypt S key src soff n dst doff w = Some (ret, dst', w') \<Longrightarrow>
     length dst' = length dst \<and> w' = emit E_rsa w"
  by (auto simp: rsa_pkcs1_encrypt_def bind_eq_Some_conv length_wr case_prod_unfold Let_def)

lemma dvd_add_32: "32 dvd unat (c :: u16) \<Longrightarrow> 32 dvd unat (c + 32)"
  by (simp add: unat_word_ariths dvd_mod_iff)

lemma rsa_encrypt_loop_Some:
  "rsa_encrypt_loop S key src soff len ret readlen clen dst doff w = Some (ret', readlen', clen', dst', w') \<Longrightarrow>
     32 dvd unat clen \<Longrightarrow> length dst' = length dst \<and> rsa_calls w w' \<and> 32 dvd unat clen'"
proof (induction S key src soff len ret readlen clen dst doff w arbitrary: ret' readlen' clen' dst' w'
    rule: rsa_encrypt_loop.induct)
  case (1 S key src soff len ret readlen clen dst doff w)
  show ?case
  proof (cases "readlen + 21 \<le> len")
    case True
    with "1.prems"(1) obtain r d w1 where
      c: "rsa_pkcs1_encrypt S key src (soff + readlen) 21 dst (doff + unat clen) w = Some (r, d, w1)"
      and k: "(if r \<noteq> 0 then Some (r, readlen, clen, d, w1)
        else rsa_encrypt_loop S key src soff len r (readlen + 21) (clen + 32) d doff w1) =
        Some (ret', readlen', clen', dst', w')"
      by (subst (asm) rsa_encrypt_loop.simps) (auto simp: bind_eq_Some_conv)
    from rsa_pkcs1_encrypt_Some [OF c] have d: "length d = length dst" "w1 = emit E_rsa w" by auto
    show ?thesis
    proof (cases "r = 0")
      case True
      with k have l: "rsa_encrypt_loop S key src soff len r (readlen + 21) (clen + 32) d doff w1 =
        Some (ret', readlen', clen', dst', w')" by simp
      from "1.IH" [OF \<open>readlen + 21 \<le> len\<close> c refl refl _ l dvd_add_32 [OF "1.prems"(2)]] True d
      show ?thesis using rsa_calls_emit_left by simp
    next
      case False
      with k d "1.prems"(2) show ?thesis by (auto intro: rsa_calls_emit)
    qed
  next
    case False
    with "1.prems" show ?thesis by (subst (asm) rsa_encrypt_loop.simps) auto
  qed
qed

lemma SEC_EncryptTextByRsa_Some:
  assumes "SEC_EncryptTextByRsa S dst doff src soff n w = Some (r, clen, m, w')"
  shows "length m = length dst \<and> rsa_calls w w' \<and> 32 dvd unat clen"
proof -
  from assms obtain key where
    k: "(if unat n + 11 > 32 then do {
       (ret, readlen, clen, dst, w) \<leftarrow> rsa_encrypt_loop S key src soff (unat n) 0 0 0 dst doff w;
       if readlen < unat n then do {
         (ret, dst, w) \<leftarrow> rsa_pkcs1_encrypt S key src (soff + readlen) (unat n - readlen) dst (doff + unat clen) w;
         Some (if ret \<noteq> 0 then ZC_RET_ERROR else ZC_RET_OK, clen + 32, dst, w)
       } else Some (if ret \<noteq> 0 then ZC_RET_ERROR else ZC_RET_OK, clen, dst, w)
     } else do {
       (ret, dst, w) \<leftarrow> rsa_pkcs1_encrypt S key src soff (unat n) dst doff w;
       Some (if ret \<noteq> 0 then ZC_RET_ERROR else ZC_RET_OK, 32, dst, w)
     }) = Some (r, clen, m, w')"
    by (auto simp: SEC_EncryptTextByRsa_def bind_eq_Some_conv)
  show ?thesis
  proof (cases "unat n + 11 > 32")
    case True
    with k obtain ret readlen c d w1 where
      l: "rsa_encrypt_loop S key src soff (unat n) 0 0 0 dst doff w = Some (ret, readlen, c, d, w1)"
      and t: "(if readlen < unat n then do {
         (ret, dst, w) \<leftarrow> rsa_pkcs1_encrypt S key src (soff + readlen) (unat n - readlen) d (doff + unat c) w1;
         Some (if ret \<noteq> 0 then ZC_RET_ERROR else ZC_RET_OK, c + 32, dst, w)
       } else Some (if ret \<noteq> 0 then ZC_RET_ERROR else ZC_RET_OK, c, d, w1)) = Some (r, clen, m, w')"
      by (auto simp: bind_eq_Some_conv)
    from rsa_encrypt_loop_Some [OF l] have d: "length d = length dst" "rsa_calls w w1" "32 dvd unat c" by simp_all
    with t dvd_add_32 [OF d(3)] show ?thesis
      by (auto simp: bind_eq_Some_conv dest!: rsa_pkcs1_encrypt_Some intro: rsa_calls_emit split: if_splits)
  next
    case False
    with k show ?thesis
      by (auto simp: bind_eq_Some_conv dest!: rsa_pkcs1_encrypt_Some intro: rsa_calls_emit)
  qed
qed

lemma AES_CBC_Encrypt_length:
  assumes "AES_CBC_Encrypt pt (ucast (n :: u16)) k 16 iv = Some (ct, l)" "length k = 16" "length iv = 16"
  shows "l = of_nat (length ct) \<and> unat n \<le> length pt \<and> length ct = unat n + (16 - unat n mod 16)"
proof -
  have n: "unat n \<le> length pt" "unat n < 65536"
    using assms(1) unat_u16_lt [of n] by (auto simp: AES_CBC_Encrypt_def bind_eq_Some_conv rd_eq_Some split: sum.splits)
  let ?p = "take (unat n) pt"
  have "AES_CBC_Encrypt ?p (ucast n) k 16 iv = Some (ct, l)"
    using AES_CBC_Encrypt_take [of 0 "ucast n" pt k 16 iv] n assms(1) by simp
  moreover have "ucast n = (of_nat (length ?p) :: u32)"
    using n by (simp add: word_unat_eq_iff unat_of_nat take_bit_nat_eq_self_iff)
  ultimately have "AES_CBC_Encrypt ?p (of_nat (length ?p)) k 16 iv = Some (ct, l)" by simp
  with AES_CBC_Encrypt_Decrypt [OF assms(2,3), of ?p] n
  have "l = of_nat (length ct)" "length ct = 16 * (length ?p div 16) + 16" by auto
  moreover have "16 * (unat n div 16) + 16 = unat n + (16 - unat n mod 16)"
    using mult_div_mod_eq [of 16 "unat n"] mod_less_divisor [of 16 "unat n"] by linarith
  ultimately show ?thesis using n by simp
qed

lemma SEC_AesEncrypt_Some:
  assumes "SEC_AesEncrypt dst doff src soff n cl w = Some (r, l, m)" "session_keys w" "length dst \<le> 1000"
  shows "length m = length dst \<and> (r = ZC_RET_OK \<longrightarrow> unat l < 65532)"
proof (cases "u8keyRecv (con w) = PCT_KEY_RECVED")
  case True
  with assms(1) obtain ct v where
    e: "AES_CBC_Encrypt (drop soff src) (ucast n) (u8SessionKey (con w)) 16 (IvSend (con w)) = Some (ct, v)"
    and m: "wr dst doff ct = Some m" "l = ucast v"
    by (auto simp: SEC_AesEncrypt_def bind_eq_Some_conv)
  have "v = of_nat (length ct)"
    using AES_CBC_Encrypt_length [OF e] assms(2) by (simp add: session_keys_def)
  moreover have "length ct \<le> 1000" using m(1) assms(3) by (simp add: wr_eq_Some)
  ultimately have "unat l = length ct"
    using m(2) by (simp add: ucast_of_nat_32_16 unat_of_nat)
  then show ?thesis using length_wr [OF m(1)] \<open>length ct \<le> 1000\<close> by simp
next
  case False
  with assms(1) show ?thesis by (auto simp: SEC_AesEncrypt_def)
qed

lemma dvd_32_lt: "32 dvd unat (c :: u16) \<Longrightarrow> unat c < 65532"
proof -
  assume "32 dvd unat c"
  then obtain k where k: "unat c = 32 * k" by (auto elim: dvdE)
  with unat_u16_lt [of c] show ?thesis by presburger
qed

lemma SEC_Encrypt_cases:
  assumes "SEC_Encrypt S h dst 4 src soff cl w = Some (r, h', n, m, w')"
  obtains (none) p k where "r = 0" "rd src soff (unat (k :: u16)) = Some p" "wr dst 4 p = Some m" "w' = w" "n = k"
    | (rsa) k where "SEC_EncryptTextByRsa S dst 4 src soff k w = Some (r, n, m, w')"
    | (aes) k where "SEC_AesEncrypt dst 4 src soff k cl w = Some (r, n, m)" "w' = w"
    | (err) "r = 1" "m = dst" "w' = w"
proof -
  define H where "H = (if u32SecSwitch (struSwitchInfo (g_struZcConfigDb w)) = 0 then h\<lparr>u8SecType := 0\<rparr> else h)"
  define k where "k = ZC_HTONS (u16TotalMsg H)"
  have e: "(if u8SecType H = 0 then do {
           p \<leftarrow> rd src soff (unat k);
           dst \<leftarrow> wr dst 4 p;
           Some (0, H, k, dst, w) }
         else if u8SecType H = 1 then do {
           (r, n, dst, w) \<leftarrow> SEC_EncryptTextByRsa S dst 4 src soff k w;
           Some (r, H, n, dst, w) }
         else if u8SecType H = 2 then do {
           (r, n, dst) \<leftarrow> SEC_AesEncrypt dst 4 src soff k cl w;
           Some (r, H, n, dst, w) }
         else Some (1, H, cl, dst, w)) = Some (r, h', n, m, w')"
    using assms unfolding SEC_Encrypt_def Let_def H_def [symmetric] k_def [symmetric] .
  consider "u8SecType H = 0" | "u8SecType H = 1" | "u8SecType H = 2"
    | "u8SecType H \<noteq> 0" "u8SecType H \<noteq> 1" "u8SecType H \<noteq> 2" by blast
  then show thesis
  proof cases
    case 1
    with e show thesis by (auto simp: bind_eq_Some_conv intro: none)
  next
    case 2
    with e show thesis by (auto simp: bind_eq_Some_conv intro: rsa)
  next
    case 3
    with e show thesis by (auto simp: bind_eq_Some_conv intro: aes)
  next
    case 4
    with e show thesis by (auto intro: err)
  qed
qed

lemma SEC_Encrypt_Some:
  assumes "SEC_Encrypt S h dst 4 src soff cl w = Some (r, h', n, m, w')" "session_keys w" "length dst \<le> 1000"
  shows "length m = length dst \<and> rsa_calls w w' \<and> (r = ZC_RET_OK \<longrightarrow> unat n < 65532)"
  using assms(1)
proof (cases rule: SEC_Encrypt_cases)
  case (none p k)
  then have "4 + length p \<le> length dst" "length p = unat n" by (auto simp: wr_eq_Some rd_eq_Some)
  with none assms(3) length_wr [OF none(3)] show ?thesis by auto
next
  case (rsa k)
  from SEC_EncryptTextByRsa_Some [OF rsa] show ?thesis by (auto intro: dvd_32_lt)
next
  case (aes k)
  from SEC_AesEncrypt_Some [OF aes(1) assms(2,3)] aes(2) show ?thesis by auto
qed auto


subsection \<open>One message to the cloud\<close>

lemma rsa_calls_outbound:
  assumes "rsa_calls w w1" "length m = send_len w"
  shows "outbound w (g_struSendBuffer_update (u8MsgBuffer_update (\<lambda>_. m)) w1)"
proof -
  from assms(1) obtain k where w1: "w1 = w\<lparr>io := replicate k E_rsa @ io w\<rparr>" by (auto simp: rsa_calls_def)
  have "g_struSendBuffer_update (u8MsgBuffer_update (\<lambda>_. m)) w1 = w\<lparr>g_struSendBuffer :=
      (g_struSendBuffer w)\<lparr>u8MsgBuffer := m\<rparr>, g_u8MsgBuildBuffer := g_u8MsgBuildBuffer w,
      device := device w, io := replicate k E_rsa @ io w\<rparr>" by (simp add: w1)
  then show ?thesis by (rule outboundI) (use assms(2) in \<open>auto simp: out_event_def\<close>)
qed

lemma frame_ok_SecHead:
  assumes "d = take n (SecHead_bytes (h\<lparr>u16TotalMsg := ZC_HTONS k\<rparr>) @ rest)" "n = unat k + 4" "length d = n"
  shows "frame_ok d"
proof -
  have "SecHead_of d = h\<lparr>u16TotalMsg := ZC_HTONS k\<rparr>"
    using assms(1,2) by (simp del: take_append)
  with assms(2,3) show ?thesis by (simp add: frame_ok_def)
qed

lemma wr_0: "wr m 0 bs = Some m' \<Longrightarrow> m' = bs @ drop (length bs) m"
  by (simp add: wr_eq_Some)

lemma emit_frame_outbound:
  assumes "wr m 0 (SecHead_bytes (h\<lparr>u16TotalMsg := ZC_HTONS k\<rparr>)) = Some m'" "unat k < 65532"
    and "rd m' 0 (unat (ucast (ucast k + 4 :: u32) :: u16)) = Some d"
    and "outbound w w1" "u8MsgBuffer (g_struSendBuffer w1) = m" "u8Status (g_struSendBuffer w) = MSG_BUFFER_IDLE"
  shows "outbound w ((emit (E_tcp_send (cloud_socket w1) d) w1)
    \<lparr>g_struSendBuffer := \<lparr>u32Len = 0, u8Status = MSG_BUFFER_IDLE, u8MsgBuffer = m'\<rparr>\<rparr>)"
proof (rule outbound_trans [OF assms(4)])
  have l: "length m' = length m" using assms(1) by (rule length_wr)
  have m': "m' = SecHead_bytes (h\<lparr>u16TotalMsg := ZC_HTONS k\<rparr>) @ drop 4 m" using wr_0 [OF assms(1)] by simp
  have n: "unat (ucast (ucast k + 4 :: u32) :: u16) = unat k + 4"
  proof -
    have "(ucast k + 4 :: u32) = of_nat (unat k + 4)"
      using unat_u16_lt [of k] by (simp add: word_unat_eq_iff unat_of_nat unat_word_ariths take_bit_nat_eq_self_iff)
    then show ?thesis using assms(2) by (simp only: ucast_of_nat_32_16 unat_of_nat) simp
  qed
  have d: "d = take (unat k + 4) m'" "unat k + 4 \<le> length m'" using assms(3) by (auto simp: n rd_eq_Some)
  have "frame_ok d"
    by (rule frame_ok_SecHead [where n = "unat k + 4" and k = k and h = h]) (use d m' in simp_all)
  with d(2) l assms(5) have "out_event (cloud_socket w1) (send_len w1) (E_tcp_send (cloud_socket w1) d)"
    using length_rd [OF assms(3)] n by (simp add: out_event_def)
  moreover have "u8Status (g_struSendBuffer w1) = MSG_BUFFER_IDLE" using outboundD(17) [OF assms(4)] assms(6) by simp
  ultimately show "outbound w1 ((emit (E_tcp_send (cloud_socket w1) d) w1)
      \<lparr>g_struSendBuffer := \<lparr>u32Len = 0, u8Status = MSG_BUFFER_IDLE, u8MsgBuffer = m'\<rparr>\<rparr>)"
    using l assms(5)
    by (intro outboundI [where sb = "\<lparr>u32Len = 0, u8Status = 0, u8MsgBuffer = m'\<rparr>" and
          mb = "g_u8MsgBuildBuffer w1" and d = "device w1" and es = "[E_tcp_send (cloud_socket w1) d]"])
      (simp_all add: emit_def)
qed

lemma PCT_SendMsgToCloud_outbound:
  assumes "PCT_SendMsgToCloud S h plain poff w = Some (r, w')" "session_keys w" "send_len w \<le> 1000"
  shows "outbound w w'"
proof -
  obtain pl where pc: "SEC_PaddingCheck (u8SecType h) (ZC_HTONS (u16TotalMsg h)) w = (0, pl)"
    by (simp add: SEC_PaddingCheck_def Let_def)
  show ?thesis
  proof (cases "unat (ZC_HTONS (u16TotalMsg h) + 4 + pl) > MSG_BUFFER_MAXLEN \<or> u8Status (g_struSendBuffer w) \<noteq> MSG_BUFFER_IDLE")
    case True
    with assms(1) pc have "w' = w" by (auto simp: PCT_SendMsgToCloud_def Let_def split: if_splits)
    then show ?thesis by auto
  next
    case False
    define K where "K = (\<lambda>(r, h, u16Len :: u16, m, w). let w = g_struSendBuffer_update (u8MsgBuffer_update (\<lambda>_. m)) w in
        if r = ZC_RET_ERROR then Some (ZC_RET_ERROR, w)
        else do {
          let h = h\<lparr>u16TotalMsg := ZC_HTONS u16Len\<rparr>;
          m \<leftarrow> wr m 0 (SecHead_bytes h);
          let u32SendLen = (ucast u16Len + 4 :: u32);
          d \<leftarrow> rd m 0 (unat (ucast u32SendLen :: u16));
          let w = emit (E_tcp_send (u32Socket (struCloudConnection (con w))) d) w;
          Some (ZC_RET_OK, w\<lparr>g_struSendBuffer := \<lparr>u32Len = 0, u8Status = MSG_BUFFER_IDLE, u8MsgBuffer = m\<rparr>\<rparr>)
        })"
    have "SEC_Encrypt S h (u8MsgBuffer (g_struSendBuffer w)) 4 plain poff (ZC_HTONS (u16TotalMsg h) + pl) w \<bind> K =
        Some (r, w')"
      using assms(1) False unfolding PCT_SendMsgToCloud_def pc Let_def K_def by simp
    then obtain r1 h1 n m w1 where
      e: "SEC_Encrypt S h (u8MsgBuffer (g_struSendBuffer w)) 4 plain poff (ZC_HTONS (u16TotalMsg h) + pl) w = Some (r1, h1, n, m, w1)"
      and k: "K (r1, h1, n, m, w1) = Some (r, w')"
      unfolding bind_eq_Some_conv by (metis prod_cases5)
    from SEC_Encrypt_Some [OF e assms(2,3)]
    have l: "length m = send_len w" "rsa_calls w w1" "r1 = 0 \<Longrightarrow> unat n < 65532" by auto
    note o = rsa_calls_outbound [OF l(2,1)]
    show ?thesis
    proof (cases "r1 = 1")
      case True
      with k o show ?thesis by (simp add: K_def Let_def)
    next
      case False
      have "r1 = 0 \<or> r1 = 1" by (rule SEC_Encrypt_cases [OF e]) (auto simp: SEC_EncryptTextByRsa_def SEC_AesEncrypt_def bind_eq_Some_conv split: if_splits)
      with False have r1: "r1 = 0" by simp
      let ?w2 = "g_struSendBuffer_update (u8MsgBuffer_update (\<lambda>_. m)) w1"
      from k r1 obtain m' d where 1: "wr m 0 (SecHead_bytes (h1\<lparr>u16TotalMsg := ZC_HTONS n\<rparr>)) = Some m'"
        and 2: "rd m' 0 (unat (ucast (ucast n + 4 :: u32) :: u16)) = Some d"
        and w': "w' = (emit (E_tcp_send (cloud_socket ?w2) d) ?w2)
          \<lparr>g_struSendBuffer := \<lparr>u32Len = 0, u8Status = MSG_BUFFER_IDLE, u8MsgBuffer = m'\<rparr>\<rparr>"
        by (simp add: K_def Let_def bind_eq_Some_conv) blast
      from False \<open>\<not> (unat _ > _ \<or> _)\<close> have "u8Status (g_struSendBuffer w) = MSG_BUFFER_IDLE" by simp
      from emit_frame_outbound [OF 1 l(3) [OF r1] 2 o _ this] show ?thesis unfolding w' by simp
    qed
  qed
qed

subsection \<open>Partial correctness\<close>

text \<open>\<open>ens m P\<close>: if the computation is defined, its result satisfies \<open>P\<close>.\<close>

definition ens :: "'a option \<Rightarrow> ('a \<Rightarrow> bool) \<Rightarrow> bool" where
  "ens m P \<longleftrightarrow> (\<forall>x. m = Some x \<longrightarrow> P x)"

named_theorems ens_rules \<open>partial correctness, structural rules\<close>

lemma ensI: "(\<And>x. m = Some x \<Longrightarrow> P x) \<Longrightarrow> ens m P"
  by (simp add: ens_def)

lemma ensD: "ens m P \<Longrightarrow> m = Some x \<Longrightarrow> P x"
  by (simp add: ens_def)

lemma ens_Some [ens_rules]: "P x \<Longrightarrow> ens (Some x) P"
  by (simp add: ens_def)

lemma ens_None [simp]: "ens None P"
  by (simp add: ens_def)

lemma ens_True [simp]: "ens m (\<lambda>_. True)"
  by (simp add: ens_def)

lemma ens_bind: "ens m Q \<Longrightarrow> (\<And>x. Q x \<Longrightarrow> ens (f x) P) \<Longrightarrow> ens (m \<bind> f) P"
  by (auto simp: ens_def bind_eq_Some_conv)

lemma ens_bind_any: "(\<And>x. m = Some x \<Longrightarrow> ens (f x) P) \<Longrightarrow> ens (m \<bind> f) P"
  by (auto simp: ens_def bind_eq_Some_conv)

lemma ens_if [ens_rules]: "(b \<Longrightarrow> ens x P) \<Longrightarrow> (\<not> b \<Longrightarrow> ens y P) \<Longrightarrow> ens (if b then x else y) P"
  by simp

lemma ens_mono: "ens m Q \<Longrightarrow> (\<And>x. Q x \<Longrightarrow> P x) \<Longrightarrow> ens m P"
  by (simp add: ens_def)

lemma ens_conj: "ens m P \<Longrightarrow> ens m Q \<Longrightarrow> ens m (\<lambda>x. P x \<and> Q x)"
  by (simp add: ens_def)

subsection \<open>The messages of the controller\<close>

text \<open>What sending needs: keys of the right length and the send buffer of its size.\<close>

definition can_send :: "world \<Rightarrow> bool" where
  "can_send w \<longleftrightarrow> session_keys w \<and> send_len w = MSG_BUFFER_MAXLEN"

lemma can_send_outbound: "can_send w \<Longrightarrow> outbound w w' \<Longrightarrow> can_send w'"
  by (simp add: can_send_def session_keys_def outboundD)

lemma ens_SendMsgToCloud: "can_send w \<Longrightarrow> ens (PCT_SendMsgToCloud S h m off w) (\<lambda>(r, w'). outbound w w')"
  using PCT_SendMsgToCloud_outbound [of S h m off w] by (auto simp: ens_def can_send_def)

lemma EVENT_BuildMsg_length: "EVENT_BuildMsg c i m off p n = Some (m', k) \<Longrightarrow> length m' = length m"
  by (auto simp: EVENT_BuildMsg_def bind_eq_Some_conv Let_def dest!: length_wr length_memcpy)

lemma ens_NotifyMsg: "ens (PCT_SendNotifyMsg c w) (outbound w)"
  unfolding PCT_SendNotifyMsg_def
proof (rule ens_bind_any, clarify)
  fix m n
  assume "EVENT_BuildMsg c 0 (g_u8MsgBuildBuffer w) 0 [] 0 = Some (m, n)"
  then have l: "length m = length (g_u8MsgBuildBuffer w)" by (rule EVENT_BuildMsg_length)
  show "ens (HF_SendDataToMoudle m 0 n (w\<lparr>g_u8MsgBuildBuffer := m\<rparr>)) (outbound w)"
    by (rule ensI) (rule outbound_trans [OF outbound_build [OF l] outbound_device [OF HF_SendDataToMoudle_device]])
qed

lemma ens_SendDataToMoudle: "ens (HF_SendDataToMoudle m off n w) (outbound w)"
  by (rule ensI) (rule outbound_device [OF HF_SendDataToMoudle_device])

lemma ens_EmptyMsg: "can_send w \<Longrightarrow> ens (PCT_SendEmptyMsg S i t w) (outbound w)"
  unfolding PCT_SendEmptyMsg_def
  by (rule ens_bind_any, clarify, rule ens_bind [OF ens_SendMsgToCloud], assumption, auto intro: ens_rules)

lemma ens_build_and_send:
  assumes "can_send w"
  shows "ens (build_and_send S c i p n w) (outbound w)"
  unfolding build_and_send_def Let_def
proof (rule ens_bind_any, clarify)
  fix m k
  assume "EVENT_BuildMsg c i (g_u8MsgBuildBuffer w) 0 p n = Some (m, k)"
  then have o: "outbound w (w\<lparr>g_u8MsgBuildBuffer := m\<rparr>)" by (intro outbound_build EVENT_BuildMsg_length)
  let ?w = "w\<lparr>g_u8MsgBuildBuffer := m\<rparr>"
  show "ens (PCT_SendMsgToCloud S (sec_head S 2 k ?w) m 0 ?w \<bind> (\<lambda>(r, w). Some w)) (outbound w)"
    by (rule ens_bind [OF ens_SendMsgToCloud [OF can_send_outbound [OF assms o]]])
      (auto intro: ens_rules outbound_trans [OF o])
qed

lemmas ens_ErrorMsg = ens_build_and_send [of w S ZC_CODE_ERR for w S, folded PCT_SendErrorMsg_def]

lemma ens_AckToCloud: "can_send w \<Longrightarrow> ens (PCT_SendAckToCloud S i w) (outbound w)"
  unfolding PCT_SendAckToCloud_def by (rule ens_build_and_send)

end
