(* ===== verification/Inv.thy ===== *)
theory Inv
  imports Outbound
begin

text \<open>
  The invariant of the firmware. \<open>ginv\<close> says that the tables, buffers, queues and keys are well
  formed and that every frame sent so far is well formed; \<open>auth\<close> ties the state of the protocol
  controller to the session key; \<open>ota_ok\<close> bounds the firmware update. \<open>calm\<close> relates two states between
  which the connection has not changed. The lemmas follow the operations of \<open>Pct\<close> and \<open>PctRecv\<close>.
\<close>

subsection \<open>The invariant\<close>

definition idx_ok :: "u8 \<Rightarrow> bool" where
  "idx_ok i \<longleftrightarrow> i = PCT_TIMER_INVAILD \<or> unat i < 5"

definition timers_ok :: "world \<Rightarrow> bool" where
  "timers_ok w \<longleftrightarrow> timer_inv w \<and> idx_ok (u8ReconnectTimer (con w)) \<and> unat (u8AccessTimer (con w)) < 5 \<and>
     idx_ok (u8SendUnbindTimer (con w)) \<and> idx_ok (u8HeartTimer (con w)) \<and> idx_ok (u8SendMoudleTimer (con w)) \<and>
     idx_ok (u8RegisterTimer (con w))"

definition bufs_ok :: "world \<Rightarrow> bool" where
  "bufs_ok w \<longleftrightarrow> rbuf_inv (g_struRecvBuffer w) \<and> length (u8MsgBuffer (g_struRetxBuffer w)) = MSG_BUFFER_MAXLEN \<and>
     send_len w = MSG_BUFFER_MAXLEN \<and> u8Status (g_struSendBuffer w) = MSG_BUFFER_IDLE \<and>
     length (g_u8MsgBuildBuffer w) = MSG_BULID_BUFFER_MAXLEN"

definition queues_ok :: "world \<Rightarrow> bool" where
  "queues_ok w \<longleftrightarrow> que_inv (g_struRecvQueue w) \<and> que_inv (g_struSendQueue w) \<and> que_cont (g_struSendQueue w) = [] \<and>
     (que_cont (g_struRecvQueue w) = [] \<or>
      que_cont (g_struRecvQueue w) = [RecvBuf] \<and> u8Status (g_struRecvBuffer w) = MSG_BUFFER_FULL)"

definition store_ok :: "world \<Rightarrow> bool" where
  "store_ok w \<longleftrightarrow> session_keys w \<and> length (RandMsg (con w)) = 32 \<and> wf_db (g_struZcConfigDb w) \<and>
     wf_reg (g_struRegisterInfo w)"

text \<open>A pending relay to the device: the controller's pointer is set before the timer runs.\<close>

definition moudle_timer :: "world \<Rightarrow> nat \<Rightarrow> bool" where
  "moudle_timer w i \<longleftrightarrow> i < 5 \<and> tm_Status (g_struTimer w ! i) \<noteq> ZC_TIMER_STATUS_IDLE \<and> tm_Type (g_struTimer w ! i) = PCT_TIMER_SENDMOUDLE"

definition relay_ok :: "world \<Rightarrow> bool" where
  "relay_ok w \<longleftrightarrow> unat (u32Len (g_struRetxBuffer w)) \<le> MSG_BUFFER_MAXLEN \<and>
     (pu8SendMoudleBuffer (con w) = Some RetxBuf \<or> pu8SendMoudleBuffer (con w) = None \<and>
        u8SendMoudleTimer (con w) = PCT_TIMER_INVAILD \<and> (\<forall>i. \<not> moudle_timer w i))"

definition sent_ok :: "world \<Rightarrow> bool" where
  "sent_ok w \<longleftrightarrow> (\<forall>fd d. E_tcp_send fd d \<in> set (io w) \<longrightarrow> frame_ok d \<and> length d \<le> MSG_BUFFER_MAXLEN)"

definition ginv :: "world \<Rightarrow> bool" where
  "ginv w \<longleftrightarrow> timers_ok w \<and> bufs_ok w \<and> queues_ok w \<and> store_ok w \<and> relay_ok w \<and> sent_ok w"

definition auth :: "world \<Rightarrow> bool" where
  "auth w \<longleftrightarrow> main_state w \<in> {PCT_STATE_WAIT_MSG4, PCT_STATE_CONNECT_CLOUD, PCT_STATE_WAIT_UNBIND} \<longrightarrow>
     key_recv w = PCT_KEY_RECVED"

definition ota_ok :: "world \<Rightarrow> bool" where
  "ota_ok w \<longleftrightarrow> u32RecvOffset (struOtaInfo (con w)) \<le> u32TotalLen (struOtaInfo (con w))"

subsection \<open>Steps that leave the connection alone\<close>

definition same_conn :: "PTC_ProtocolCon \<Rightarrow> PTC_ProtocolCon \<Rightarrow> bool" where
  "same_conn c c' \<longleftrightarrow> u8MainState c' = u8MainState c \<and> u8keyRecv c' = u8keyRecv c \<and>
     struOtaInfo c' = struOtaInfo c \<and> RandMsg c' = RandMsg c \<and> u8SessionKey c' = u8SessionKey c \<and>
     IvSend c' = IvSend c \<and> IvRecv c' = IvRecv c \<and> struCloudConnection c' = struCloudConnection c"

definition calm :: "world \<Rightarrow> world \<Rightarrow> bool" where
  "calm w w' \<longleftrightarrow> ginv w \<longrightarrow> ginv w' \<and> same_conn (con w) (con w') \<and>
     g_struRecvQueue w' = g_struRecvQueue w \<and> g_struRecvBuffer w' = g_struRecvBuffer w \<and>
     g_struZcConfigDb w' = g_struZcConfigDb w"

lemma calm_refl [intro]: "calm w w"
  by (simp add: calm_def same_conn_def)

lemma calm_trans [trans]: "calm w w1 \<Longrightarrow> calm w1 w2 \<Longrightarrow> calm w w2"
  by (auto simp: calm_def same_conn_def)

lemma calm_ginv: "calm w w' \<Longrightarrow> ginv w \<Longrightarrow> ginv w'"
  by (simp add: calm_def)

text \<open>\<open>safe\<close> is the invariant of every step; \<open>idle\<close> adds that no received message waits.\<close>

definition safe :: "world \<Rightarrow> bool" where
  "safe w \<longleftrightarrow> ginv w \<and> auth w \<and> ota_ok w"

definition idle :: "world \<Rightarrow> bool" where
  "idle w \<longleftrightarrow> safe w \<and> que_cont (g_struRecvQueue w) = []"

lemma calm_safe: "calm w w' \<Longrightarrow> safe w \<Longrightarrow> safe w'"
  by (simp add: calm_def safe_def auth_def ota_ok_def same_conn_def)

lemma calm_idle: "calm w w' \<Longrightarrow> idle w \<Longrightarrow> idle w'"
  using calm_safe [of w w'] by (simp add: idle_def safe_def calm_def)

lemma calm_con:
  "calm w w' \<Longrightarrow> ginv w \<Longrightarrow> main_state w' = main_state w \<and> key_recv w' = key_recv w \<and>
     struOtaInfo (con w') = struOtaInfo (con w) \<and> u8SessionKey (con w') = u8SessionKey (con w)"
  by (simp add: calm_def same_conn_def)

lemma idle_safe: "idle w \<Longrightarrow> safe w"
  by (simp add: idle_def)

lemma safe_ginv: "safe w \<Longrightarrow> ginv w"
  by (simp add: safe_def)

lemma ginv_can_send: "ginv w \<Longrightarrow> can_send w"
  by (simp add: ginv_def can_send_def store_ok_def bufs_ok_def)

lemma outbound_sent:
  assumes "outbound w w'" "sent_ok w" "send_len w = MSG_BUFFER_MAXLEN"
  shows "sent_ok w'"
proof -
  from outboundD(18) [OF assms(1)] obtain es where
    "io w' = es @ io w" "\<forall>e \<in> set es. out_event (cloud_socket w) (send_len w) e" by blast
  with assms(2,3) show ?thesis by (auto simp: sent_ok_def out_event_def)
qed

lemma calm_outbound: "outbound w w' \<Longrightarrow> calm w w'"
proof -
  assume o: "outbound w w'"
  note d = outboundD [OF o]
  show ?thesis
    using outbound_sent [OF o] d
    by (auto simp: calm_def same_conn_def ginv_def timers_ok_def bufs_ok_def queues_ok_def store_ok_def
        relay_ok_def session_keys_def moudle_timer_def timer_inv_def)
qed

lemma ens_calm_outbound: "ens m (outbound w) \<Longrightarrow> ens m (calm w)"
  by (erule ens_mono) (rule calm_outbound)

lemma ens_trans: "calm w w1 \<Longrightarrow> ens m (calm w1) \<Longrightarrow> ens m (calm w)"
  by (erule ens_mono) (rule calm_trans)

lemma ens_bind_calm:
  assumes "ens m (calm w)" "\<And>x. calm w x \<Longrightarrow> ens (f x) (calm x)"
  shows "ens (m \<bind> f) (calm w)"
  by (rule ens_bind [OF assms(1)]) (rule ens_trans [OF _ assms(2)])

subsection \<open>Timers\<close>

lemma idx_ok_of_nat: "i < 5 \<Longrightarrow> idx_ok (of_nat i) \<and> unat (of_nat i :: u8) < 5"
  by (simp add: idx_ok_def unat_of_nat take_bit_nat_eq_self_iff)

lemma upd_con_const: "upd_con f w = w\<lparr>g_struProtocolController := f (con w)\<rparr>"
  by (cases w) simp

lemma HF_SetTimer_world:
  assumes "HF_SetTimer S t n v w = (r, w')"
  shows "w' = w \<or> (\<exists>i h. find_idle (g_struTimer w) 0 = Some i \<and> w' = w\<lparr>g_struTimer := (g_struTimer w)
      [i := \<lparr>tm_Status = ZC_TIMER_STATUS_USED, tm_Type = t, tm_Timer = Some i\<rparr>],
    g_struHfTimer := (g_struHfTimer w)[i := \<lparr>u32FirstFlag = 1, struHandle = h\<rparr>],
    io := [E_timer_start h, E_timer_create (of_nat i) n] @ io w,
    g_struProtocolController := put_timer v (of_nat i) (con w)\<rparr>)"
  using assms
  by (auto simp: HF_SetTimer_def TIMER_FindIdleTimer_def TIMER_AllocateTimer_def emit_def Let_def
      upd_con_const [of "put_timer v _"] split: option.splits)

lemma put_timer_same: "same_conn c (put_timer v i c)"
  by (cases v) (simp_all add: same_conn_def)

lemma put_timer_keys [simp]:
  "u8SessionKey (put_timer v i c) = u8SessionKey c" "IvSend (put_timer v i c) = IvSend c"
  "IvRecv (put_timer v i c) = IvRecv c" "RandMsg (put_timer v i c) = RandMsg c"
  "pu8SendMoudleBuffer (put_timer v i c) = pu8SendMoudleBuffer c"
  by (cases v; simp)+

text \<open>Arming a timer. The relay timer needs the pointer of the pending relay.\<close>

definition may_arm :: "u8 \<Rightarrow> timer_var \<Rightarrow> world \<Rightarrow> bool" where
  "may_arm t v w \<longleftrightarrow> pu8SendMoudleBuffer (con w) = Some RetxBuf \<or> t \<noteq> PCT_TIMER_SENDMOUDLE \<and> v \<noteq> V_SendMoudle"

lemma calm_set_timer:
  assumes "may_arm t v w"
  shows "calm w (set_timer S t n v w)"
proof -
  obtain r w' where s: "HF_SetTimer S t n v w = (r, w')" by fastforce
  from HF_SetTimer_world [OF s] show ?thesis
  proof (elim disjE exE conjE)
    fix i h
    assume f: "find_idle (g_struTimer w) 0 = Some i"
      and w': "w' = w\<lparr>g_struTimer := (g_struTimer w)[i := \<lparr>tm_Status = 1, tm_Type = t, tm_Timer = Some i\<rparr>],
        g_struHfTimer := (g_struHfTimer w)[i := \<lparr>u32FirstFlag = 1, struHandle = h\<rparr>],
        io := [E_timer_start h, E_timer_create (of_nat i) n] @ io w,
        g_struProtocolController := put_timer v (of_nat i) (con w)\<rparr>"
    have i: "i < length (g_struTimer w)" using find_idle_Some [OF f] by simp
    have "ginv w'" if g: "ginv w"
    proof -
      have "i < 5" using i g by (simp add: ginv_def timers_ok_def timer_inv_def)
      then have t: "timers_ok w'" using g idx_ok_of_nat [of i]
        by (cases v) (simp_all add: w' ginv_def timers_ok_def timer_inv_def)
      have "moudle_timer w' j \<Longrightarrow> moudle_timer w j \<or> t = PCT_TIMER_SENDMOUDLE" for j
        using i by (cases "j = i") (simp_all add: w' moudle_timer_def)
      then have "relay_ok w'" using g assms
        by (cases v) (auto simp: w' ginv_def relay_ok_def may_arm_def)
      with t show ?thesis using g
        by (simp add: w' ginv_def bufs_ok_def queues_ok_def store_ok_def sent_ok_def session_keys_def)
    qed
    then show ?thesis using put_timer_same [of "con w"] s by (simp add: calm_def set_timer_def w')
  qed (simp add: s set_timer_def calm_refl)
qed

lemma calm_may_arm: "may_arm t v w \<Longrightarrow> pu8SendMoudleBuffer (con w') = pu8SendMoudleBuffer (con w) \<Longrightarrow> may_arm t v w'"
  by (simp add: may_arm_def)

lemma may_arm_other [simp]: "t \<noteq> PCT_TIMER_SENDMOUDLE \<Longrightarrow> v \<noteq> V_SendMoudle \<Longrightarrow> may_arm t v w"
  by (simp add: may_arm_def)

lemma TIMER_StopTimer_world:
  assumes "TIMER_StopTimer i w = Some w'"
  shows "\<exists>h. unat i < length (g_struTimer w) \<and> w' = w\<lparr>g_struTimer := (g_struTimer w)
      [unat i := (g_struTimer w ! unat i)\<lparr>tm_Status := ZC_TIMER_STATUS_IDLE\<rparr>],
    io := [E_timer_delete h, E_timer_stop h] @ io w\<rparr>"
  using assms
  by (auto simp: TIMER_StopTimer_def HF_StopTimer_def nth_opt_def bind_eq_Some_conv emit_def split: if_splits)

lemma ens_StopTimer: "ens (TIMER_StopTimer i w) (calm w)"
proof (rule ensI)
  fix w'
  assume "TIMER_StopTimer i w = Some w'"
  from TIMER_StopTimer_world [OF this] obtain h where i: "unat i < length (g_struTimer w)"
    and w': "w' = w\<lparr>g_struTimer := (g_struTimer w)[unat i := (g_struTimer w ! unat i)\<lparr>tm_Status := 0\<rparr>],
      io := [E_timer_delete h, E_timer_stop h] @ io w\<rparr>" by blast
  have "moudle_timer w' j \<Longrightarrow> moudle_timer w j" for j
    using i by (cases "j = unat i") (simp_all add: w' moudle_timer_def)
  then show "calm w w'"
    by (auto simp: w' calm_def same_conn_def ginv_def timers_ok_def timer_inv_def bufs_ok_def queues_ok_def
        store_ok_def relay_ok_def sent_ok_def session_keys_def)
qed

lemma ens_stop_heart: "ens (stop_heart w) (calm w)"
  unfolding stop_heart_def by (intro ens_rules ens_StopTimer calm_refl)

lemma TIMER_StopTimer_con: "TIMER_StopTimer i w = Some w' \<Longrightarrow> con w' = con w"
  using TIMER_StopTimer_Some by blast

end
