(* ===== verification/Safe.thy ===== *)
theory Safe
  imports Inv
begin

text \<open>Every operation of the protocol controller keeps the invariant.\<close>

subsection \<open>Assignments\<close>

lemma safe_emit [simp]:
  "\<forall>fd d. e \<noteq> E_tcp_send fd d \<Longrightarrow> safe (emit e w) = safe w"
  "\<forall>fd d. e \<noteq> E_tcp_send fd d \<Longrightarrow> idle (emit e w) = idle w"
  by (auto simp: idle_def safe_def ginv_def auth_def ota_ok_def timers_ok_def timer_inv_def bufs_ok_def queues_ok_def
      store_ok_def relay_ok_def sent_ok_def session_keys_def moudle_timer_def)

lemmas inv_defs = idle_def safe_def ginv_def auth_def ota_ok_def timers_ok_def timer_inv_def bufs_ok_def
  queues_ok_def store_ok_def relay_ok_def sent_ok_def session_keys_def moudle_timer_def

lemma safe_state:
  "(s \<in> {5, 6, 7} \<Longrightarrow> key_recv w = PCT_KEY_RECVED) \<Longrightarrow> safe w \<Longrightarrow> safe (set_state s w)"
  "(s \<in> {5, 6, 7} \<Longrightarrow> key_recv w = PCT_KEY_RECVED) \<Longrightarrow> idle w \<Longrightarrow> idle (set_state s w)"
  by (auto simp: inv_defs)

lemma safe_con:
  assumes "safe w"
    and "idx_ok (u8ReconnectTimer c)" "unat (u8AccessTimer c) < 5" "idx_ok (u8SendUnbindTimer c)"
      "idx_ok (u8HeartTimer c)" "idx_ok (u8SendMoudleTimer c)" "idx_ok (u8RegisterTimer c)"
    and "length (u8SessionKey c) = 16" "length (IvSend c) = 16" "length (IvRecv c) = 16" "length (RandMsg c) = 32"
    and "pu8SendMoudleBuffer c = Some RetxBuf \<or> pu8SendMoudleBuffer c = pu8SendMoudleBuffer (con w) \<and>
      (u8SendMoudleTimer c = u8SendMoudleTimer (con w) \<or> u8SendMoudleTimer c = PCT_TIMER_INVAILD)"
    and "u8MainState c \<in> {5, 6, 7} \<Longrightarrow> u8keyRecv c = PCT_KEY_RECVED"
    and "u32RecvOffset (struOtaInfo c) \<le> u32TotalLen (struOtaInfo c)"
  shows "safe (w\<lparr>g_struProtocolController := c\<rparr>)"
  using assms by (auto simp: inv_defs)

lemma MSG_Init_simps [simp]:
  "con (MSG_Init w) = con w" "g_struZcConfigDb (MSG_Init w) = g_struZcConfigDb w"
  "g_struRegisterInfo (MSG_Init w) = g_struRegisterInfo w" "g_struTimer (MSG_Init w) = g_struTimer w"
  "g_struHfTimer (MSG_Init w) = g_struHfTimer w" "g_struRetxBuffer (MSG_Init w) = g_struRetxBuffer w"
  "g_u8MsgBuildBuffer (MSG_Init w) = g_u8MsgBuildBuffer w" "io (MSG_Init w) = io w"
  "g_struRecvQueue (MSG_Init w) = MSG_InitQueue (g_struRecvQueue w)"
  "g_struSendQueue (MSG_Init w) = MSG_InitQueue (g_struSendQueue w)"
  "g_struRecvBuffer (MSG_Init w) = buf_idle (g_struRecvBuffer w)"
  "g_struSendBuffer (MSG_Init w) = buf_idle (g_struSendBuffer w)"
  by (simp_all add: MSG_Init_def)

lemma buf_idle_simps [simp]:
  "u8MsgBuffer (buf_idle b) = u8MsgBuffer b" "u32Len (buf_idle b) = 0" "u8Status (buf_idle b) = MSG_BUFFER_IDLE"
  by (simp_all add: buf_idle_def)

lemma rbuf_inv_idle: "rbuf_inv b \<Longrightarrow> rbuf_inv (buf_idle b)"
  by (simp add: rbuf_inv_def)

lemma safe_MSG_Init:
  assumes "safe w"
  shows "idle (MSG_Init w)"
proof -
  have i: "que_inv (g_struRecvQueue w)" "que_inv (g_struSendQueue w)" "rbuf_inv (g_struRecvBuffer w)"
    using assms by (simp_all add: inv_defs)
  have q: "que_inv q \<Longrightarrow> que_inv (MSG_InitQueue q) \<and> que_cont (MSG_InitQueue q) = []" for q :: "buf_id MSG_Queue"
    using MSG_InitQueue_inv [of q] by (simp add: que_inv_def)
  have "queues_ok (MSG_Init w)" using q [OF i(1)] q [OF i(2)] by (simp add: queues_ok_def)
  moreover have "bufs_ok (MSG_Init w)" using assms rbuf_inv_idle [OF i(3)] by (simp add: inv_defs)
  moreover have "timers_ok (MSG_Init w) \<and> store_ok (MSG_Init w) \<and> relay_ok (MSG_Init w) \<and> sent_ok (MSG_Init w) \<and>
      auth (MSG_Init w) \<and> ota_ok (MSG_Init w)"
    using assms by (simp add: inv_defs)
  ultimately show ?thesis using q [OF i(1)] by (simp add: idle_def safe_def ginv_def)
qed

text \<open>Releasing a buffer, and taking a message from the queue.\<close>

lemma safe_buf_idle: "idle w \<Longrightarrow> p = RecvBuf \<or> p = RetxBuf \<Longrightarrow> idle (upd_buf p buf_idle w)"
proof -
  assume i: "idle w" and p: "p = RecvBuf \<or> p = RetxBuf"
  have r: "rbuf_inv (buf_idle (g_struRecvBuffer w))" using i by (simp add: inv_defs rbuf_inv_def)
  have c: "upd_buf RecvBuf buf_idle w = w\<lparr>g_struRecvBuffer := buf_idle (g_struRecvBuffer w)\<rparr>"
    "upd_buf RetxBuf buf_idle w = w\<lparr>g_struRetxBuffer := buf_idle (g_struRetxBuffer w)\<rparr>"
    by (cases w; simp add: upd_buf_def)+
  from p i r show ?thesis by (elim disjE; simp only: c) (simp add: inv_defs; auto)+
qed

lemma safe_Retx_idle: "safe w \<Longrightarrow> safe (upd_buf RetxBuf buf_idle w)"
proof -
  assume i: "safe w"
  have c: "upd_buf RetxBuf buf_idle w = w\<lparr>g_struRetxBuffer := buf_idle (g_struRetxBuffer w)\<rparr>"
    by (cases w) (simp add: upd_buf_def)
  from i show ?thesis by (simp only: c) (simp add: inv_defs; auto)
qed

lemma safe_pop:
  assumes "safe w" "MSG_PopMsg (g_struRecvQueue w) = Some (p, q)"
  shows "case p of None \<Rightarrow> safe (w\<lparr>g_struRecvQueue := q\<rparr>)
    | Some p \<Rightarrow> p = RecvBuf \<and> idle (w\<lparr>g_struRecvQueue := q\<rparr>)"
proof -
  have i: "que_inv (g_struRecvQueue w)" using assms(1) by (simp add: inv_defs)
  have "que_cont (g_struRecvQueue w) = [] \<or> que_cont (g_struRecvQueue w) = [RecvBuf]"
    using assms(1) by (auto simp: inv_defs)
  with MSG_PopMsg_inv [OF i] assms(2)
  have "p = None \<and> q = g_struRecvQueue w \<or> p = Some RecvBuf \<and> que_inv q \<and> que_cont q = []" by auto
  then show ?thesis
  proof
    assume "p = Some RecvBuf \<and> que_inv q \<and> que_cont q = []"
    with assms(1) show ?thesis by (simp add: inv_defs)
  qed (use assms(1) in simp)
qed

lemma ens_handle_popped:
  assumes "safe w"
    and f: "\<And>m h w'. idle w' \<Longrightarrow> con w' = con w \<Longrightarrow> ens (f RecvBuf m h w') idle"
    and g: "\<And>w'. idle w' \<Longrightarrow> ens (g w') safe"
  shows "ens (handle_popped f g w) safe"
  unfolding handle_popped_def Let_def
proof (rule ens_bind_any, clarify)
  fix p q
  assume pop: "MSG_PopMsg (g_struRecvQueue w) = Some (p, q)"
  note sp = safe_pop [OF assms(1) pop]
  show "ens (case p of None \<Rightarrow> Some (w\<lparr>g_struRecvQueue := q\<rparr>)
      | Some p \<Rightarrow> rd_MsgHead (u8MsgBuffer (get_buf p (w\<lparr>g_struRecvQueue := q\<rparr>))) 0 \<bind>
          (\<lambda>h. f p (u8MsgBuffer (get_buf p (w\<lparr>g_struRecvQueue := q\<rparr>))) h (w\<lparr>g_struRecvQueue := q\<rparr>) \<bind>
            (\<lambda>w. g (upd_buf p buf_idle w)))) safe"
  proof (cases p)
    case None
    with sp show ?thesis by (simp add: ens_Some)
  next
    case (Some b)
    with sp have b: "b = RecvBuf" "idle (w\<lparr>g_struRecvQueue := q\<rparr>)" by simp_all
    show ?thesis unfolding Some option.case b(1)
      by (rule ens_bind_any, rule ens_bind [OF f [OF b(2)]], simp, rule g, rule safe_buf_idle) simp_all
  qed
qed

subsection \<open>Sending\<close>

lemma calm_emit: "\<forall>fd d. e \<noteq> E_tcp_send fd d \<Longrightarrow> calm w (emit e w)"
  by (auto simp: calm_def same_conn_def inv_defs)

lemma idle_can_send: "safe w \<Longrightarrow> can_send w" "idle w \<Longrightarrow> can_send w"
  by (simp_all add: inv_defs can_send_def)

text \<open>A calm operation followed by another one.\<close>

lemma ens_safe: "ens m (calm w) \<Longrightarrow> safe w \<Longrightarrow> ens m safe"
  by (erule ens_mono) (rule calm_safe)

lemma ens_idle: "ens m (calm w) \<Longrightarrow> idle w \<Longrightarrow> ens m idle"
  by (erule ens_mono) (rule calm_idle)

lemma ens_calm_send: "ginv w \<Longrightarrow> ens (PCT_SendMsgToCloud S h m off w) (\<lambda>(r, w'). calm w w')"
  using ens_mono [OF ens_SendMsgToCloud [OF ginv_can_send]] calm_outbound by fastforce

lemma ens_calm_notify: "ens (PCT_SendNotifyMsg c w) (calm w)"
  by (rule ens_calm_outbound [OF ens_NotifyMsg])

lemma ens_calm_empty: "ginv w \<Longrightarrow> ens (PCT_SendEmptyMsg S i t w) (calm w)"
  by (rule ens_calm_outbound [OF ens_EmptyMsg [OF ginv_can_send]])

lemma ens_calm_ack: "ginv w \<Longrightarrow> ens (PCT_SendAckToCloud S i w) (calm w)"
  by (rule ens_calm_outbound [OF ens_AckToCloud [OF ginv_can_send]])

lemma ens_calm_error: "ginv w \<Longrightarrow> ens (PCT_SendErrorMsg S i p n w) (calm w)"
  unfolding PCT_SendErrorMsg_def by (rule ens_calm_outbound [OF ens_build_and_send [OF ginv_can_send]])

lemma ens_calm_device: "ens (HF_SendDataToMoudle m off n w) (calm w)"
  by (rule ens_calm_outbound [OF ens_SendDataToMoudle])

lemma ens_calm_heart:
  assumes "ginv w"
  shows "ens (PCT_SendHeartMsg S w) (calm w)"
  unfolding PCT_SendHeartMsg_def
  by (rule ens_bind_any, clarify, rule ens_bind [OF ens_calm_send [OF assms]], clarify, rule ens_Some,
      erule calm_trans, rule calm_set_timer) simp

lemma ens_calm_unbind:
  assumes "ginv w"
  shows "ens (PCT_SendUnbindMsg S w) (calm w)"
  unfolding PCT_SendUnbindMsg_def sdk_rand_call_def Let_def case_prod_conv
  by (rule ens_bind_any, clarify, rule ens_bind [OF ens_calm_send [OF assms]], clarify, rule ens_Some,
      erule calm_trans, rule calm_trans [OF calm_emit calm_set_timer]) simp_all

lemma ens_DisConnect:
  assumes "safe w"
  shows "ens (PCT_DisConnectCloud w) (\<lambda>w'. idle w' \<and> main_state w' = PCT_STATE_DISCONNECT_CLOUD \<and>
    key_recv w' = PCT_KEY_UNRECVED)"
proof -
  let ?w = "MSG_Init (set_keyRecv 0 (set_state 8 w))"
  have "safe (set_keyRecv 0 (set_state 8 w))" using assms by (simp add: inv_defs)
  then have i: "idle ?w" by (rule safe_MSG_Init)
  show ?thesis unfolding PCT_DisConnectCloud_def
    by (rule ens_mono [OF ens_calm_notify]) (use i calm_idle calm_con idle_safe safe_ginv in \<open>fastforce\<close>)
qed

lemma ens_DisConnect_idle: "idle w \<Longrightarrow> ens (PCT_DisConnectCloud w) idle"
  by (rule ens_mono [OF ens_DisConnect]) (simp_all add: idle_def)

lemma ens_stop_idle: "idle w \<Longrightarrow> ens (TIMER_StopTimer i w) idle"
  by (rule ens_idle [OF ens_StopTimer])

subsection \<open>Connecting\<close>

lemma rand_loop_length: "rand_loop S n w = (bs, w') \<Longrightarrow> length bs = 4 * n \<and> w' = w\<lparr>io := replicate n E_rand @ io w\<rparr>"
proof (induction n arbitrary: w bs w')
  case (Suc n)
  from Suc.prems obtain cs where cs: "rand_loop S n (emit E_rand w) = (cs, w')"
    "bs = rand_letters (sdk_rand S (io w)) @ cs"
    by (auto simp: Let_def split: prod.splits)
  from Suc.IH [OF cs(1)] cs(2) show ?case
    by (simp add: rand_letters_def emit_def replicate_app_Cons_same)
qed simp

lemma safe_upds:
  assumes "safe w"
  shows "safe (upd_con (struCloudConnection_update f) w)"
    "safe (upd_cfg (struSwitchInfo_update (u32ServerAddrConfig_update g)) w)"
    "length r = 32 \<Longrightarrow> safe (upd_con (RandMsg_update (\<lambda>_. r)) w)"
    "safe (upd_con (u16SendBcNum_update h) w)"
    "safe (w\<lparr>g_u32StopJdTask := st\<rparr>)" "safe (w\<lparr>g_struUartBuffer := ub\<rparr>)" "safe (bc_update k w)" "safe (device_update l w)"
    "safe (w\<lparr>g_struClientInfo := ci\<rparr>)"
  using assms by (auto simp: inv_defs wf_db_def)

lemma safe_Rand: "safe w \<Longrightarrow> ZC_Rand S w = (bs, w') \<Longrightarrow> safe w' \<and> length bs = 32"
  using rand_loop_length [of S 8 w bs w'] by (auto simp: ZC_Rand_def inv_defs)

lemma HF_ConnectToCloud_safe:
  assumes "safe w"
  shows "safe (snd (HF_ConnectToCloud S w))"
proof -
  obtain a w1 where a: "cloud_address S w = (a, w1)" by fastforce
  then have w1: "safe w1" using assms by (auto simp: cloud_address_def Let_def split: if_splits)
  show ?thesis
  proof (cases a)
    case (Some ap)
    obtain addr port where ap: "ap = (addr, port)" by fastforce
    obtain bs w2 where z: "ZC_Rand S (upd_con (struCloudConnection_update
        (\<lambda>c. c\<lparr>u32ConnectionTimes := 0, u32Socket := of_int (sdk_socket S (io w1))\<rparr>))
        (emit (E_connect addr port) (emit E_socket w1))) = (bs, w2)" by fastforce
    have "safe w2 \<and> length bs = 32" by (rule safe_Rand [OF _ z]) (simp add: safe_upds w1)
    then show ?thesis
      by (simp add: HF_ConnectToCloud_def a Some ap Let_def z safe_upds w1)
  qed (simp add: HF_ConnectToCloud_def a w1)
qed

lemma HF_ConnectToCloud_con:
  "key_recv (snd (HF_ConnectToCloud S w)) = key_recv w \<and> main_state (snd (HF_ConnectToCloud S w)) = main_state w \<and>
     g_struRecvQueue (snd (HF_ConnectToCloud S w)) = g_struRecvQueue w"
proof -
  obtain a w1 where a: "cloud_address S w = (a, w1)" by fastforce
  then have w1: "con w1 = con w" "g_struRecvQueue w1 = g_struRecvQueue w"
    by (auto simp: cloud_address_def Let_def split: if_splits)
  show ?thesis
  proof (cases a)
    case (Some ap)
    obtain addr port where ap: "ap = (addr, port)" by fastforce
    obtain bs w2 where z: "ZC_Rand S (upd_con (struCloudConnection_update
        (\<lambda>c. c\<lparr>u32ConnectionTimes := 0, u32Socket := of_int (sdk_socket S (io w1))\<rparr>))
        (emit (E_connect addr port) (emit E_socket w1))) = (bs, w2)" by fastforce
    from rand_loop_length [OF z [unfolded ZC_Rand_def]] show ?thesis
      by (simp add: HF_ConnectToCloud_def a Some ap Let_def z w1)
  qed (simp add: HF_ConnectToCloud_def a w1)
qed

lemma PCT_ConnectCloud_safe: "safe w \<Longrightarrow> safe (PCT_ConnectCloud S w)"
proof -
  assume w: "safe w"
  obtain r w1 where c: "HF_ConnectToCloud S w = (r, w1)" by fastforce
  with HF_ConnectToCloud_safe [OF w, of S] have "safe w1" by simp
  then have "safe w1 \<and> safe (set_keyRecv 0 (set_state 3 w1))" by (simp add: inv_defs)
  with w c show ?thesis by (simp add: PCT_ConnectCloud_def)
qed

lemma ens_stop_used: "ens (stop_used_timers is w) (calm w)"
proof (induction "is" arbitrary: w)
  case (Cons i "is")
  show ?case unfolding stop_used_timers.simps
    by (rule ens_bind_any, rule ens_bind_calm [OF _ Cons.IH]) (intro ens_rules ens_StopTimer calm_refl)
qed (simp add: ens_Some calm_refl)

lemma safe_TIMER_Init: "idle w \<Longrightarrow> idle (TIMER_Init w)"
  by (auto simp: inv_defs TIMER_Init_def)

text \<open>The end of a connection, common to reconnection and sleep.\<close>

definition drop_timers :: "world \<Rightarrow> world" where
  "drop_timers w = upd_con (\<lambda>c. c\<lparr>u8ReconnectTimer := PCT_TIMER_INVAILD, u8SendMoudleTimer := PCT_TIMER_INVAILD,
     u8HeartTimer := PCT_TIMER_INVAILD, u8MainState := PCT_STATE_INIT\<rparr>) (TIMER_Init w)"

lemma idle_con:
  assumes "idle w" "safe (w\<lparr>g_struProtocolController := c\<rparr>)"
  shows "idle (w\<lparr>g_struProtocolController := c\<rparr>)"
  using assms by (simp add: idle_def)

lemma drop_timers_idle:
  assumes "idle (set_state 1 w)"
  shows "idle (drop_timers w)"
proof -
  have i: "idle (TIMER_Init (set_state 1 w))" by (rule safe_TIMER_Init [OF assms])
  have e: "drop_timers w = (TIMER_Init (set_state 1 w))\<lparr>g_struProtocolController :=
      (con w)\<lparr>u8ReconnectTimer := 255, u8SendMoudleTimer := 255, u8HeartTimer := 255, u8MainState := 1\<rparr>\<rparr>"
    by (cases w) (simp add: drop_timers_def TIMER_Init_def)
  show ?thesis unfolding e
    by (rule idle_con [OF i], rule safe_con [OF idle_safe [OF i]])
      (use idle_safe [OF assms] in \<open>simp_all add: inv_defs idx_ok_def TIMER_Init_def\<close>)
qed

lemma ens_stop_all:
  assumes "safe w"
  shows "ens (stop_used_timers is (set_keyRecv PCT_KEY_UNRECVED (MSG_Init w))) (\<lambda>w'. idle (set_state 1 w'))"
proof -
  let ?w = "set_keyRecv 0 (MSG_Init w)"
  have i: "idle (set_state 1 ?w)" using safe_MSG_Init [OF assms] by (simp add: inv_defs)
  then have g: "ginv ?w" "que_cont (g_struRecvQueue ?w) = []" "ota_ok ?w"
    by (auto simp: inv_defs)
  show ?thesis
  proof (rule ens_mono [OF ens_stop_used])
    fix x
    assume c: "calm ?w x"
    then have x: "ginv x" "que_cont (g_struRecvQueue x) = []" "ota_ok x" "key_recv x = 0"
      using g calm_con [OF c g(1)] by (auto simp: calm_def ota_ok_def)
    then show "idle (set_state 1 x)" by (auto simp: inv_defs)
  qed
qed

end
