(* ===== verification/SafeRun.thy ===== *)
theory SafeRun
  imports Safe
begin

text \<open>The handlers of the controller and its state machine keep the invariant.\<close>

lemma safe_invalidate:
  assumes "safe w"
  shows "safe (upd_con (u8RegisterTimer_update (\<lambda>_. 0xFF)) w)"
    "safe (upd_con (u8ReconnectTimer_update (\<lambda>_. 0xFF)) w)"
    "safe (upd_con (u8SendUnbindTimer_update (\<lambda>_. 0xFF)) w)"
    "safe (upd_con (\<lambda>c. c\<lparr>u8ReSendMoudleNum := k c\<rparr>) w)"
  by (subst upd_con_const, rule safe_con, use assms in \<open>simp_all add: inv_defs idx_ok_def\<close>)+

lemma safe_relay_done: "safe w \<Longrightarrow> safe (upd_con (\<lambda>c. c\<lparr>u8SendMoudleTimer := 0xFF, u8ReSendMoudleNum := 0\<rparr>) w)"
  by (auto simp: inv_defs idx_ok_def)

lemma idle_invalidate:
  assumes "idle w"
  shows "idle (upd_con (u8RegisterTimer_update (\<lambda>_. 0xFF)) w)"
    "idle (upd_con (u8ReconnectTimer_update (\<lambda>_. 0xFF)) w)"
    "idle (upd_con (u8SendUnbindTimer_update (\<lambda>_. 0xFF)) w)"
  using assms safe_invalidate by (simp_all add: idle_def)

subsection \<open>Reconnection, wake-up, sleep\<close>

lemma ens_Reconnect:
  assumes "safe w"
  shows "ens (PCT_ReconnectCloud S n w) safe"
  unfolding PCT_ReconnectCloud_def Let_def
proof (intro ens_rules)
  show "safe w" by fact
next
  show "ens (stop_used_timers [0..<5] (set_keyRecv 0 (MSG_Init w)) \<bind> (\<lambda>w. Some (upd_con (\<lambda>c.
      c\<lparr>struCloudConnection := (struCloudConnection c)\<lparr>u32Socket := 0xFFFFFFFF\<rparr>, u8keyRecv := 0, u8MainState := 1\<rparr>)
      (set_timer S 0 n V_Reconnect (upd_con (\<lambda>c. c\<lparr>u8ReconnectTimer := 0xFF, u8SendMoudleTimer := 0xFF,
        u8HeartTimer := 0xFF, u8MainState := 1\<rparr>) (TIMER_Init w)))))) safe"
  proof (rule ens_bind [OF ens_stop_all [OF assms]], rule ens_Some)
    fix x
    assume "idle (set_state 1 x)"
    then have "idle (set_timer S 0 n V_Reconnect (drop_timers x))"
      by (intro calm_idle [OF calm_set_timer] drop_timers_idle) simp_all
    then show "safe (upd_con (\<lambda>c. c\<lparr>struCloudConnection := (struCloudConnection c)\<lparr>u32Socket := 0xFFFFFFFF\<rparr>,
        u8keyRecv := 0, u8MainState := 1\<rparr>) (set_timer S 0 n V_Reconnect (upd_con (\<lambda>c. c\<lparr>u8ReconnectTimer := 0xFF,
          u8SendMoudleTimer := 0xFF, u8HeartTimer := 0xFF, u8MainState := 1\<rparr>) (TIMER_Init x))))"
      unfolding drop_timers_def by (simp add: inv_defs)
  qed
qed

lemma ens_WakeUp:
  assumes "safe w"
  shows "ens (PCT_WakeUp S w) safe"
proof -
  let ?w = "upd_con (u16SendBcNum_update (\<lambda>_. 0)) (set_timer S 4 1000 V_Register w)"
  have "safe (set_timer S 4 1000 V_Register w)"
    by (rule calm_safe [OF calm_set_timer assms]) simp
  then have s: "safe ?w" by (rule safe_upds)
  show ?thesis unfolding PCT_WakeUp_def Let_def
    by (intro ens_rules assms ens_bind [OF ens_safe [OF ens_calm_notify s]] safe_state) simp_all
qed

lemma ens_Sleep:
  assumes "safe w"
  shows "ens (PCT_Sleep w) safe"
  unfolding PCT_Sleep_def Let_def
proof (rule ens_bind [OF ens_stop_all [OF assms]])
  fix x
  assume "idle (set_state 1 x)"
  then have i: "idle (drop_timers x)" by (rule drop_timers_idle)
  let ?w = "upd_con (\<lambda>c. c\<lparr>u8ReconnectTimer := 0xFF, u8SendMoudleTimer := 0xFF, u8HeartTimer := 0xFF,
      u8MainState := 1, u8RegisterTimer := 0xFF\<rparr>) (TIMER_Init x)"
  have "?w = upd_con (u8RegisterTimer_update (\<lambda>_. 0xFF)) (drop_timers x)"
    by (cases x) (simp add: drop_timers_def TIMER_Init_def)
  also have "safe \<dots>" by (intro safe_invalidate idle_safe i)
  finally show "ens (PCT_SendNotifyMsg 3 ?w) safe" by (rule ens_safe [OF ens_calm_notify])
qed

subsection \<open>The handshake\<close>

lemma idle_state: "(s \<in> {5, 6, 7} \<Longrightarrow> key_recv w = PCT_KEY_RECVED) \<Longrightarrow> idle w \<Longrightarrow> idle (set_state s w)"
  by (rule safe_state)

lemma idle_set_timer: "t \<noteq> PCT_TIMER_SENDMOUDLE \<Longrightarrow> v \<noteq> V_SendMoudle \<Longrightarrow> idle w \<Longrightarrow> idle (set_timer S t n v w)"
  by (rule calm_idle [OF calm_set_timer]) simp_all

lemma safe_build: "length m = length (g_u8MsgBuildBuffer w) \<Longrightarrow> calm w (w\<lparr>g_u8MsgBuildBuffer := m\<rparr>)"
  by (rule calm_outbound [OF outbound_build])

lemma ens_AccessMsg1:
  assumes "safe w"
  shows "ens (PCT_SendCloudAccessMsg1 S w) safe"
  unfolding PCT_SendCloudAccessMsg1_def Let_def
proof (rule ens_bind [where Q = safe], goal_cases)
  case 1
  show ?case
    by (intro ens_rules assms ens_bind [OF ens_safe [OF ens_StopTimer assms]] safe_invalidate)
next
  case (2 w1)
  show ?case
  proof (rule ens_bind_any, rule ens_bind_any, rule ens_bind_any, rule ens_bind_any, rule ens_bind_any, clarify, goal_cases)
    case (1 d r di dm m n)
    let ?w = "w1\<lparr>g_u8MsgBuildBuffer := m\<rparr>"
    have w: "safe ?w" by (rule calm_safe [OF safe_build [OF EVENT_BuildMsg_length [OF 1(5)]] 2])
    show ?case
    proof (rule ens_bind [OF ens_calm_send [OF safe_ginv [OF w]]], clarify, goal_cases)
      case (1 r w2)
      have w2: "safe w2" by (rule calm_safe [OF 1 w])
      have "safe (set_timer S 1 (1000 * 120) V_Access (set_state 4 w2))"
        by (rule calm_safe [OF calm_set_timer]) (use w2 in \<open>auto intro: safe_state\<close>)
      then show ?case
        by (intro ens_rules ens_mono [OF ens_DisConnect [OF w2]]) (simp_all add: idle_def)
    qed
  qed
qed

lemma ens_AccessMsg3:
  assumes "idle w"
  shows "ens (PCT_SendCloudAccessMsg3 S w) idle"
  unfolding PCT_SendCloudAccessMsg3_def Let_def
proof (rule ens_bind_any, rule ens_bind_any, rule ens_bind_any, rule ens_bind_any, clarify, goal_cases)
  case (1 v r ve m n)
  let ?w1 = "set_keyRecv 1 w"
  let ?w = "?w1\<lparr>g_u8MsgBuildBuffer := m\<rparr>"
  have "idle ?w1" using assms by (simp add: inv_defs)
  then have w: "idle ?w" using EVENT_BuildMsg_length [OF 1(4)] by (intro calm_idle [OF safe_build]) auto
  show ?case
  proof (rule ens_bind [OF ens_calm_send [OF safe_ginv [OF idle_safe [OF w]]]], clarify, rule ens_Some, goal_cases)
    case (1 r w2)
    have "idle w2" "key_recv w2 = 1"
      using calm_idle [OF 1 w] calm_con [OF 1 safe_ginv [OF idle_safe [OF w]]] by simp_all
    then show ?case by (intro idle_set_timer idle_state) simp_all
  qed
qed

lemma idle_keys:
  "idle w \<Longrightarrow> length k = 16 \<Longrightarrow> idle (upd_con (\<lambda>c. c\<lparr>u8SessionKey := k, IvRecv := k, IvSend := k\<rparr>) w)"
  by (simp add: inv_defs)

lemma idle_cfg: "idle w \<Longrightarrow> (wf_db (g_struZcConfigDb w) \<Longrightarrow> wf_db (f (g_struZcConfigDb w))) \<Longrightarrow> idle (upd_cfg f w)"
  by (simp add: inv_defs)

lemma safe_cfg: "safe w \<Longrightarrow> (wf_db (g_struZcConfigDb w) \<Longrightarrow> wf_db (f (g_struZcConfigDb w))) \<Longrightarrow> safe (upd_cfg f w)"
  by (simp add: inv_defs)

lemma write_db_keeps [simp]: "idle (write_db w) = idle w" "safe (write_db w) = safe w"
  by (simp_all add: write_db_def HF_WriteDataToFlash_def)

lemma ens_StoreAccess: "idle w \<Longrightarrow> ens (ZC_StoreAccessInfo a p w) idle"
  unfolding ZC_StoreAccessInfo_def
  by (rule ens_bind_any, rule ens_bind_any, rule ens_Some, simp, erule idle_cfg) (simp add: wf_db_def)

lemma ens_RecvMsg2:
  assumes "idle w"
  shows "ens (RecvMsg2_body S p m h w) idle"
  unfolding RecvMsg2_body_def
proof (rule ens_if, rule ens_bind_any, rule ens_if, rule ens_DisConnect_idle [OF assms],
    rule ens_bind [OF ens_stop_idle [OF assms]], rule ens_bind_any, goal_cases)
  case (1 r w1 same)
  show ?case
    by (intro ens_rules ens_DisConnect_idle 1 ens_bind_any ens_AccessMsg3 idle_keys ens_bind [OF ens_StoreAccess])
      (auto dest: length_rd)
qed (use assms in \<open>simp add: ens_Some\<close>)

lemma ens_RecvMsg4:
  assumes "idle w" "key_recv w = PCT_KEY_RECVED"
  shows "ens (RecvMsg4_body p m h w) idle"
  unfolding RecvMsg4_body_def
proof (rule ens_if, rule ens_bind_any, rule ens_if, rule ens_DisConnect_idle [OF assms(1)],
    rule ens_bind [OF ens_conj [OF ens_stop_idle [OF assms(1)] ensI [OF TIMER_StopTimer_con]]], assumption,
    rule ens_bind_any, goal_cases)
  case (1 r w1 same)
  then have "idle (set_state 6 w1)" using assms(2) by (intro idle_state) simp_all
  with 1 show ?case
    by (intro ens_rules ens_DisConnect_idle ens_idle [OF ens_calm_notify]) simp_all
qed (use assms in \<open>simp add: ens_Some\<close>)

lemma ens_stop_heart_idle: "idle w \<Longrightarrow> ens (stop_heart w) idle"
  by (rule ens_idle [OF ens_stop_heart])

lemma ens_Unbind:
  assumes "idle w" "key_recv w = PCT_KEY_RECVED"
  shows "ens (Unbind_body p m h w) idle"
proof -
  have w: "idle (set_state 6 w)" using assms by (intro idle_state) simp_all
  have u: "idle x \<Longrightarrow> idle (ZC_ConfigUnBind f x)" for f x
    unfolding ZC_ConfigUnBind_def by (simp, erule idle_cfg) (simp add: wf_db_def)
  show ?thesis unfolding Unbind_body_def Let_def
  proof (rule ens_if, rule ens_bind [where Q = idle], goal_cases)
    case 1
    show ?case
      by (intro ens_rules w ens_bind [OF ens_stop_idle [OF w]] idle_invalidate)
  qed (use assms in \<open>simp_all add: ens_Some u\<close>)
qed

subsection \<open>Relay to the device\<close>

lemma set_timer_pending:
  "upd_con (pu8SendMoudleBuffer_update (\<lambda>_. p)) (set_timer S t n v w) =
     set_timer S t n v (upd_con (pu8SendMoudleBuffer_update (\<lambda>_. p)) w)"
proof -
  have "pu8SendMoudleBuffer_update (\<lambda>_. p) (put_timer v i c) = put_timer v i (pu8SendMoudleBuffer_update (\<lambda>_. p) c)" for i c
    by (cases v) simp_all
  then show ?thesis
    by (cases w) (simp add: set_timer_def HF_SetTimer_def TIMER_FindIdleTimer_def TIMER_AllocateTimer_def emit_def
        Let_def split: option.splits)
qed

lemma idle_retx:
  "idle w \<Longrightarrow> length m = MSG_BUFFER_MAXLEN \<Longrightarrow> unat n \<le> MSG_BUFFER_MAXLEN \<Longrightarrow>
     idle (w\<lparr>g_struRetxBuffer := \<lparr>u32Len = n, u8Status = s, u8MsgBuffer = m\<rparr>\<rparr>)"
  by (simp add: inv_defs)

lemma idle_pending: "idle w \<Longrightarrow> idle (upd_con (pu8SendMoudleBuffer_update (\<lambda>_. Some RetxBuf)) w)"
  by (simp add: inv_defs)

lemma ens_HandleMoudleMsg:
  assumes "idle w"
  shows "ens (PCT_HandleMoudleMsg S RecvBuf w) idle"
  unfolding PCT_HandleMoudleMsg_def Let_def
proof (rule ens_bind_any, goal_cases)
  case (1 m)
  let ?s = "\<lambda>w. set_timer S 2 1000 V_SendMoudle w" and ?b = "get_buf RecvBuf w"
  let ?p = "upd_con (pu8SendMoudleBuffer_update (\<lambda>_. Some RetxBuf)) w"
  let ?w2 = "upd_con (\<lambda>c. c\<lparr>pu8SendMoudleBuffer := Some RetxBuf, u8ReSendMoudleNum := 0\<rparr>)
      (?s w\<lparr>g_struRetxBuffer := \<lparr>u32Len = u32Len ?b, u8Status = 1, u8MsgBuffer = m\<rparr>\<rparr>)"
  have len: "length (u8MsgBuffer (g_struRetxBuffer (?s w))) = 424"
  proof -
    obtain r w1 where "HF_SetTimer S 2 1000 V_SendMoudle w = (r, w1)" by fastforce
    from HF_SetTimer_world [OF this] this assms show ?thesis by (auto simp: set_timer_def inv_defs)
  qed
  with 1 have m: "length m = 424" "unat (u32Len ?b) \<le> 424"
    using length_memcpy [OF 1] assms by (auto simp: memcpy_eq_Some get_buf_def inv_defs rbuf_inv_def)
  have sp: "idle (?s ?p)"
    by (rule calm_idle [OF calm_set_timer idle_pending [OF assms]]) (simp add: may_arm_def)
  have e: "?w2 = upd_con (\<lambda>c. c\<lparr>u8ReSendMoudleNum := 0\<rparr>)
      (?s ?p\<lparr>g_struRetxBuffer := \<lparr>u32Len = u32Len ?b, u8Status = 1, u8MsgBuffer = m\<rparr>\<rparr>)"
    by (cases "?s w") (simp flip: set_timer_pending)
  have "idle ?w2" unfolding e using idle_retx [OF sp m] safe_invalidate(4) by (simp add: idle_def)
  then show ?case
    by (intro ens_bind [OF ens_idle [OF ens_calm_device]] ens_bind [OF ens_stop_heart_idle] ens_Some idle_set_timer)
      simp_all
qed

lemma relay_pending:
  assumes "ginv w" "pu8SendMoudleBuffer (con w) = Some p"
  shows "p = RetxBuf"
  using assms by (auto simp: ginv_def relay_ok_def)

lemma ens_SendMoudleTimeout:
  assumes "safe w"
  shows "ens (PCT_SendMoudleTimeout S w) safe"
  unfolding PCT_SendMoudleTimeout_def Let_def
proof (rule ens_bind_any, goal_cases)
  case (1 p)
  have p: "p = RetxBuf" using relay_pending [OF safe_ginv [OF assms] 1] .
  let ?w = "upd_con (\<lambda>c. c\<lparr>u8ReSendMoudleNum := u8ReSendMoudleNum c + 1\<rparr>) w"
  have w: "safe ?w" by (rule safe_invalidate [OF assms])
  have pend: "pu8SendMoudleBuffer (con ?w) = Some RetxBuf" using 1 p by simp
  show ?case unfolding p
  proof (rule ens_if, goal_cases)
    case 1
    have "safe (upd_con (\<lambda>c. c\<lparr>u8SendMoudleTimer := 0xFF, u8ReSendMoudleNum := 0\<rparr>) (upd_buf RetxBuf buf_idle ?w))"
      by (intro safe_relay_done safe_Retx_idle w)
    then show ?case
      by (intro ens_bind_any ens_bind [OF ens_safe [OF ens_calm_empty]] ens_safe [OF ens_calm_error])
        (simp_all add: safe_ginv)
  next
    case 2
    show ?case
    proof (rule ens_bind [where Q = "\<lambda>w'. safe w' \<and> con w' = con ?w"], goal_cases)
      case 1
      show ?case
        by (rule ens_conj [OF ens_safe [OF ens_calm_device w]], rule ensI)
          (drule HF_SendDataToMoudle_device, drule device_ioD(1), simp)
    next
      case (2 w')
      then have "may_arm 2 V_SendMoudle w'" using pend by (simp add: may_arm_def)
      with 2 show ?case by (intro ens_Some calm_safe [OF calm_set_timer]) simp_all
    qed
  qed
qed

lemma ens_HandleMoudleEvent:
  assumes "safe w"
  shows "ens (PCT_HandleMoudleEvent S m off n w) safe"
  unfolding PCT_HandleMoudleEvent_def Let_def
proof (rule ens_bind [where Q = safe], goal_cases)
  case 1
  show ?case
  proof (intro ens_rules ens_bind_any ens_bind [OF ens_safe [OF ens_calm_empty]] assms, goal_cases)
    case (1 h w1 p)
    have w1: "safe w1" using ensD [OF ens_StopTimer 1(4)] calm_safe assms by blast
    have "p = RetxBuf" using relay_pending [OF safe_ginv [OF w1] 1(5)] .
    then show ?case using safe_relay_done [OF safe_Retx_idle [OF w1]]
      by (intro ens_safe [OF ens_calm_empty]) (simp_all add: safe_ginv)
  qed
next
  case (2 w1)
  then show ?case
    by (intro ens_bind [OF ens_calm_send]) (auto intro!: ens_Some intro: calm_safe simp: safe_ginv)
qed

subsection \<open>Firmware update and commands\<close>

lemma ens_idle_ack: "idle w \<Longrightarrow> ens (PCT_SendAckToCloud S i w) idle"
  by (intro ens_idle [OF ens_calm_ack] safe_ginv idle_safe)

lemma ens_idle_error: "idle w \<Longrightarrow> ens (PCT_SendErrorMsg S i p n w) idle"
  by (intro ens_idle [OF ens_calm_error] safe_ginv idle_safe)

lemma ens_idle_empty: "idle w \<Longrightarrow> ens (PCT_SendEmptyMsg S i t w) idle"
  by (intro ens_idle [OF ens_calm_empty] safe_ginv idle_safe)

lemma ens_idle_notify: "idle w \<Longrightarrow> ens (PCT_SendNotifyMsg c w) idle"
  by (rule ens_idle [OF ens_calm_notify])

lemmas ens_sends = ens_idle_ack ens_idle_error ens_idle_empty ens_idle_notify

lemma idle_jd: "idle w \<Longrightarrow> idle (w\<lparr>g_u32StopJdTask := k\<rparr>)"
  by (simp add: idle_def safe_upds)

lemma ens_ota_begin: "idle w \<Longrightarrow> ens (ota_begin m off w) idle"
  unfolding ota_begin_def by (rule ens_bind_any, rule ens_Some) (simp add: inv_defs)

lemma FirmwareUpdate_emits:
  "HF_FirmwareUpdate S m off o' n w = Some (r, w') \<Longrightarrow> (idle w \<longrightarrow> idle w') \<and> (safe w \<longrightarrow> safe w') \<and> con w' = con w"
  by (auto simp: HF_FirmwareUpdate_def Let_def bind_eq_Some_conv)

lemma FirmwareUpdateFinish_emits:
  "HF_FirmwareUpdateFinish S n w = (r, w') \<Longrightarrow> w' = emit (E_update_complete n) w"
  by (auto simp: HF_FirmwareUpdateFinish_def Let_def)

text \<open>The check of the chunk keeps the offset within the announced length.\<close>

lemma safe_ota_advance:
  assumes "\<not> ota_chunk_bad off len (struOtaInfo (con w))"
  shows "safe w \<Longrightarrow> safe (ota_advance len w)" "idle w \<Longrightarrow> idle (ota_advance len w)"
  using assms by (simp_all add: ota_advance_def ota_chunk_bad_def inv_defs not_less)

lemma ens_OtaFileChunk:
  assumes "idle w"
  shows "ens (PCT_HandleOtaFileChunkMsg S p w) idle"
  unfolding PCT_HandleOtaFileChunkMsg_def Let_def
proof (rule ens_bind_any, rule ens_bind_any, rule ens_if, goal_cases)
  case (1 h q)
  then show ?case by (intro ens_sends assms)
next
  case (2 h q)
  show ?case
  proof (rule ens_bind_any, clarify, goal_cases)
    case (1 r w1)
    note f = FirmwareUpdate_emits [OF 1]
    show ?case
      by (intro ens_if ens_sends safe_ota_advance) (use f 2 assms in simp_all)
  qed
qed

lemma ens_OtaEnd:
  assumes "idle w"
  shows "ens (PCT_HandleOtaEndMsg S p w) idle"
  unfolding PCT_HandleOtaEndMsg_def case_prod_unfold Let_def
proof (rule ens_bind_any, goal_cases)
  case (1 h)
  have i: "idle (snd (HF_FirmwareUpdateFinish S (u32TotalLen (struOtaInfo (con w))) w))"
    using FirmwareUpdateFinish_emits assms by (metis prod.collapse safe_emit(2) event.distinct)
  show ?case
    by (intro ens_if ens_sends i ens_bind [OF ens_idle_ack [OF i]] ens_bind [OF ens_idle_notify] ens_Some)
      (simp_all add: HF_Reboot_def idle_jd)
qed

lemma idle_ConfigInitPara: "idle w \<Longrightarrow> idle (ZC_ConfigInitPara w)"
  using ZC_ConfigInitPara_ok [of w] unfolding ZC_ConfigInitPara_def
  by (simp add: inv_defs db_ok_def)

lemma ens_dispatch:
  assumes "idle w"
  shows "ens (dispatch S RecvBuf code w) idle"
proof -
  have tok: "ens (ZC_StoreTokenKey m off w) idle" for m off
    unfolding ZC_StoreTokenKey_def
    by (rule ens_bind_any, rule ens_Some, simp, rule idle_cfg [OF assms]) (auto simp: wf_db_def dest: length_rd)
  show ?thesis
    unfolding dispatch_def PCT_HandleOtaBeginMsg_def PCT_HandleOtaFileBeginMsg_def PCT_HandleOtaFileEndMsg_def
      PCT_SetTokenKey_def PCT_ResetNetWork_def Let_def
    by (intro ens_if ens_OtaFileChunk ens_OtaEnd ens_HandleMoudleMsg ens_Some ens_bind_any [of "rd_MsgHead _ _"]
        ens_bind [OF ens_idle_ack] ens_bind [OF tok] ens_bind [OF ens_DisConnect_idle] ens_bind [OF ens_ota_begin]
        ens_bind [OF ens_idle_empty] ens_sends idle_ConfigInitPara idle_jd assms)
      assumption+
qed

lemma ens_Event:
  assumes "idle w"
  shows "ens (Event_body S RecvBuf m h w) idle"
  unfolding Event_body_def
  by (rule ens_bind_any, rule ens_if) (intro ens_bind [OF ens_idle_empty] ens_sends ens_dispatch assms; assumption)+

subsection \<open>The state machine\<close>

lemma ens_HandleEvent:
  assumes "safe w" "key_recv w = PCT_KEY_RECVED"
  shows "ens (PCT_HandleEvent S w) safe"
  unfolding PCT_HandleEvent_def Let_def
proof (rule ens_if, goal_cases)
  case 1
  have w: "safe (set_state 7 w)" using assms by (intro safe_state) simp_all
  show ?case
    by (rule ens_bind [where Q = safe])
      (auto intro!: ens_if ens_Some w ens_safe [OF ens_StopTimer w] intro: ens_safe [OF ens_calm_unbind] simp: safe_ginv)
next
  case 2
  show ?case by (rule ens_handle_popped [OF assms(1)]) (auto intro: ens_Event ens_Some idle_safe)
qed

lemma PCT_Run_safe:
  assumes "safe w"
  shows "ens (PCT_Run S w) safe"
proof -
  have k: "main_state w \<in> {5, 6, 7} \<Longrightarrow> key_recv w = 1" using assms by (simp add: safe_def auth_def)
  have 2: "ens (PCT_RecvAccessMsg2 S w) safe" unfolding PCT_RecvAccessMsg2_def
    by (rule ens_handle_popped [OF assms]) (auto intro: ens_RecvMsg2 ens_Some idle_safe)
  have 4: "ens (PCT_RecvAccessMsg4 S w) safe" if "main_state w = 5" unfolding PCT_RecvAccessMsg4_def
    by (rule ens_handle_popped [OF assms])
      (use k that in \<open>auto intro!: ens_RecvMsg4 ens_Some ens_bind [OF ens_stop_heart_idle] idle_set_timer intro: idle_safe\<close>)
  have u: "ens (PCT_HandleUnbindMsg S w) safe" if "main_state w = 7" unfolding PCT_HandleUnbindMsg_def
    by (rule ens_handle_popped [OF assms])
      (use k that in \<open>auto intro!: ens_Unbind ens_Some idle_set_timer intro: idle_safe\<close>)
  show ?thesis unfolding PCT_Run_def
    by (intro ens_if ens_Some PCT_ConnectCloud_safe ens_AccessMsg1 2 4 u ens_HandleEvent assms) (use k in auto)
qed

subsection \<open>Timers and received bytes\<close>

lemma ens_TimeoutAction:
  assumes "safe w"
  shows "ens (TIMER_TimeoutAction S i w) safe"
  unfolding TIMER_TimeoutAction_def Let_def
proof (rule ens_bind_any, goal_cases)
  case (1 t)
  have r: "safe (upd_con (\<lambda>c. c\<lparr>u8ReconnectTimer := 0xFF, u8MainState := 2\<rparr>) w)"
    using assms by (simp add: inv_defs idx_ok_def)
  have g: "safe (set_timer S 4 1000 V_Register w)" by (rule calm_safe [OF calm_set_timer assms]) simp
  show ?case
    by (intro ens_if ens_Some r ens_mono [OF ens_DisConnect [OF assms]] ens_SendMoudleTimeout assms
        ens_safe [OF ens_calm_heart] ens_safe [OF ens_calm_notify g] ens_safe [OF ens_calm_unbind])
      (simp_all add: assms safe_ginv idle_def)
qed

lemma HF_timer_callback_safe:
  assumes "safe w"
  shows "ens (HF_timer_callback S i w) safe"
  unfolding HF_timer_callback_def
proof (rule ens_bind_any, rule ens_if, goal_cases)
  case (1 t)
  have "safe (w\<lparr>g_struHfTimer := (g_struHfTimer w)[unat i := t\<lparr>u32FirstFlag := 0\<rparr>]\<rparr>)"
    using assms by (simp add: inv_defs)
  then show ?case by (intro ens_Some) simp
next
  case (2 t)
  show ?case by (rule ens_bind [OF ens_TimeoutAction [OF assms]]) (rule ens_safe [OF ens_StopTimer])
qed

end
