(* ===== verification/SafeRecv.thy ===== *)
theory SafeRecv
  imports SafeRun
begin

text \<open>Bytes from the cloud keep the invariant: reassembly, decryption in place, queueing.\<close>

subsection \<open>Decryption\<close>

lemma rsa_pkcs1_decrypt_Some:
  "rsa_pkcs1_decrypt S key src soff dst doff n w = Some (ret, ol, dst', w') \<Longrightarrow>
     length dst' = length dst \<and> w' = emit E_rsa w"
  by (auto simp: rsa_pkcs1_decrypt_def bind_eq_Some_conv length_wr case_prod_unfold Let_def)

lemma rsa_decrypt_loop_Some:
  "rsa_decrypt_loop S key src soff len ret readlen plen dst doff w = Some (ret', readlen', plen', dst', w') \<Longrightarrow>
     length dst' = length dst \<and> rsa_calls w w'"
proof (induction S key src soff len ret readlen plen dst doff w arbitrary: ret' readlen' plen' dst' w'
    rule: rsa_decrypt_loop.induct)
  case (1 S key src soff len ret readlen plen dst doff w)
  show ?case
  proof (cases "readlen + rsa_len \<le> unat len")
    case True
    with "1.prems"(1) obtain r ol d w1 where
      c: "rsa_pkcs1_decrypt S key src (soff + readlen) dst (doff + unat plen) len w = Some (r, ol, d, w1)"
      and k: "(if r \<noteq> 0 then Some (r, readlen, plen, d, w1)
        else rsa_decrypt_loop S key src soff len r (readlen + rsa_len) (plen + of_int ol) d doff w1) =
        Some (ret', readlen', plen', dst', w')"
      by (subst (asm) rsa_decrypt_loop.simps) (auto simp: bind_eq_Some_conv)
    from rsa_pkcs1_decrypt_Some [OF c] have d: "length d = length dst" "w1 = emit E_rsa w" by auto
    show ?thesis
    proof (cases "r = 0")
      case True
      with k have l: "rsa_decrypt_loop S key src soff len r (readlen + rsa_len) (plen + of_int ol) d doff w1 =
        Some (ret', readlen', plen', dst', w')" by simp
      from "1.IH" [OF \<open>readlen + rsa_len \<le> unat len\<close> c refl refl refl _ l] True d
      show ?thesis using rsa_calls_emit_left by simp
    next
      case False
      with k d show ?thesis by (auto intro: rsa_calls_emit)
    qed
  next
    case False
    with "1.prems" show ?thesis by (subst (asm) rsa_decrypt_loop.simps) auto
  qed
qed

lemma SEC_DecryptTextByRsa_Some:
  assumes "SEC_DecryptTextByRsa S src soff dst doff n w = Some (r, plen, m, w')"
  shows "length m = length dst \<and> rsa_calls w w'"
proof -
  from assms obtain key where
    k: "(if unat n > 32 then do {
       (ret, readlen, plen, dst, w) \<leftarrow> rsa_decrypt_loop S key src soff n 0 0 0 dst doff w;
       if readlen < unat n then do {
         (ret, olen, dst, w) \<leftarrow> rsa_pkcs1_decrypt S key src (soff + readlen) dst (doff + unat plen) n w;
         Some (if ret \<noteq> 0 then ZC_RET_ERROR else ZC_RET_OK, plen + of_int olen, dst, w)
       } else Some (if ret \<noteq> 0 then ZC_RET_ERROR else ZC_RET_OK, plen, dst, w)
     } else do {
       (ret, olen, dst, w) \<leftarrow> rsa_pkcs1_decrypt S key src soff dst doff n w;
       Some (if ret \<noteq> 0 then ZC_RET_ERROR else ZC_RET_OK, of_int olen, dst, w)
     }) = Some (r, plen, m, w')"
    by (auto simp: SEC_DecryptTextByRsa_def bind_eq_Some_conv)
  then show ?thesis
    by (auto simp: bind_eq_Some_conv dest!: rsa_pkcs1_decrypt_Some rsa_decrypt_loop_Some
        intro: rsa_calls_emit rsa_calls_refl split: if_splits)
qed

lemma SEC_AesDecrypt_length: "SEC_AesDecrypt src soff dst doff n pl w = Some (r, k, m) \<Longrightarrow> length m = length dst"
  by (auto simp: SEC_AesDecrypt_def bind_eq_Some_conv length_wr split: if_splits)

lemma SEC_Decrypt_Some:
  assumes "SEC_Decrypt S h src soff dst doff pl w = Some (r, n, m, w')"
  shows "length m = length dst \<and> rsa_calls w w'"
  using assms
  by (auto simp: SEC_Decrypt_def Let_def bind_eq_Some_conv length_wr rsa_calls_refl SEC_AesDecrypt_length
      dest: SEC_DecryptTextByRsa_Some split: if_splits)

subsection \<open>Receiving\<close>

lemma safe_rsa: "rsa_calls w w' \<Longrightarrow> (safe w \<longrightarrow> safe w') \<and> (idle w \<longrightarrow> idle w') \<and> con w' = con w"
  unfolding rsa_calls_def by (elim exE) (simp add: inv_defs)

lemma safe_recv_buffer:
  "safe w \<Longrightarrow> rbuf_inv b \<Longrightarrow> que_cont (g_struRecvQueue w) = [] \<or> u8Status b = MSG_BUFFER_FULL \<Longrightarrow>
     safe (w\<lparr>g_struRecvBuffer := b\<rparr>)"
proof -
  assume w: "safe w" and b: "rbuf_inv b" and q: "que_cont (g_struRecvQueue w) = [] \<or> u8Status b = MSG_BUFFER_FULL"
  have "queues_ok (w\<lparr>g_struRecvBuffer := b\<rparr>)" using w q by (auto simp: safe_def ginv_def queues_ok_def)
  then show ?thesis using w b
    by (simp add: safe_def ginv_def auth_def ota_ok_def timers_ok_def timer_inv_def bufs_ok_def store_ok_def
        relay_ok_def sent_ok_def session_keys_def moudle_timer_def)
qed

lemma MSG_RecvDataFromCloud_safe:
  assumes "safe w" "length d \<le> recv_max"
  shows "ens (MSG_RecvDataFromCloud S d (of_nat (length d)) w) safe"
proof (cases "u8Status (g_struRecvBuffer w) = MSG_BUFFER_FULL")
  case True
  then show ?thesis using assms
    by (simp add: MSG_RecvDataFromCloud_def MSG_RecvData_def ens_Some)
next
  case False
  then have q: "que_cont (g_struRecvQueue w) = []" "que_inv (g_struRecvQueue w)" "rbuf_inv (g_struRecvBuffer w)"
    and bl: "length (g_u8MsgBuildBuffer w) = 424"
    using assms(1) by (auto simp: inv_defs)
  have nf: "\<not> rbuf_full (g_struRecvBuffer w)" using False by (simp add: rbuf_full_def)
  show ?thesis unfolding MSG_RecvDataFromCloud_def Let_def
  proof (rule ens_bind_any, clarify, goal_cases)
    case (1 r b)
    have b: "rbuf_inv b"
      using MSG_Recv_step [OF q(3) nf assms(2)] 1 by (auto simp: MSG_Recv_def)
    have w1: "idle (w\<lparr>g_struRecvBuffer := b\<rparr>)"
      using safe_recv_buffer [OF assms(1) b] q(1) by (simp add: idle_def)
    show ?case
    proof (rule ens_if, goal_cases)
      case full: 1
      show ?case
      proof (rule ens_bind_any, rule ens_bind_any, clarify, rule ens_bind_any, goal_cases)
        case (1 h r u bb w2 m)
        note dec = SEC_Decrypt_Some [OF 1(2)]
        have w2: "idle w2" using safe_rsa dec w1 by blast
        then have w3: "idle (w2\<lparr>g_u8MsgBuildBuffer := bb\<rparr>)" using dec bl by (simp add: inv_defs)
        have m: "length m = 424" "unat u \<le> 424"
          using length_memcpy [OF 1(3)] 1(3) b by (simp_all add: rbuf_inv_def memcpy_eq_Some)
        let ?b = "b\<lparr>u8MsgBuffer := m, u32Len := ucast u\<rparr>"
        have fb: "rbuf_inv ?b" "u8Status ?b = 1"
          using b m full by (simp_all add: rbuf_inv_def)
        let ?w = "w2\<lparr>g_u8MsgBuildBuffer := bb, g_struRecvBuffer := ?b\<rparr>"
        have w4: "safe ?w" using safe_recv_buffer [OF idle_safe [OF w3] fb(1)] fb(2) by simp
        have q4: "que_inv (g_struRecvQueue ?w)" "que_cont (g_struRecvQueue ?w) = []"
          using w2 by (simp_all add: inv_defs)
        show ?case
        proof (rule ens_if, rule ens_bind_any, clarify, rule ens_Some, goal_cases)
          case (1 r3 q3)
          with MSG_PushMsg_inv [OF q4(1), of RecvBuf] q4(2)
          have "que_inv q3" "que_cont q3 = [RecvBuf]" by auto
          with w4 fb(2) show ?case by (simp add: inv_defs)
        qed (use w4 in \<open>simp add: ens_Some\<close>)
      qed
    qed (use w1 in \<open>simp add: ens_Some idle_safe\<close>)
  qed
qed

lemma MSG_SendDataToCloud_safe:
  assumes "safe w"
  shows "ens (MSG_SendDataToCloud c w) safe"
proof -
  have q: "que_inv (g_struSendQueue w)" "que_cont (g_struSendQueue w) = []" using assms by (simp_all add: inv_defs)
  then have "MSG_PopMsg (g_struSendQueue w) = Some (None, g_struSendQueue w)" using MSG_PopMsg_inv [OF q(1)] by simp
  then have "MSG_SendDataToCloud c w = Some w" by (simp add: MSG_SendDataToCloud_def)
  then show ?thesis by (simp add: ens_Some assms)
qed

end
