(* ===== verification/Module.thy ===== *)
theory Module
  imports SafeRecv
begin

text \<open>
  The module manager \<^verbatim>\<open>src/src/ZC/src/zc/zc_moudle_manager.c\<close>: what the module does with a message of
  the device, and the packet loop \<^verbatim>\<open>ZC_Moudlefunc\<close> over the assembler of \<open>UartAsm\<close>. The body of
  \<^verbatim>\<open>EVENT_ParseOption\<close> is compiled out, so the option length is always 0 and the payload follows the
  message head.
\<close>

text \<open>The search for the client is compiled out: \<^verbatim>\<open>u8FindFlag\<close> stays 0 and the function returns before
  it does anything. The argument is the target of \<^verbatim>\<open>pstruOptList->pstruSsession\<close>.\<close>

definition ZC_DealSessionOpt :: "u32 option \<Rightarrow> world \<Rightarrow> (u32 \<times> world) option" where
  "ZC_DealSessionOpt pstruSsession w = do {
     u32SsessionId \<leftarrow> pstruSsession;
     let u32ClientId = ZC_HTONL u32SsessionId;
     Some (ZC_RET_OK, w) }"

abbreviation (input) ZC_CODE_EXT_REGSITER :: u8 where "ZC_CODE_EXT_REGSITER \<equiv> 0"
abbreviation (input) ZC_CODE_EXT_REBOOT :: u8 where "ZC_CODE_EXT_REBOOT \<equiv> 1"

text \<open>Registration, common to \<^verbatim>\<open>ZC_CODE_REGSITER\<close> and \<^verbatim>\<open>ZC_CODE_EXT_REGSITER\<close>: a module that has
  registered only reports its connection.\<close>

definition register :: "sdk \<Rightarrow> bytes \<Rightarrow> nat \<Rightarrow> u8 \<Rightarrow> world \<Rightarrow> world option" where
  "register S m off flag w =
     (if main_state w \<ge> PCT_STATE_ACCESS_NET \<and> main_state w < PCT_STATE_DISCONNECT_CLOUD then
        PCT_SendNotifyMsg ZC_CODE_CLOUD_CONNECTED w
      else if main_state w = PCT_STATE_DISCONNECT_CLOUD then PCT_SendNotifyMsg ZC_CODE_CLOUD_DISCONNECTED w
      else do {
        w \<leftarrow> ZC_StoreRegisterInfo S m off flag w;
        let w = set_state PCT_STATE_ACCESS_NET w;
        if u8RegisterTimer (con w) \<noteq> PCT_TIMER_INVAILD then do {
          w \<leftarrow> TIMER_StopTimer (u8RegisterTimer (con w)) w;
          Some (upd_con (u8RegisterTimer_update (\<lambda>_. PCT_TIMER_INVAILD)) w)
        } else Some w })"

definition ZC_DealExtCode :: "sdk \<Rightarrow> bytes \<Rightarrow> nat \<Rightarrow> world \<Rightarrow> (u32 \<times> world) option" where
  "ZC_DealExtCode S m off w = do {
     c \<leftarrow> nth_opt m off;
     w \<leftarrow> (if c = ZC_CODE_EXT_REGSITER then register S m (off + 4) 1 w
          else if c = ZC_CODE_EXT_REBOOT then Some (HF_Reboot w)
          else Some w);
     Some (ZC_RET_OK, w) }"

definition module_dispatch :: "sdk \<Rightarrow> ZC_MessageHead \<Rightarrow> bytes \<Rightarrow> nat \<Rightarrow> u16 \<Rightarrow> world \<Rightarrow> world option" where
  "module_dispatch S h m off n w =
     (let pay = off + 8; code = MsgCode h
      in if code = ZC_CODE_REGSITER then register S m pay 0 w
      else if code = ZC_CODE_EQ_BEGIN then do {
        w \<leftarrow> PCT_SendNotifyMsg ZC_CODE_EQ_DONE w;
        if main_state w \<ge> PCT_STATE_ACCESS_NET then PCT_SendNotifyMsg ZC_CODE_WIFI_CONNECTED w else Some w }
      else if code = ZC_CODE_ZOTA_FILE_BEGIN then PCT_ModuleOtaFileBeginMsg m pay w
      else if code = ZC_CODE_ZOTA_FILE_CHUNK then PCT_ModuleOtaFileChunkMsg S h m pay w
      else if code = ZC_CODE_ZOTA_FILE_END then do {
        w \<leftarrow> PCT_ModuleOtaFileEndMsg S w;
        PCT_SendNotifyMsg ZC_CODE_ZOTA_END w }
      else if code = ZC_CODE_REST then Some (HF_Rest w)
      else if code = ZC_CODE_CONFIG then ZC_ConfigPara m pay w
      else if code = ZC_CODE_UNBIND then do {
        let w = ZC_ConfigUnBind ZC_MAGIC_FLAG w;
        f \<leftarrow> nth_opt m pay;
        Some (if f \<noteq> 0 then HF_Rest w else w) }
      else if code = ZC_CODE_EXT then map_option snd (ZC_DealExtCode S m pay w)
      else if main_state w = PCT_STATE_CONNECT_CLOUD then PCT_HandleMoudleEvent S m off n w
      else PCT_SendNotifyMsg ZC_CODE_CLOUD_DISCONNECTED w)"

definition ZC_RecvDataFromMoudle :: "sdk \<Rightarrow> bytes \<Rightarrow> nat \<Rightarrow> u16 \<Rightarrow> world \<Rightarrow> (u32 \<times> world) option" where
  "ZC_RecvDataFromMoudle S m off u16DataLen w =
     (if u16DataLen = 0 then Some (ZC_RET_ERROR, w)
      else do {
        h \<leftarrow> rd_MsgHead m off;
        r \<leftarrow> PCT_CheckCrc (TotalMsgCrc h) m (off + 8) (ZC_HTONS (Payloadlen h));
        if r = ZC_RET_ERROR then Some (ZC_RET_ERROR, w)
        else do { w \<leftarrow> module_dispatch S h m off u16DataLen w; Some (ZC_RET_OK, w) } })"

text \<open>A complete packet: handled, then the assembler is free again.\<close>

definition deliver_packet :: "sdk \<Rightarrow> world \<Rightarrow> world option" where
  "deliver_packet S w = do {
     let b = g_struUartBuffer w;
     (r, w) \<leftarrow> ZC_RecvDataFromMoudle S (u8UartBuffer b) 4 (ucast (u32RecvLen b - 4)) w;
     Some (w\<lparr>g_struUartBuffer := uart_reset (g_struUartBuffer w)\<rparr>) }"

text \<open>The recursion of the code. A recursion that would not end is \<^term>\<open>None\<close>, like any other
  behaviour C does not define.\<close>

partial_function (option) ZC_Moudlefunc :: "sdk \<Rightarrow> bytes \<Rightarrow> u32 \<Rightarrow> world \<Rightarrow> world option" where
  "ZC_Moudlefunc S pu8Data u32DataLen w =
     (if u32DataLen = 0 then Some w
      else Option.bind (ZC_AssemblePkt (g_struUartBuffer w) pu8Data u32DataLen) (\<lambda>(r, left, b).
        let w = w\<lparr>g_struUartBuffer := b\<rparr>
        in if r = ZC_RET_ERROR then Some w
           else Option.bind (if u32Status b = 1 then deliver_packet S w else Some w) (\<lambda>w.
             if left > 0 then ZC_Moudlefunc S (drop (unat (u32DataLen - left)) pu8Data) left w
             else Some w)))"

end
