(* ===== verification/Client.thy ===== *)
theory Client
  imports Module
begin

text \<open>
  The local clients: \<^verbatim>\<open>src/src/ZC/src/zc/zc_client_manager.c\<close> and the broadcasts of
  \<^verbatim>\<open>src/src/ZC/src/zc/zc_bc.c\<close>. A client occupies a slot whose \<^verbatim>\<open>u32ClientVaildFlag\<close> is
  \<^verbatim>\<open>ZC_CLIENT_INVAILD_FLAG\<close> (0); the flag 1 means that the slot is free. The table meets the slot
  contract of \<open>Slots\<close>. The calls of these functions from the receiving task are compiled out.
\<close>

abbreviation (input) ZC_CLIENT_STATUS_INIT :: u8 where "ZC_CLIENT_STATUS_INIT \<equiv> 0"
abbreviation (input) ZC_CLIENT_STATUS_WAKEUP :: u8 where "ZC_CLIENT_STATUS_WAKEUP \<equiv> 1"
abbreviation (input) ZC_CLIENT_STATUS_IDLE :: u8 where "ZC_CLIENT_STATUS_IDLE \<equiv> 2"
abbreviation (input) ZC_CLIENT_STATUS_BUSY :: u8 where "ZC_CLIENT_STATUS_BUSY \<equiv> 3"
abbreviation (input) ZC_CLIENT_INVAILD_FLAG :: u32 where "ZC_CLIENT_INVAILD_FLAG \<equiv> 0"
abbreviation (input) ZC_CLIENT_VAILD_FLAG :: u32 where "ZC_CLIENT_VAILD_FLAG \<equiv> 1"
abbreviation (input) ZC_MAX_CLIENT_NUM :: nat where "ZC_MAX_CLIENT_NUM \<equiv> 4"

subsection \<open>The table\<close>

definition ZC_SetClientFree :: "ZC_ClientInfo \<Rightarrow> ZC_ClientInfo" where
  "ZC_SetClientFree c = c\<lparr>u8ClientStates := ZC_CLIENT_STATUS_IDLE\<rparr>"

text \<open>The identifier is stored in an 8-bit field.\<close>

definition ZC_SetClientBusy :: "u32 \<Rightarrow> ZC_ClientInfo \<Rightarrow> ZC_ClientInfo" where
  "ZC_SetClientBusy fd c = c\<lparr>u8ClientStates := ZC_CLIENT_STATUS_BUSY, u32ClientBusyId := ucast fd\<rparr>"

fun client_disconnect_loop :: "u32 \<Rightarrow> nat list \<Rightarrow> ZC_ClientInfo \<Rightarrow> ZC_ClientInfo option" where
  "client_disconnect_loop fd [] c = Some c"
| "client_disconnect_loop fd (i # is) c = do {
     f \<leftarrow> nth_opt (u32ClientFd c) i;
     c \<leftarrow> (if fd = f then do {
              fl \<leftarrow> upd_opt (u32ClientVaildFlag c) i ZC_CLIENT_VAILD_FLAG;
              let c = c\<lparr>u32ClientVaildFlag := fl\<rparr>;
              Some (if u8ClientStates c = ZC_CLIENT_STATUS_BUSY \<and> fd = ucast (u32ClientBusyId c)
                    then ZC_SetClientFree c else c)
            } else Some c);
     client_disconnect_loop fd is c }"

definition ZC_ClientDisconnect :: "u32 \<Rightarrow> ZC_ClientInfo \<Rightarrow> ZC_ClientInfo option" where
  "ZC_ClientDisconnect fd c = client_disconnect_loop fd [0..<ZC_MAX_CLIENT_NUM] c"

fun client_connect_loop :: "u32 \<Rightarrow> nat list \<Rightarrow> ZC_ClientInfo \<Rightarrow> u32 \<times> ZC_ClientInfo" where
  "client_connect_loop fd [] c = (ZC_RET_ERROR, c)"
| "client_connect_loop fd (i # is) c =
     (if u32ClientVaildFlag c ! i = ZC_CLIENT_VAILD_FLAG then
        (ZC_RET_OK, c\<lparr>u32ClientFd := (u32ClientFd c)[i := fd],
           u32ClientVaildFlag := (u32ClientVaildFlag c)[i := ZC_CLIENT_INVAILD_FLAG]\<rparr>)
      else client_connect_loop fd is c)"

definition ZC_ClientConnect :: "u32 \<Rightarrow> ZC_ClientInfo \<Rightarrow> u32 \<times> ZC_ClientInfo" where
  "ZC_ClientConnect fd c = client_connect_loop fd [0..<ZC_MAX_CLIENT_NUM] c"

definition ZC_ClientInit :: "ZC_ClientInfo \<Rightarrow> ZC_ClientInfo" where
  "ZC_ClientInit c = c\<lparr>u8ClientStates := ZC_CLIENT_STATUS_INIT,
     u32ClientVaildFlag := map (\<lambda>_. ZC_CLIENT_VAILD_FLAG) (u32ClientVaildFlag c)\<rparr>"

definition ZC_CheckClientIdle :: "u32 \<Rightarrow> ZC_ClientInfo \<Rightarrow> u32" where
  "ZC_CheckClientIdle fd c =
     (if u8ClientStates c = ZC_CLIENT_STATUS_IDLE then ZC_RET_OK
      else if fd = ucast (u32ClientBusyId c) then ZC_RET_OK else ZC_RET_ERROR)"

definition ZC_StartClientListen :: "world \<Rightarrow> world" where
  "ZC_StartClientListen w =
     (if u8ClientStates (g_struClientInfo w) = ZC_CLIENT_STATUS_WAKEUP then
        let (r, w) = HF_ListenClient w
        in if r \<noteq> ZC_RET_OK then w
           else w\<lparr>g_struClientInfo := (g_struClientInfo w)\<lparr>u8ClientStates := ZC_CLIENT_STATUS_IDLE\<rparr>\<rparr>
      else w)"

definition ZC_ClientWakeUp :: "ZC_ClientInfo \<Rightarrow> ZC_ClientInfo" where
  "ZC_ClientWakeUp c = c\<lparr>u8ClientStates := ZC_CLIENT_STATUS_WAKEUP\<rparr>"

definition ZC_ClientSleep :: "ZC_ClientInfo \<Rightarrow> ZC_ClientInfo" where
  "ZC_ClientSleep c = c"

subsection \<open>A message of a client\<close>

text \<open>The refusal sent to a client while another one is being served. The bytes between the head and
  the ciphertext are the previous contents of the build buffer.\<close>

definition refuse_client :: "u32 \<Rightarrow> bytes \<Rightarrow> world \<Rightarrow> world option" where
  "refuse_client fd key w = do {
     (m, n) \<leftarrow> EVENT_BuildMsg ZC_CODE_ERR 0 (g_u8MsgBuildBuffer w) 4 [] 0;
     (ct, clen) \<leftarrow> AES_CBC_Encrypt (drop 4 m) (ucast n) key 16 key;
     m \<leftarrow> wr m 4 ct;
     h \<leftarrow> rd_SecHead m 0;
     m \<leftarrow> wr m 0 (SecHead_bytes (h\<lparr>u8SecType := ZC_SEC_ALG_AES, u16TotalMsg := ZC_HTONS (ucast clen)\<rparr>));
     HF_SendTcpData fd m (ucast (clen + 4)) (w\<lparr>g_u8MsgBuildBuffer := m\<rparr>) }"

text \<open>The message with a session option inserted after its head: \<open>m\<close> is the build buffer that holds
  the decrypted message, \<open>cb\<close> the client buffer that receives the result.\<close>

definition insert_session :: "u32 \<Rightarrow> ZC_MessageHead \<Rightarrow> bytes \<Rightarrow> bytes \<Rightarrow> (bytes \<times> u16) option" where
  "insert_session fd h m cb = do {
     let n = ZC_HTONS (Payloadlen h) - 8;
     cb \<leftarrow> wr cb 0 (MsgHead_bytes h);
     cb \<leftarrow> wr cb 8 (le16_bytes (ZC_HTONS 1) @ le16_bytes (ZC_HTONS 4));
     cb \<leftarrow> wr cb 12 (le32_bytes (ZC_HTONL fd));
     p \<leftarrow> rd m 8 (unat n);
     cb \<leftarrow> wr cb 16 p;
     let u16Len = 16 + n;
     d \<leftarrow> rd cb 8 (unat (u16Len - 8));
     cb \<leftarrow> wr cb 0 (MsgHead_bytes (h\<lparr>TotalMsgCrc := crc_bytes (crc16_ccitt d)\<rparr>));
     Some (cb, u16Len) }"

definition client_message :: "u32 \<Rightarrow> bytes \<Rightarrow> world \<Rightarrow> world option" where
  "client_message fd key w = do {
     let cb = u8MsgBuffer (g_struClientBuffer w);
     sh \<leftarrow> rd_SecHead cb 0;
     if unat (ZC_HTONS (u16TotalMsg sh)) \<ge> MSG_BULID_BUFFER_MAXLEN then Some w
     else do {
       (pt, n) \<leftarrow> AES_CBC_Decrypt (drop 4 cb) (ucast (ZC_HTONS (u16TotalMsg sh))) key 16 key;
       m \<leftarrow> wr (g_u8MsgBuildBuffer w) 0 pt;
       let w = w\<lparr>g_u8MsgBuildBuffer := m\<rparr>;
       h \<leftarrow> rd_MsgHead m 0;
       r \<leftarrow> PCT_CheckCrc (TotalMsgCrc h) m 8 (ZC_HTONS (Payloadlen h));
       if r = ZC_RET_ERROR then Some w
       else do {
         let h = h\<lparr>Payloadlen := ZC_HTONS (ZC_HTONS (Payloadlen h) + 8)\<rparr>;
         m \<leftarrow> wr m 0 (MsgHead_bytes h);
         let w = w\<lparr>g_u8MsgBuildBuffer := m\<rparr>;
         if unat (ZC_HTONS (Payloadlen h)) > MSG_BULID_BUFFER_MAXLEN then Some w
         else do {
           let h = h\<lparr>OptNum := OptNum h + 1\<rparr>;
           m \<leftarrow> wr m 0 (MsgHead_bytes h);
           let w = w\<lparr>g_u8MsgBuildBuffer := m\<rparr>;
           (cb, u16Len) \<leftarrow> insert_session fd h m cb;
           let w = w\<lparr>g_struClientBuffer := (g_struClientBuffer w)\<lparr>u8MsgBuffer := cb, u32Len := ucast u16Len\<rparr>\<rparr>;
           HF_SendDataToMoudle cb 0 u16Len w
         } } } }"

definition ZC_RecvDataFromClient :: "u32 \<Rightarrow> bytes \<Rightarrow> u32 \<Rightarrow> world \<Rightarrow> world option" where
  "ZC_RecvDataFromClient ClientId pu8Data u32DataLen w = do {
     tok \<leftarrow> ZC_GetStoreInfor ZC_GET_TYPE_TOKENKEY w;
     key \<leftarrow> rd tok 0 16;
     if ZC_CheckClientIdle ClientId (g_struClientInfo w) = ZC_RET_ERROR then refuse_client ClientId key w
     else do {
       let w = w\<lparr>g_struClientInfo := ZC_SetClientBusy ClientId (g_struClientInfo w)\<rparr>;
       (r, b) \<leftarrow> MSG_RecvData (g_struClientBuffer w) pu8Data u32DataLen;
       let w = w\<lparr>g_struClientBuffer := b\<rparr>;
       if u8Status b = MSG_BUFFER_FULL \<and> r = ZC_RET_OK then do {
         w \<leftarrow> client_message ClientId key w;
         Some (w\<lparr>g_struClientBuffer := buf_idle (g_struClientBuffer w),
           g_struClientInfo := ZC_SetClientFree (g_struClientInfo w)\<rparr>)
       } else Some w
     } }"

subsection \<open>Broadcasts\<close>

text \<open>The comparison of \<^verbatim>\<open>int sleepcount\<close> with \<^verbatim>\<open>u32 g_u32BcSleepCount\<close> is unsigned.\<close>

abbreviation (input) PCT_SEND_BC_MAX_NUM :: u16 where "PCT_SEND_BC_MAX_NUM \<equiv> 300"

definition ZC_SendBc :: "world \<Rightarrow> world option" where
  "ZC_SendBc w =
     (if main_state w \<noteq> PCT_STATE_CONNECT_CLOUD then Some (bc_update (sleepcount_update (\<lambda>_. 0)) w)
      else do {
        let w = bc_update (\<lambda>b. b\<lparr>sleepcount := sleepcount b + 1\<rparr>) w;
        if sleepcount (bc w) > g_u32BcSleepCount (bc w) then do {
          (m, n) \<leftarrow> EVENT_BuildBcMsg (g_u8MsgBuildBuffer w) w;
          let w = w\<lparr>g_u8MsgBuildBuffer := m\<rparr>;
          w \<leftarrow> (if u16SendBcNum (con w) < PCT_SEND_BC_MAX_NUM then do {
                   w \<leftarrow> HF_SendUdpData (g_Bcfd (bc w)) m n w;
                   Some (upd_con (u16SendBcNum_update (\<lambda>k. k + 1)) w)
                 } else Some w);
          Some (bc_update (sleepcount_update (\<lambda>_. 0)) w)
        } else Some w })"

definition ZC_SendClientQueryReq :: "bytes \<Rightarrow> u16 \<Rightarrow> world \<Rightarrow> world option" where
  "ZC_SendClientQueryReq msg u16RecvLen w =
     (if main_state w < PCT_STATE_ACCESS_NET then Some w
      else if u16RecvLen \<noteq> 16 then Some w
      else do {
        h \<leftarrow> rd_MsgHead msg 0;
        if MsgCode h \<noteq> ZC_CODE_CLIENT_QUERY_REQ then Some w
        else do {
          did \<leftarrow> ZC_GetStoreInfor ZC_GET_TYPE_DEVICEID w;
          q \<leftarrow> rd msg 8 6;
          d \<leftarrow> rd did 16 6;
          if q \<noteq> d then Some w
          else do {
            let ip = g_u32GloablIp (bc w);
            let addr = [ucast (drop_bit 24 ip), ucast (drop_bit 16 ip), ucast (drop_bit 8 ip), ucast ip];
            i \<leftarrow> rd did 0 16;
            (m, n) \<leftarrow> EVENT_BuildMsg ZC_CODE_CLIENT_QUERY_RSP 0 (g_u8MsgBuildBuffer w) 0 (addr @ i) 20;
            HF_SendUdpData (g_Bcfd (bc w)) m n (w\<lparr>g_u8MsgBuildBuffer := m\<rparr>)
          } } })"

end
