(* ===== verification/App.thy ===== *)
theory App
  imports Client
begin

text \<open>
  The application \<^verbatim>\<open>src/src/main.c\<close>: the receiver of the serial line, the commands of the device, the
  upload of its reports, and the reaction to the reason of the last reset; \<^verbatim>\<open>AC_SendMessage\<close> and
  \<^verbatim>\<open>AC_SendRestMsg\<close> of \<^verbatim>\<open>ac_api.c\<close>; the commands that \<^verbatim>\<open>jdsmart.c\<close> writes to the serial line. The
  text that \<^verbatim>\<open>sprintf\<close> and \<^verbatim>\<open>jdssl_send\<close> make of a report is not modelled: the event \<open>E_jd_send\<close> holds
  the message type and the numbers.
\<close>

subsection \<open>Messages of the device\<close>

definition AC_SendMessage :: "sdk \<Rightarrow> bytes \<Rightarrow> u16 \<Rightarrow> world \<Rightarrow> world option" where
  "AC_SendMessage S m n w = PCT_HandleMoudleEvent S m 0 n w"

definition AC_SendRestMsg :: "sdk \<Rightarrow> world \<Rightarrow> world option" where
  "AC_SendRestMsg S w = do {
     (m, n) \<leftarrow> AC_BuildMessage ZC_CODE_REST 0 [] 0 (g_u8MsgBuildBuffer w);
     AC_SendMessage S m n (w\<lparr>g_u8MsgBuildBuffer := m\<rparr>) }"

text \<open>A report built in \<^verbatim>\<open>g_u8DevMsgBuildBuffer\<close> (50 bytes) and sent.\<close>

definition send_report :: "sdk \<Rightarrow> u8 \<Rightarrow> u8 \<Rightarrow> bytes \<Rightarrow> u8 \<Rightarrow> world \<Rightarrow> world option" where
  "send_report S code i data len w = do {
     (m, n) \<leftarrow> AC_BuildMessage code i data (ucast len) (g_u8DevMsgBuildBuffer (device w));
     AC_SendMessage S m n (upd_dev (g_u8DevMsgBuildBuffer_update (\<lambda>_. m)) w) }"

abbreviation (input) CMD_COMMON :: u8 where "CMD_COMMON \<equiv> 0"
abbreviation (input) CMD_UP_POWER :: u8 where "CMD_UP_POWER \<equiv> 0x81"
abbreviation (input) CMD_UP_PM25 :: u8 where "CMD_UP_PM25 \<equiv> 0x86"
abbreviation (input) ACCORD_RELPY_DATA :: u8 where "ACCORD_RELPY_DATA \<equiv> 210"
abbreviation (input) RESPOND_SERVER_DATA :: u8 where "RESPOND_SERVER_DATA \<equiv> 68"

definition byte_pair :: "u8 \<Rightarrow> u8 \<Rightarrow> u32" where
  "byte_pair lo hi = ucast lo + push_bit 8 (ucast hi)"

definition jd_send_data :: "bytes \<Rightarrow> world \<Rightarrow> world option" where
  "jd_send_data data w = do {
     typ \<leftarrow> nth_opt data 1;
     if typ = CMD_COMMON then do {
       d \<leftarrow> rd data 0 13;
       Some (emit (E_jd_send typ [ucast (d ! 3), ucast (d ! 4), byte_pair (d ! 5) (d ! 6), ucast (d ! 7),
         ucast (d ! 8), ucast (d ! 9), byte_pair (d ! 11) (d ! 12)]) w)
     } else if CMD_UP_POWER \<le> typ \<and> typ \<le> CMD_UP_PM25 then do {
       n \<leftarrow> nth_opt data 2;
       if n = 1 then do {
         v \<leftarrow> nth_opt data 3;
         Some (emit (E_jd_send typ [ucast v]) w)
       } else if n = 2 then do {
         d \<leftarrow> rd data 3 2;
         Some (emit (E_jd_send typ [byte_pair (d ! 0) (d ! 1)]) w)
       } else Some w
     } else Some w }"

subsection \<open>Commands on the serial line\<close>

definition reply_data :: bytes where
  "reply_data = [0xAA, 0xFF, 0x55]"

text \<open>\<^verbatim>\<open>strstr(hay, needle)\<close> finds the needle; the C string ends before its first zero.\<close>

fun strstr_found :: "bytes \<Rightarrow> bytes \<Rightarrow> bool" where
  "strstr_found hay needle = (take (length needle) hay = needle \<or>
     (case hay of [] \<Rightarrow> False | _ # hay \<Rightarrow> strstr_found hay needle))"

declare strstr_found.simps [simp del]

definition c_string :: "bytes \<Rightarrow> bytes" where
  "c_string = takeWhile (\<lambda>b. b \<noteq> 0)"

definition at_disconnected :: bytes where
  "at_disconnected = [0x2B, 0x6F, 0x6B, 0x3D, 0x44, 0x69, 0x73, 0x63, 0x6F, 0x6E, 0x6E, 0x65, 0x63, 0x74, 0x65, 0x64]"

definition AT_WSLK :: bytes where
  "AT_WSLK = [0x41, 0x54, 0x2B, 0x57, 0x53, 0x4C, 0x4B, 0x0D, 0x0A]"

text \<open>The SDK answers an AT command with 16 bytes. The command 0xF2 writes 8 bytes from a 2-byte
  variable: the last six are whatever lies behind it.\<close>

definition UartProcess :: "sdk \<Rightarrow> bytes \<Rightarrow> u8 \<Rightarrow> world \<Rightarrow> world option" where
  "UartProcess S data len w = do {
     code \<leftarrow> nth_opt data 1;
     if code = 0xF0 then
       (let domain_id = sdk_at_reply S (io w); w = emit (E_at_cmd AT_WSLK) w
        in Some (if strstr_found at_disconnected (c_string (take 16 domain_id))
           then emit E_smartlink_start (emit (E_uart_send reply_data) w) else w))
     else if code = 0xF1 then
       Some (emit E_reboot (emit E_reload (emit (E_uart_send reply_data) (ZC_ConfigUnBind ZC_MAGIC_FLAG w))))
     else if code = 0xF2 then do {
       d \<leftarrow> rd data 3 2;
       let sub = (ucast (d ! 0) + ucast (d ! 1) * 256 :: u16);
       let w = upd_dev (SUB_DOMAIN_ID_update (\<lambda>_. sub)) w;
       let w = emit (E_userbin_write 304 (le16_bytes sub @ map (sdk_junk S (io w)) [0..<6])) w;
       let w = emit (E_userbin_write 300 (le32_bytes ZC_MAGIC_FLAG)) w;
       Some (emit (E_uart_send reply_data) w) }
     else if code = 0xF3 then
       Some (if \<not> sdk_nready_high S (io w) \<and> SUB_DOMAIN_ID (device w) \<noteq> 0xFFFF
         then emit (E_uart_send reply_data) w else w)
     else if SUB_DOMAIN_ID (device w) = 0xFFFF then Some w
     else if code < 16 then do {
       w \<leftarrow> send_report S ACCORD_RELPY_DATA 0 data len w;
       if code = CMD_COMMON then jd_send_data data w else Some w }
     else do {
       w \<leftarrow> send_report S RESPOND_SERVER_DATA (uart_send_MsgId (device w)) data len w;
       jd_send_data data w } }"

subsection \<open>The serial receiver\<close>

abbreviation (input) PKT_UNKNOWN :: u8 where "PKT_UNKNOWN \<equiv> 0"
abbreviation (input) PKT_PUREDATA :: u8 where "PKT_PUREDATA \<equiv> 1"

definition uart_unknown :: "uart_device \<Rightarrow> uart_device" where
  "uart_unknown d = d\<lparr>g_curtype := PKT_UNKNOWN, g_recvdata := 0, g_u8CurPktLen := 0\<rparr>"

definition UartRecv :: "sdk \<Rightarrow> u8 \<Rightarrow> world \<Rightarrow> world option" where
  "UartRecv S data w =
     (let d = device w
      in if g_curtype d = PKT_UNKNOWN then
           if data = 0xAA then do {
             b \<leftarrow> upd_opt (g_u8recv_data d) 0 data;
             Some (w\<lparr>device := d\<lparr>g_curtype := PKT_PUREDATA, g_recvdata := 1, g_u8recv_data := b, g_u8CurPktLen := 0\<rparr>\<rparr>)
           } else Some w
         else if g_curtype d = PKT_PUREDATA then do {
           b \<leftarrow> upd_opt (g_u8recv_data d) (unat (g_recvdata d)) data;
           let d = d\<lparr>g_u8recv_data := b, g_recvdata := g_recvdata d + 1\<rparr>;
           let d = (if g_recvdata d = 3 then d\<lparr>g_u8CurPktLen := data\<rparr> else d);
           let w = w\<lparr>device := d\<rparr>;
           if unat (g_recvdata d) = unat (g_u8CurPktLen d) + 6 then
             if data = 0x55 then do {
               w \<leftarrow> UartProcess S b (g_recvdata d) w;
               Some (upd_dev uart_unknown w)
             } else Some (upd_dev uart_unknown w)
           else Some w
         }
         else Some w)"

fun uart_bytes :: "sdk \<Rightarrow> bytes \<Rightarrow> world \<Rightarrow> world option" where
  "uart_bytes S [] w = Some w"
| "uart_bytes S (b # bs) w = do { w \<leftarrow> UartRecv S b w; uart_bytes S bs w }"

text \<open>While a firmware update runs the bytes are dropped.\<close>

definition uart_recv_callback :: "sdk \<Rightarrow> bytes \<Rightarrow> world \<Rightarrow> world option" where
  "uart_recv_callback S data w = (if g_u32StopJdTask w = 1 then Some w else uart_bytes S data w)"

subsection \<open>Commands to the device\<close>

text \<open>\<^verbatim>\<open>my_atoi\<close> on a C string: signed overflow is undefined. The project makes \<^verbatim>\<open>char\<close> unsigned. The digits are not checked.\<close>

definition int32 :: "int \<Rightarrow> int option" where
  "int32 n = (if - 2147483648 \<le> n \<and> n < 2147483648 then Some n else None)"

fun my_atoi_loop :: "bytes \<Rightarrow> int \<Rightarrow> int option" where
  "my_atoi_loop [] n = None"
| "my_atoi_loop (c # s) n =
     (if c = 0 then Some n
      else do {
        n \<leftarrow> int32 (n * 10);
        n \<leftarrow> int32 (n + (uint c - 48));
        my_atoi_loop s n })"

definition my_atoi :: "bytes \<Rightarrow> int option" where
  "my_atoi s = my_atoi_loop s 0"

definition calc_ecc :: "bytes \<Rightarrow> nat \<Rightarrow> u16" where
  "calc_ecc buf num = sum_list (map ucast (take num buf))"

abbreviation (input) CMD_DOWN_POWER :: u8 where "CMD_DOWN_POWER \<equiv> 1"
abbreviation (input) CMD_DOWN_MODE :: u8 where "CMD_DOWN_MODE \<equiv> 5"
abbreviation (input) CMD_DOWN_PM25 :: u8 where "CMD_DOWN_PM25 \<equiv> 6"

definition ecc_tail :: "bytes \<Rightarrow> bytes" where
  "ecc_tail buf = (let e = calc_ecc buf (length buf) in [ucast (e AND 0xFF), ucast (drop_bit 8 (e AND 0xFF00)), 0x55])"

definition build_message :: "u8 \<Rightarrow> bytes \<Rightarrow> world \<Rightarrow> world option" where
  "build_message typ pvalue w =
     (if CMD_DOWN_POWER \<le> typ \<and> typ \<le> CMD_DOWN_MODE then do {
        v \<leftarrow> my_atoi pvalue;
        let buf = [0xAA, typ, 1, of_int v];
        Some (emit (E_uart_send (buf @ ecc_tail buf)) w) }
      else if typ = CMD_DOWN_PM25 then
        (let buf = [0xAA, typ, 0] in Some (emit (E_uart_send (buf @ ecc_tail buf)) w))
      else Some w)"

text \<open>The command of the cloud names the stream; an unknown name is ignored.\<close>

definition stream_is :: "bytes \<Rightarrow> string \<Rightarrow> bool" where
  "stream_is b s \<longleftrightarrow> c_string b = map of_char s"

definition json_to_binary :: "bytes \<Rightarrow> bytes \<Rightarrow> world \<Rightarrow> world option" where
  "json_to_binary stream_id pvalue w =
     (if stream_is stream_id ''light'' then build_message 4 pvalue w
      else if stream_is stream_id ''mode'' then build_message CMD_DOWN_MODE pvalue w
      else if stream_is stream_id ''PM25'' then build_message CMD_DOWN_PM25 pvalue w
      else if stream_is stream_id ''power'' then build_message CMD_DOWN_POWER pvalue w
      else if stream_is stream_id ''sound'' then build_message 3 pvalue w
      else if stream_is stream_id ''speed'' then build_message 2 pvalue w
      else Some w)"

subsection \<open>The reason of the last reset\<close>

abbreviation (input) HFSYS_RESET_REASON_SMARTLINK_START :: u32 where "HFSYS_RESET_REASON_SMARTLINK_START \<equiv> 0x10"
abbreviation (input) HFSYS_RESET_REASON_SMARTLINK_OK :: u32 where "HFSYS_RESET_REASON_SMARTLINK_OK \<equiv> 0x20"

definition show_reset_reason :: "sdk \<Rightarrow> world \<Rightarrow> world" where
  "show_reset_reason S w =
     (let w = emit (E_nvm_write 0) w;
          reset_reason = sdk_reset_reason S (io w);
          w = (if reset_reason AND HFSYS_RESET_REASON_SMARTLINK_START \<noteq> 0 then emit E_smt_timeout_thread w else w)
      in if reset_reason AND HFSYS_RESET_REASON_SMARTLINK_OK \<noteq> 0 then
           let w = HF_ReadDataFormFlash S w;
               w = upd_cfg (struSwitchInfo_update (u32ServerAddrConfig_update (\<lambda>_. 0))) w
           in emit (E_nvm_write 1) (write_db w)
         else w)"

end
