(* ===== verification/System.thy ===== *)
theory System
  imports App
begin

text \<open>
  The running firmware: the start-up \<^verbatim>\<open>HF_Init\<close>, the two tasks \<^verbatim>\<open>HF_Cloudfunc\<close> and
  \<^verbatim>\<open>HF_CloudRecvfunc\<close> one loop turn at a time, sleep and wake-up (\<^verbatim>\<open>zc_hf_adpter.c\<close>) and the
  network events (\<^verbatim>\<open>hfsys_event_callback\<close> of \<^verbatim>\<open>jdsmart.c\<close>). The relation \<open>step\<close> interleaves them with
  the timer callback, the serial receiver and the commands to the device. A turn of a task is one
  step: the tasks run cooperatively and yield in \<^verbatim>\<open>msleep\<close> and \<^verbatim>\<open>select\<close>.
\<close>

subsection \<open>Start-up\<close>

definition g_u8ModuleKey :: bytes where
  "g_u8ModuleKey =
    [0xDD, 0x05, 0x7B, 0xEF, 0xFA, 0xBA, 0xCE, 0xAD, 0xA7, 0xA0, 0x17, 0x4E, 0xD6, 0x6A, 0x63, 0xD0,
     0x7B, 0xCE, 0xED, 0x7D, 0xDE, 0xCA, 0x1B, 0x46, 0xCA, 0x09, 0xE6, 0xFE, 0xD1, 0x05, 0x07, 0x4B,
     0xFC, 0x96, 0x91, 0x95, 0x5F, 0x3A, 0x0D, 0x4B, 0x8D, 0x20, 0x4A, 0xC9, 0xE0, 0xCA, 0x7D, 0x37,
     0xE0, 0x01, 0xC2, 0x8E, 0x81, 0xB5, 0x3B, 0xC7, 0x6F, 0xDE, 0x27, 0xEB, 0x75, 0xFA, 0x70, 0x8D,
     0xF5, 0xC0, 0x3D, 0x06, 0xDA, 0xAE, 0xAD, 0x8E, 0xCB, 0x51, 0x16, 0xD2, 0xD1, 0xCD, 0xD1, 0x03,
     0x3A, 0x4D, 0x1A, 0xF6, 0xFE, 0x19, 0x4E, 0x4A, 0xB4, 0xF9, 0xEC, 0x07, 0xE3, 0x77, 0xE0, 0x0D,
     0x69, 0x58, 0x74, 0x49, 0xD0, 0xF6, 0xD6, 0x4A, 0x85, 0x9A, 0x53, 0x55, 0x40, 0x1B, 0x4C, 0xD5]"

abbreviation (input) MAJOR_DOMAIN_ID :: "64 word" where "MAJOR_DOMAIN_ID \<equiv> 236"

definition g_u64Domain :: "u16 \<Rightarrow> 64 word" where
  "g_u64Domain sub =
     push_bit 48 (ucast (drop_bit 8 (sub AND 0xff00))) + push_bit 56 (ucast (sub AND 0xff)) +
     push_bit 40 (MAJOR_DOMAIN_ID AND 0xff) + push_bit 32 (drop_bit 8 (MAJOR_DOMAIN_ID AND 0xff00)) +
     push_bit 24 (drop_bit 16 (MAJOR_DOMAIN_ID AND 0xff0000)) +
     push_bit 16 (drop_bit 24 (MAJOR_DOMAIN_ID AND 0xff000000)) +
     push_bit 8 (drop_bit 32 (MAJOR_DOMAIN_ID AND 0xff00000000)) +
     drop_bit 40 (MAJOR_DOMAIN_ID AND 0xff0000000000)"

definition le64_bytes :: "64 word \<Rightarrow> bytes" where
  "le64_bytes n = map (\<lambda>k. ucast (drop_bit (8 * k) n)) [0..<8]"

definition AT_WSMAC :: bytes where
  "AT_WSMAC = [0x41, 0x54, 0x2B, 0x57, 0x53, 0x4D, 0x41, 0x43, 0x0D, 0x0A]"

text \<open>\<^verbatim>\<open>HF_Init\<close> after its wait for the magic flag. The tasks start when it is done.\<close>

definition HF_Init :: "sdk \<Rightarrow> world \<Rightarrow> world" where
  "HF_Init S w =
     (let w = upd_dev (SUB_DOMAIN_ID_update (\<lambda>_. 287)) w;
          w = PCT_Init w;
          w = w\<lparr>g_struUartBuffer := uart_reset (g_struUartBuffer w)\<rparr>;
          w = HF_ReadDataFormFlash S w;
          mac_buf = sdk_at_reply S (io w);
          w = emit (E_at_cmd AT_WSMAC) w;
          did = take 12 (drop 4 mac_buf) @ replicate 4 48;
          w = w\<lparr>g_struRegisterInfo := \<lparr>u8PrivateKey = g_u8ModuleKey,
                u8DeviciId = did @ le64_bytes (g_u64Domain (SUB_DOMAIN_ID (device w))),
                u8EqVersion = [0, 0, 0, 0]\<rparr>\<rparr>
      in upd_cfg (\<lambda>db. db\<lparr>
           struSwitchInfo := (struSwitchInfo db)\<lparr>u32SecSwitch := 1, u32TraceSwitch := 0, u32WifiConfig := 0,
             u32ServerAddrConfig := 0\<rparr>,
           struCloudInfo := (struCloudInfo db)\<lparr>u8CloudAddr := default_cloud_addr\<rparr>\<rparr>) w)"

abbreviation (input) ZC_MOUDLE_PORT :: u16 where "ZC_MOUDLE_PORT \<equiv> 7689"
abbreviation (input) ZC_JD_PORT :: u16 where "ZC_JD_PORT \<equiv> 80"

definition HF_BcInit :: "sdk \<Rightarrow> world \<Rightarrow> world" where
  "HF_BcInit S w =
     (let fd = of_int (sdk_socket S (io w));
          w = bc_update (g_Bcfd_update (\<lambda>_. fd)) (emit E_socket w);
          w = emit (E_bind fd ZC_MOUDLE_PORT) w;
          w = upd_con (u16SendBcNum_update (\<lambda>_. 0)) w
      in bc_update (g_u32BcSleepCount_update (\<lambda>_. 250000)) w)"

definition HF_JdInit :: "sdk \<Rightarrow> world \<Rightarrow> world" where
  "HF_JdInit S w =
     (let fd = of_int (sdk_socket S (io w));
          w = bc_update (g_Jdfd_update (\<lambda>_. fd)) (emit E_socket w)
      in emit (E_bind fd ZC_JD_PORT) w)"

subsection \<open>The tasks\<close>

definition uart_idle :: "world \<Rightarrow> world" where
  "uart_idle w = w\<lparr>g_struUartBuffer := uart_reset (g_struUartBuffer w)\<rparr>"

text \<open>One turn of \<^verbatim>\<open>HF_Cloudfunc\<close>.\<close>

definition HF_Cloudfunc :: "sdk \<Rightarrow> world \<Rightarrow> world option" where
  "HF_Cloudfunc S w = do {
     let fd = u32Socket (struCloudConnection (con w));
     w \<leftarrow> PCT_Run S w;
     w \<leftarrow> (if main_state w = PCT_STATE_DISCONNECT_CLOUD then do {
              let w = emit (E_close fd) w;
              let (t, w) = (if u32ConnectionTimes (struCloudConnection (con w)) = 0 then (1000, w)
                            else let (r, w) = sdk_rand_call S w in (1000 * (r mod 10 + 1), w));
              w \<leftarrow> PCT_ReconnectCloud S t w;
              Some (uart_idle w)
            } else MSG_SendDataToCloud (struCloudConnection (con w)) w);
     ZC_SendBc w }"

text \<open>One turn of \<^verbatim>\<open>HF_CloudRecvfunc\<close>: what \<^verbatim>\<open>recv\<close> returned, \<^term>\<open>None\<close> when the cloud socket was not
  readable and \<^term>\<open>Some []\<close> for an end of the connection or an error. The answer to a search on the JD
  socket is left out.\<close>

definition HF_CloudRecvfunc :: "sdk \<Rightarrow> bytes option \<Rightarrow> world \<Rightarrow> world option" where
  "HF_CloudRecvfunc S r w =
     (if main_state w \<ge> PCT_STATE_WAIT_ACCESSRSP \<and> main_state w < PCT_STATE_DISCONNECT_CLOUD then
        case r of None \<Rightarrow> Some w
        | Some d \<Rightarrow> if d \<noteq> [] then MSG_RecvDataFromCloud S d (of_nat (length d)) w
            else map_option uart_idle (PCT_DisConnectCloud w)
      else Some w)"

abbreviation (input) HF_MAX_SOCKET_LEN :: nat where "HF_MAX_SOCKET_LEN \<equiv> 500"

subsection \<open>Network events\<close>

definition HF_WakeUp :: "sdk \<Rightarrow> world \<Rightarrow> world option" where
  "HF_WakeUp S w = PCT_WakeUp S w"

definition HF_Sleep :: "world \<Rightarrow> world option" where
  "HF_Sleep w = do {
     let w = emit (E_close (g_Bcfd (bc w))) w;
     let fd = u32Socket (struClientConnection (con w));
     let w = (if fd \<noteq> PCT_INVAILD_SOCKET then upd_con (struClientConnection_update
                (u32Socket_update (\<lambda>_. PCT_INVAILD_SOCKET))) (emit (E_close fd) w) else w);
     let fd = u32Socket (struCloudConnection (con w));
     let w = (if fd \<noteq> PCT_INVAILD_SOCKET then upd_con (struCloudConnection_update
                (u32Socket_update (\<lambda>_. PCT_INVAILD_SOCKET))) (emit (E_close fd) w) else w);
     w \<leftarrow> PCT_Sleep w;
     Some (uart_idle w) }"

datatype sys_event = HFE_WIFI_STA_DISCONNECTED | HFE_DHCP_OK u32 | HFE_OTHER

definition hfsys_event_callback :: "sdk \<Rightarrow> sys_event \<Rightarrow> world \<Rightarrow> world option" where
  "hfsys_event_callback S e w = (case e of
     HFE_WIFI_STA_DISCONNECTED \<Rightarrow> map_option (HF_BcInit S) (HF_Sleep w)
   | HFE_DHCP_OK ip \<Rightarrow> HF_WakeUp S (bc_update (g_u32GloablIp_update (\<lambda>_. ZC_HTONL ip)) w)
   | HFE_OTHER \<Rightarrow> Some w)"

subsection \<open>Runs of the firmware\<close>

definition start :: "sdk \<Rightarrow> world" where
  "start S = HF_JdInit S (HF_BcInit S (HF_Init S zero_world))"

inductive step :: "sdk \<Rightarrow> world \<Rightarrow> world \<Rightarrow> bool" for S where
  cloud: "HF_Cloudfunc S w = Some w' \<Longrightarrow> step S w w'"
| recv: "HF_CloudRecvfunc S r w = Some w' \<Longrightarrow> \<forall>d. r = Some d \<longrightarrow> length d \<le> HF_MAX_SOCKET_LEN \<Longrightarrow> step S w w'"
| timer: "i \<in> timer_used w \<Longrightarrow> HF_timer_callback S (of_nat i) w = Some w' \<Longrightarrow> step S w w'"
| uart: "uart_recv_callback S bs w = Some w' \<Longrightarrow> step S w w'"
| event: "hfsys_event_callback S e w = Some w' \<Longrightarrow> step S w w'"
| command: "json_to_binary stream_id pvalue w = Some w' \<Longrightarrow> step S w w'"

inductive_cases stepE: "step S w w'"

inductive reach :: "sdk \<Rightarrow> world \<Rightarrow> bool" for S where
  init: "reach S (start S)"
| next_step: "reach S w \<Longrightarrow> step S w w' \<Longrightarrow> reach S w'"

end
