(* ===== verification/SysSafe.thy ===== *)
theory SysSafe
  imports System
begin

text \<open>The invariant holds in every reachable state.\<close>

subsection \<open>The device side\<close>

lemma safe_map_emit: "\<forall>fd d. e \<noteq> E_tcp_send fd d \<Longrightarrow> safe w \<Longrightarrow> safe (emit e w)"
  by simp

lemma ens_send_report:
  assumes "safe w"
  shows "ens (send_report S c i d n w) safe"
  unfolding send_report_def AC_SendMessage_def
  by (rule ens_bind_any, clarify, rule ens_HandleMoudleEvent) (rule safe_upds [OF assms])

lemma ens_jd_send: "safe w \<Longrightarrow> ens (jd_send_data d w) safe"
  unfolding jd_send_data_def by (intro ens_bind_any ens_if ens_Some) simp_all

lemma safe_ConfigUnBind: "safe w \<Longrightarrow> safe (ZC_ConfigUnBind f w)"
  unfolding ZC_ConfigUnBind_def by (simp, erule safe_cfg) (simp add: wf_db_def)

lemma ens_UartProcess:
  assumes "safe w"
  shows "ens (UartProcess S d n w) safe"
  unfolding UartProcess_def Let_def
  by (intro ens_bind_any ens_if ens_Some ens_bind [OF ens_send_report] ens_jd_send)
    (auto simp: assms safe_ConfigUnBind intro: safe_upds)

lemma ens_UartRecv:
  assumes "safe w"
  shows "ens (UartRecv S b w) safe"
proof -
  have d: "safe (w\<lparr>device := d\<rparr>)" for d
    using safe_upds(8) [OF assms, of "\<lambda>_. d"] by simp
  have u: "ens (UartProcess S m n (w\<lparr>device := d\<rparr>) \<bind> (\<lambda>w. Some (upd_dev uart_unknown w))) safe" for m n d
    by (rule ens_bind [OF ens_UartProcess [OF d]], rule ens_Some, erule safe_upds(8))
  show ?thesis unfolding UartRecv_def Let_def
    by (rule ens_if; (rule ens_if)?; (rule ens_bind_any)?; (rule ens_if)?; (rule ens_if)?; (rule u)?; (rule ens_Some)?)
      (simp_all add: assms d safe_upds)
qed

lemma ens_uart_bytes: "safe w \<Longrightarrow> ens (uart_bytes S bs w) safe"
proof (induction bs arbitrary: w)
  case (Cons b bs)
  show ?case unfolding uart_bytes.simps by (rule ens_bind [OF ens_UartRecv [OF Cons.prems]]) (rule Cons.IH)
qed (simp add: ens_Some)

lemma ens_build_message: "safe w \<Longrightarrow> ens (build_message t v w) safe"
  unfolding build_message_def Let_def by (intro ens_bind_any ens_if ens_Some) simp_all

lemma ens_json: "safe w \<Longrightarrow> ens (json_to_binary i v w) safe"
  unfolding json_to_binary_def by (intro ens_if ens_build_message ens_Some)

subsection \<open>The tasks\<close>

lemma ens_SendBc:
  assumes "safe w"
  shows "ens (ZC_SendBc w) safe"
proof -
  let ?w = "bc_update (\<lambda>b. b\<lparr>sleepcount := sleepcount b + 1\<rparr>) w"
  have w: "safe (?w\<lparr>g_u8MsgBuildBuffer := m\<rparr>)" if "EVENT_BuildBcMsg (g_u8MsgBuildBuffer ?w) ?w = Some (m, n)" for m n
  proof -
    have "length m = length (g_u8MsgBuildBuffer w)"
      using that by (auto simp: EVENT_BuildBcMsg_def bind_eq_Some_conv Let_def dest!: length_wr)
    then show ?thesis by (intro calm_safe [OF safe_build] safe_upds assms) simp
  qed
  have u: "safe x \<Longrightarrow> ens (if c then HF_SendUdpData fd m n x \<bind> (\<lambda>w. Some (upd_con (u16SendBcNum_update f) w))
      else Some x) safe" for x c fd m n f
    by (auto simp: HF_SendUdpData_def ens_def bind_eq_Some_conv safe_upds)
  show ?thesis unfolding ZC_SendBc_def Let_def
  proof (rule ens_if, rule ens_Some, rule safe_upds [OF assms], rule ens_if, goal_cases)
    case 1
    show ?case
      by (rule ens_bind_any, clarify, rule ens_bind [OF u [OF w]], assumption, rule ens_Some, erule safe_upds)
  qed (simp add: ens_Some safe_upds assms)
qed

lemma ens_Cloudfunc:
  assumes "safe w"
  shows "ens (HF_Cloudfunc S w) safe"
proof -
  have r: "safe x \<Longrightarrow> ens (PCT_ReconnectCloud S t x \<bind> (\<lambda>w. Some (uart_idle w))) safe" for x t
    by (rule ens_bind [OF ens_Reconnect]) (simp_all add: ens_Some uart_idle_def safe_upds)
  show ?thesis unfolding HF_Cloudfunc_def Let_def sdk_rand_call_def case_prod_conv
    by (rule ens_bind [OF PCT_Run_safe [OF assms]], rule ens_bind [OF _ ens_SendBc], rule ens_if)
      (auto intro!: r MSG_SendDataToCloud_safe)
qed

lemma ens_CloudRecvfunc:
  assumes "safe w" "\<forall>d. r = Some d \<longrightarrow> length d \<le> HF_MAX_SOCKET_LEN"
  shows "ens (HF_CloudRecvfunc S r w) safe"
proof -
  have "ens (map_option uart_idle (PCT_DisConnectCloud w)) safe"
    using ens_DisConnect [OF assms(1)] by (auto simp: ens_def uart_idle_def safe_upds idle_def)
  with assms show ?thesis unfolding HF_CloudRecvfunc_def
    by (auto intro!: ens_if ens_Some MSG_RecvDataFromCloud_safe split: option.split)
qed

lemma safe_BcInit: "safe w \<Longrightarrow> safe (HF_BcInit S w)"
  by (simp add: HF_BcInit_def Let_def safe_upds)

lemma ens_HF_Sleep:
  assumes "safe w"
  shows "ens (HF_Sleep w) safe"
proof -
  have c: "safe x \<Longrightarrow> safe (upd_con (struClientConnection_update f) x)" for x f
    by (simp add: inv_defs)
  show ?thesis unfolding HF_Sleep_def Let_def
    by (rule ens_bind [OF ens_Sleep], simp add: assms c safe_upds, rule ens_Some) (simp add: uart_idle_def safe_upds)
qed

lemma ens_event: "safe w \<Longrightarrow> ens (hfsys_event_callback S e w) safe"
proof (cases e)
  case HFE_WIFI_STA_DISCONNECTED
  assume "safe w"
  with ens_HF_Sleep [of w] show ?thesis
    by (auto simp: hfsys_event_callback_def HFE_WIFI_STA_DISCONNECTED ens_def safe_BcInit)
qed (simp_all add: hfsys_event_callback_def HF_WakeUp_def ens_WakeUp safe_upds ens_Some)

subsection \<open>Reachable states\<close>

text \<open>Documented behaviour of the SDK: a flash read and the answer to an AT command fill the buffer
  that the firmware passes.\<close>

definition sdk_wf :: "sdk \<Rightarrow> bool" where
  "sdk_wf S \<longleftrightarrow> (\<forall>es off n. length (sdk_flash_read S es off n) = n) \<and> (\<forall>es. length (sdk_at_reply S es) = 16)"

lemma PCT_Init_safe: "safe (PCT_Init zero_world)"
  by (auto simp: PCT_Init_def Let_def inv_defs TIMER_Init_def zero_world_def zero_controller_def zero_db_def zero_buffer_def
      ZC_ConfigInitPara_def init_connection_def idx_ok_def buf_idle_def rbuf_inv_def MSG_Init_def wf_db_def wf_reg_def
      g_u8DefaultCloudKey_def g_u8DefaultTokenKey_def default_cloud_addr_def zero_connection_def)

lemma ConfigDB_of_wf: "length bs = 368 \<Longrightarrow> wf_db (ConfigDB_of bs)"
  by (simp add: ConfigDB_of_def wf_db_def length_fld)

lemma start_safe:
  assumes "sdk_wf S"
  shows "safe (start S)"
proof -
  let ?w0 = "uart_idle (PCT_Init (upd_dev (SUB_DOMAIN_ID_update (\<lambda>_. 287)) zero_world))"
  have "PCT_Init (upd_dev (SUB_DOMAIN_ID_update (\<lambda>_. 287)) zero_world) =
      upd_dev (SUB_DOMAIN_ID_update (\<lambda>_. 287)) (PCT_Init zero_world)"
    by (simp add: PCT_Init_def MSG_Init_def TIMER_Init_def ZC_ConfigInitPara_def zero_world_def)
  then have 0: "safe ?w0" using safe_upds [OF PCT_Init_safe] by (simp add: uart_idle_def safe_upds)
  then have 1: "safe (HF_ReadDataFormFlash S ?w0)"
    using assms ConfigDB_of_wf [of "sdk_flash_read S (io ?w0) 0 368"]
    by (auto simp: HF_ReadDataFormFlash_def sdk_wf_def inv_defs)
  have "safe (HF_Init S zero_world)"
    using assms 1 by (simp add: HF_Init_def Let_def sdk_wf_def inv_defs uart_idle_def [symmetric] wf_reg_def wf_db_def
        g_u8ModuleKey_def le64_bytes_def default_cloud_addr_def)
  then show ?thesis by (simp add: start_def HF_JdInit_def HF_BcInit_def Let_def safe_upds)
qed

lemma step_safe:
  assumes "step S w w'" "safe w"
  shows "safe w'"
  using assms(1)
proof cases
  case (cloud)
  then show ?thesis using ensD [OF ens_Cloudfunc] assms(2) by blast
next
  case (recv r)
  then show ?thesis using ensD [OF ens_CloudRecvfunc] assms(2) by blast
next
  case (timer i)
  then show ?thesis using ensD [OF HF_timer_callback_safe] assms(2) by blast
next
  case (uart bs)
  then show ?thesis using ensD [OF ens_uart_bytes] assms(2) by (auto simp: uart_recv_callback_def split: if_splits)
next
  case (event e)
  then show ?thesis using ensD [OF ens_event] assms(2) by blast
next
  case (command i v)
  then show ?thesis using ensD [OF ens_json] assms(2) by blast
qed

lemma reach_safe: "reach S w \<Longrightarrow> sdk_wf S \<Longrightarrow> safe w"
  by (induction rule: reach.induct) (simp_all add: start_safe step_safe)

end
