(* ===== verification/Total.thy ===== *)
theory Total
  imports SysSafe
begin

text \<open>
  Definedness: with a well-formed message in the receive buffer, no handler of the controller and no
  timer leaves the memory of the program. The hypotheses on the message are those the firmware
  relies on and does not check.
\<close>

subsection \<open>The calculus\<close>

definition defd :: "'a option \<Rightarrow> bool" where
  "defd m \<longleftrightarrow> m \<noteq> None"

named_theorems defd_rules \<open>definedness, structural rules\<close>

lemma defd_Some [simp, defd_rules]: "defd (Some x)"
  by (simp add: defd_def)

lemma defdD: "defd m \<Longrightarrow> \<exists>x. m = Some x"
  by (cases m) (simp_all add: defd_def)

lemma defd_bind: "defd m \<Longrightarrow> ens m Q \<Longrightarrow> (\<And>x. Q x \<Longrightarrow> defd (f x)) \<Longrightarrow> defd (m \<bind> f)"
  by (cases m) (simp_all add: defd_def ens_def)

lemma defd_bind_any: "defd m \<Longrightarrow> (\<And>x. m = Some x \<Longrightarrow> defd (f x)) \<Longrightarrow> defd (m \<bind> f)"
  by (cases m) (simp_all add: defd_def)

lemma defd_if [defd_rules]: "(b \<Longrightarrow> defd x) \<Longrightarrow> (\<not> b \<Longrightarrow> defd y) \<Longrightarrow> defd (if b then x else y)"
  by simp

lemma defd_rd [simp]: "defd (rd m off n) \<longleftrightarrow> off + n \<le> length m"
  by (simp add: defd_def rd_def)

lemma defd_wr [simp]: "defd (wr m off bs) \<longleftrightarrow> off + length bs \<le> length m"
  by (simp add: defd_def wr_def)

lemma defd_memcpy [simp]: "defd (memcpy d off s n) \<longleftrightarrow> n \<le> length s \<and> off + n \<le> length d"
  by (auto simp: defd_def memcpy_def rd_def wr_def)

lemma defd_rd_MsgHead [simp]: "defd (rd_MsgHead m off) \<longleftrightarrow> off + 8 \<le> length m"
  by (simp add: defd_def rd_MsgHead_def rd_def)

lemma defd_nth_opt [simp]: "defd (nth_opt xs i) \<longleftrightarrow> i < length xs"
  by (simp add: defd_def nth_opt_def)

subsection \<open>Sending\<close>

lemma defd_BuildMsg:
  assumes "unat n \<le> length p" "off + 8 + unat n \<le> length m"
  shows "defd (EVENT_BuildMsg c i m off p n)"
  unfolding EVENT_BuildMsg_def Let_def
  using assms by (intro defd_bind_any) (auto dest: length_wr)

lemma defd_notify:
  assumes "length (g_u8MsgBuildBuffer w) = 424" "c < 64"
  shows "defd (PCT_SendNotifyMsg c w)"
  unfolding PCT_SendNotifyMsg_def
proof (rule defd_bind_any, goal_cases)
  case 1
  show ?case using assms by (intro defd_BuildMsg) simp_all
next
  case (2 x)
  obtain m n where x: "x = (m, n)" by fastforce
  from 2 x assms(1) have m: "length m = 424"
    and h: "rd_MsgHead m 0 = Some \<lparr>Version = ZC_VERSION, MsgId = 0, MsgCode = c, OptNum = 0,
      Payloadlen = ZC_HTONS 0, TotalMsgCrc = crc_bytes (crc16_ccitt [])\<rparr>"
    by (auto simp: EVENT_BuildMsg_def Let_def bind_eq_Some_conv wr_eq_Some memcpy_eq_Some rd_eq_Some rd_MsgHead_def
        rd_def)
  show ?case using assms(2) by (auto simp: x HF_SendDataToMoudle_def AC_RecvMessage_def h dest: leD)
qed

lemma unat_add_small: "unat (a :: u16) + unat b < 65536 \<Longrightarrow> unat (a + b) = unat a + unat b"
  by (simp add: unat_word_ariths)

text \<open>A message under AES: it goes out, or is refused with an error.\<close>

lemma defd_AesEncrypt:
  assumes "session_keys w" "soff + unat n \<le> length src" "unat n \<le> 1000"
    and "doff + unat n + 16 \<le> length dst + unat n mod 16"
  shows "defd (SEC_AesEncrypt dst doff src soff n cl w)"
proof (cases "key_recv w = PCT_KEY_RECVED")
  case True
  from SEC_Aes_roundtrip [OF assms(1) True assms(2,3)] obtain ct where
    ct: "length ct = unat n + (16 - unat n mod 16)"
    "\<forall>dst doff cl. doff + length ct \<le> length dst \<longrightarrow> SEC_AesEncrypt dst doff src soff n cl w =
       Some (ZC_RET_OK, of_nat (length ct), take doff dst @ ct @ drop (doff + length ct) dst)" by blast
  have "unat n mod 16 < 16" by simp
  then have "doff + length ct \<le> length dst" using ct(1) assms(4) by linarith
  then show ?thesis using ct(2) by (simp add: defd_def)
qed (simp add: SEC_AesEncrypt_def defd_def)

text \<open>Documented behaviour of \<^verbatim>\<open>rsa_pkcs1_encrypt\<close>: it writes one block of the length of the modulus.\<close>

definition rsa_ok :: "sdk \<Rightarrow> bool" where
  "rsa_ok S \<longleftrightarrow> (\<forall>es key p. length (snd (sdk_rsa_encrypt S es key p)) \<le> 32)"

lemma defd_pkcs1:
  "rsa_ok S \<Longrightarrow> soff + n \<le> length src \<Longrightarrow> doff + 32 \<le> length dst \<Longrightarrow> defd (rsa_pkcs1_encrypt S key src soff n dst doff w)"
  unfolding rsa_pkcs1_encrypt_def rsa_ok_def case_prod_unfold Let_def
  by (intro defd_bind_any) (auto intro: order_trans [OF add_left_mono])

lemma defd_rsa_loop:
  assumes "rsa_ok S" "soff + len \<le> length src"
    and "doff + unat clen + 32 * ((len - readlen) div 21) \<le> length dst"
    and "unat clen + 32 * ((len - readlen) div 21) < 65536"
  shows "defd (rsa_encrypt_loop S key src soff len ret readlen clen dst doff w) \<and>
    ens (rsa_encrypt_loop S key src soff len ret readlen clen dst doff w) (\<lambda>(r, k, c, d, w').
      unat c \<le> unat clen + 32 * ((len - readlen) div 21) \<and> length d = length dst)"
  using assms
proof (induction S key src soff len ret readlen clen dst doff w rule: rsa_encrypt_loop.induct)
  case (1 S key src soff len ret readlen clen dst doff w)
  show ?case
  proof (cases "readlen + 21 \<le> len")
    case False
    then show ?thesis by (subst (1 2) rsa_encrypt_loop.simps) (simp add: ens_def)
  next
    case True
    have k: "(len - readlen) div 21 = Suc ((len - (readlen + 21)) div 21)"
    proof -
      have "len - readlen = (len - (readlen + 21)) + 21" using True by simp
      then show ?thesis by (simp only: div_add_self2)
    qed
    have "defd (rsa_pkcs1_encrypt S key src (soff + readlen) 21 dst (doff + unat clen) w)"
      using "1.prems" True k by (intro defd_pkcs1) simp_all
    then obtain r d w1 where c: "rsa_pkcs1_encrypt S key src (soff + readlen) 21 dst (doff + unat clen) w = Some (r, d, w1)"
      by (auto simp: defd_def)
    have d: "length d = length dst" using rsa_pkcs1_encrypt_Some [OF c] by simp
    have c32: "unat (clen + 32) = unat clen + 32" using "1.prems"(4) k by (subst unat_add_small) simp_all
    have IH: "r = 0 \<Longrightarrow> defd (rsa_encrypt_loop S key src soff len r (readlen + 21) (clen + 32) d doff w1) \<and>
      ens (rsa_encrypt_loop S key src soff len r (readlen + 21) (clen + 32) d doff w1) (\<lambda>(r, k, c, d', w').
        unat c \<le> unat (clen + 32) + 32 * ((len - (readlen + 21)) div 21) \<and> length d' = length d)"
      using "1.IH" [OF True c refl refl _ "1.prems"(1,2)] "1.prems"(3,4) k c32 d by simp
    show ?thesis
    proof (cases "r = 0")
      case True
      with IH c32 k d show ?thesis using \<open>readlen + 21 \<le> len\<close>
        by (subst (1 2) rsa_encrypt_loop.simps) (simp add: c add.assoc)
    next
      case False
      with d show ?thesis using \<open>readlen + 21 \<le> len\<close>
        by (subst (1 2) rsa_encrypt_loop.simps) (simp add: c ens_def)
    qed
  qed
qed

lemma defd_EncryptTextByRsa:
  assumes "rsa_ok S" "wf_db (g_struZcConfigDb w)" "soff + unat n \<le> length src"
    and "doff + 32 * (unat n div 21) + 32 \<le> length dst" "length dst \<le> 1000"
  shows "defd (SEC_EncryptTextByRsa S dst doff src soff n w)"
proof -
  have k: "length (u8CloudKey (struCloudInfo (g_struZcConfigDb w))) = 36" using assms(2) by (simp add: wf_db_def)
  note loop = defd_rsa_loop [OF assms(1,3), of doff 0 0 dst]
  show ?thesis
    unfolding SEC_EncryptTextByRsa_def ZC_GetStoreInfor_def SEC_InitRsaContextWithPublicKey_def
  proof (rule defd_bind_any, simp, rule defd_bind_any, goal_cases)
    case (1 x)
    then show ?case using k by (auto intro!: defd_bind_any)
  next
    case (2 x key)
    show ?case
    proof (rule defd_if, goal_cases)
      case 1
      show ?case
      proof (rule defd_bind [OF conjunct1 [OF loop] conjunct2 [OF loop]], goal_cases)
        case (5 y)
        then show ?case using assms(4) order_trans [OF assms(3)]
          by (auto intro!: defd_if defd_bind_any defd_pkcs1 assms(1) split: prod.splits)
      qed (use assms in auto)
    next
      case 2
      then show ?case using assms by (intro defd_bind_any defd_pkcs1) auto
    qed
  qed
qed

lemma ens_EncryptTextByRsa_bound:
  assumes "rsa_ok S" "wf_db (g_struZcConfigDb w)" "soff + unat n \<le> length src"
    and "doff + 32 * (unat n div 21) + 32 \<le> length dst" "length dst \<le> 1000"
  shows "ens (SEC_EncryptTextByRsa S dst doff src soff n w) (\<lambda>(r, c, m, w'). doff + unat c \<le> length dst)"
proof -
  note loop = defd_rsa_loop [OF assms(1,3), of doff 0 0 dst]
  show ?thesis unfolding SEC_EncryptTextByRsa_def
  proof (rule ens_bind_any, rule ens_bind_any, rule ens_if, goal_cases)
    case (1 k key)
    show ?case
    proof (rule ens_bind [OF conjunct2 [OF loop]], goal_cases)
      case (3 x)
      obtain r rl c d w1 where x: "x = (r, rl, c, d, w1)" by (metis prod_cases5)
      have c: "unat c \<le> 32 * (unat n div 21)" "length d = length dst" using 3 by (simp_all add: x)
      have c32: "unat (c + 32) = unat c + 32" using c(1) assms(4,5) by (subst unat_add_small) simp_all
      show ?case unfolding x case_prod_conv
      proof (rule ens_if, goal_cases)
        case 1
        show ?case by (rule ens_bind_any) (use c c32 assms in \<open>auto simp: ens_def\<close>)
      qed (use c assms in \<open>auto simp: ens_def\<close>)
    qed (use assms in auto)
  next
    case (2 k key)
    show ?case by (rule ens_bind_any) (use assms(4) in \<open>auto simp: ens_def\<close>)
  qed
qed

lemma unat_mod_16_add: "unat (n :: u16) \<le> 1000 \<Longrightarrow> unat (n + 4 + of_nat (16 - unat n mod 16)) = unat n + 4 + (16 - unat n mod 16)"
proof -
  assume n: "unat n \<le> 1000"
  have "n + 4 + of_nat (16 - unat n mod 16) = of_nat (unat n + 4 + (16 - unat n mod 16))" by simp
  then show ?thesis using n by (simp only: unat_of_nat) simp
qed

text \<open>The frame fits: encryption of a message that passed the length check.\<close>

lemma SEC_Encrypt_total:
  assumes can: "can_send w" and n: "n = ZC_HTONS (u16TotalMsg h)" "poff + unat n \<le> length plain" "unat n \<le> 1000"
    and rsa: "u8SecType h = ZC_SEC_ALG_RSA \<Longrightarrow> rsa_ok S \<and> wf_db (g_struZcConfigDb w) \<and> unat n \<le> 250"
    and pl: "SEC_PaddingCheck (u8SecType h) n w = (0, pl)" "unat (n + 4 + pl) \<le> 424"
  shows "defd (SEC_Encrypt S h (u8MsgBuffer (g_struSendBuffer w)) 4 plain poff cl w) \<and>
    ens (SEC_Encrypt S h (u8MsgBuffer (g_struSendBuffer w)) 4 plain poff cl w)
      (\<lambda>(r, h', k, m, w'). r = ZC_RET_ERROR \<or> unat k + 4 \<le> 424)"
proof -
  let ?d = "u8MsgBuffer (g_struSendBuffer w)"
  have d: "length ?d = 424" "session_keys w" using can by (simp_all add: can_send_def)
  have n4: "unat (n + 4) = unat n + 4" using n(3) by (subst unat_add_small) simp_all
  consider (none) "u32SecSwitch (struSwitchInfo (g_struZcConfigDb w)) = 0 \<or> u8SecType h = 0"
    | (rsa) "u32SecSwitch (struSwitchInfo (g_struZcConfigDb w)) \<noteq> 0" "u8SecType h = 1"
    | (aes) "u32SecSwitch (struSwitchInfo (g_struZcConfigDb w)) \<noteq> 0" "u8SecType h = 2"
    | (other) "u32SecSwitch (struSwitchInfo (g_struZcConfigDb w)) \<noteq> 0" "u8SecType h \<notin> {0, 1, 2}" by auto
  then show ?thesis
  proof cases
    case none
    then have "pl = 0" using pl(1) by (auto simp: SEC_PaddingCheck_def sec_flag_def Let_def)
    then have "4 + unat n \<le> 424" using pl(2) n4 by simp
    with none n d show ?thesis
      by (auto simp: SEC_Encrypt_def Let_def defd_def rd_def wr_def ens_def bind_eq_Some_conv)
  next
    case rsa': rsa
    with rsa have r: "rsa_ok S" "wf_db (g_struZcConfigDb w)" "unat n \<le> 250" by simp_all
    then have "unat n div 21 \<le> 11" by simp
    then have b: "4 + 32 * (unat n div 21) + 32 \<le> length ?d" "length ?d \<le> 1000" using d by linarith+
    from defdD [OF defd_EncryptTextByRsa [OF r(1,2) n(2) b]] obtain a k m w' where
      e: "SEC_EncryptTextByRsa S ?d 4 plain poff n w = Some (a, k, m, w')" by (metis prod_cases4)
    have "4 + unat k \<le> 424" using ensD [OF ens_EncryptTextByRsa_bound [OF r(1,2) n(2) b] e] d by simp
    with rsa' e n(1) show ?thesis by (auto simp: SEC_Encrypt_def Let_def defd_def ens_def)
  next
    case aes
    then have p: "pl = of_nat (16 - unat n mod 16)"
      using pl(1) unat_aes_padding [OF sec_flag_aes, of w n] by simp
    have fit: "unat n + 4 + (16 - unat n mod 16) \<le> 424"
      using pl(2) unat_mod_16_add [OF n(3)] unfolding p by simp
    have e: "defd (SEC_AesEncrypt ?d 4 plain poff n cl w)"
      by (rule defd_AesEncrypt [OF d(2) n(2,3)]) (use fit d(1) mod_less_divisor [of 16 "unat n"] in linarith)
    have bd: "r = 1 \<or> unat k + 4 \<le> 424" if s: "SEC_AesEncrypt ?d 4 plain poff n cl w = Some (r, k, m)" for r k m
    proof (cases "key_recv w = PCT_KEY_RECVED")
      case True
      with s obtain ct v where
        c: "AES_CBC_Encrypt (drop poff plain) (ucast n) (u8SessionKey (con w)) 16 (IvSend (con w)) = Some (ct, v)" "k = ucast v"
        by (auto simp: SEC_AesEncrypt_def bind_eq_Some_conv)
      from AES_CBC_Encrypt_length [OF c(1)] d(2) have "v = of_nat (length ct)" "length ct = unat n + (16 - unat n mod 16)"
        by (simp_all add: session_keys_def)
      then have k: "k = of_nat (length ct)" "length ct + 4 \<le> 424" using c(2) fit by (simp_all only: ucast_of_nat_32_16)
      have "unat k = length ct" unfolding k(1) using k(2) by (simp only: unat_of_nat) simp
      with k(2) show ?thesis by simp
    qed (use s in \<open>auto simp: SEC_AesEncrypt_def\<close>)
    from aes e bd n(1) show ?thesis
      by (auto simp: SEC_Encrypt_def Let_def defd_def ens_def bind_eq_Some_conv)
  next
    case other
    then show ?thesis by (auto simp: SEC_Encrypt_def Let_def ens_def)
  qed
qed

lemma defd_SendMsg:
  assumes can: "can_send w" "u8Status (g_struSendBuffer w) = MSG_BUFFER_IDLE"
    and n: "poff + unat (ZC_HTONS (u16TotalMsg h)) \<le> length plain" "unat (ZC_HTONS (u16TotalMsg h)) \<le> 1000"
    and rsa: "u8SecType h = ZC_SEC_ALG_RSA \<Longrightarrow>
      rsa_ok S \<and> wf_db (g_struZcConfigDb w) \<and> unat (ZC_HTONS (u16TotalMsg h)) \<le> 250"
  shows "defd (PCT_SendMsgToCloud S h plain poff w)"
proof -
  obtain pl where pc: "SEC_PaddingCheck (u8SecType h) (ZC_HTONS (u16TotalMsg h)) w = (0, pl)"
    by (simp add: SEC_PaddingCheck_def Let_def)
  show ?thesis
  proof (cases "424 < unat (ZC_HTONS (u16TotalMsg h) + 4 + pl)")
    case True
    then show ?thesis by (simp add: PCT_SendMsgToCloud_def pc)
  next
    case False
    note t = SEC_Encrypt_total [OF can(1) refl n rsa pc, of "ZC_HTONS (u16TotalMsg h) + pl"]
    with False obtain r h' k m w' where
      e: "SEC_Encrypt S h (u8MsgBuffer (g_struSendBuffer w)) 4 plain poff (ZC_HTONS (u16TotalMsg h) + pl) w = Some (r, h', k, m, w')"
      and b: "r = 1 \<or> unat k + 4 \<le> 424"
      by (auto simp: defd_def ens_def)
    from can have l: "length m = 424" using SEC_Encrypt_Some [OF e] by (simp add: can_send_def)
    have u: "unat (ucast (ucast k + 4 :: u32) :: u16) = unat k + 4" if "unat k + 4 \<le> 424"
    proof -
      have "(ucast k + 4 :: u32) = of_nat (unat k + 4)"
        using unat_u16_lt [of k] by (simp add: word_unat_eq_iff unat_of_nat unat_word_ariths take_bit_nat_eq_self_iff)
      then show ?thesis using that by (simp only: ucast_of_nat_32_16 unat_of_nat) simp
    qed
    show ?thesis
    proof (cases "r = 1")
      case True
      with False can e show ?thesis by (simp add: PCT_SendMsgToCloud_def pc Let_def)
    next
      case nr: False
      with b have kb: "unat k + 4 \<le> 424" by simp
      obtain m' where m': "wr m 0 (SecHead_bytes (h'\<lparr>u16TotalMsg := ZC_HTONS k\<rparr>)) = Some m'"
        using l by (auto simp: wr_def)
      have "rd m' 0 (unat (ucast (ucast k + 4 :: u32) :: u16)) = Some (take (unat k + 4) m')"
        using length_wr [OF m'] l kb u [OF kb] by (simp add: rd_def)
      with False nr can e m' show ?thesis by (simp add: PCT_SendMsgToCloud_def pc Let_def defd_def)
    qed
  qed
qed

subsection \<open>The operations of the controller\<close>

text \<open>What every operation needs.\<close>

definition sendable :: "world \<Rightarrow> bool" where
  "sendable w \<longleftrightarrow> can_send w \<and> u8Status (g_struSendBuffer w) = MSG_BUFFER_IDLE \<and> length (g_u8MsgBuildBuffer w) = 424"

lemma ginv_sendable: "ginv w \<Longrightarrow> sendable w"
  by (simp add: ginv_def sendable_def can_send_def bufs_ok_def store_ok_def)

lemma safe_sendable: "safe w \<Longrightarrow> sendable w" "idle w \<Longrightarrow> sendable w"
  by (simp_all add: ginv_sendable safe_ginv idle_safe)

lemma sendable_outbound: "outbound w w' \<Longrightarrow> sendable w \<Longrightarrow> sendable w'"
  using can_send_outbound [of w w'] outboundD [of w w'] by (simp add: sendable_def)

lemma ZC_HTONS_head [simp]: "ZC_HTONS (u16TotalMsg (sec_head S t n w)) = n" "u8SecType (sec_head S t n w) = t"
  by (simp_all add: sec_head_def)

lemma defd_send_aes:
  "sendable w \<Longrightarrow> poff + unat n \<le> length m \<Longrightarrow> unat n \<le> 1000 \<Longrightarrow>
     defd (PCT_SendMsgToCloud S (sec_head S ZC_SEC_ALG_AES n w') m poff w)"
  by (rule defd_SendMsg) (simp_all add: sendable_def)

lemma EVENT_BuildMsg_result:
  "EVENT_BuildMsg c i m off p n = Some (m', k) \<Longrightarrow> k = 8 + n \<and> length m' = length m \<and> off + 8 + unat n \<le> length m"
  by (auto simp: EVENT_BuildMsg_def bind_eq_Some_conv Let_def wr_eq_Some memcpy_eq_Some)

lemma unat_8_add: "unat (n :: u16) \<le> 1000 \<Longrightarrow> unat (8 + n) = 8 + unat n"
  by (subst unat_add_small) simp_all

lemma EVENT_BuildEmptyMsg_8: "\<exists>m. EVENT_BuildEmptyMsg i (replicate 8 x) 0 = Some (m, 8) \<and> length m = 8"
  by (simp add: EVENT_BuildEmptyMsg_def wr_def)

lemma EVENT_BuildHeartMsg_8: "\<exists>m. EVENT_BuildHeartMsg (replicate 8 x) 0 = Some (m, 8) \<and> length m = 8"
  by (simp add: EVENT_BuildHeartMsg_def wr_def)

text \<open>A message built and sent; what follows is total.\<close>

lemma defd_send_then:
  assumes "sendable w" "poff + unat n \<le> length m" "unat n \<le> 1000" "\<And>r w'. defd (f (r, w'))"
  shows "defd (PCT_SendMsgToCloud S (sec_head S ZC_SEC_ALG_AES n w') m poff w \<bind> f)"
  by (rule defd_bind_any [OF defd_send_aes [OF assms(1-3)]]) (use assms(4) in \<open>auto split: prod.split\<close>)

lemma defd_empty:
  assumes "sendable w"
  shows "defd (PCT_SendEmptyMsg S i ZC_SEC_ALG_AES w)"
proof -
  obtain m where "EVENT_BuildEmptyMsg i (replicate 8 (junk8 S w)) 0 = Some (m, 8)" "length m = 8"
    using EVENT_BuildEmptyMsg_8 by blast
  with assms show ?thesis by (simp add: PCT_SendEmptyMsg_def defd_send_then)
qed

lemma defd_heart:
  assumes "sendable w"
  shows "defd (PCT_SendHeartMsg S w)"
proof -
  obtain m where "EVENT_BuildHeartMsg (replicate 8 (junk8 S w)) 0 = Some (m, 8)" "length m = 8"
    using EVENT_BuildHeartMsg_8 by blast
  with assms show ?thesis by (simp add: PCT_SendHeartMsg_def defd_send_then)
qed

lemma defd_unbind:
  assumes "sendable w"
  shows "defd (PCT_SendUnbindMsg S w)"
proof -
  from defdD [OF defd_BuildMsg [of 0 "[]" 0 "replicate 8 (junk8 S w)" 36 0]] obtain m k where
    m: "EVENT_BuildMsg 36 0 (replicate 8 (junk8 S w)) 0 [] 0 = Some (m, k)" by auto
  from EVENT_BuildMsg_result [OF m] have "k = 8" "length m = 8" by simp_all
  with assms m show ?thesis by (simp add: PCT_SendUnbindMsg_def sdk_rand_call_def defd_send_then)
qed

lemma defd_build_and_send:
  assumes "sendable w" "unat n \<le> length p" "unat n \<le> 400"
  shows "defd (build_and_send S c i p n w)"
proof -
  have "8 + unat n \<le> length (g_u8MsgBuildBuffer w)" using assms by (simp add: sendable_def)
  from defdD [OF defd_BuildMsg [OF assms(2), of 0]] this obtain m k where
    m: "EVENT_BuildMsg c i (g_u8MsgBuildBuffer w) 0 p n = Some (m, k)" by fastforce
  from EVENT_BuildMsg_result [OF m] assms have r: "unat k = 8 + unat n" "length m = 424"
    by (simp_all add: unat_8_add sendable_def)
  then have "sendable (w\<lparr>g_u8MsgBuildBuffer := m\<rparr>)"
    using assms(1) by (intro sendable_outbound [OF outbound_build]) (simp_all add: sendable_def)
  with m r assms(3) show ?thesis by (simp add: build_and_send_def Let_def defd_send_then)
qed

lemma defd_error: "sendable w \<Longrightarrow> defd (PCT_SendErrorMsg S i [] 0 w)"
  unfolding PCT_SendErrorMsg_def by (rule defd_build_and_send) simp_all

lemma defd_ack: "sendable w \<Longrightarrow> defd (PCT_SendAckToCloud S i w)"
  unfolding PCT_SendAckToCloud_def by (rule defd_build_and_send) simp_all

lemma defd_notify': "sendable w \<Longrightarrow> c < 64 \<Longrightarrow> defd (PCT_SendNotifyMsg c w)"
  by (rule defd_notify) (simp_all add: sendable_def)

lemma defd_DisConnect: "safe w \<Longrightarrow> defd (PCT_DisConnectCloud w)"
  unfolding PCT_DisConnectCloud_def
  by (rule defd_notify) (simp_all add: inv_defs)

lemma defd_StopTimer: "ginv w \<Longrightarrow> unat i < 5 \<Longrightarrow> defd (TIMER_StopTimer i w)"
  using TIMER_StopTimer_defined [of w i] by (simp add: defd_def ginv_def timers_ok_def)

lemma idx_lt: "idx_ok i \<Longrightarrow> i \<noteq> PCT_TIMER_INVAILD \<Longrightarrow> unat i < 5"
  by (auto simp: idx_ok_def)

lemma ginv_idx:
  "ginv w \<Longrightarrow> idx_ok (u8ReconnectTimer (con w)) \<and> unat (u8AccessTimer (con w)) < 5 \<and> idx_ok (u8SendUnbindTimer (con w)) \<and>
     idx_ok (u8HeartTimer (con w)) \<and> idx_ok (u8SendMoudleTimer (con w)) \<and> idx_ok (u8RegisterTimer (con w))"
  by (simp add: ginv_def timers_ok_def)

lemma defd_stop_heart: "ginv w \<Longrightarrow> defd (stop_heart w)"
  unfolding stop_heart_def by (intro defd_rules defd_StopTimer idx_lt) (use ginv_idx in auto)

subsection \<open>Messages\<close>

text \<open>A message whose announced payload lies in its buffer.\<close>

definition msg_fits :: "bytes \<Rightarrow> bool" where
  "msg_fits m \<longleftrightarrow> length m = MSG_BUFFER_MAXLEN \<and> 8 + unat (ZC_HTONS (Payloadlen (MsgHead_of m))) \<le> MSG_BUFFER_MAXLEN"

lemma msg_fits_head:
  "msg_fits m \<Longrightarrow> rd_MsgHead m 0 = Some h \<Longrightarrow> h = MsgHead_of m \<and> 8 + unat (ZC_HTONS (Payloadlen h)) \<le> 424 \<and> length m = 424"
  by (auto simp: msg_fits_def rd_MsgHead_def rd_eq_Some)

lemma defd_to_device: "msg_fits m \<Longrightarrow> defd (HF_SendDataToMoudle m 0 n w)"
proof -
  assume f: "msg_fits m"
  then have h: "rd_MsgHead m 0 = Some (MsgHead_of m)" by (simp add: msg_fits_def rd_MsgHead_def rd_def)
  show ?thesis using f unfolding HF_SendDataToMoudle_def AC_RecvMessage_def h bind.simps
    by (intro defd_rules) (auto simp: AC_DealEvent_def msg_fits_def intro!: defd_bind_any)
qed

lemma defd_check_payload: "msg_fits m \<Longrightarrow> h = MsgHead_of m \<Longrightarrow> defd (check_payload m h)"
  unfolding check_payload_def PCT_CheckCrc_def by (rule defd_bind_any) (simp_all add: msg_fits_def)

end
