(* ===== verification/TotalRun.thy ===== *)
theory TotalRun
  imports Total
begin

text \<open>Definedness of the handlers, the state machine and the timers.\<close>

subsection \<open>The handshake\<close>

lemma safe_store:
  "safe w \<Longrightarrow> length (u8DeviciId (g_struRegisterInfo w)) = 24 \<and> length (u8EqVersion (g_struRegisterInfo w)) = 4 \<and>
     length (RandMsg (con w)) = 32 \<and> wf_db (g_struZcConfigDb w) \<and> length (g_u8MsgBuildBuffer w) = 424"
  by (simp add: inv_defs wf_reg_def)

lemma defd_AccessMsg1:
  assumes "safe w" "rsa_ok S"
  shows "defd (PCT_SendCloudAccessMsg1 S w)"
  unfolding PCT_SendCloudAccessMsg1_def Let_def
proof (rule defd_bind [where Q = safe], goal_cases)
  case 1
  show ?case using ginv_idx [OF safe_ginv [OF assms(1)]]
    by (intro defd_rules defd_bind_any defd_StopTimer safe_ginv assms idx_lt) simp_all
next
  case 2
  show ?case
    by (intro ens_rules assms ens_bind [OF ens_safe [OF ens_StopTimer assms(1)]] safe_invalidate)
next
  case (3 w1)
  note st = safe_store [OF 3]
  show ?case
  proof (rule defd_bind_any, simp add: ZC_GetStoreInfor_def, rule defd_bind_any, simp add: st, rule defd_bind_any,
      simp add: st ZC_GetStoreInfor_def, goal_cases)
    case (1 d r)
    then show ?case using st by (auto simp: ZC_GetStoreInfor_def)
  next
    case (2 d r di)
    have d: "d = u8DeviciId (g_struRegisterInfo w1)" using 2 by (simp add: ZC_GetStoreInfor_def)
    show ?case
    proof (rule defd_bind_any, simp add: d st, rule defd_bind_any, goal_cases)
      case (1 dm)
      then show ?case using 2 st d by (intro defd_BuildMsg) (auto dest!: length_rd)
    next
      case (2 dm x)
      obtain m n where x: "x = (m, n)" by fastforce
      let ?w = "w1\<lparr>g_u8MsgBuildBuffer := m\<rparr>"
      have m: "n = 64" "length m = 424" using EVENT_BuildMsg_result [OF 2(2) [unfolded x]] st by simp_all
      have w: "safe ?w" using m st by (intro calm_safe [OF safe_build 3]) simp
      have s: "defd (PCT_SendMsgToCloud S \<lparr>u16TotalMsg = ZC_HTONS n, u8SecType = 1, u8Resver = 0x5A\<rparr> m 0 ?w)"
        using safe_sendable(1) [OF w] m assms(2) safe_store [OF w]
        by (intro defd_SendMsg) (simp_all add: sendable_def)
      show ?case unfolding x case_prod_conv
        by (rule defd_bind [OF s ens_calm_send [OF safe_ginv [OF w]]])
          (auto intro!: defd_if defd_DisConnect intro: calm_safe [OF _ w])
    qed
  qed
qed

lemma defd_AccessMsg3:
  assumes "idle w"
  shows "defd (PCT_SendCloudAccessMsg3 S w)"
proof -
  note st = safe_store [OF idle_safe [OF assms]]
  obtain r where r: "rd (RandMsg (con w)) 0 32 = Some r" "length r = 32" using st by (auto simp: rd_def)
  obtain v where v: "rd (u8EqVersion (g_struRegisterInfo w)) 0 4 = Some v" "length v = 4" using st by (auto simp: rd_def)
  let ?w1 = "set_keyRecv 1 w"
  let ?p = "r @ v @ [0, 0, 0, 100] @ [1] @ map (sdk_junk S (io w)) [0..<3]"
  have "length ?p = 44" using r v by simp
  then have "defd (EVENT_BuildMsg 11 1 (g_u8MsgBuildBuffer ?w1) 0 ?p 44)"
    using st by (intro defd_BuildMsg) simp_all
  then obtain m n where b: "EVENT_BuildMsg 11 1 (g_u8MsgBuildBuffer ?w1) 0 ?p 44 = Some (m, n)"
    by (auto simp: defd_def)
  from EVENT_BuildMsg_result [OF b] st have m: "n = 52" "length m = 424" by simp_all
  have "idle ?w1" using assms by (simp add: inv_defs)
  then have "sendable (?w1\<lparr>g_u8MsgBuildBuffer := m\<rparr>)" using safe_sendable(2) [of ?w1] m st
    by (intro sendable_outbound [OF outbound_build]) simp_all
  then show ?thesis using r v b m
    by (simp add: PCT_SendCloudAccessMsg3_def ZC_GetStoreInfor_def Let_def defd_send_then)
qed

lemma defd_same_rand:
  "length m = 424 \<Longrightarrow> safe w \<Longrightarrow> defd (same_rand m w)"
  unfolding same_rand_def by (intro defd_bind_any) (auto simp: safe_store)

lemma defd_RecvMsg2:
  assumes "idle w" "msg_fits m" "h = MsgHead_of m"
  shows "defd (RecvMsg2_body S p m h w)"
proof -
  have l: "length m = 424" using assms(2) by (simp add: msg_fits_def)
  have sa: "defd (ZC_StoreAccessInfo (le32_bytes a) (le16_bytes b) x)" for a b x
    by (simp add: ZC_StoreAccessInfo_def defd_def rd_def)
  show ?thesis unfolding RecvMsg2_body_def
  proof (rule defd_if, rule defd_bind_any [OF defd_check_payload [OF assms(2,3)]], rule defd_if,
      rule defd_DisConnect [OF idle_safe [OF assms(1)]], rule defd_bind [OF _ ens_stop_idle [OF assms(1)]], goal_cases)
    case (1 r)
    show ?case using ginv_idx [OF safe_ginv [OF idle_safe [OF assms(1)]]]
      by (intro defd_StopTimer safe_ginv idle_safe assms) simp
  next
    case (2 r w1)
    show ?case
      by (intro defd_bind_any [OF defd_same_rand [OF l idle_safe [OF 2(4)]]] defd_if defd_DisConnect idle_safe 2(4)
          defd_bind_any [of "rd _ _ _"] defd_AccessMsg3 idle_keys defd_bind [OF sa ens_StoreAccess])
        (auto simp: l dest: length_rd)
  qed simp
qed

lemma defd_RecvMsg4:
  assumes "idle w" "msg_fits m" "h = MsgHead_of m" "key_recv w = PCT_KEY_RECVED"
  shows "defd (RecvMsg4_body p m h w)"
proof -
  have l: "length m = 424" using assms(2) by (simp add: msg_fits_def)
  show ?thesis unfolding RecvMsg4_body_def
  proof (rule defd_if, rule defd_bind_any [OF defd_check_payload [OF assms(2,3)]], rule defd_if,
      rule defd_DisConnect [OF idle_safe [OF assms(1)]], rule defd_bind [OF _ ens_stop_idle [OF assms(1)]], goal_cases)
    case (1 r)
    show ?case using ginv_idx [OF safe_ginv [OF idle_safe [OF assms(1)]]]
      by (intro defd_StopTimer safe_ginv idle_safe assms) simp
  next
    case (2 r w1)
    have "sendable (set_state 6 w1)" using safe_sendable(2) [OF 2(4)]
      by (simp add: sendable_def can_send_def session_keys_def)
    then show ?case
      by (intro defd_bind_any [OF defd_same_rand [OF l idle_safe [OF 2(4)]]] defd_if defd_DisConnect idle_safe 2(4) defd_notify')
        simp_all
  qed simp
qed

lemma defd_Unbind:
  assumes "idle w"
  shows "defd (Unbind_body p m h w)"
  unfolding Unbind_body_def Let_def
proof (intro defd_if defd_bind_any defd_Some, goal_cases)
  case 1
  then show ?case
    using TIMER_StopTimer_defined [of "set_state 6 w" "u8SendUnbindTimer (con w)"] ginv_idx [OF safe_ginv [OF idle_safe [OF assms]]] assms
    by (auto simp: defd_def inv_defs idx_ok_def)
qed

subsection \<open>Relay to the device\<close>

lemma idle_recv_buffer: "idle w \<Longrightarrow> length (u8MsgBuffer (g_struRecvBuffer w)) = 424"
  by (simp add: inv_defs rbuf_inv_def)

lemma set_timer_buffers [simp]:
  "g_struRecvBuffer (set_timer S t n v w) = g_struRecvBuffer w"
  "g_struRetxBuffer (set_timer S t n v w) = g_struRetxBuffer w"
  by (simp_all add: set_timer_def HF_SetTimer_def TIMER_FindIdleTimer_def TIMER_AllocateTimer_def emit_def Let_def
      split: option.splits)

lemma defd_HandleMoudleMsg:
  assumes "idle w" "msg_fits (u8MsgBuffer (g_struRecvBuffer w))" "unat (u32Len (g_struRecvBuffer w)) \<le> 424"
  shows "defd (PCT_HandleMoudleMsg S RecvBuf w)"
proof -
  define w1 where "w1 = set_timer S 2 1000 V_SendMoudle w"
  have rl: "length (u8MsgBuffer (g_struRetxBuffer w)) = 424" using assms(1) by (simp add: inv_defs)
  have heart: "defd (stop_heart x)" if "timers_ok x" for x
    using that TIMER_StopTimer_defined [of x "u8HeartTimer (con x)"] idx_lt [of "u8HeartTimer (con x)"]
    by (auto simp: stop_heart_def defd_def timers_ok_def)
  have t1: "timers_ok w1"
  proof -
    let ?p = "upd_con (pu8SendMoudleBuffer_update (\<lambda>_. Some RetxBuf)) w"
    have "idle (set_timer S 2 1000 V_SendMoudle ?p)"
      by (rule calm_idle [OF calm_set_timer idle_pending [OF assms(1)]]) (simp add: may_arm_def)
    then have "timers_ok (upd_con (pu8SendMoudleBuffer_update (\<lambda>_. Some RetxBuf)) w1)"
      unfolding w1_def set_timer_pending by (simp add: idle_def safe_def ginv_def)
    then show ?thesis by (simp add: timers_ok_def timer_inv_def)
  qed
  show ?thesis unfolding PCT_HandleMoudleMsg_def Let_def w1_def [symmetric]
  proof (rule defd_bind_any, goal_cases)
    case 1
    show ?case using idle_recv_buffer [OF assms(1)] rl assms(3) by (simp add: get_buf_def w1_def)
  next
    case (2 m)
    show ?case
    proof (rule defd_bind_any, goal_cases)
      case 1
      show ?case using assms(2) by (intro defd_to_device) (simp add: get_buf_def)
    next
      case (2 w2)
      have "timers_ok w2"
        using t1 device_ioD [OF HF_SendDataToMoudle_device [OF 2]] outboundD(4,5) [OF outbound_device [OF HF_SendDataToMoudle_device [OF 2]]]
        by (simp add: timers_ok_def timer_inv_def)
      then show ?case by (intro defd_bind_any heart defd_Some)
    qed
  qed
qed

text \<open>The message kept for retransmission fits in its buffer.\<close>

definition retx_fits :: "world \<Rightarrow> bool" where
  "retx_fits w \<longleftrightarrow> (pu8SendMoudleBuffer (con w) \<noteq> None \<longrightarrow> msg_fits (u8MsgBuffer (g_struRetxBuffer w)))"

lemma defd_SendMoudleTimeout:
  assumes "safe w" "retx_fits w" "pu8SendMoudleBuffer (con w) \<noteq> None"
  shows "defd (PCT_SendMoudleTimeout S w)"
proof -
  have p: "pu8SendMoudleBuffer (con w) = Some RetxBuf"
    using assms(3) relay_pending [OF safe_ginv [OF assms(1)]] by auto
  have f: "msg_fits (u8MsgBuffer (g_struRetxBuffer w))" using assms(2,3) by (simp add: retx_fits_def)
  let ?w = "upd_con (\<lambda>c. c\<lparr>u8ReSendMoudleNum := u8ReSendMoudleNum c + 1\<rparr>) w"
  have w: "safe ?w" by (rule safe_invalidate [OF assms(1)])
  have d: "safe (upd_con (\<lambda>c. c\<lparr>u8SendMoudleTimer := 0xFF, u8ReSendMoudleNum := 0\<rparr>) (upd_buf RetxBuf buf_idle ?w))"
    by (intro safe_relay_done safe_Retx_idle w)
  show ?thesis unfolding PCT_SendMoudleTimeout_def p bind.simps Let_def
  proof (rule defd_if, goal_cases)
    case 1
    show ?case
    proof (rule defd_bind_any, goal_cases)
      case 1
      show ?case using f by (simp add: get_buf_def msg_fits_def)
    next
      case (2 h)
      show ?case
        by (rule defd_bind [OF defd_empty [OF safe_sendable(1) [OF d]] ens_safe [OF ens_calm_empty [OF safe_ginv [OF d]] d]])
          (rule defd_error [OF safe_sendable(1)])
    qed
  next
    case 2
    show ?case using f by (intro defd_bind_any defd_to_device defd_Some) (simp add: get_buf_def)
  qed
qed

subsection \<open>Firmware update and commands\<close>

lemma defd_idle_sends:
  "idle w \<Longrightarrow> defd (PCT_SendAckToCloud S i w)" "idle w \<Longrightarrow> defd (PCT_SendErrorMsg S i [] 0 w)"
  "idle w \<Longrightarrow> defd (PCT_SendEmptyMsg S i 2 w)" "idle w \<Longrightarrow> c < 64 \<Longrightarrow> defd (PCT_SendNotifyMsg c w)"
  by (simp_all add: safe_sendable defd_ack defd_error defd_empty defd_notify')

lemma defd_bind_idle:
  "defd m \<Longrightarrow> ens m idle \<Longrightarrow> (\<And>x. idle x \<Longrightarrow> defd (f x)) \<Longrightarrow> defd (m \<bind> f)"
  by (rule defd_bind)

lemma defd_OtaFileChunk:
  assumes "idle w"
  shows "defd (PCT_HandleOtaFileChunkMsg S RecvBuf w)"
  unfolding PCT_HandleOtaFileChunkMsg_def Let_def
proof (rule defd_bind_any, goal_cases)
  case (2 h)
  show ?case
  proof (rule defd_bind_any, goal_cases)
    case (2 q)
    show ?case
    proof (rule defd_if, goal_cases)
      case ok: 2
      then have len: "unat (ota_file_len h) \<le> 384" by (simp add: ota_chunk_bad_def word_le_nat_alt not_less)
      show ?case
      proof (rule defd_bind_any, goal_cases)
        case 1
        show ?case using len idle_recv_buffer [OF assms]
          by (auto simp: HF_FirmwareUpdate_def Let_def get_buf_def intro!: defd_bind_any)
      next
        case (2 x)
        obtain r w1 where x: "x = (r, w1)" by fastforce
        have "idle w1" "struOtaInfo (con w1) = struOtaInfo (con w)"
          using FirmwareUpdate_emits [OF 2 [unfolded x]] assms by simp_all
        then show ?case unfolding x case_prod_conv
          by (intro defd_if defd_idle_sends safe_ota_advance) (use ok in simp_all)
      qed
    qed (intro defd_idle_sends assms)
  qed (use idle_recv_buffer [OF assms] in \<open>simp add: get_buf_def\<close>)
qed (use idle_recv_buffer [OF assms] in \<open>simp add: get_buf_def\<close>)

lemma defd_OtaEnd:
  assumes "idle w"
  shows "defd (PCT_HandleOtaEndMsg S RecvBuf w)"
  unfolding PCT_HandleOtaEndMsg_def case_prod_unfold Let_def
proof (rule defd_bind_any, goal_cases)
  case (2 h)
  have i: "idle (snd (HF_FirmwareUpdateFinish S (u32TotalLen (struOtaInfo (con w))) w))"
    using FirmwareUpdateFinish_emits assms by (metis prod.collapse safe_emit(2) event.distinct)
  show ?case
    by (intro defd_if defd_bind_idle [OF defd_idle_sends(1) ens_sends(1)] defd_bind_idle [OF defd_idle_sends(4) ens_sends(4)]
        defd_idle_sends i defd_Some)
      simp_all
qed (use idle_recv_buffer [OF assms] in \<open>simp add: get_buf_def\<close>)

lemma defd_dispatch:
  assumes "idle w" "msg_fits (u8MsgBuffer (g_struRecvBuffer w))" "unat (u32Len (g_struRecvBuffer w)) \<le> 424"
  shows "defd (dispatch S RecvBuf code w)"
proof -
  have h: "idle x \<Longrightarrow> defd (rd_MsgHead (u8MsgBuffer (get_buf RecvBuf x)) 0)" for x
    using idle_recv_buffer [of x] by (simp add: get_buf_def)
  have tok: "defd (ZC_StoreTokenKey (u8MsgBuffer (get_buf RecvBuf w)) 8 w)"
    using idle_recv_buffer [OF assms(1)] by (auto simp: ZC_StoreTokenKey_def get_buf_def intro!: defd_bind_any)
  have etok: "ens (ZC_StoreTokenKey m off w) idle" for m off
    unfolding ZC_StoreTokenKey_def
    by (rule ens_bind_any, rule ens_Some, simp, rule idle_cfg [OF assms(1)]) (auto simp: wf_db_def dest: length_rd)
  have ob: "defd (ota_begin (u8MsgBuffer (get_buf RecvBuf w)) 8 w)"
    using idle_recv_buffer [OF assms(1)] by (auto simp: ota_begin_def get_buf_def intro!: defd_bind_any)
  have c: "(0x12 :: u8) < 64" "(0x13 :: u8) < 64" by simp_all
  show ?thesis
    unfolding dispatch_def PCT_HandleOtaBeginMsg_def PCT_HandleOtaFileBeginMsg_def PCT_HandleOtaFileEndMsg_def
      PCT_SetTokenKey_def PCT_ResetNetWork_def Let_def
    by (intro defd_if defd_OtaFileChunk defd_OtaEnd defd_HandleMoudleMsg defd_Some defd_bind_any [OF h]
        defd_bind_idle [OF defd_idle_sends(1) ens_sends(1)] defd_bind_idle [OF tok etok] defd_bind_idle [OF ob ens_ota_begin]
        defd_bind_idle [OF defd_DisConnect ens_DisConnect_idle] defd_bind_idle [OF defd_idle_sends(3) ens_sends(3)]
        defd_idle_sends idle_ConfigInitPara idle_jd assms)
      (auto intro: idle_safe idle_ConfigInitPara idle_jd assms)
qed

lemma defd_Event:
  assumes "idle w" "msg_fits (u8MsgBuffer (g_struRecvBuffer w))" "unat (u32Len (g_struRecvBuffer w)) \<le> 424"
    and "m = u8MsgBuffer (g_struRecvBuffer w)" "h = MsgHead_of m"
  shows "defd (Event_body S RecvBuf m h w)"
  unfolding Event_body_def
proof (rule defd_bind_any [OF defd_check_payload], goal_cases)
  case (3 r)
  show ?case
    by (intro defd_if defd_bind_idle [OF defd_idle_sends(3) ens_sends(3)] defd_idle_sends(2) defd_dispatch assms(1-3))
qed (use assms in simp_all)

subsection \<open>The state machine\<close>

text \<open>The length a queued message announces fits in its buffer.\<close>

definition recv_msg_ok :: "world \<Rightarrow> bool" where
  "recv_msg_ok w \<longleftrightarrow> (que_cont (g_struRecvQueue w) \<noteq> [] \<longrightarrow> msg_fits (u8MsgBuffer (g_struRecvBuffer w)))"

lemma defd_handle_popped:
  assumes "safe w" "recv_msg_ok w"
    and f: "\<And>w' m. idle w' \<Longrightarrow> con w' = con w \<Longrightarrow> msg_fits m \<Longrightarrow> m = u8MsgBuffer (g_struRecvBuffer w') \<Longrightarrow>
      unat (u32Len (g_struRecvBuffer w')) \<le> 424 \<Longrightarrow> defd (f RecvBuf m (MsgHead_of m) w')"
    and e: "\<And>m h w'. idle w' \<Longrightarrow> con w' = con w \<Longrightarrow> ens (f RecvBuf m h w') idle"
    and g: "\<And>w'. idle w' \<Longrightarrow> defd (g w')"
  shows "defd (handle_popped f g w)"
proof -
  have i: "que_inv (g_struRecvQueue w)" using assms(1) by (simp add: inv_defs)
  from assms(1) consider "que_cont (g_struRecvQueue w) = []" | "que_cont (g_struRecvQueue w) = [RecvBuf]"
    and "u8Status (g_struRecvBuffer w) = 1" by (auto simp: inv_defs)
  then show ?thesis
  proof cases
    case 1
    with MSG_PopMsg_inv [OF i] show ?thesis by (auto simp: handle_popped_def)
  next
    case 2
    from MSG_PopMsg_inv [OF i] 2 obtain q where
      pop: "MSG_PopMsg (g_struRecvQueue w) = Some (Some RecvBuf, q)" by auto
    have w': "idle (w\<lparr>g_struRecvQueue := q\<rparr>)" using safe_pop [OF assms(1) pop] by simp
    have m: "msg_fits (u8MsgBuffer (g_struRecvBuffer w))" "unat (u32Len (g_struRecvBuffer w)) \<le> 424"
      using assms(1,2) 2 by (auto simp: recv_msg_ok_def safe_def ginv_def bufs_ok_def rbuf_inv_def)
    have h: "rd_MsgHead (u8MsgBuffer (g_struRecvBuffer w)) 0 = Some (MsgHead_of (u8MsgBuffer (g_struRecvBuffer w)))"
      using m by (simp add: msg_fits_def rd_MsgHead_def rd_def)
    show ?thesis
      unfolding handle_popped_def pop bind.simps case_prod_conv Let_def option.case
      by (simp add: get_buf_def h, rule defd_bind [OF f [OF w'] e [OF w']])
        (use m in \<open>auto intro!: g safe_buf_idle\<close>)
  qed
qed

lemma PCT_Run_defined:
  assumes "safe w" "recv_msg_ok w" "main_state w = PCT_STATE_WAIT_ACCESS \<Longrightarrow> rsa_ok S"
  shows "defd (PCT_Run S w)"
proof -
  have k: "main_state w \<in> {5, 6, 7} \<Longrightarrow> key_recv w = 1" using assms by (simp add: safe_def auth_def)
  have i: "idle x \<Longrightarrow> idle (set_timer S 3 60000 V_Heart x)" for x by (intro idle_set_timer) simp_all
  have 2: "defd (PCT_RecvAccessMsg2 S w)" unfolding PCT_RecvAccessMsg2_def
    by (rule defd_handle_popped [OF assms(1,2)]) (auto intro: defd_RecvMsg2 ens_RecvMsg2)
  have 4: "defd (PCT_RecvAccessMsg4 S w)" if "main_state w = 5" unfolding PCT_RecvAccessMsg4_def
    by (rule defd_handle_popped [OF assms(1,2)])
      (use k that in \<open>auto intro!: defd_RecvMsg4 ens_RecvMsg4 defd_bind_any defd_stop_heart intro: safe_ginv idle_safe\<close>)
  have u: "defd (PCT_HandleUnbindMsg S w)" if "main_state w = 7" unfolding PCT_HandleUnbindMsg_def
    by (rule defd_handle_popped [OF assms(1,2)]) (use k that in \<open>auto intro: defd_Unbind ens_Unbind\<close>)
  have ev: "defd (PCT_HandleEvent S w)" if "main_state w = 6" unfolding PCT_HandleEvent_def Let_def
  proof (rule defd_if, goal_cases)
    case 1
    have w: "safe (set_state 7 w)" using assms k that by (intro safe_state) simp_all
    show ?case
      by (rule defd_bind [where Q = safe])
        (use ginv_idx [OF safe_ginv [OF w]] in \<open>auto intro!: ens_if ens_Some w ens_safe [OF ens_StopTimer w] defd_StopTimer
          idx_lt safe_ginv defd_unbind safe_sendable(1)\<close>)
  next
    case 2
    show ?case by (rule defd_handle_popped [OF assms(1,2)]) (auto intro: ens_Event defd_Event)
  qed
  show ?thesis unfolding PCT_Run_def
    by (intro defd_if defd_Some defd_AccessMsg1 2 4 u ev assms) simp_all
qed

subsection \<open>Timers\<close>

lemma HF_timer_callback_defined:
  assumes "safe w" "retx_fits w" "unat i \<in> timer_used w"
  shows "defd (HF_timer_callback S i w)"
proof -
  have l: "length (g_struTimer w) = 5" "length (g_struHfTimer w) = 5" using assms(1) by (simp_all add: inv_defs)
  have i: "unat i < 5" using assms(3) l by (simp add: timer_used_def)
  have p: "pu8SendMoudleBuffer (con w) \<noteq> None" if "tm_Type (g_struTimer w ! unat i) = 2"
    using assms(1,3) that i l by (auto simp: safe_def ginv_def relay_ok_def moudle_timer_def timer_used_def)
  have "safe (set_timer S 4 1000 V_Register w)" by (rule calm_safe [OF calm_set_timer assms(1)]) simp
  then have g: "sendable (set_timer S 4 1000 V_Register w)" by (rule safe_sendable)
  have "defd (TIMER_TimeoutAction S (unat i) w)"
    unfolding TIMER_TimeoutAction_def Let_def
    by (rule defd_bind_any, use i l in simp, intro defd_if defd_Some defd_DisConnect defd_SendMoudleTimeout assms(1,2)
      defd_heart defd_unbind defd_notify' safe_sendable g) (use i l p in \<open>auto simp: nth_opt_def split: if_splits\<close>)
  then show ?thesis
    unfolding HF_timer_callback_def
    by (intro defd_bind_any [of "nth_opt _ _"] defd_if defd_Some defd_bind [OF _ ens_TimeoutAction [OF assms(1)]] defd_StopTimer)
      (use i l in \<open>simp_all add: safe_ginv\<close>)
qed

end
