(* ===== verification/Control.thy ===== *)
theory Control
  imports TotalRun
begin

text \<open>
  The control flow of the protocol controller: the automaton that \<^verbatim>\<open>PCT_Run\<close> refines, and what each
  transition requires. The lemmas \<open>ens_at_\<dots>\<close> say which state the handlers leave.
\<close>

subsection \<open>Handlers that stay in their state\<close>

definition at :: "u8 \<Rightarrow> world \<Rightarrow> bool" where
  "at s w \<longleftrightarrow> idle w \<and> main_state w = s"

lemma at_idle: "at s w \<Longrightarrow> idle w"
  by (simp add: at_def)

lemma at_safe: "at s w \<Longrightarrow> safe w"
  by (simp add: at_def idle_safe)

lemma calm_at: "calm w w' \<Longrightarrow> at s w \<Longrightarrow> at s w'"
  using calm_idle [of w w'] calm_con [of w w'] by (simp add: at_def idle_safe safe_ginv)

lemma ens_at: "ens m (calm w) \<Longrightarrow> at s w \<Longrightarrow> ens m (at s)"
  by (erule ens_mono) (rule calm_at)

lemma ens_at_sends:
  "at s w \<Longrightarrow> ens (PCT_SendAckToCloud S i w) (at s)" "at s w \<Longrightarrow> ens (PCT_SendErrorMsg S i p n w) (at s)"
  "at s w \<Longrightarrow> ens (PCT_SendEmptyMsg S i t w) (at s)" "at s w \<Longrightarrow> ens (PCT_SendNotifyMsg c w) (at s)"
  by (auto intro!: ens_at ens_calm_ack ens_calm_error ens_calm_empty ens_calm_notify intro: safe_ginv at_safe)

lemma ens_at_StopTimer: "at s w \<Longrightarrow> ens (TIMER_StopTimer i w) (at s)"
  by (rule ens_at [OF ens_StopTimer])

lemma ens_at_DisConnect: "safe w \<Longrightarrow> ens (PCT_DisConnectCloud w) (at 8)"
  by (rule ens_mono [OF ens_DisConnect]) (simp_all add: at_def)

lemma at_set_timer: "t \<noteq> PCT_TIMER_SENDMOUDLE \<Longrightarrow> v \<noteq> V_SendMoudle \<Longrightarrow> at s w \<Longrightarrow> at s (set_timer S t n v w)"
  by (rule calm_at [OF calm_set_timer]) simp_all

lemma set_timer_state [simp]: "main_state (set_timer S t n v w) = main_state w"
proof -
  have "u8MainState (put_timer v i c) = u8MainState c" for i c by (cases v) simp_all
  then show ?thesis
    by (simp add: set_timer_def HF_SetTimer_def TIMER_FindIdleTimer_def TIMER_AllocateTimer_def Let_def split: option.splits)
qed

lemma ens_state_HandleMoudleMsg: "ens (PCT_HandleMoudleMsg S p w) (\<lambda>w'. main_state w' = main_state w)"
proof -
  have d: "ens (HF_SendDataToMoudle m off n x) (\<lambda>w'. con w' = con x)" for m off n x
    by (rule ens_mono [OF ens_SendDataToMoudle]) (simp add: outboundD)
  have h: "ens (stop_heart x) (\<lambda>w'. con w' = con x)" for x
    unfolding stop_heart_def by (intro ens_rules ensI [OF TIMER_StopTimer_con]) simp_all
  show ?thesis unfolding PCT_HandleMoudleMsg_def Let_def
    by (rule ens_bind_any, rule ens_bind [OF d], rule ens_bind [OF h], rule ens_Some) simp
qed

lemma ens_at_HandleMoudleMsg: "at s w \<Longrightarrow> ens (PCT_HandleMoudleMsg S RecvBuf w) (at s)"
  by (rule ens_mono [OF ens_conj [OF ens_HandleMoudleMsg ens_state_HandleMoudleMsg]]) (simp_all add: at_def)

lemma at_upds:
  "at s w \<Longrightarrow> at s (w\<lparr>g_u32StopJdTask := k\<rparr>)"
  by (simp add: at_def idle_jd)

lemma ens_state_ota_begin: "ens (ota_begin m off w) (\<lambda>w'. main_state w' = main_state w)"
  unfolding ota_begin_def by (rule ens_bind_any, rule ens_Some) simp

lemma ens_at_begin: "at s w \<Longrightarrow> ens (ota_begin m off w) (at s)"
  by (rule ens_mono [OF ens_conj [OF ens_ota_begin ens_state_ota_begin]]) (simp_all add: at_def)

lemma at_ota_advance:
  "\<not> ota_chunk_bad off len (struOtaInfo (con w)) \<Longrightarrow> at s w \<Longrightarrow> at s (ota_advance len w)"
  using safe_ota_advance(2) [of off len w] by (simp add: at_def) (simp add: ota_advance_def)

lemma ens_at_OtaFileChunk:
  assumes "at s w"
  shows "ens (PCT_HandleOtaFileChunkMsg S p w) (at s)"
  unfolding PCT_HandleOtaFileChunkMsg_def Let_def
proof (rule ens_bind_any, rule ens_bind_any, rule ens_if, goal_cases)
  case (1 h q)
  then show ?case by (intro ens_at_sends assms)
next
  case (2 h q)
  show ?case
  proof (rule ens_bind_any, clarify, goal_cases)
    case (1 r w1)
    note f = FirmwareUpdate_emits [OF 1]
    show ?case
      by (intro ens_if ens_at_sends at_ota_advance) (use f 2 assms in \<open>simp_all add: at_def\<close>)
  qed
qed

lemma ens_at_OtaEnd:
  assumes "at s w"
  shows "ens (PCT_HandleOtaEndMsg S p w) (at s)"
  unfolding PCT_HandleOtaEndMsg_def case_prod_unfold Let_def
proof (rule ens_bind_any, goal_cases)
  case (1 h)
  have "snd (HF_FirmwareUpdateFinish S (u32TotalLen (struOtaInfo (con w))) w) = emit (E_update_complete (u32TotalLen (struOtaInfo (con w)))) w"
    using FirmwareUpdateFinish_emits by (metis prod.collapse)
  then have i: "at s (snd (HF_FirmwareUpdateFinish S (u32TotalLen (struOtaInfo (con w))) w))"
    using assms by (simp add: at_def)
  show ?case
    by (intro ens_if ens_at_sends i ens_bind [OF ens_at_sends(1) [OF i]] ens_bind [OF ens_at_sends(4)] ens_Some at_upds)
      (simp_all add: HF_Reboot_def at_def)
qed

text \<open>A command leaves the state, except the reset of the network, which disconnects.\<close>

lemma ens_at_dispatch:
  assumes "at s w"
  shows "ens (dispatch S RecvBuf code w) (at (if code = ZC_CODE_RESET_NETWORK then 8 else s))"
proof -
  have i: "idle w" using assms by (rule at_idle)
  have tok: "ens (ZC_StoreTokenKey m off w) (at s)" for m off
    unfolding ZC_StoreTokenKey_def
    by (rule ens_bind_any, rule ens_Some, simp add: at_def, intro conjI idle_cfg [OF i])
      (use assms in \<open>auto simp: wf_db_def at_def write_db_def HF_WriteDataToFlash_def dest: length_rd\<close>)
  show ?thesis
  proof (cases "code = ZC_CODE_RESET_NETWORK")
    case True
    then show ?thesis
      by (simp add: dispatch_def PCT_ResetNetWork_def)
        (intro ens_bind_any ens_bind [OF ens_at_DisConnect] ens_bind [OF ens_at_sends(3)] ens_at_sends idle_safe
          idle_ConfigInitPara i; assumption)
  next
    case False
    then show ?thesis
      unfolding dispatch_def PCT_HandleOtaBeginMsg_def PCT_HandleOtaFileBeginMsg_def PCT_HandleOtaFileEndMsg_def
        PCT_SetTokenKey_def Let_def
      by (simp only: if_False, intro ens_if ens_at_OtaFileChunk ens_at_OtaEnd ens_at_HandleMoudleMsg ens_Some ens_bind_any [of "rd_MsgHead _ _"]
          ens_bind [OF ens_at_sends(1) [where s = s]] ens_bind [OF tok]
          ens_bind [OF ens_at_begin [where s = s]] ens_bind [OF ens_at_sends(3) [where s = s]]
          ens_at_sends at_upds assms) assumption+
  qed
qed

subsection \<open>The handshake\<close>

lemma check_payload_cases: "check_payload m h = Some r \<Longrightarrow> r = ZC_RET_OK \<or> r = ZC_RET_ERROR"
  by (auto simp: check_payload_def PCT_CheckCrc_def bind_eq_Some_conv split: if_splits)

lemma same_rand_iff:
  "same_rand m w = Some b \<Longrightarrow> length (RandMsg (con w)) = 32 \<Longrightarrow> b = (take 32 (drop 8 m) = RandMsg (con w))"
  by (auto simp: same_rand_def rd_eq_Some bind_eq_Some_conv)

lemma idle_rand: "idle w \<Longrightarrow> length (RandMsg (con w)) = 32"
  by (simp add: inv_defs)

text \<open>What the controller holds after it has answered message 2.\<close>

definition has_key :: "bytes \<Rightarrow> world \<Rightarrow> bool" where
  "has_key k w \<longleftrightarrow> key_recv w = PCT_KEY_RECVED \<and> u8SessionKey (con w) = k \<and> IvSend (con w) = k \<and> IvRecv (con w) = k"

lemma same_conn_key: "same_conn (con w) (con w') \<Longrightarrow> has_key k w \<Longrightarrow> has_key k w'"
  by (simp add: has_key_def same_conn_def)

lemma calm_key: "calm w w' \<Longrightarrow> ginv w \<Longrightarrow> has_key k w \<Longrightarrow> has_key k w'"
  unfolding calm_def by (blast intro: same_conn_key)

lemma has_key_state [simp]: "has_key k (set_state s w) = has_key k w"
  by (simp add: has_key_def)

lemma ens_AccessMsg3_key:
  assumes "idle w" "has_key k (set_keyRecv PCT_KEY_RECVED w)"
  shows "ens (PCT_SendCloudAccessMsg3 S w) (\<lambda>w'. at 5 w' \<and> has_key k w')"
  unfolding PCT_SendCloudAccessMsg3_def Let_def
proof (rule ens_bind_any, rule ens_bind_any, rule ens_bind_any, rule ens_bind_any, clarify, goal_cases)
  case (1 v r ve m n)
  let ?w1 = "set_keyRecv 1 w"
  let ?w = "?w1\<lparr>g_u8MsgBuildBuffer := m\<rparr>"
  have "idle ?w1" using assms by (simp add: inv_defs)
  then have w: "idle ?w" using EVENT_BuildMsg_length [OF 1(4)] by (intro calm_idle [OF safe_build]) auto
  have wk: "has_key k ?w" using assms(2) by (simp add: has_key_def)
  note g = safe_ginv [OF idle_safe [OF w]]
  show ?case
  proof (rule ens_bind [OF ens_calm_send [OF g]], clarify, rule ens_Some, goal_cases)
    case (1 r w2)
    have w2: "idle w2" "has_key k w2" using calm_idle [OF 1 w] calm_key [OF 1 g wk] by simp_all
    then have i: "idle (set_state 5 w2)" by (intro idle_state) (simp_all add: has_key_def)
    have c: "calm (set_state 5 w2) (set_timer S 1 (1000 * 10) V_Access (set_state 5 w2))"
      by (rule calm_set_timer) simp
    show ?case using calm_idle [OF c i] calm_key [OF c safe_ginv [OF idle_safe [OF i]], of k] w2(2) by (simp add: at_def)
  qed
qed

text \<open>Message 2 of the handshake: with a good checksum and the random bytes of this connection the
  controller takes over the key and goes on, any other message 2 ends the connection.\<close>

lemma ens_RecvMsg2_effect:
  assumes "idle w"
  shows "ens (RecvMsg2_body S p m h w) (\<lambda>w'. idle w' \<and>
    (if MsgCode h \<noteq> ZC_CODE_HANDSHAKE_2 \<and> MsgCode h \<noteq> ZC_CODE_ACCESS_POINT_RSP then main_state w' = main_state w
     else if MsgCode h = ZC_CODE_HANDSHAKE_2 \<and> check_payload m h = Some ZC_RET_OK \<and> take 32 (drop 8 m) = RandMsg (con w)
     then main_state w' = PCT_STATE_WAIT_MSG4 \<and> has_key (take 16 (drop 40 m)) w'
     else main_state w' = PCT_STATE_DISCONNECT_CLOUD))"
  unfolding RecvMsg2_body_def
proof (rule ens_if, rule ens_bind_any, rule ens_if, goal_cases)
  case (1 r)
  then show ?case by (intro ens_mono [OF ens_at_DisConnect [OF idle_safe [OF assms]]]) (auto simp: at_def)
next
  case (2 r)
  with check_payload_cases have r: "check_payload m h = Some 0" by blast
  have cd: "MsgCode h = ZC_CODE_HANDSHAKE_2 \<or> MsgCode h = ZC_CODE_ACCESS_POINT_RSP" using 2 by simp
  show ?case
  proof (rule ens_bind [OF ens_conj [OF ens_stop_idle [OF assms] ensI [OF TIMER_StopTimer_con]]], assumption,
      rule ens_bind_any, elim conjE, rule ens_if, rule ens_if, goal_cases)
    case (1 w1 b)
    then have b: "take 32 (drop 8 m) = RandMsg (con w)" using same_rand_iff [OF 1(1)] idle_rand [OF assms] by simp
    show ?case
    proof (rule ens_bind_any, goal_cases)
      case k: (1 k)
      then have k16: "k = take 16 (drop 40 m)" "length k = 16" by (auto simp: rd_eq_Some)
      show ?case
        by (rule ens_mono [OF ens_AccessMsg3_key [OF idle_keys [OF 1(2) k16(2)], of k]])
          (use k16 b r 1 in \<open>simp_all add: has_key_def at_def\<close>)
    qed
  next
    case (2 w1 b)
    show ?case
      by (rule ens_bind_any, rule ens_bind [OF ens_StoreAccess [OF 2(2)]], rule ens_mono [OF ens_at_DisConnect [OF idle_safe]])
        (use 2 cd in \<open>auto simp: at_def\<close>)
  next
    case (3 w1 b)
    then have "take 32 (drop 8 m) \<noteq> RandMsg (con w)" using same_rand_iff [OF 3(1)] idle_rand [OF assms] by simp
    then show ?case using cd by (intro ens_mono [OF ens_at_DisConnect [OF idle_safe [OF 3(2)]]]) (auto simp: at_def)
  qed
qed (use assms in \<open>auto intro: ens_Some\<close>)

lemma ens_RecvMsg4_effect:
  assumes "idle w" "key_recv w = PCT_KEY_RECVED"
  shows "ens (RecvMsg4_body p m h w) (\<lambda>w'. idle w' \<and>
    (if MsgCode h \<noteq> ZC_CODE_HANDSHAKE_4 then main_state w' = main_state w
     else if check_payload m h = Some ZC_RET_OK \<and> take 32 (drop 8 m) = RandMsg (con w)
     then main_state w' = PCT_STATE_CONNECT_CLOUD
     else main_state w' = PCT_STATE_DISCONNECT_CLOUD))"
  unfolding RecvMsg4_body_def
proof (rule ens_if, rule ens_bind_any, rule ens_if, goal_cases)
  case (1 r)
  then show ?case by (intro ens_mono [OF ens_at_DisConnect [OF idle_safe [OF assms(1)]]]) (auto simp: at_def)
next
  case (2 r)
  with check_payload_cases have r: "check_payload m h = Some 0" by blast
  show ?case
  proof (rule ens_bind [OF ens_conj [OF ens_stop_idle [OF assms(1)] ensI [OF TIMER_StopTimer_con]]], assumption,
      rule ens_bind_any, elim conjE, rule ens_if, goal_cases)
    case (1 w1 b)
    then have b: "take 32 (drop 8 m) = RandMsg (con w)" using same_rand_iff [OF 1(1)] idle_rand [OF assms(1)] by simp
    have "at 6 (set_state 6 w1)" using 1 assms(2) by (simp add: at_def) (intro idle_state, simp_all)
    from ens_mono [OF ens_at_sends(4) [OF this]] show ?case using b r 2 by (simp add: at_def)
  next
    case (2 w1 b)
    then have "take 32 (drop 8 m) \<noteq> RandMsg (con w)" using same_rand_iff [OF 2(1)] idle_rand [OF assms(1)] by simp
    then show ?case using \<open>MsgCode h = _\<close>
      by (intro ens_mono [OF ens_at_DisConnect [OF idle_safe [OF 2(2)]]]) (auto simp: at_def)
  qed
qed (use assms in \<open>auto intro: ens_Some\<close>)

subsection \<open>The automaton\<close>

abbreviation recv_msg :: "world \<Rightarrow> bytes" where
  "recv_msg w \<equiv> u8MsgBuffer (g_struRecvBuffer w)"

definition waiting :: "world \<Rightarrow> bool" where
  "waiting w \<longleftrightarrow> que_cont (g_struRecvQueue w) = [RecvBuf]"

text \<open>The message that waits is the handshake message \<open>code\<close> with a good checksum and the random bytes of
  this connection.\<close>

definition authentic :: "u8 \<Rightarrow> world \<Rightarrow> bool" where
  "authentic code w \<longleftrightarrow> waiting w \<and> MsgCode (MsgHead_of (recv_msg w)) = code \<and>
     check_payload (recv_msg w) (MsgHead_of (recv_msg w)) = Some ZC_RET_OK \<and>
     take 32 (drop 8 (recv_msg w)) = RandMsg (con w)"

lemma ens_popped:
  assumes "safe w" and none: "\<not> waiting w \<Longrightarrow> P w"
    and f: "\<And>w1. waiting w \<Longrightarrow> idle w1 \<Longrightarrow> con w1 = con w \<Longrightarrow>
      ens (f RecvBuf (recv_msg w) (MsgHead_of (recv_msg w)) w1) Q"
    and g: "\<And>w1. waiting w \<Longrightarrow> Q w1 \<Longrightarrow> ens (g (upd_buf RecvBuf buf_idle w1)) P"
  shows "ens (handle_popped f g w) P"
proof -
  have i: "que_inv (g_struRecvQueue w)" using assms(1) by (simp add: inv_defs)
  from assms(1) consider "que_cont (g_struRecvQueue w) = []" | "que_cont (g_struRecvQueue w) = [RecvBuf]"
    by (auto simp: inv_defs)
  then show ?thesis
  proof cases
    case 1
    then have "MSG_PopMsg (g_struRecvQueue w) = Some (None, g_struRecvQueue w)" using MSG_PopMsg_inv [OF i] by simp
    then show ?thesis using none 1 by (simp add: handle_popped_def waiting_def ens_Some)
  next
    case 2
    from MSG_PopMsg_inv [OF i] 2 obtain q where
      pop: "MSG_PopMsg (g_struRecvQueue w) = Some (Some RecvBuf, q)" by auto
    have w1: "idle (w\<lparr>g_struRecvQueue := q\<rparr>)" using safe_pop [OF assms(1) pop] by simp
    have h: "rd_MsgHead (recv_msg w) 0 = Some (MsgHead_of (recv_msg w))"
      using assms(1) by (auto simp: inv_defs rbuf_inv_def rd_MsgHead_def rd_def)
    show ?thesis
      unfolding handle_popped_def pop bind.simps case_prod_conv Let_def option.case
      by (simp add: get_buf_def h, rule ens_bind [OF f [OF _ w1] g]) (use 2 in \<open>auto simp: waiting_def\<close>)
  qed
qed

lemma main_state_buf [simp]: "main_state (upd_buf RecvBuf f w) = main_state w" "has_key k (upd_buf RecvBuf f w) = has_key k w"
  by (simp_all add: upd_buf_def has_key_def)

lemma at_buf_idle: "at s w \<Longrightarrow> at s (upd_buf RecvBuf buf_idle w)"
  by (simp add: at_def safe_buf_idle)

lemma ens_at_stop_heart: "at s w \<Longrightarrow> ens (stop_heart w) (at s)"
  by (rule ens_at [OF ens_stop_heart])

text \<open>What one turn of the controller does to its state, exactly for the handshake.\<close>

definition pct_next :: "world \<Rightarrow> world \<Rightarrow> bool" where
  "pct_next w w' \<longleftrightarrow> (let s = main_state w; s' = main_state w' in
     if s = PCT_STATE_ACCESS_NET then s' = s \<or> s' = PCT_STATE_WAIT_ACCESS
     else if s = PCT_STATE_WAIT_ACCESS then s' = PCT_STATE_WAIT_ACCESSRSP \<or> s' = PCT_STATE_DISCONNECT_CLOUD
     else if s = PCT_STATE_WAIT_ACCESSRSP then
       if authentic ZC_CODE_HANDSHAKE_2 w then s' = PCT_STATE_WAIT_MSG4 \<and> has_key (take 16 (drop 40 (recv_msg w))) w'
       else s' = s \<or> s' = PCT_STATE_DISCONNECT_CLOUD
     else if s = PCT_STATE_WAIT_MSG4 then
       if authentic ZC_CODE_HANDSHAKE_4 w then s' = PCT_STATE_CONNECT_CLOUD
       else s' = s \<or> s' = PCT_STATE_DISCONNECT_CLOUD
     else if s = PCT_STATE_CONNECT_CLOUD then
       s' = s \<or> s' = PCT_STATE_WAIT_UNBIND \<and> u32UnBindFlag (struDeviceInfo (g_struZcConfigDb w)) = ZC_MAGIC_FLAG \<or>
       s' = PCT_STATE_DISCONNECT_CLOUD
     else if s = PCT_STATE_WAIT_UNBIND then s' = s \<or> s' = PCT_STATE_CONNECT_CLOUD
     else w' = w)"

lemma ens_RecvAccessMsg2_next:
  assumes "safe w" "main_state w = 4"
  shows "ens (PCT_RecvAccessMsg2 S w) (pct_next w)"
  unfolding PCT_RecvAccessMsg2_def
proof (rule ens_popped [OF assms(1), where Q = "pct_next w"], goal_cases)
  case (2 w1)
  show ?case
    by (rule ens_mono [OF ens_RecvMsg2_effect [OF 2(2)]])
      (use 2 assms in \<open>auto simp: pct_next_def authentic_def split: if_splits\<close>)
qed (use assms in \<open>auto simp: pct_next_def authentic_def Let_def intro!: ens_Some split: if_splits\<close>)

lemma ens_RecvAccessMsg4_next:
  assumes "safe w" "main_state w = 5"
  shows "ens (PCT_RecvAccessMsg4 S w) (pct_next w)"
  unfolding PCT_RecvAccessMsg4_def
proof (rule ens_popped [OF assms(1), where Q = "\<lambda>w'. idle w' \<and> pct_next w w'"], goal_cases)
  case (2 w1)
  then have "key_recv w1 = 1" using assms by (simp add: safe_def auth_def)
  from ens_RecvMsg4_effect [OF 2(2) this] show ?case
    by (rule ens_mono) (use 2 assms in \<open>auto simp: pct_next_def authentic_def split: if_splits\<close>)
next
  case (3 w1)
  then have "at (main_state w1) (upd_buf RecvBuf buf_idle w1)" by (simp add: at_def safe_buf_idle)
  then show ?case
    by (rule ens_bind [OF ens_at_stop_heart], intro ens_Some)
      (use 3 assms in \<open>auto simp: pct_next_def at_def split: if_splits\<close>)
qed (use assms in \<open>auto simp: pct_next_def authentic_def\<close>)

lemma ens_Event_next:
  assumes "at s w"
  shows "ens (Event_body S RecvBuf m h w) (\<lambda>w'. main_state w' = s \<or> main_state w' = 8)"
  unfolding Event_body_def
  by (rule ens_bind_any, rule ens_if, rule ens_bind [OF ens_at_sends(3) [OF assms]],
      erule ens_mono [OF ens_at_sends(2)], simp add: at_def, rule ens_mono [OF ens_at_dispatch [OF assms]])
    (simp add: at_def split: if_splits)

lemma ens_Unbind_next:
  assumes "idle w" "key_recv w = PCT_KEY_RECVED" "main_state w = 7"
  shows "ens (Unbind_body p m h w) (\<lambda>w'. idle w' \<and> (main_state w' = 7 \<or> main_state w' = 6))"
proof (rule ens_conj [OF ens_Unbind [OF assms(1,2)]])
  have c: "ens (TIMER_StopTimer i x) (\<lambda>w'. main_state w' = main_state x)" for i x
    using TIMER_StopTimer_con by (fastforce intro: ensI)
  show "ens (Unbind_body p m h w) (\<lambda>w'. main_state w' = 7 \<or> main_state w' = 6)"
    unfolding Unbind_body_def Let_def
    by (intro ens_if ens_bind [where Q = "\<lambda>w'. main_state w' = 6"] ens_bind [OF c] ens_Some)
      (use assms in \<open>simp_all add: ZC_ConfigUnBind_def write_db_def HF_WriteDataToFlash_def\<close>)
qed

text \<open>When the calls of the RSA library succeed, message 1 goes out.\<close>

definition rsa_works :: "sdk \<Rightarrow> bool" where
  "rsa_works S \<longleftrightarrow> (\<forall>es key p. fst (sdk_rsa_encrypt S es key p) = 0)"

lemma rsa_pkcs1_ret: "rsa_works S \<Longrightarrow> rsa_pkcs1_encrypt S key src soff n dst doff w = Some (r, d, w') \<Longrightarrow> r = 0"
  by (auto simp: rsa_pkcs1_encrypt_def rsa_works_def bind_eq_Some_conv case_prod_unfold Let_def)

lemma rsa_loop_ret:
  "rsa_works S \<Longrightarrow> ens (rsa_encrypt_loop S key src soff len 0 readlen clen dst doff w) (\<lambda>(r, k, c, d, w'). r = 0)"
proof (induction S key src soff len "0 :: int" readlen clen dst doff w rule: rsa_encrypt_loop.induct)
  case (1 S key src soff len readlen clen dst doff w)
  show ?case
    by (subst rsa_encrypt_loop.simps, rule ens_if, rule ens_bind_any, clarify)
      (use 1 in \<open>auto simp: ens_Some dest: rsa_pkcs1_ret\<close>)
qed

lemma rsa_text_ret:
  "rsa_works S \<Longrightarrow> ens (SEC_EncryptTextByRsa S dst doff src soff n w) (\<lambda>(r, c, m, w'). r = ZC_RET_OK)"
  unfolding SEC_EncryptTextByRsa_def
  by (intro ens_bind_any [of "ZC_GetStoreInfor _ _"] ens_bind_any [of "SEC_InitRsaContextWithPublicKey _"] ens_if
      ens_bind [OF rsa_loop_ret])
    (auto intro!: ens_bind_any ens_if ens_Some dest: rsa_pkcs1_ret split: prod.splits)

lemma send_msg1_ok:
  assumes "sendable w" "rsa_works S" "PCT_SendMsgToCloud S \<lparr>u16TotalMsg = ZC_HTONS 64, u8SecType = 1, u8Resver = x\<rparr> m 0 w = Some (r, w')"
  shows "r = ZC_RET_OK"
proof -
  let ?h = "\<lparr>u16TotalMsg = ZC_HTONS 64, u8SecType = 1, u8Resver = x\<rparr>"
  have pc: "SEC_PaddingCheck 1 64 w = (0, 0)"
    by (simp add: SEC_PaddingCheck_def sec_flag_def)
  have e: "ens (SEC_Encrypt S ?h dst off src soff n w) (\<lambda>(r, h', k, m, w'). r = 0)" for dst off src soff n
    unfolding SEC_Encrypt_def Let_def
    by (intro ens_if ens_bind [OF rsa_text_ret [OF assms(2)]]) (auto intro!: ens_bind_any ens_Some)
  show ?thesis using assms(1,3)
    by (auto simp: PCT_SendMsgToCloud_def pc Let_def sendable_def bind_eq_Some_conv dest!: ensD [OF e] split: if_splits)
qed

lemma ens_AccessMsg1_state:
  assumes "safe w"
  shows "ens (PCT_SendCloudAccessMsg1 S w) (\<lambda>w'. main_state w' = 4 \<or> main_state w' = 8 \<and> \<not> rsa_works S)"
  unfolding PCT_SendCloudAccessMsg1_def Let_def
proof (rule ens_bind [where Q = safe], goal_cases)
  case 1
  show ?case
    by (intro ens_rules assms ens_bind [OF ens_safe [OF ens_StopTimer assms]] safe_invalidate)
next
  case (2 w1)
  show ?case
  proof (rule ens_bind_any, rule ens_bind_any, rule ens_bind_any, rule ens_bind_any, rule ens_bind_any, clarify, goal_cases)
    case (1 d r di dm m n)
    let ?w = "w1\<lparr>g_u8MsgBuildBuffer := m\<rparr>"
    have w: "safe ?w" by (rule calm_safe [OF safe_build [OF EVENT_BuildMsg_length [OF 1(5)]] 2])
    have n: "n = 64" using EVENT_BuildMsg_result [OF 1(5)] by simp
    show ?case
    proof (rule ens_bind [OF ens_conj [OF ens_calm_send [OF safe_ginv [OF w]] ensI]], assumption, clarify, goal_cases)
      case (1 r w2)
      have w2: "safe w2" by (rule calm_safe [OF 1(1) w])
      have "safe (set_timer S 1 (1000 * 120) V_Access (set_state 4 w2))"
        by (rule calm_safe [OF calm_set_timer]) (use w2 in \<open>auto intro: safe_state\<close>)
      moreover have "r = 1 \<Longrightarrow> \<not> rsa_works S"
        using send_msg1_ok [OF safe_sendable(1) [OF w]] 1(2) n by fastforce
      ultimately show ?case
        by (intro ens_rules ens_mono [OF ens_DisConnect [OF w2]]) simp_all
    qed
  qed
qed

lemma ens_Run_next:
  assumes "safe w"
  shows "ens (PCT_Run S w) (pct_next w)"
proof -
  have k: "main_state w \<in> {5, 6, 7} \<Longrightarrow> key_recv w = 1" using assms by (simp add: safe_def auth_def)
  have 2: "ens (Some (PCT_ConnectCloud S w)) (pct_next w)" if "main_state w = 2"
    using that HF_ConnectToCloud_con [of S w]
    by (auto simp: PCT_ConnectCloud_def pct_next_def ens_def split: prod.splits)
  have 6: "ens (PCT_HandleEvent S w) (pct_next w)" if s: "main_state w = 6" unfolding PCT_HandleEvent_def Let_def
  proof (rule ens_if, goal_cases)
    case 1
    have w: "safe (set_state 7 w)" using assms k s by (intro safe_state) simp_all
    have c: "calm x y \<Longrightarrow> safe x \<and> main_state x = 7 \<Longrightarrow> safe y \<and> main_state y = 7" for x y
      using calm_safe calm_con safe_ginv by metis
    have "ens (if u8SendUnbindTimer (con (set_state 7 w)) \<noteq> 255 then TIMER_StopTimer (u8SendUnbindTimer (con (set_state 7 w)))
        (set_state 7 w) else Some (set_state 7 w)) (calm (set_state 7 w))"
      by (intro ens_if ens_StopTimer ens_Some calm_refl)
    then show ?case
      by (rule ens_bind, intro ens_mono [OF ens_calm_unbind])
        (use c [of "set_state 7 w"] c w 1 s in \<open>auto simp: pct_next_def safe_ginv\<close>)
  next
    case 2
    show ?case
      by (rule ens_popped [OF assms, where Q = "\<lambda>w'. main_state w' = 6 \<or> main_state w' = 8"])
        (use s in \<open>auto simp: pct_next_def at_def intro!: ens_Some ens_Event_next\<close>)
  qed
  have 7: "ens (PCT_HandleUnbindMsg S w) (pct_next w)" if s: "main_state w = 7" unfolding PCT_HandleUnbindMsg_def
    by (rule ens_popped [OF assms, where Q = "\<lambda>w'. idle w' \<and> (main_state w' = 7 \<or> main_state w' = 6)"])
      (use s k in \<open>auto simp: pct_next_def intro!: ens_Some ens_Unbind_next\<close>)
  have 3: "ens (PCT_SendCloudAccessMsg1 S w) (pct_next w)" if "main_state w = 3"
    by (rule ens_mono [OF ens_AccessMsg1_state [OF assms]]) (use that in \<open>auto simp: pct_next_def\<close>)
  show ?thesis unfolding PCT_Run_def
    by (intro ens_if 2 3 6 7 ens_RecvAccessMsg2_next ens_RecvAccessMsg4_next ens_Some assms)
      (simp_all add: pct_next_def)
qed

end
