(* ===== verification/Handshake.thy ===== *)
theory Handshake
  imports Control
begin

text \<open>
  The handshake from the side of the cloud: a message sent in plain text is accepted in every state of
  the keys, the two answers of the cloud take the controller to \<^verbatim>\<open>PCT_STATE_CONNECT_CLOUD\<close>, and the
  whole run exists from the start of the firmware.
\<close>

subsection \<open>Frames of the peer\<close>

definition plain_frame :: "bytes \<Rightarrow> bytes" where
  "plain_frame m = SecHead_bytes \<lparr>u16TotalMsg = ZC_HTONS (of_nat (length m)), u8SecType = ZC_SEC_ALG_NONE, u8Resver = 0\<rparr> @ m"

definition peer_message :: "u8 \<Rightarrow> u8 \<Rightarrow> bytes \<Rightarrow> bytes" where
  "peer_message code i p = MsgHead_bytes \<lparr>Version = ZC_VERSION, MsgId = i, MsgCode = code, OptNum = 0,
     Payloadlen = ZC_HTONS (of_nat (length p)), TotalMsgCrc = crc_bytes (crc16_ccitt p)\<rparr> @ p"

definition fresh :: "world \<Rightarrow> bool" where
  "fresh w \<longleftrightarrow> safe w \<and> u8Status (g_struRecvBuffer w) = MSG_BUFFER_IDLE"

lemma fresh_idle: "fresh w \<Longrightarrow> idle w"
  by (auto simp: fresh_def inv_defs)

lemma unat_of_nat_420: "n \<le> 420 \<Longrightarrow> unat (of_nat n :: u16) = n"
  by (simp add: unat_of_nat)

lemma sec_flag_none: "sec_flag ZC_SEC_ALG_NONE w = ZC_SEC_ALG_NONE"
  by (simp add: sec_flag_def)

lemma plaintext_received:
  assumes "fresh w" "length p \<le> 420"
  shows "\<exists>w'. MSG_RecvDataFromCloud S (plain_frame p) (of_nat (length (plain_frame p))) w = Some w' \<and> safe w' \<and> waiting w' \<and>
    take (length p) (recv_msg w') = p \<and> u32Len (g_struRecvBuffer w') = of_nat (length p) \<and> con w' = con w"
proof -
  let ?h = "\<lparr>u16TotalMsg = ZC_HTONS (of_nat (length p)), u8SecType = 0, u8Resver = 0 :: u8\<rparr>"
  let ?d = "plain_frame p" and ?b = "g_struRecvBuffer w"
  note i = fresh_idle [OF assms(1)]
  have b: "length (u8MsgBuffer ?b) = 424" "length (g_u8MsgBuildBuffer w) = 424" "u8Status ?b = 0"
    using i assms(1) by (simp_all add: inv_defs rbuf_inv_def fresh_def)
  have q: "que_inv (g_struRecvQueue w)" "que_cont (g_struRecvQueue w) = []" using i by (simp_all add: inv_defs)
  have d: "length ?d = 4 + length p" "SecHead_of ?d = ?h" by (simp_all add: plain_frame_def)
  have sm: "unat (sec_msg_len ?h) = 4 + length p" by (simp add: unat_sec_msg_len unat_of_nat_420 assms(2))
  have dl: "unat (of_nat (length ?d) :: u32) = 4 + length p" using unat_recv_len [of ?d] assms(2) by (simp add: d(1) del: of_nat_add)
  note dl' = dl [unfolded d(1)]
  let ?m = "?d @ drop (4 + length p) (u8MsgBuffer ?b)"
  have "MSG_RecvData_idle ?b ?d (of_nat (length ?d)) =
      Some (0, ?b\<lparr>u8MsgBuffer := ?m, u8Status := 1, u32Len := sec_msg_len ?h\<rparr>)"
    using assms(2) b d(1)
    by (simp add: MSG_RecvData_idle_def rd_SecHead_def rd_def d(2) sm dl' Let_def word_less_nat_alt word_le_nat_alt memcpy_Some
        del: of_nat_add)
  then have r: "MSG_RecvData ?b ?d (of_nat (length ?d)) =
      Some (0, ?b\<lparr>u8MsgBuffer := ?m, u8Status := 1, u32Len := sec_msg_len ?h\<rparr>)"
    using b(3) by (simp add: MSG_RecvData_def)
  let ?w1 = "w\<lparr>g_struRecvBuffer := ?b\<lparr>u8MsgBuffer := ?m, u8Status := 1, u32Len := sec_msg_len ?h\<rparr>\<rparr>"
  let ?bb = "p @ drop (length p) (g_u8MsgBuildBuffer w)"
  have h: "rd_SecHead ?m 0 = Some ?h" using d b assms(2) by (simp add: rd_SecHead_def rd_def plain_frame_def)
  have lm: "length ?m = 424" using b d assms(2) by simp
  have dec: "SEC_Decrypt S ?h ?m 4 (g_u8MsgBuildBuffer w) 0 pl ?w1 = Some (0, of_nat (length p), ?bb, ?w1)" for pl
  proof -
    have "rd ?m 4 (length p) = Some p" using lm assms(2) by (simp add: rd_def plain_frame_def)
    moreover have "wr (g_u8MsgBuildBuffer w) 0 p = Some ?bb" using b assms(2) by (simp add: wr_def)
    ultimately show ?thesis by (simp add: SEC_Decrypt_def sec_flag_none Let_def unat_of_nat_420 assms(2))
  qed
  have mc: "memcpy ?m 0 ?bb (length p) = Some (p @ drop (length p) ?m)" using lm b assms(2) by (simp add: memcpy_Some)
  from MSG_PushMsg_inv [OF q(1), of RecvBuf] q(2) obtain q' where
    q': "MSG_PushMsg (g_struRecvQueue w) RecvBuf = Some (0, q')" "que_cont q' = [RecvBuf]" by auto
  obtain w' where w': "MSG_RecvDataFromCloud S ?d (of_nat (length ?d)) w = Some w'"
    "w' = w\<lparr>g_struRecvBuffer := ?b\<lparr>u8MsgBuffer := p @ drop (length p) ?m, u8Status := 1, u32Len := ucast (of_nat (length p) :: u16)\<rparr>,
      g_u8MsgBuildBuffer := ?bb, g_struRecvQueue := q'\<rparr>"
    using q' by (simp add: MSG_RecvDataFromCloud_def r h dec mc unat_of_nat_420 assms(2))
  have "safe w'" using ensD [OF MSG_RecvDataFromCloud_safe [OF idle_safe [OF i], of ?d S] w'(1)] d(1) assms(2) by simp
  with w' q'(2) assms(2) show ?thesis by (simp add: waiting_def u16_u32_of_nat)
qed

subsection \<open>Messages of the handshake\<close>

lemma authentic_recv_ok:
  assumes "safe w" "authentic c w"
  shows "recv_msg_ok w"
proof -
  have "length (recv_msg w) = 424" using assms(1) by (simp add: inv_defs rbuf_inv_def)
  then show ?thesis using assms(2)
    by (auto simp: recv_msg_ok_def msg_fits_def authentic_def check_payload_def PCT_CheckCrc_def rd_eq_Some bind_eq_Some_conv)
qed

lemma Run_authentic:
  assumes "safe w" "authentic c w" "main_state w \<noteq> PCT_STATE_WAIT_ACCESS"
  shows "\<exists>w'. PCT_Run S w = Some w' \<and> safe w' \<and> pct_next w w'"
proof -
  from PCT_Run_defined [OF assms(1) authentic_recv_ok [OF assms(1,2)], of S] assms(3)
  obtain w' where w': "PCT_Run S w = Some w'" by (auto simp: defd_def)
  then show ?thesis using ensD [OF PCT_Run_safe [OF assms(1)] w'] ensD [OF ens_Run_next [OF assms(1)] w'] by blast
qed

lemma length_peer_message: "length (peer_message c i p) = 8 + length p"
  by (simp add: peer_message_def)

lemma peer_authentic:
  assumes m: "take (length m) (recv_msg w) = m" "m = peer_message c i (RandMsg (con w) @ x)" "length x \<le> 100"
    and w: "safe w" "waiting w"
  shows "authentic c w" "take (length x) (drop 40 (recv_msg w)) = x"
proof -
  let ?p = "RandMsg (con w) @ x"
  have r: "length (RandMsg (con w)) = 32" "length (recv_msg w) = 424" using w(1) by (simp_all add: inv_defs rbuf_inv_def)
  then have l: "length m = 40 + length x" "length ?p = 32 + length x" using m(2) by (simp_all add: length_peer_message)
  define R where "R = drop (length m) (recv_msg w)"
  have e: "recv_msg w = m @ R" using m(1) append_take_drop_id [of "length m" "recv_msg w"] unfolding R_def by metis
  have h: "MsgHead_of (recv_msg w) = \<lparr>Version = ZC_VERSION, MsgId = i, MsgCode = c, OptNum = 0,
     Payloadlen = ZC_HTONS (of_nat (length ?p)), TotalMsgCrc = crc_bytes (crc16_ccitt ?p)\<rparr>"
    unfolding e m(2) peer_message_def append_assoc by (rule MsgHead_of_append)
  have d: "drop 8 (recv_msg w) = ?p @ R" unfolding e m(2) peer_message_def by simp
  have n: "unat (of_nat (length ?p) :: u16) = length ?p" using l(2) m(3) by (intro unat_of_nat_420) simp
  have "rd (recv_msg w) 8 (length ?p) = Some ?p" using r(2) l m(3) by (simp only: rd_def d) simp
  then have "check_payload (recv_msg w) (MsgHead_of (recv_msg w)) = Some 0"
    unfolding h check_payload_def PCT_CheckCrc_def ZC_MessageHead.simps ZC_HTONS_involution n by simp
  moreover have "take 32 (drop 8 (recv_msg w)) = RandMsg (con w)" unfolding d using r by simp
  ultimately show "authentic c w" using w(2) h by (simp add: authentic_def)
  have "drop 40 (recv_msg w) = drop 32 (drop 8 (recv_msg w))" by simp
  also have "\<dots> = x @ R" unfolding d using r by simp
  finally show "take (length x) (drop 40 (recv_msg w)) = x" by simp
qed

subsection \<open>A whole turn of the cloud task\<close>

lemma MSG_SendDataToCloud_idle: "safe w \<Longrightarrow> MSG_SendDataToCloud c w = Some w"
proof -
  assume "safe w"
  then have q: "que_inv (g_struSendQueue w)" "que_cont (g_struSendQueue w) = []" by (simp_all add: inv_defs)
  then have "MSG_PopMsg (g_struSendQueue w) = Some (None, g_struSendQueue w)" using MSG_PopMsg_inv [OF q(1)] by simp
  then show ?thesis by (simp add: MSG_SendDataToCloud_def)
qed

lemma Cloudfunc_run:
  assumes "PCT_Run S w = Some w1" "safe w1" "main_state w1 \<noteq> 6" "main_state w1 \<noteq> 8"
  shows "HF_Cloudfunc S w = Some (bc_update (sleepcount_update (\<lambda>_. 0)) w1)"
  using assms by (simp add: HF_Cloudfunc_def MSG_SendDataToCloud_idle ZC_SendBc_def)

lemma BuildBcMsg_defined:
  assumes "safe w" "g_struRegisterInfo x = g_struRegisterInfo w" "con x = con w" "length m = 424"
  shows "\<exists>m'. EVENT_BuildBcMsg m x = Some (m', 64) \<and> length m' = 424"
proof -
  note st = safe_store [OF assms(1)]
  let ?d = "u8DeviciId (g_struRegisterInfo w)"
  let ?p = "take 8 (drop 16 ?d) @ take 16 ?d @ RandMsg (con w)"
  have p: "length ?p = 56" using st by simp
  have r: "rd (RandMsg (con w)) 0 32 = Some (RandMsg (con w))" "rd ?d 0 16 = Some (take 16 ?d)" "rd ?d 16 8 = Some (take 8 (drop 16 ?d))"
    using st by (simp_all add: rd_def)
  let ?h = "\<lparr>Version = ZC_VERSION, MsgId = 0, MsgCode = ZC_CODE_BC_INFO, OptNum = 0, Payloadlen = ZC_HTONS 56,
      TotalMsgCrc = crc_bytes (crc16_ccitt ?p)\<rparr>"
  obtain m' where m': "wr m 0 (MsgHead_bytes ?h @ ?p) = Some m'"
    using assms(4) p by (auto simp: wr_def)
  have "EVENT_BuildBcMsg m x = Some (m', 64)"
    unfolding EVENT_BuildBcMsg_def ZC_GetStoreInfor_def assms(2,3) Let_def using r m' by simp
  then show ?thesis using length_wr [OF m'] assms(4) by simp
qed

lemma defd_SendBc:
  assumes "safe w"
  shows "\<exists>w'. ZC_SendBc w = Some w' \<and> main_state w' = main_state w"
proof (cases "main_state w = 6 \<and> sleepcount (bc w) + 1 > g_u32BcSleepCount (bc w)")
  case False
  then show ?thesis by (auto simp: ZC_SendBc_def Let_def)
next
  case True
  let ?w = "bc_update (\<lambda>b. b\<lparr>sleepcount := sleepcount b + 1\<rparr>) w"
  have "length (g_u8MsgBuildBuffer ?w) = 424" using assms by (simp add: inv_defs)
  from BuildBcMsg_defined [OF assms _ _ this, of ?w] obtain m where
    m: "EVENT_BuildBcMsg (g_u8MsgBuildBuffer ?w) ?w = Some (m, 64)" "length m = 424" by auto
  have r: "rd m 0 64 = Some (take 64 m)" using m(2) by (simp add: rd_def)
  show ?thesis using True m(1) r
    by (simp add: ZC_SendBc_def Let_def HF_SendUdpData_def)
qed

lemma Cloudfunc_online:
  assumes "PCT_Run S w = Some w1" "safe w1" "main_state w1 = 6"
  shows "\<exists>w'. HF_Cloudfunc S w = Some w' \<and> main_state w' = 6"
  using assms defd_SendBc [OF assms(2)]
  by (auto simp: HF_Cloudfunc_def MSG_SendDataToCloud_idle)

subsection \<open>The receive buffer stays free\<close>

lemma calm_fresh: "calm w w' \<Longrightarrow> fresh w \<Longrightarrow> fresh w'"
  using calm_safe [of w w'] by (auto simp: fresh_def calm_def dest: safe_ginv)

lemma ens_fresh: "ens m (calm w) \<Longrightarrow> fresh w \<Longrightarrow> ens m fresh"
  by (erule ens_mono) (rule calm_fresh)

lemma fresh_state: "(s \<in> {5, 6, 7} \<Longrightarrow> key_recv w = PCT_KEY_RECVED) \<Longrightarrow> fresh w \<Longrightarrow> fresh (set_state s w)"
  using safe_state(1) [of s w] by (simp add: fresh_def)

lemma fresh_bc: "fresh w \<Longrightarrow> fresh (bc_update f w)"
  by (simp add: fresh_def safe_upds)

definition has_sent :: "world \<Rightarrow> bool" where
  "has_sent w \<longleftrightarrow> (\<exists>fd d. E_tcp_send fd d \<in> set (io w))"

lemma SendMsg_sent: "PCT_SendMsgToCloud S h m off w = Some (ZC_RET_OK, w') \<Longrightarrow> has_sent w'"
  by (auto simp: PCT_SendMsgToCloud_def has_sent_def Let_def bind_eq_Some_conv split: if_splits prod.splits) blast

lemma has_sent_updates:
  "has_sent w \<Longrightarrow> has_sent (set_timer S t n v w)" "has_sent (upd_con f w) = has_sent w" "has_sent (bc_update g w) = has_sent w"
  by (auto simp: has_sent_def set_timer_def HF_SetTimer_def TIMER_FindIdleTimer_def TIMER_AllocateTimer_def Let_def
      split: option.splits)

lemma ens_fresh_AccessMsg1:
  assumes "fresh w" "rsa_works S"
  shows "ens (PCT_SendCloudAccessMsg1 S w) (\<lambda>w'. fresh w' \<and> has_sent w')"
  unfolding PCT_SendCloudAccessMsg1_def Let_def
proof (rule ens_bind [where Q = fresh], goal_cases)
  case 1
  have f: "fresh x \<Longrightarrow> fresh (upd_con (u8ReconnectTimer_update (\<lambda>_. 0xFF)) x)" for x
    by (simp add: fresh_def safe_invalidate)
  show ?case by (intro ens_rules assms(1) ens_bind [OF ens_fresh [OF ens_StopTimer assms(1)]] f)
next
  case (2 w1)
  show ?case
  proof (rule ens_bind_any, rule ens_bind_any, rule ens_bind_any, rule ens_bind_any, rule ens_bind_any, clarify, goal_cases)
    case (1 d r di dm m n)
    let ?w = "w1\<lparr>g_u8MsgBuildBuffer := m\<rparr>"
    have w: "fresh ?w" by (rule calm_fresh [OF safe_build [OF EVENT_BuildMsg_length [OF 1(5)]] 2])
    then have sw: "safe ?w" by (simp add: fresh_def)
    have n: "n = 64" using EVENT_BuildMsg_result [OF 1(5)] by simp
    show ?case
    proof (rule ens_bind [OF ens_conj [OF ens_calm_send [OF safe_ginv [OF sw]] ensI]], assumption, clarify, goal_cases)
      case (1 r w2)
      have w2: "fresh w2" by (rule calm_fresh [OF 1(1) w])
      have "r = 0" using send_msg1_ok [OF safe_sendable(1) [OF sw] assms(2)] 1(2) n by fastforce
      moreover have "has_sent w2" using SendMsg_sent 1(2) calculation by blast
      ultimately show ?case
        by (intro ens_if ens_Some conjI calm_fresh [OF calm_set_timer] fresh_state w2 has_sent_updates(1))
          (simp_all add: has_sent_updates)
    qed
  qed
qed

lemma ens_fresh_Run:
  assumes "safe w" "main_state w = 4" "waiting w"
  shows "ens (PCT_Run S w) fresh"
proof -
  have "ens (PCT_RecvAccessMsg2 S w) fresh" unfolding PCT_RecvAccessMsg2_def
    by (rule ens_popped [OF assms(1), where Q = idle])
      (use assms in \<open>auto simp: fresh_def safe_buf_idle idle_safe intro!: ens_Some ens_RecvMsg2, simp add: upd_buf_def buf_idle_def\<close>)
  then show ?thesis using assms by (simp add: PCT_Run_def)
qed

subsection \<open>The run\<close>

text \<open>The network is there: every call of the SDK on the way to the cloud succeeds.\<close>

definition net_works :: "sdk \<Rightarrow> bool" where
  "net_works S \<longleftrightarrow> (\<forall>es. sdk_gethostbyname S es \<noteq> None \<and> 0 \<le> sdk_socket S es \<and> 0 \<le> sdk_connect S es)"

lemma start_facts: "main_state (start S) = 1" "u8ReconnectTimer (con (start S)) = 0xFF" "u8Status (g_struRecvBuffer (start S)) = 0"
    "pu8SendMoudleBuffer (con (start S)) = None"
  by (simp_all add: start_def HF_JdInit_def HF_BcInit_def HF_Init_def PCT_Init_def HF_ReadDataFormFlash_def Let_def
      ZC_ConfigInitPara_def TIMER_Init_def MSG_Init_def zero_world_def buf_idle_def zero_buffer_def zero_controller_def)

lemma set_timer_reconnect: "v \<noteq> V_Reconnect \<Longrightarrow> u8ReconnectTimer (con (set_timer S t n v w)) = u8ReconnectTimer (con w)"
proof -
  assume "v \<noteq> V_Reconnect"
  then have "u8ReconnectTimer (put_timer v i c) = u8ReconnectTimer c" for i c by (cases v) simp_all
  then show ?thesis
    by (simp add: set_timer_def HF_SetTimer_def TIMER_FindIdleTimer_def TIMER_AllocateTimer_def Let_def split: option.splits)
qed

lemma set_timer_used: "timer_inv w \<Longrightarrow> timer_used (set_timer S t n v w) \<noteq> {}"
proof -
  assume i: "timer_inv w"
  obtain r w' where x: "HF_SetTimer S t n v w = (r, w')" by fastforce
  show ?thesis
  proof (cases "r = 0")
    case True
    then show ?thesis using timers.alloc_ok [OF i, of S "(t, n, v)" w'] x by (auto simp: set_timer_def)
  next
    case False
    then show ?thesis using HF_SetTimer_fail [OF x] i x by (auto simp: set_timer_def timer_inv_def lessThan_empty_iff)
  qed
qed

lemma set_timer_pending_same: "pu8SendMoudleBuffer (con (set_timer S t n v w)) = pu8SendMoudleBuffer (con w)"
  by (simp add: set_timer_def HF_SetTimer_def TIMER_FindIdleTimer_def TIMER_AllocateTimer_def Let_def split: option.splits)

lemma wakeup_run:
  assumes "fresh w" "main_state w = 1" "u8ReconnectTimer (con w) = 0xFF"
  shows "\<exists>w'. hfsys_event_callback S (HFE_DHCP_OK ip) w = Some w' \<and> fresh w' \<and> main_state w' = 2 \<and> u8ReconnectTimer (con w') = 0xFF \<and>
    timer_used w' \<noteq> {} \<and> pu8SendMoudleBuffer (con w') = pu8SendMoudleBuffer (con w)"
proof -
  let ?w0 = "bc_update (g_u32GloablIp_update (\<lambda>_. ZC_HTONL ip)) w"
  let ?w1 = "upd_con (u16SendBcNum_update (\<lambda>_. 0)) (set_timer S 4 1000 V_Register ?w0)"
  have "fresh (set_timer S 4 1000 V_Register ?w0)"
    by (rule calm_fresh [OF calm_set_timer fresh_bc [OF assms(1)]]) simp
  then have w1: "fresh ?w1" by (simp add: fresh_def safe_upds)
  then obtain w2 where w2: "PCT_SendNotifyMsg ZC_CODE_WIFI_CONNECTED ?w1 = Some w2"
    using defd_notify' [of ?w1 ZC_CODE_WIFI_CONNECTED] safe_sendable(1) by (auto simp: defd_def fresh_def)
  have f: "fresh w2" using ensD [OF ens_fresh [OF ens_calm_notify w1] w2] .
  note o = ensD [OF ens_NotifyMsg w2]
  have "timer_inv ?w0" using assms(1) by (simp add: fresh_def safe_def ginv_def timers_ok_def timer_inv_def)
  from set_timer_used [OF this, of S 4 1000 V_Register] outboundD(4) [OF o] have "timer_used w2 \<noteq> {}"
    by (simp add: timer_used_def)
  moreover have "con w2 = con ?w1" using outboundD(1) [OF o] .
  moreover have "fresh (set_state 2 w2)" by (rule fresh_state [OF _ f]) simp
  ultimately show ?thesis using w2 assms(2,3)
    by (simp add: hfsys_event_callback_def HF_WakeUp_def PCT_WakeUp_def Let_def set_timer_reconnect set_timer_pending_same timer_used_def)
qed

lemma connect_run:
  assumes "fresh w" "main_state w = 2" "u8ReconnectTimer (con w) = 0xFF" "net_works S"
  shows "fresh (PCT_ConnectCloud S w) \<and> main_state (PCT_ConnectCloud S w) = 3"
proof -
  obtain a w1 where a: "cloud_address S w = (a, w1)" by fastforce
  then have w1: "con w1 = con w" "g_struRecvBuffer w1 = g_struRecvBuffer w" "a \<noteq> None"
    using assms(4) by (auto simp: cloud_address_def net_works_def Let_def split: if_splits)
  then obtain addr port where ap: "a = Some (addr, port)" by auto
  obtain bs w2 where z: "ZC_Rand S (upd_con (struCloudConnection_update
      (\<lambda>c. c\<lparr>u32ConnectionTimes := 0, u32Socket := of_int (sdk_socket S (io w1))\<rparr>))
      (emit (E_connect addr port) (emit E_socket w1))) = (bs, w2)" by fastforce
  have n: "\<not> sdk_socket S es < 0" "\<not> sdk_connect S es < 0" for es
    using assms(4) by (simp_all add: net_works_def not_less)
  from rand_loop_length [OF z [unfolded ZC_Rand_def]]
  have c: "PCT_ConnectCloud S w = set_keyRecv 0 (set_state 3 (upd_con (RandMsg_update (\<lambda>_. bs)) w2))"
    "g_struRecvBuffer w2 = g_struRecvBuffer w"
    using assms(3) w1 by (simp_all add: PCT_ConnectCloud_def HF_ConnectToCloud_def a ap Let_def z n)
  moreover have "safe (PCT_ConnectCloud S w)" using assms(1) by (simp add: fresh_def PCT_ConnectCloud_safe)
  ultimately show ?thesis using assms(1) by (simp add: fresh_def)
qed

lemma access_run:
  assumes "fresh w" "main_state w = 3" "rsa_ok S" "rsa_works S"
  shows "\<exists>w'. PCT_Run S w = Some w' \<and> fresh w' \<and> has_sent w' \<and> main_state w' = 4"
proof -
  have s: "safe w" "recv_msg_ok w" using assms(1) fresh_idle [OF assms(1)] by (simp_all add: fresh_def recv_msg_ok_def idle_def)
  from PCT_Run_defined [OF s, of S] assms(3) obtain w' where w': "PCT_Run S w = Some w'" by (auto simp: defd_def)
  then have m: "PCT_SendCloudAccessMsg1 S w = Some w'" using assms(2) by (simp add: PCT_Run_def)
  from ensD [OF ens_fresh_AccessMsg1 [OF assms(1,4)] m] ensD [OF ens_AccessMsg1_state [OF s(1)] m] w' assms(4)
  show ?thesis by simp
qed

text \<open>A message of the cloud: received in one turn of the receiving task, handled in the next turn.\<close>

lemma recv_run:
  assumes "fresh w" "main_state w \<in> {4, 5}" "length x \<le> 100"
  shows "\<exists>w'. HF_CloudRecvfunc S (Some (plain_frame (peer_message c i (RandMsg (con w) @ x)))) w = Some w' \<and>
    length (plain_frame (peer_message c i (RandMsg (con w) @ x))) \<le> 500 \<and> safe w' \<and>
    con w' = con w \<and> authentic c w' \<and> take (length x) (drop 40 (recv_msg w')) = x"
proof -
  let ?m = "peer_message c i (RandMsg (con w) @ x)"
  have r: "length (RandMsg (con w)) = 32" using fresh_idle [OF assms(1)] by (rule idle_rand)
  then have l: "length ?m \<le> 420" "length (plain_frame ?m) \<le> 500" "plain_frame ?m \<noteq> []"
    using assms(3) by (auto simp: length_peer_message plain_frame_def SecHead_bytes_def le16_bytes_def)
  from plaintext_received [OF assms(1) l(1), of S] obtain w' where
    w': "MSG_RecvDataFromCloud S (plain_frame ?m) (of_nat (length (plain_frame ?m))) w = Some w'" "safe w'" "waiting w'"
    "take (length ?m) (recv_msg w') = ?m" "con w' = con w" by blast
  from w'(5) have "?m = peer_message c i (RandMsg (con w') @ x)" by simp
  from peer_authentic [OF w'(4) this assms(3) w'(2,3)] w' l assms(2) show ?thesis
    by (auto simp: HF_CloudRecvfunc_def word_le_nat_alt word_less_nat_alt)
qed

lemma handshake_run:
  assumes "sdk_wf S" "rsa_ok S" "rsa_works S" "net_works S" "length k = 16"
  shows "\<exists>w. reach S w \<and> main_state w = 5 \<and> has_key k w" "\<exists>w. reach S w \<and> main_state w = 6"
    "\<exists>w. reach S w \<and> has_sent w" "\<exists>w. reach S w \<and> main_state w = 4 \<and> authentic ZC_CODE_HANDSHAKE_2 w"
proof -
  have 0: "reach S (start S)" by (rule reach.init)
  have f0: "fresh (start S)" using start_safe [OF assms(1)] start_facts by (simp add: fresh_def)
  from wakeup_run [OF f0 start_facts(1,2), of S 0] obtain w1 where
    w1: "hfsys_event_callback S (HFE_DHCP_OK 0) (start S) = Some w1" "fresh w1" "main_state w1 = 2" "u8ReconnectTimer (con w1) = 0xFF"
    by blast
  have 1: "reach S w1" by (rule reach.next_step [OF 0 step.event [OF w1(1)]])
  let ?w2 = "PCT_ConnectCloud S w1"
  note w2 = connect_run [OF w1(2-4) assms(4)]
  have "PCT_Run S w1 = Some ?w2" using w1(3) by (simp add: PCT_Run_def)
  from Cloudfunc_run [OF this] w2 have c2: "HF_Cloudfunc S w1 = Some (bc_update (sleepcount_update (\<lambda>_. 0)) ?w2)"
    by (simp add: fresh_def)
  let ?v2 = "bc_update (sleepcount_update (\<lambda>_. 0)) ?w2"
  have 2: "reach S ?v2" by (rule reach.next_step [OF 1 step.cloud [OF c2]])
  have f2: "fresh ?v2" "main_state ?v2 = 3" using w2 fresh_bc by simp_all
  from access_run [OF f2 assms(2,3)] obtain w3 where
    w3: "PCT_Run S ?v2 = Some w3" "fresh w3" "main_state w3 = 4" "has_sent w3" by blast
  from Cloudfunc_run [OF w3(1)] w3(2,3) have c3: "HF_Cloudfunc S ?v2 = Some (bc_update (sleepcount_update (\<lambda>_. 0)) w3)"
    by (simp add: fresh_def)
  let ?v3 = "bc_update (sleepcount_update (\<lambda>_. 0)) w3"
  have 3: "reach S ?v3" by (rule reach.next_step [OF 2 step.cloud [OF c3]])
  then show "\<exists>w. reach S w \<and> has_sent w" using w3(4) by (intro exI [of _ ?v3]) (simp add: has_sent_updates)
  have f3: "fresh ?v3" "main_state ?v3 \<in> {4, 5}" using w3 fresh_bc by simp_all
  have k: "length k \<le> 100" using assms(5) by simp
  from recv_run [OF f3 k, of S ZC_CODE_HANDSHAKE_2 1] obtain w4 where
    w4: "HF_CloudRecvfunc S (Some (plain_frame (peer_message ZC_CODE_HANDSHAKE_2 1 (RandMsg (con ?v3) @ k)))) ?v3 = Some w4"
    "length (plain_frame (peer_message ZC_CODE_HANDSHAKE_2 1 (RandMsg (con ?v3) @ k))) \<le> 500"
    "safe w4" "con w4 = con ?v3" "authentic ZC_CODE_HANDSHAKE_2 w4" "take 16 (drop 40 (recv_msg w4)) = k"
    using assms(5) by metis
  have 4: "reach S w4" by (rule reach.next_step [OF 3 step.recv [OF w4(1)]]) (use w4(2) in simp)
  have m4: "main_state w4 = 4" using w4(4) w3(3) by simp
  from 4 m4 w4(5) show "\<exists>w. reach S w \<and> main_state w = 4 \<and> authentic ZC_CODE_HANDSHAKE_2 w" by blast
  from Run_authentic [OF w4(3,5), of S] m4 obtain w5 where
    w5: "PCT_Run S w4 = Some w5" "safe w5" "pct_next w4 w5" by auto
  from w5(3) m4 w4(5,6) have k5: "main_state w5 = 5" "has_key k w5" by (auto simp: pct_next_def)
  have f5: "fresh w5" using ensD [OF ens_fresh_Run [OF w4(3) m4] w5(1)] w4(5) by (simp add: authentic_def)
  let ?v5 = "bc_update (sleepcount_update (\<lambda>_. 0)) w5"
  have c5: "HF_Cloudfunc S w4 = Some ?v5" using Cloudfunc_run [OF w5(1,2)] k5 by simp
  have 5: "reach S ?v5" by (rule reach.next_step [OF 4 step.cloud [OF c5]])
  then show "\<exists>w. reach S w \<and> main_state w = 5 \<and> has_key k w" using k5 by (intro exI [of _ ?v5]) (simp add: has_key_def)
  have f5': "fresh ?v5" "main_state ?v5 \<in> {4, 5}" using f5 k5 fresh_bc by simp_all
  from recv_run [OF f5', of "[]" S ZC_CODE_HANDSHAKE_4 1] obtain w6 d where
    w6: "HF_CloudRecvfunc S (Some d) ?v5 = Some w6" "length d \<le> 500"
    "safe w6" "con w6 = con ?v5" "authentic ZC_CODE_HANDSHAKE_4 w6" by auto
  have 6: "reach S w6" by (rule reach.next_step [OF 5 step.recv [OF w6(1)]]) (use w6(2) in simp)
  have m6: "main_state w6 = 5" using w6(4) k5 by simp
  from Run_authentic [OF w6(3,5), of S] m6 obtain w7 where
    w7: "PCT_Run S w6 = Some w7" "safe w7" "pct_next w6 w7" by auto
  from w7(3) m6 w6(5) have "main_state w7 = 6" by (auto simp: pct_next_def)
  from Cloudfunc_online [OF w7(1,2) this] obtain w8 where "HF_Cloudfunc S w6 = Some w8" "main_state w8 = 6" by blast
  then show "\<exists>w. reach S w \<and> main_state w = 6" using reach.next_step [OF 6 step.cloud] by blast
qed

end
