(* ===== verification/Turns.thy ===== *)
theory Turns
  imports Handshake
begin

text \<open>
  Whole turns of the cloud task: reconnection after the end of a connection, definedness of
  \<^verbatim>\<open>HF_Cloudfunc\<close> in every state of the invariant, the timers that bring the controller back.
\<close>

subsection \<open>Reconnection\<close>

lemma stop_used_defined:
  "\<forall>i \<in> set is. i < 5 \<Longrightarrow> timer_inv w \<Longrightarrow>
     \<exists>w'. stop_used_timers is w = Some w' \<and> timer_inv w' \<and> con w' = con w"
proof (induction "is" arbitrary: w)
  case (Cons i "is")
  have i: "i < 5" "unat (of_nat i :: u8) = i" using Cons.prems(1) by (auto simp: unat_of_nat)
  have l: "length (g_struTimer w) = 5" using Cons.prems(2) by (simp add: timer_inv_def)
  have "\<exists>w1. TIMER_StopTimer (of_nat i) w = Some w1"
    using TIMER_StopTimer_defined [OF Cons.prems(2), of "of_nat i"] i by auto
  then obtain w1 where w1: "(if tm_Status (g_struTimer w ! i) = 1 then TIMER_StopTimer (of_nat i) w else Some w) = Some w1"
    "timer_inv w1" "con w1 = con w"
    using TIMER_StopTimer_inv [OF Cons.prems(2)] TIMER_StopTimer_con Cons.prems(2)
    by (cases "tm_Status (g_struTimer w ! i) = 1") (simp_all, blast)
  from Cons.IH [OF _ w1(2)] Cons.prems(1) w1 i l show ?case by (simp add: nth_opt_def)
qed simp

lemma timer_inv_MSG_Init [simp]: "timer_inv (MSG_Init w) = timer_inv w" "timer_inv (upd_con f w) = timer_inv w"
  by (simp_all add: timer_inv_def MSG_Init_def)

lemma find_idle_first: "tm_Status t = ZC_TIMER_STATUS_IDLE \<Longrightarrow> find_idle (t # ts) k = Some k"
  by simp

lemma TIMER_Init_all_idle:
  assumes "timer_inv w"
  shows "find_idle (g_struTimer (TIMER_Init w)) 0 = Some 0" "timer_used (TIMER_Init w) = {}" "timer_inv (TIMER_Init w)"
proof -
  obtain t ts where "g_struTimer w = t # ts" using assms by (cases "g_struTimer w") (simp_all add: timer_inv_def)
  then show "find_idle (g_struTimer (TIMER_Init w)) 0 = Some 0" by (simp add: TIMER_Init_def)
qed (use assms in \<open>auto simp: TIMER_Init_def timer_used_def timer_inv_def\<close>)

text \<open>After the reconnection only its timer runs, and no trace of the connection is left.\<close>

lemma Reconnect_effect:
  assumes "safe w" "u8ReconnectTimer (con w) = PCT_TIMER_INVAILD"
  shows "\<exists>w'. PCT_ReconnectCloud S n w = Some w' \<and> safe w' \<and> main_state w' = PCT_STATE_INIT \<and> key_recv w' = PCT_KEY_UNRECVED \<and>
    timer_used w' = {0} \<and> tm_Type (g_struTimer w' ! 0) = PCT_TIMER_RECONNECT \<and> u8ReconnectTimer (con w') = 0 \<and>
    u32FirstFlag (g_struHfTimer w' ! 0) = 1 \<and> cloud_socket w' = PCT_INVAILD_SOCKET"
proof -
  have "timer_inv (set_keyRecv 0 (MSG_Init w))" using assms(1) by (simp add: inv_defs MSG_Init_def)
  from stop_used_defined [OF _ this, of "[0..<5]"] obtain x where
    x: "stop_used_timers [0..<5] (set_keyRecv 0 (MSG_Init w)) = Some x" "timer_inv x" by auto
  note t = TIMER_Init_all_idle [OF x(2)]
  have "\<exists>w'. PCT_ReconnectCloud S n w = Some w' \<and> main_state w' = PCT_STATE_INIT \<and> key_recv w' = PCT_KEY_UNRECVED \<and>
    timer_used w' = {0} \<and> tm_Type (g_struTimer w' ! 0) = PCT_TIMER_RECONNECT \<and> u8ReconnectTimer (con w') = 0 \<and>
    u32FirstFlag (g_struHfTimer w' ! 0) = 1 \<and> cloud_socket w' = PCT_INVAILD_SOCKET"
    using assms(2) x(1) t
    by (auto simp: PCT_ReconnectCloud_def set_timer_def HF_SetTimer_def TIMER_FindIdleTimer_def TIMER_AllocateTimer_def Let_def
        timer_used_def timer_inv_def nth_list_update split: if_splits)
  then show ?thesis using ensD [OF ens_Reconnect [OF assms(1)]] by blast
qed

lemma defd_Reconnect: "safe w \<Longrightarrow> defd (PCT_ReconnectCloud S n w)"
  using Reconnect_effect [of w S n] by (cases "u8ReconnectTimer (con w) = 0xFF") (auto simp: defd_def PCT_ReconnectCloud_def)

lemma defd_Cloudfunc:
  assumes "safe w" "recv_msg_ok w" "main_state w = PCT_STATE_WAIT_ACCESS \<Longrightarrow> rsa_ok S"
  shows "defd (HF_Cloudfunc S w)"
proof -
  have bc: "safe x \<Longrightarrow> defd (ZC_SendBc x)" for x using defd_SendBc [of x] by (auto simp: defd_def)
  show ?thesis unfolding HF_Cloudfunc_def Let_def
  proof (rule defd_bind [OF PCT_Run_defined [OF assms] PCT_Run_safe [OF assms(1)]], assumption, goal_cases)
    case (1 w1)
    show ?case
    proof (rule defd_bind [where Q = safe, OF _ _ bc], goal_cases)
      case 1
      show ?case using \<open>safe w1\<close>
        by (auto simp: MSG_SendDataToCloud_idle case_prod_unfold sdk_rand_call_def safe_upds intro!: defd_bind_any defd_Reconnect)
    next
      case 2
      show ?case using \<open>safe w1\<close>
        by (auto simp: MSG_SendDataToCloud_idle case_prod_unfold sdk_rand_call_def safe_upds uart_idle_def ens_Some
            intro!: ens_bind [OF ens_Reconnect])
    qed
  qed
qed

text \<open>A handshake message whose checksum or random bytes are wrong ends the connection.\<close>

lemma ens_forged:
  assumes "safe w" "waiting w" "MsgCode (MsgHead_of (recv_msg w)) = code" "\<not> authentic code w"
    and "main_state w = PCT_STATE_WAIT_ACCESSRSP \<and> code = ZC_CODE_HANDSHAKE_2 \<or>
      main_state w = PCT_STATE_WAIT_MSG4 \<and> code = ZC_CODE_HANDSHAKE_4"
  shows "ens (PCT_Run S w) (\<lambda>w'. main_state w' = PCT_STATE_DISCONNECT_CLOUD)"
  using assms(5)
proof (elim disjE conjE)
  assume s: "main_state w = PCT_STATE_WAIT_ACCESSRSP" "code = ZC_CODE_HANDSHAKE_2"
  have "ens (PCT_RecvAccessMsg2 S w) (\<lambda>w'. main_state w' = 8)" unfolding PCT_RecvAccessMsg2_def
  proof (rule ens_popped [OF assms(1), where Q = "\<lambda>w'. main_state w' = 8"], goal_cases)
    case (2 w1)
    show ?case
      by (rule ens_mono [OF ens_RecvMsg2_effect [OF 2(2)]])
        (use 2 s assms(2-4) in \<open>auto simp: authentic_def split: if_splits\<close>)
  qed (use assms(2) in \<open>auto simp: ens_Some\<close>)
  then show ?thesis using s by (simp add: PCT_Run_def)
next
  assume s: "main_state w = PCT_STATE_WAIT_MSG4" "code = ZC_CODE_HANDSHAKE_4"
  have "ens (PCT_RecvAccessMsg4 S w) (\<lambda>w'. main_state w' = 8)" unfolding PCT_RecvAccessMsg4_def
  proof (rule ens_popped [OF assms(1), where Q = "\<lambda>w'. idle w' \<and> main_state w' = 8"], goal_cases)
    case (2 w1)
    then have "key_recv w1 = 1" using assms(1) s by (simp add: safe_def auth_def)
    from ens_RecvMsg4_effect [OF 2(2) this] show ?case
      by (rule ens_mono) (use 2 s assms(2-4) in \<open>auto simp: authentic_def split: if_splits\<close>)
  next
    case (3 w1)
    then have "at 8 (upd_buf RecvBuf buf_idle w1)" by (simp add: at_def safe_buf_idle)
    then show ?case
      by (rule ens_bind [OF ens_at_stop_heart], intro ens_Some) (simp add: at_def)
  qed (use assms(2) in simp)
  then show ?thesis using s by (simp add: PCT_Run_def)
qed

end
