(* ===== verification/UartLine.thy ===== *)
theory UartLine
  imports Turns
begin

text \<open>
  The serial line of \<^verbatim>\<open>main.c\<close> and \<^verbatim>\<open>jdsmart.c\<close>: \<^verbatim>\<open>UartRecv\<close> takes a frame
  \<^verbatim>\<open>AA code n body(n) crc(2) 55\<close> byte by byte into its 50-byte buffer. Frames that fit are handed over
  unchanged, longer ones leave the buffer. The commands the firmware itself writes are such frames.
\<close>

subsection \<open>The receiver\<close>

definition uart_frame :: "u8 \<Rightarrow> bytes \<Rightarrow> u8 \<Rightarrow> u8 \<Rightarrow> u8 \<Rightarrow> bytes" where
  "uart_frame code body lo hi t = [0xAA, code, of_nat (length body)] @ body @ [lo, hi, t]"

definition line_idle :: "world \<Rightarrow> bool" where
  "line_idle w \<longleftrightarrow> g_curtype (device w) = PKT_UNKNOWN \<and> length (g_u8recv_data (device w)) = 50"

text \<open>The receiver after \<open>k\<close> bytes of a frame.\<close>

definition collecting :: "u8 \<Rightarrow> bytes \<Rightarrow> uart_device \<Rightarrow> uart_device" where
  "collecting n got d = d\<lparr>g_curtype := PKT_PUREDATA, g_recvdata := of_nat (length got), g_u8CurPktLen := n,
     g_u8recv_data := got @ drop (length got) (g_u8recv_data d)\<rparr>"

lemma unat_of_nat_u8: "n < 256 \<Longrightarrow> unat (of_nat n :: u8) = n"
  by (simp add: unat_of_nat)

lemma put_next: "k < length xs \<Longrightarrow> length got = k \<Longrightarrow> (got @ drop k xs)[k := b] = (got @ [b]) @ drop (Suc k) xs"
  by (simp add: list_update_append flip: Cons_nth_drop_Suc)

lemma upd_opt_next:
  "length got < length xs \<Longrightarrow>
     upd_opt (got @ drop (length got) xs) (length got) b = Some ((got @ [b]) @ drop (Suc (length got)) xs)"
  by (simp add: upd_opt_def put_next)

text \<open>One more byte of a frame that fits.\<close>

lemma UartRecv_step:
  assumes "length (g_u8recv_data (device w)) = 50" "length got < 50" "3 \<le> length got"
  shows "UartRecv S b (upd_dev (collecting n got) w) =
    (let w = upd_dev (collecting n (got @ [b])) w
     in if length got + 1 = unat n + 6 then
          if b = 0x55 then do {
            w \<leftarrow> UartProcess S (g_u8recv_data (device w)) (of_nat (length (got @ [b]))) w;
            Some (upd_dev uart_unknown w) }
          else Some (upd_dev uart_unknown w)
        else Some w)"
proof -
  define N :: u8 where "N = of_nat (Suc (length got))"
  define r where "r = got @ b # drop (Suc (length got)) (g_u8recv_data (device w))"
  have u: "unat (of_nat (length got) :: u8) = length got" using assms(2) by (intro unat_of_nat_u8) simp
  have N: "of_nat (length got) + 1 = N" "of_nat (length (got @ [b])) = N" by (simp_all add: N_def)
  have uN: "unat N = length got + 1" using assms(2) unfolding N_def by (subst unat_of_nat_u8) simp_all
  have 3: "N \<noteq> 3" using uN assms(3) by auto
  have up: "upd_opt (got @ drop (length got) (g_u8recv_data (device w))) (length got) b = Some r"
    using upd_opt_next [of got "g_u8recv_data (device w)" b] assms(1,2) by (simp add: r_def)
  have c: "collecting n (got @ [b]) (device w) = (device w)\<lparr>g_curtype := 1, g_u8CurPktLen := n, g_u8recv_data := r, g_recvdata := N\<rparr>"
    by (simp only: collecting_def N) (simp add: r_def)
  have d: "upd_dev f w = w\<lparr>device := f (device w)\<rparr>" for f by (cases w) simp
  define K where "K = (length got + 1 = unat n + 6)"
  have KN: "(unat N = unat n + 6) = K" by (simp add: K_def uN)
  show ?thesis
    unfolding UartRecv_def Let_def d [of "collecting n got"] d [of "collecting n (got @ [b])"] c K_def [symmetric] N(2)
    using up by (simp add: collecting_def u N(1) 3 KN)
qed

lemma uart_collect:
  assumes "length (g_u8recv_data (device w)) = 50" "length got + length bs \<le> 50" "3 \<le> length got"
    and "length got + length bs < unat n + 6"
  shows "uart_bytes S bs (upd_dev (collecting n got) w) = Some (upd_dev (collecting n (got @ bs)) w)"
  using assms
proof (induction bs arbitrary: got)
  case (Cons b bs)
  have "UartRecv S b (upd_dev (collecting n got) w) = Some (upd_dev (collecting n (got @ [b])) w)"
    by (subst UartRecv_step) (use Cons.prems in simp_all)
  with Cons.IH [of "got @ [b]"] Cons.prems show ?case by simp
qed simp

lemma uart_head:
  assumes "line_idle w"
  shows "uart_bytes S [0xAA, code, n] w = Some (upd_dev (collecting n [0xAA, code, n]) w)"
proof -
  obtain a b c r where "g_u8recv_data (device w) = a # b # c # r"
    using assms by (auto simp: line_idle_def length_Suc_conv eval_nat_numeral)
  then have x: "(g_u8recv_data (device w))[0 := 0xAA, Suc 0 := code, 2 := n] =
      0xAA # code # n # drop (Suc (Suc (Suc 0))) (g_u8recv_data (device w))"
    by (simp add: eval_nat_numeral)
  show ?thesis using assms x
    by (cases w) (simp add: line_idle_def UartRecv_def collecting_def upd_opt_def Let_def)
qed

lemma uart_bytes_append: "uart_bytes S (as @ bs) w = uart_bytes S as w \<bind> uart_bytes S bs"
  by (induction as arbitrary: w) (auto intro!: option.expand simp: bind_assoc split: option.splits Option.bind_splits)

lemma uart_noise: "line_idle w \<Longrightarrow> 0xAA \<notin> set bs \<Longrightarrow> uart_bytes S bs w = Some w"
  by (induction bs) (auto simp: UartRecv_def line_idle_def Let_def)

lemma uart_frame_run:
  assumes "line_idle w" "length body \<le> 44" "0xAA \<notin> set noise"
  shows "uart_bytes S (noise @ uart_frame code body lo hi t) w =
    (let w = upd_dev (collecting (of_nat (length body)) (uart_frame code body lo hi t)) w
     in if t = 0x55 then do {
          w \<leftarrow> UartProcess S (g_u8recv_data (device w)) (of_nat (length body) + 6) w;
          Some (upd_dev uart_unknown w) }
        else Some (upd_dev uart_unknown w))"
proof -
  let ?n = "of_nat (length body) :: u8" and ?h = "[0xAA, code, of_nat (length body)] :: u8 list"
  let ?got = "?h @ body @ [lo, hi]"
  have n: "unat ?n = length body" using assms(2) by (intro unat_of_nat_u8) simp
  have l: "length (g_u8recv_data (device w)) = 50" using assms(1) by (simp add: line_idle_def)
  have c: "uart_bytes S (body @ [lo, hi]) (upd_dev (collecting ?n ?h) w) = Some (upd_dev (collecting ?n ?got) w)"
    by (rule uart_collect) (use l n assms(2) in simp_all)
  have f: "uart_frame code body lo hi t = (?h @ (body @ [lo, hi])) @ [t]" by (simp add: uart_frame_def)
  have e: "noise @ uart_frame code body lo hi t = noise @ ?h @ (body @ [lo, hi]) @ [t]" by (simp add: f)
  have g: "uart_bytes S (noise @ uart_frame code body lo hi t) w = UartRecv S t (upd_dev (collecting ?n ?got) w)"
    unfolding e uart_bytes_append [where as = noise] uart_noise [OF assms(1,3)] uart_bytes_append [where as = ?h]
      uart_head [OF assms(1)] uart_bytes_append [where as = "body @ [lo, hi]"] bind.simps c
    by (cases "UartRecv S t (upd_dev (collecting ?n ?got) w)") simp_all
  have ln: "of_nat (length (?got @ [t])) = (of_nat (length body) + 6 :: u8)" by simp
  have "UartRecv S t (upd_dev (collecting ?n ?got) w) =
    (let w = upd_dev (collecting ?n (?got @ [t])) w
     in if length ?got + 1 = unat ?n + 6 then
          if t = 0x55 then do {
            w \<leftarrow> UartProcess S (g_u8recv_data (device w)) (of_nat (length (?got @ [t]))) w;
            Some (upd_dev uart_unknown w) }
          else Some (upd_dev uart_unknown w)
        else Some w)"
    by (rule UartRecv_step) (use l assms(2) in simp_all)
  then show ?thesis unfolding g unfolding f ln Let_def by (simp add: n)
qed

text \<open>C30: Bytes before a frame that are not \<^verbatim>\<open>AA\<close> are skipped. A frame with at most 44 bytes of body is
  collected unchanged and handed to \<^verbatim>\<open>UartProcess\<close> with its full length if it ends in \<^verbatim>\<open>55\<close>, and dropped
  if not; in both cases the receiver is then ready for the next frame.\<close>

theorem uart_frame_received:
  assumes "line_idle w" "length body \<le> 44" "0xAA \<notin> set noise"
  shows "uart_bytes S (noise @ uart_frame code body lo hi t) w =
    (let w = upd_dev (collecting (of_nat (length body)) (uart_frame code body lo hi t)) w
     in if t = 0x55 then do {
          w \<leftarrow> UartProcess S (g_u8recv_data (device w)) (of_nat (length body) + 6) w;
          Some (upd_dev uart_unknown w) }
        else Some (upd_dev uart_unknown w))"
  using assms by (rule uart_frame_run)

lemma line_idle_zero: "line_idle zero_world"
  by (simp add: line_idle_def zero_world_def)

lemma uart_frame_received_witness:
  "\<exists>w'. uart_bytes quiet_sdk ([1, 2] @ uart_frame 0xF3 [7] 0 0 0x55) zero_world = Some w' \<and>
     g_curtype (device w') = 0 \<and> take 7 (g_u8recv_data (device w')) = [0xAA, 0xF3, 1, 7, 0, 0, 0x55]"
proof -
  have n: "length [7 :: u8] \<le> 44" "(0xAA :: u8) \<notin> set [1, 2]" by simp_all
  show ?thesis
    by (subst uart_frame_received [OF line_idle_zero n])
      (simp add: UartProcess_def uart_frame_def collecting_def nth_opt_def Let_def uart_unknown_def quiet_sdk_def zero_world_def)
qed

lemma UartRecv_past_end:
  "g_curtype (device w) = PKT_PUREDATA \<Longrightarrow> g_recvdata (device w) = 50 \<Longrightarrow> length (g_u8recv_data (device w)) = 50 \<Longrightarrow>
     UartRecv S b w = None"
  by (simp add: UartRecv_def upd_opt_def Let_def)

text \<open>A frame that announces more than 44 bytes of body is written past the end of the 50-byte buffer
  \<^verbatim>\<open>g_u8recv_data\<close>: the length byte of the line is not checked, and the behaviour is undefined as soon as
  48 bytes follow it.\<close>

lemma uart_frame_overflow:
  assumes "line_idle w" "45 \<le> n" "48 \<le> length bs"
  shows "uart_bytes S ([0xAA, code, n] @ bs) w = None"
proof -
  let ?h = "[0xAA, code, n]"
  have l: "length (g_u8recv_data (device w)) = 50" using assms(1) by (simp add: line_idle_def)
  have n: "45 \<le> unat n" using assms(2) by (simp add: word_le_nat_alt)
  obtain b cs where bs: "bs = take 47 bs @ b # cs" using assms(3) id_take_nth_drop [of 47 bs] by auto
  let ?g = "?h @ take 47 bs"
  have c: "uart_bytes S (take 47 bs) (upd_dev (collecting n ?h) w) = Some (upd_dev (collecting n ?g) w)"
    by (rule uart_collect) (use l n assms(3) in simp_all)
  have g: "length ?g = 50" using assms(3) by simp
  have "UartRecv S b (upd_dev (collecting n ?g) w) = None"
    by (rule UartRecv_past_end) (use l g in \<open>simp_all add: collecting_def del: append.simps\<close>)
  then have "uart_bytes S (b # cs) (upd_dev (collecting n ?g) w) = None" by simp
  with c show ?thesis
    unfolding uart_bytes_append [where as = ?h] uart_head [OF assms(1)] bind.simps
    by (subst bs, simp only: uart_bytes_append [where as = "take 47 bs"]) simp
qed

subsection \<open>Numbers and commands\<close>

definition decimal :: "nat list \<Rightarrow> nat" where
  "decimal ds = foldl (\<lambda>n d. 10 * n + d) 0 ds"

definition digits :: "nat list \<Rightarrow> bytes" where
  "digits ds = map (\<lambda>d. of_nat (48 + d)) ds"

lemma uint_digit: "d < 10 \<Longrightarrow> uint (of_nat (48 + d) :: u8) = 48 + int d"
proof -
  have "list_all (\<lambda>d. uint (of_nat (48 + d) :: u8) = 48 + int d) [0..<10]" by (simp add: upt_rec)
  then show "d < 10 \<Longrightarrow> uint (of_nat (48 + d) :: u8) = 48 + int d" by (simp add: list_all_iff)
qed

lemma foldl_decimal_ge: "n \<le> foldl (\<lambda>n d. 10 * n + d) n ds" for n :: nat
proof (induction ds arbitrary: n)
  case (Cons d ds)
  have "n \<le> 10 * n + d" by simp
  also have "\<dots> \<le> foldl (\<lambda>n d. 10 * n + d) (10 * n + d) ds" by (rule Cons.IH)
  finally show ?case by simp
qed simp

lemma my_atoi_loop_digits:
  assumes "\<forall>d \<in> set ds. d < 10" "foldl (\<lambda>n d. 10 * n + d) n ds < 2147483648"
  shows "my_atoi_loop (digits ds @ 0 # r) (int n) = Some (int (foldl (\<lambda>n d. 10 * n + d) n ds))"
  using assms
proof (induction ds arbitrary: n)
  case (Cons d ds)
  have d: "d < 10" using Cons.prems(1) by simp
  have b: "10 * n + d < 2147483648"
    using foldl_decimal_ge [of "10 * n + d" ds] Cons.prems(2) by simp
  have z: "(of_nat (48 + d) :: u8) \<noteq> 0"
    using uint_digit [OF d] by auto
  have "int32 (int n * 10) = Some (int n * 10)" "int32 (int n * 10 + (uint (of_nat (48 + d) :: u8) - 48)) = Some (int (10 * n + d))"
    using b by (simp_all only: int32_def uint_digit [OF d]) simp_all
  moreover have "my_atoi_loop (digits ds @ 0 # r) (int (10 * n + d)) = Some (int (foldl (\<lambda>n d. 10 * n + d) (10 * n + d) ds))"
    by (rule Cons.IH) (use Cons.prems in simp_all)
  ultimately show ?case using z by (simp add: digits_def)
qed (simp add: digits_def)

definition frame_sum :: "bytes \<Rightarrow> u16" where
  "frame_sum bs = sum_list (map ucast bs)"

lemma ecc_tail_sum: "ecc_tail buf = [ucast (frame_sum buf), ucast (drop_bit 8 (frame_sum buf)), 0x55]"
proof -
  have m: "(0xFF :: u16) = mask 8" "(0xFF00 :: u16) = push_bit 8 (mask 8)" by (simp_all add: mask_eq_exp_minus_1)
  have "(ucast (e AND 0xFF) :: u8) = ucast e" "(ucast (drop_bit 8 (e AND 0xFF00)) :: u8) = ucast (drop_bit 8 e)" for e :: u16
    unfolding m by (rule bit_eqI; auto simp: bit_simps dest: bit_imp_le_length)+
  then show ?thesis by (simp add: ecc_tail_def calc_ecc_def frame_sum_def Let_def)
qed

definition stream_codes :: "(string \<times> u8) list" where
  "stream_codes = [(''power'', 1), (''speed'', 2), (''sound'', 3), (''light'', 4), (''mode'', 5)]"

lemma c_string_name: "(name, c) \<in> set stream_codes \<Longrightarrow> c_string (map of_char name @ 0 # r) = map of_char name"
  by (auto simp: stream_codes_def c_string_def)

lemma json_code: "(name, c) \<in> set stream_codes \<Longrightarrow> json_to_binary (map of_char name @ 0 # r) p w = build_message c p w"
  by (simp only: json_to_binary_def stream_is_def c_string_name) (auto simp: stream_codes_def)

text \<open>The frame that carries one value, and the command that sends it: whatever number \<^verbatim>\<open>my_atoi\<close> reads.\<close>

definition value_frame :: "u8 \<Rightarrow> u8 \<Rightarrow> bytes" where
  "value_frame code v = (let e = frame_sum [0xAA, code, 1, v] in uart_frame code [v] (ucast e) (ucast (drop_bit 8 e)) 0x55)"

lemma value_frame_inject: "value_frame code v = value_frame code v' \<longleftrightarrow> v = v'"
  by (auto simp: value_frame_def uart_frame_def Let_def)

lemma json_value_frame:
  assumes "(name, code) \<in> set stream_codes" "my_atoi p = Some v"
  shows "json_to_binary (map of_char name @ 0 # r) p w = Some (emit (E_uart_send (value_frame code (of_int v))) w)"
proof -
  have "1 \<le> code \<and> code \<le> 5" using assms(1) by (auto simp: stream_codes_def)
  then show ?thesis unfolding json_code [OF assms(1)]
    by (simp add: build_message_def assms(2) Let_def ecc_tail_sum uart_frame_def value_frame_def)
qed

text \<open>A command of the cloud for one of the streams with a decimal value below \<^verbatim>\<open>2^31\<close> puts one frame on
  the serial line: the code of the stream, the low byte of the value, the sum of the four bytes before it in
  little-endian order, and the end byte.\<close>

lemma json_command_frame:
  assumes "(name, code) \<in> set stream_codes" "\<forall>d \<in> set ds. d < 10" "decimal ds < 2147483648"
  shows "json_to_binary (map of_char name @ 0 # r) (digits ds @ 0 # r') w =
    (let v = of_nat (decimal ds); e = frame_sum [0xAA, code, 1, v]
     in Some (emit (E_uart_send ([0xAA, code, 1, v, ucast e, ucast (drop_bit 8 e), 0x55])) w))"
proof -
  have v: "my_atoi (digits ds @ 0 # r') = Some (int (decimal ds))"
    using my_atoi_loop_digits [of ds 0 r'] assms by (simp add: my_atoi_def decimal_def)
  show ?thesis unfolding json_value_frame [OF assms(1) v] by (simp add: value_frame_def uart_frame_def Let_def)
qed

subsection \<open>The Wi-Fi query\<close>

text \<open>The arguments of \<^verbatim>\<open>strstr\<close> are exchanged in the handling of command \<^verbatim>\<open>F0\<close>: an empty answer of the
  module, as any other part of the text looked for, counts as \<^verbatim>\<open>+ok=Disconnected\<close> and starts the
  configuration mode.\<close>

lemma UartProcess_empty_answer:
  assumes "data ! 1 = 0xF0" "2 \<le> length data" "sdk_at_reply S (io w) = 0 # r"
  shows "UartProcess S data n w =
    Some (emit E_smartlink_start (emit (E_uart_send reply_data) (emit (E_at_cmd AT_WSLK) w)))"
  using assms by (simp add: UartProcess_def nth_opt_def c_string_def strstr_found.simps Let_def)

end
