(* ===== verification/ClientTable.thy ===== *)
theory ClientTable
  imports UartLine
begin

text \<open>
  The table of local clients meets the slot contract of \<open>Slots\<close>: a slot is in use when its flag is not
  \<^verbatim>\<open>ZC_CLIENT_VAILD_FLAG\<close>, a client that leaves frees all slots with its identifier.
\<close>

definition client_inv :: "ZC_ClientInfo \<Rightarrow> bool" where
  "client_inv c \<longleftrightarrow> length (u32ClientVaildFlag c) = 4 \<and> length (u32ClientFd c) = 4"

definition client_used :: "ZC_ClientInfo \<Rightarrow> nat set" where
  "client_used c = {i. i < 4 \<and> u32ClientVaildFlag c ! i \<noteq> ZC_CLIENT_VAILD_FLAG}"

definition client_slots :: "u32 \<Rightarrow> ZC_ClientInfo \<Rightarrow> nat set" where
  "client_slots fd c = {i. i < 4 \<and> u32ClientFd c ! i = fd}"

lemma connect_loop:
  assumes "client_connect_loop fd is c = (r, c')"
  shows "r = ZC_RET_ERROR \<and> c' = c \<and> (\<forall>i \<in> set is. u32ClientVaildFlag c ! i \<noteq> ZC_CLIENT_VAILD_FLAG) \<or>
    r = ZC_RET_OK \<and> (\<exists>i \<in> set is. u32ClientVaildFlag c ! i = ZC_CLIENT_VAILD_FLAG \<and>
      c' = c\<lparr>u32ClientFd := (u32ClientFd c)[i := fd], u32ClientVaildFlag := (u32ClientVaildFlag c)[i := ZC_CLIENT_INVAILD_FLAG]\<rparr>)"
  using assms by (induction "is") (auto split: if_splits)

lemma disconnect_loop:
  "client_inv c \<Longrightarrow> \<forall>i \<in> set is. i < 4 \<Longrightarrow>
     \<exists>c'. client_disconnect_loop fd is c = Some c' \<and> client_inv c' \<and> u32ClientFd c' = u32ClientFd c \<and>
       client_used c' = client_used c - {i \<in> set is. u32ClientFd c ! i = fd}"
proof (induction "is" arbitrary: c)
  case (Cons i "is")
  note i = Cons.prems
  let ?fl = "(u32ClientVaildFlag c)[i := ZC_CLIENT_VAILD_FLAG]"
  show ?case
  proof (cases "u32ClientFd c ! i = fd")
    case False
    from Cons.IH [of c] i False show ?thesis by (auto simp: nth_opt_def client_inv_def)
  next
    case True
    let ?c1 = "c\<lparr>u32ClientVaildFlag := ?fl\<rparr>"
    let ?c2 = "if u8ClientStates ?c1 = ZC_CLIENT_STATUS_BUSY \<and> fd = ucast (u32ClientBusyId ?c1) then ZC_SetClientFree ?c1 else ?c1"
    have c2: "client_inv ?c2" "u32ClientFd ?c2 = u32ClientFd c" "client_used ?c2 = client_used c - {i}"
      using i by (auto simp: client_inv_def client_used_def ZC_SetClientFree_def nth_list_update)
    have "client_disconnect_loop fd (i # is) c = client_disconnect_loop fd is ?c2"
      using i True by (simp add: nth_opt_def upd_opt_def client_inv_def Let_def)
    with Cons.IH [OF c2(1)] i c2 True show ?thesis by fastforce
  qed
qed simp

interpretation clients: slot_table 4 client_inv client_used client_slots ZC_ClientConnect ZC_ClientDisconnect
proof
  show "client_inv s \<Longrightarrow> client_used s \<subseteq> {..<4}" for s
    by (auto simp: client_used_def)
  show "client_inv s' \<and> (\<exists>i < 4. i \<notin> client_used s \<and> client_used s' = insert i (client_used s))"
    if "client_inv s" "ZC_ClientConnect fd s = (ZC_RET_OK, s')" for s s' fd
  proof -
    from connect_loop [OF that(2) [unfolded ZC_ClientConnect_def]] obtain i where
      "i < 4" "u32ClientVaildFlag s ! i = 1"
      "s' = s\<lparr>u32ClientFd := (u32ClientFd s)[i := fd], u32ClientVaildFlag := (u32ClientVaildFlag s)[i := 0]\<rparr>" by auto
    with that(1) show ?thesis
      by (intro conjI exI [of _ i]) (auto simp: client_inv_def client_used_def nth_list_update)
  qed
  show "s' = s \<and> client_used s = {..<4}"
    if "client_inv s" "ZC_ClientConnect fd s = (r, s')" "r \<noteq> ZC_RET_OK" for s s' fd r
    using connect_loop [OF that(2) [unfolded ZC_ClientConnect_def]] that(3) by (auto simp: client_used_def)
  show "client_inv s' \<and> client_used s' = client_used s - client_slots fd s"
    if "client_inv s" "ZC_ClientDisconnect fd s = Some s'" for s s' fd
    using disconnect_loop [OF that(1), of "[0..<4]" fd] that(2) by (auto simp: ZC_ClientDisconnect_def client_slots_def)
qed

text \<open>C29: A client is refused exactly when all four slots are taken, and then nothing changes; an accepted
  client gets a slot that was free and its identifier is stored there; a client that leaves frees exactly
  its slots.\<close>

theorem client_table:
  assumes "client_inv c" "ZC_ClientConnect fd c = (r, c')"
  shows "(if card (client_used c) = 4 then r = ZC_RET_ERROR \<and> c' = c
      else r = ZC_RET_OK \<and> client_inv c' \<and> card (client_used c') = Suc (card (client_used c)) \<and>
        client_slots fd c' \<inter> client_used c' \<noteq> {}) \<and>
    (\<exists>d. ZC_ClientDisconnect fd' c = Some d \<and> client_inv d \<and> client_used d = client_used c - client_slots fd' c)"
proof (rule conjI)
  note l = connect_loop [OF assms(2) [unfolded ZC_ClientConnect_def]]
  have f: "r \<noteq> 0 \<longleftrightarrow> card (client_used c) = 4" using clients.alloc_refused_iff [OF assms(1), of fd] assms(2) by simp
  show "if card (client_used c) = 4 then r = ZC_RET_ERROR \<and> c' = c
      else r = ZC_RET_OK \<and> client_inv c' \<and> card (client_used c') = Suc (card (client_used c)) \<and>
        client_slots fd c' \<inter> client_used c' \<noteq> {}"
  proof (cases "r = 0")
    case True
    have "client_slots fd c' \<inter> client_used c' \<noteq> {}"
      using l True assms(1) by (auto simp: client_slots_def client_used_def client_inv_def nth_list_update)
    with clients.alloc_card [OF assms(1) assms(2) [unfolded True]] f True show ?thesis by simp
  next
    case False
    with l have "r = 1 \<and> c' = c" by simp
    with f False show ?thesis by simp
  qed
  show "\<exists>d. ZC_ClientDisconnect fd' c = Some d \<and> client_inv d \<and> client_used d = client_used c - client_slots fd' c"
    using disconnect_loop [OF assms(1), of "[0..<4]" fd'] clients.free_ok [OF assms(1), of fd']
    by (auto simp: ZC_ClientDisconnect_def)
qed

lemma client_table_witness:
  "fst (ZC_ClientConnect 9 (ZC_ClientInit (g_struClientInfo zero_world))) = ZC_RET_OK \<and>
     (\<exists>d. ZC_ClientDisconnect 0 (ZC_ClientInit (g_struClientInfo zero_world)) = Some d \<and> client_used d = {})"
proof -
  let ?c = "ZC_ClientInit (g_struClientInfo zero_world)"
  have i: "client_inv ?c" by (simp add: client_inv_def ZC_ClientInit_def zero_world_def)
  have u: "client_used ?c = {}" by (auto simp: client_used_def ZC_ClientInit_def zero_world_def nth_Cons')
  obtain r c' where x: "ZC_ClientConnect 9 ?c = (r, c')" by fastforce
  show ?thesis using client_table [OF i x, of 0] u x by auto
qed

end
