(* ===== verification/Relay.thy ===== *)
theory Relay
  imports ClientTable
begin

text \<open>
  Functional properties of the relay: the firmware update writes contiguous chunks only, a command to the
  device is repeated a bounded number of times, nothing leaves under AES before the session key, the
  timer table, the random bytes of the handshake, the end of a connection.
\<close>

subsection \<open>Firmware update\<close>

definition flash_log :: "world \<Rightarrow> (u32 \<times> bytes) list" where
  "flash_log w = concat (map (\<lambda>e. case e of E_update_write off d \<Rightarrow> [(off, d)] | _ \<Rightarrow> []) (io w))"

lemma flash_log_emit:
  "flash_log (emit (E_update_write off d) w) = (off, d) # flash_log w" "flash_log (emit E_update_start w) = flash_log w"
  by (simp_all add: flash_log_def)

lemma outbound_flash_log: "outbound w w' \<Longrightarrow> flash_log w' = flash_log w"
proof -
  assume "outbound w w'"
  from outboundD(18) [OF this] obtain es where
    es: "io w' = es @ io w" "\<forall>e \<in> set es. out_event (cloud_socket w) (send_len w) e" by blast
  have "concat (map (\<lambda>e. case e of E_update_write off d \<Rightarrow> [(off, d)] | _ \<Rightarrow> []) es) = []"
    using es(2) by (auto simp: out_event_def split: event.splits)
  then show ?thesis by (simp add: flash_log_def es(1))
qed

lemma ens_quiet:
  "ens m (outbound w) \<Longrightarrow> ens m (\<lambda>w'. flash_log w' = flash_log w \<and> con w' = con w)"
  by (erule ens_mono) (simp add: outbound_flash_log outboundD)

lemma ens_ota_answer:
  assumes "safe w"
  shows "ens (PCT_SendErrorMsg S i p n w) (\<lambda>w'. flash_log w' = flash_log w \<and> con w' = con w)"
    "ens (PCT_SendAckToCloud S i w) (\<lambda>w'. flash_log w' = flash_log w \<and> con w' = con w)"
proof -
  have c: "can_send w" using assms by (simp add: idle_can_send)
  show "ens (PCT_SendErrorMsg S i p n w) (\<lambda>w'. flash_log w' = flash_log w \<and> con w' = con w)"
    unfolding PCT_SendErrorMsg_def by (rule ens_quiet [OF ens_build_and_send [OF c]])
  show "ens (PCT_SendAckToCloud S i w) (\<lambda>w'. flash_log w' = flash_log w \<and> con w' = con w)"
    by (rule ens_quiet [OF ens_AckToCloud [OF c]])
qed

text \<open>The chunk of a message: its offset and the bytes to write.\<close>

definition chunk_off :: "bytes \<Rightarrow> u32" where
  "chunk_off m = ZC_HTONL (fld32 (take 4 (drop 8 m)) 0)"

definition chunk_data :: "bytes \<Rightarrow> bytes" where
  "chunk_data m = take (unat (ota_file_len (MsgHead_of m))) (drop 12 m)"

lemma FirmwareUpdate_result:
  "HF_FirmwareUpdate S m off o' n w = Some (r, w') \<Longrightarrow>
     flash_log w' = (o', take (unat n) (drop off m)) # flash_log w \<and> con w' = con w \<and> (safe w \<longrightarrow> safe w') \<and> (r = ZC_RET_OK \<or> r = ZC_RET_ERROR)"
  by (auto simp: HF_FirmwareUpdate_def Let_def bind_eq_Some_conv flash_log_emit rd_eq_Some)

lemma ens_ota_chunk:
  assumes "safe w" "\<not> ota_chunk_bad off len (struOtaInfo (con w))"
  shows "ens (HF_FirmwareUpdate S m 12 off len w \<bind> (\<lambda>(r, w).
      if r = ZC_RET_ERROR then PCT_SendErrorMsg S i [] 0 w else PCT_SendAckToCloud S i (ota_advance len w)))
    (\<lambda>w'. flash_log w' = (off, take (unat len) (drop 12 m)) # flash_log w \<and>
       u32TotalLen (struOtaInfo (con w')) = u32TotalLen (struOtaInfo (con w)) \<and>
       u32RecvOffset (struOtaInfo (con w')) \<in> {off, off + len})"
proof (rule ens_bind_any, clarify, goal_cases)
  case (1 r w1)
  note f = FirmwareUpdate_result [OF 1]
  have w1: "safe w1" using f assms(1) by simp
  have a: "safe (ota_advance len w1)" by (rule safe_ota_advance(1) [where off = off]) (use w1 f assms(2) in simp_all)
  have o: "flash_log (ota_advance len w1) = flash_log w1" by (simp add: ota_advance_def flash_log_def)
  have off: "u32RecvOffset (struOtaInfo (con w)) = off" using assms(2) by (simp add: ota_chunk_bad_def)
  show ?case
    by (intro ens_if ens_mono [OF ens_ota_answer(1) [OF w1]] ens_mono [OF ens_ota_answer(2) [OF a]])
      (use f o off in \<open>simp_all add: ota_advance_def\<close>)
qed

text \<open>C27: A chunk of the firmware is written exactly when it starts where the last one ended, does not go past
  the announced length and has at most 384 bytes; then its bytes are written once at that offset, and the
  offset moves to its end or, if the flash refused it, stays. Any other chunk changes neither the flash nor
  the progress of the update.\<close>

theorem ota_chunk_contiguous:
  assumes "safe w" "PCT_HandleOtaFileChunkMsg S p w = Some w'"
    and "m = u8MsgBuffer (get_buf p w)" "i = struOtaInfo (con w)" "len = ota_file_len (MsgHead_of m)"
  shows "if chunk_off m = u32RecvOffset i \<and> chunk_off m + len \<le> u32TotalLen i \<and> unat len \<le> 384
    then flash_log w' = (u32RecvOffset i, chunk_data m) # flash_log w \<and> u32TotalLen (struOtaInfo (con w')) = u32TotalLen i \<and>
      u32RecvOffset (struOtaInfo (con w')) \<in> {u32RecvOffset i, u32RecvOffset i + len}
    else flash_log w' = flash_log w \<and> struOtaInfo (con w') = i"
proof -
  have g: "ota_chunk_bad (chunk_off m) len i \<longleftrightarrow>
      \<not> (chunk_off m = u32RecvOffset i \<and> chunk_off m + len \<le> u32TotalLen i \<and> unat len \<le> 384)"
    by (auto simp: ota_chunk_bad_def word_less_nat_alt not_less not_le)
  have e: "ens (PCT_HandleOtaFileChunkMsg S p w) (\<lambda>w'. if ota_chunk_bad (chunk_off m) len i
    then flash_log w' = flash_log w \<and> struOtaInfo (con w') = i
    else flash_log w' = (u32RecvOffset i, chunk_data m) # flash_log w \<and> u32TotalLen (struOtaInfo (con w')) = u32TotalLen i \<and>
      u32RecvOffset (struOtaInfo (con w')) \<in> {u32RecvOffset i, u32RecvOffset i + len})"
    unfolding PCT_HandleOtaFileChunkMsg_def Let_def assms(3) [symmetric]
  proof (rule ens_bind_any, rule ens_bind_any, goal_cases)
    case (1 h q)
    then have h: "h = MsgHead_of m" "ZC_HTONL (fld32 q 0) = chunk_off m"
      by (auto simp: rd_MsgHead_def rd_eq_Some chunk_off_def)
    show ?case
    proof (rule ens_if, goal_cases)
      case 1
      then show ?case using h assms(4,5) by (intro ens_mono [OF ens_ota_answer(1) [OF assms(1)]]) simp
    next
      case 2
      then have off: "chunk_off m = u32RecvOffset i" using h assms(4,5) by (simp add: ota_chunk_bad_def)
      show ?case
        by (rule ens_mono [OF ens_ota_chunk [OF assms(1) 2]]) (use 2 h off assms(4,5) in \<open>simp add: chunk_data_def\<close>)
    qed
  qed
  show ?thesis using ensD [OF e assms(2)] g by (simp split: if_splits)
qed

text \<open>A module just after start-up with a message \<open>m\<close> in the receive buffer.\<close>

definition holding :: "bytes \<Rightarrow> world" where
  "holding m = (PCT_Init zero_world)\<lparr>g_struRecvBuffer :=
     \<lparr>u32Len = 14, u8Status = MSG_BUFFER_FULL, u8MsgBuffer = m @ replicate (424 - length m) 0\<rparr>\<rparr>"

lemma PCT_Init_idle: "idle (PCT_Init zero_world)"
  using PCT_Init_safe que_inv_zero
  by (simp add: idle_def PCT_Init_def MSG_Init_def TIMER_Init_def ZC_ConfigInitPara_def Let_def zero_world_def)

lemma holding_idle: "length m \<le> 424 \<Longrightarrow> idle (holding m)"
  unfolding holding_def using PCT_Init_idle
  by (auto simp: idle_def intro!: safe_recv_buffer simp: rbuf_inv_def)

lemma idle_ota_info: "idle w \<Longrightarrow> u32RecvOffset i \<le> u32TotalLen i \<Longrightarrow> idle (upd_con (struOtaInfo_update (\<lambda>_. i)) w)"
  by (simp add: inv_defs)

lemma ota_chunk_contiguous_witness:
  "\<exists>w'. PCT_HandleOtaFileChunkMsg quiet_sdk RecvBuf (upd_con (struOtaInfo_update (\<lambda>_. \<lparr>u32TotalLen = 2, u32RecvOffset = 0, u8Crc = (0, 0)\<rparr>))
       (holding [0, 0, 24, 0, 0, 6, 0, 0, 0, 0, 0, 0, 7, 9])) = Some w' \<and>
     flash_log w' = [(0, [7, 9])] \<and> u32TotalLen (struOtaInfo (con w')) = 2"
proof -
  let ?m = "[0, 0, 24, 0, 0, 6, 0, 0, 0, 0, 0, 0, 7, 9] :: bytes"
  let ?i = "\<lparr>u32TotalLen = 2, u32RecvOffset = 0, u8Crc = (0, 0)\<rparr>"
  let ?w = "upd_con (struOtaInfo_update (\<lambda>_. ?i)) (holding ?m)"
  have w: "idle ?w" by (intro idle_ota_info holding_idle) simp_all
  from defdD [OF defd_OtaFileChunk [OF w]] obtain w' where
    w': "PCT_HandleOtaFileChunkMsg quiet_sdk RecvBuf ?w = Some w'" by blast
  have m: "u8MsgBuffer (get_buf RecvBuf ?w) = ?m @ replicate 410 0" by (simp add: get_buf_def holding_def)
  have h: "ota_file_len (MsgHead_of (?m @ replicate 410 0)) = 2"
    by (simp add: ota_file_len_def MsgHead_of_def le16_def ZC_HTONS_def)
  have l: "flash_log ?w = []"
    by (simp add: flash_log_def holding_def PCT_Init_def MSG_Init_def TIMER_Init_def ZC_ConfigInitPara_def Let_def zero_world_def)
  show ?thesis
    using ota_chunk_contiguous [OF idle_safe [OF w] w' m [symmetric] refl h [symmetric]] w' l h
    by (simp add: chunk_off_def chunk_data_def fld32_def ZC_HTONL_def le32_def)
qed

subsection \<open>Repetition of a command\<close>

lemma set_timer_relay [simp]:
  "u8ReSendMoudleNum (con (set_timer S t n v w)) = u8ReSendMoudleNum (con w)"
  "pu8SendMoudleBuffer (con (set_timer S t n v w)) = pu8SendMoudleBuffer (con w)"
proof -
  have "u8ReSendMoudleNum (put_timer v i c) = u8ReSendMoudleNum c" "pu8SendMoudleBuffer (put_timer v i c) = pu8SendMoudleBuffer c" for i c
    by (cases v; simp)+
  then show "u8ReSendMoudleNum (con (set_timer S t n v w)) = u8ReSendMoudleNum (con w)"
    "pu8SendMoudleBuffer (con (set_timer S t n v w)) = pu8SendMoudleBuffer (con w)"
    by (simp_all add: set_timer_def HF_SetTimer_def TIMER_FindIdleTimer_def TIMER_AllocateTimer_def Let_def split: option.splits)
qed

text \<open>C28: When the timer of a command to the device expires, the command is sent again, the fifth time it is
  given up: the buffer and the timer are free again and the controller is as before.\<close>

theorem relay_repetition:
  assumes "safe w" "retx_fits w" "pu8SendMoudleBuffer (con w) \<noteq> None" "u8ReSendMoudleNum (con w) \<le> 4"
  shows "\<exists>w'. PCT_SendMoudleTimeout S w = Some w' \<and> safe w' \<and> main_state w' = main_state w \<and>
    (if u8ReSendMoudleNum (con w) < 4
     then u8ReSendMoudleNum (con w') = u8ReSendMoudleNum (con w) + 1 \<and> pu8SendMoudleBuffer (con w') = pu8SendMoudleBuffer (con w) \<and>
       g_struRetxBuffer w' = g_struRetxBuffer w \<and>
       (\<exists>v. HF_SendDataToMoudle (u8MsgBuffer (g_struRetxBuffer w)) 0 (ucast (u32Len (g_struRetxBuffer w)))
          (upd_con (\<lambda>c. c\<lparr>u8ReSendMoudleNum := u8ReSendMoudleNum c + 1\<rparr>) w) = Some v \<and>
          w' = set_timer S PCT_TIMER_SENDMOUDLE 1000 V_SendMoudle v)
     else u8ReSendMoudleNum (con w') = 0 \<and> u8SendMoudleTimer (con w') = PCT_TIMER_INVAILD \<and>
       u8Status (g_struRetxBuffer w') = MSG_BUFFER_IDLE)"
proof -
  have p: "pu8SendMoudleBuffer (con w) = Some RetxBuf"
    using assms(3) relay_pending [OF safe_ginv [OF assms(1)]] by auto
  from defdD [OF defd_SendMoudleTimeout [OF assms(1-3)]] obtain w' where w': "PCT_SendMoudleTimeout S w = Some w'" by blast
  let ?w = "upd_con (\<lambda>c. c\<lparr>u8ReSendMoudleNum := u8ReSendMoudleNum c + 1\<rparr>) w"
  have lt: "4 < u8ReSendMoudleNum (con w) + 1 \<longleftrightarrow> \<not> u8ReSendMoudleNum (con w) < 4"
  proof -
    have "unat (u8ReSendMoudleNum (con w) + 1) = unat (u8ReSendMoudleNum (con w)) + 1"
      using assms(4) by (simp add: unat_word_ariths word_le_nat_alt)
    then show ?thesis by (simp add: word_less_nat_alt) linarith
  qed
  have s: "safe w'" using ensD [OF ens_SendMoudleTimeout [OF assms(1)] w'] .
  show ?thesis
  proof (cases "u8ReSendMoudleNum (con w) < 4")
    case True
    with w' lt obtain v where v: "HF_SendDataToMoudle (u8MsgBuffer (g_struRetxBuffer w)) 0 (ucast (u32Len (g_struRetxBuffer w))) ?w = Some v"
      "w' = set_timer S 2 1000 V_SendMoudle v"
      by (auto simp: PCT_SendMoudleTimeout_def p get_buf_def Let_def bind_eq_Some_conv)
    note d = device_ioD [OF HF_SendDataToMoudle_device [OF v(1)]]
    show ?thesis using w' s v True d(1,7) by (intro exI [of _ w']) auto
  next
    case False
    let ?v = "upd_con (\<lambda>c. c\<lparr>u8SendMoudleTimer := 0xFF, u8ReSendMoudleNum := 0\<rparr>) (upd_buf RetxBuf buf_idle ?w)"
    have sv: "safe ?v" by (intro safe_relay_done safe_Retx_idle safe_invalidate assms(1))
    from w' False lt obtain h :: ZC_MessageHead and x where x: "PCT_SendEmptyMsg S (MsgId h) 2 ?v = Some x" "PCT_SendErrorMsg S (MsgId h) [] 0 x = Some w'"
      by (auto simp: PCT_SendMoudleTimeout_def p get_buf_def Let_def bind_eq_Some_conv)
    have o: "outbound ?v x" using ensD [OF ens_EmptyMsg [OF idle_can_send(1) [OF sv]] x(1)] .
    have sx: "safe x" using calm_safe [OF calm_outbound [OF o] sv] .
    have o': "outbound x w'" using ensD [OF ens_build_and_send [OF idle_can_send(1) [OF sx]]] x(2) by (simp add: PCT_SendErrorMsg_def)
    show ?thesis using w' s False outboundD(1,7) [OF outbound_trans [OF o o']]
      by (intro exI [of _ w']) (simp add: upd_buf_def buf_idle_def)
  qed
qed

lemma relay_repetition_witness:
  "\<exists>w'. PCT_SendMoudleTimeout quiet_sdk (upd_con (pu8SendMoudleBuffer_update (\<lambda>_. Some RetxBuf)) (PCT_Init zero_world)) = Some w' \<and>
     u8ReSendMoudleNum (con w') = 1"
proof -
  let ?w = "upd_con (pu8SendMoudleBuffer_update (\<lambda>_. Some RetxBuf)) (PCT_Init zero_world)"
  have s: "safe ?w" by (rule idle_safe [OF idle_pending [OF PCT_Init_idle]])
  have i: "g_struRetxBuffer ?w = zero_buffer" "u8ReSendMoudleNum (con ?w) = 0"
    by (simp_all add: PCT_Init_def MSG_Init_def TIMER_Init_def ZC_ConfigInitPara_def Let_def zero_world_def zero_controller_def)
  have f: "retx_fits ?w"
    by (simp add: retx_fits_def msg_fits_def i zero_buffer_def MsgHead_of_def le16_def ZC_HTONS_def)
  show ?thesis using relay_repetition [OF s f, of quiet_sdk] i(2) by auto
qed

subsection \<open>Refusals\<close>

text \<open>Before the session key has been received nothing leaves under AES: \<^verbatim>\<open>PCT_SendMsgToCloud\<close> returns an
  error, no frame is sent and the connection is unchanged. A message whose frame would exceed 424 bytes is
  refused in every state of the keys, with no change at all.\<close>

lemma send_refused:
  assumes "PCT_SendMsgToCloud S h m off w = Some (r, w')"
    and "no_key = (key_recv w \<noteq> PCT_KEY_RECVED \<and> u8SecType h = ZC_SEC_ALG_AES \<and>
      u32SecSwitch (struSwitchInfo (g_struZcConfigDb w)) \<noteq> 0)"
    and "too_long = (424 < unat (ZC_HTONS (u16TotalMsg h) + 4 +
      snd (SEC_PaddingCheck (u8SecType h) (ZC_HTONS (u16TotalMsg h)) w)))"
    and "no_key \<or> too_long"
  shows "r = ZC_RET_ERROR \<and> io w' = io w \<and> con w' = con w \<and> (too_long \<longrightarrow> w' = w)"
proof -
  obtain pl where pc: "SEC_PaddingCheck (u8SecType h) (ZC_HTONS (u16TotalMsg h)) w = (0, pl)"
    by (simp add: SEC_PaddingCheck_def Let_def)
  show ?thesis
  proof (cases "too_long \<or> u8Status (g_struSendBuffer w) \<noteq> 0")
    case True
    with assms(1,3) pc show ?thesis by (auto simp: PCT_SendMsgToCloud_def split: if_splits)
  next
    case False
    with assms(2,4) have k: "key_recv w \<noteq> 1" "u8SecType h = 2" "u32SecSwitch (struSwitchInfo (g_struZcConfigDb w)) \<noteq> 0" by auto
    then have "SEC_Encrypt S h d 4 m off n w = Some (1, h, n, d, w)" for d n
      by (simp add: SEC_Encrypt_def SEC_AesEncrypt_def Let_def)
    with assms(1,3) pc False show ?thesis by (auto simp: PCT_SendMsgToCloud_def Let_def)
  qed
qed

subsection \<open>Random bytes, timers\<close>

lemma letter_range: "65 \<le> (x mod 26) + (65 :: u8) \<and> (x mod 26) + 65 \<le> (90 :: u8)"
proof -
  have "unat (x mod 26) < 26" by (simp add: unat_mod)
  then have "unat ((x mod 26) + (65 :: u8)) = unat (x mod 26) + 65" by (simp add: unat_word_ariths)
  with \<open>unat (x mod 26) < 26\<close> show ?thesis by (simp add: word_le_nat_alt)
qed

lemma rand_loop_letters: "rand_loop S n w = (bs, w') \<Longrightarrow> \<forall>b \<in> set bs. 65 \<le> b \<and> b \<le> 90"
proof (induction n arbitrary: w bs w')
  case (Suc n)
  obtain cs v where l: "rand_loop S n (emit E_rand w) = (cs, v)" by fastforce
  with Suc.prems have "bs = rand_letters (sdk_rand S (io w)) @ cs" by simp
  with Suc.IH [OF l] letter_range show ?case by (auto simp: rand_letters_def)
qed simp

text \<open>\<^verbatim>\<open>ZC_Rand\<close> fills the 32 random bytes of a connection with capital letters, from eight calls of
  \<^verbatim>\<open>rand\<close>; nothing else changes.\<close>

lemma ZC_Rand_letters:
  assumes "ZC_Rand S w = (bs, w')"
  shows "length bs = 32 \<and> (\<forall>b \<in> set bs. 65 \<le> b \<and> b \<le> 90) \<and> w' = w\<lparr>io := replicate 8 E_rand @ io w\<rparr>"
  using rand_loop_letters [of S 8 w bs w'] rand_loop_length [of S 8 w bs w'] assms by (simp add: ZC_Rand_def)

text \<open>The timer table has five entries. Setting a timer takes an entry that was free, stores its index in the
  variable of the controller and reports success; it is refused, with no change, exactly when five timers
  run. Stopping a timer frees its entry and no other.\<close>

lemma timer_table:
  assumes "timer_inv w" "HF_SetTimer S t n v w = (r, w')"
  shows "(if card (timer_used w) = 5 then r = ZC_RET_ERROR \<and> w' = w
     else r = ZC_RET_OK \<and> timer_inv w' \<and> (\<exists>i < 5. i \<notin> timer_used w \<and> timer_used w' = insert i (timer_used w) \<and>
       tm_Type (g_struTimer w' ! i) = t \<and> con w' = put_timer v (of_nat i) (con w))) \<and>
    (unat k < 5 \<longrightarrow> (\<exists>x. TIMER_StopTimer k w = Some x \<and> timer_inv x \<and> timer_used x = timer_used w - {unat k} \<and> con x = con w))"
proof (rule conjI)
  have f: "r \<noteq> 0 \<longleftrightarrow> card (timer_used w) = 5" using timers.alloc_refused_iff [OF assms(1), of S "(t, n, v)"] assms(2) by simp
  show "if card (timer_used w) = 5 then r = ZC_RET_ERROR \<and> w' = w
     else r = ZC_RET_OK \<and> timer_inv w' \<and> (\<exists>i < 5. i \<notin> timer_used w \<and> timer_used w' = insert i (timer_used w) \<and>
       tm_Type (g_struTimer w' ! i) = t \<and> con w' = put_timer v (of_nat i) (con w))"
  proof (cases "r = 0")
    case True
    from HF_SetTimer_ok [OF assms(2) [unfolded True]] obtain i where
      i: "i < length (g_struTimer w)" "i \<notin> timer_used w" "con w' = put_timer v (of_nat i) (con w)"
      "g_struTimer w' = (g_struTimer w)[i := \<lparr>tm_Status = ZC_TIMER_STATUS_USED, tm_Type = t, tm_Timer = Some i\<rparr>]" by blast
    moreover have "i < 5" using i(1) assms(1) by (simp add: timer_inv_def)
    ultimately show ?thesis using True f HF_SetTimer_inv [OF assms] timer_used_update [OF i(1,4)] by auto
  next
    case False
    moreover have "r = 1" using assms(2) False
      by (auto simp: HF_SetTimer_def Let_def split: option.splits)
    ultimately show ?thesis using HF_SetTimer_fail [OF assms(2)] f by simp
  qed
  show "unat k < 5 \<longrightarrow> (\<exists>x. TIMER_StopTimer k w = Some x \<and> timer_inv x \<and> timer_used x = timer_used w - {unat k} \<and> con x = con w)"
    using TIMER_StopTimer_defined [OF assms(1), of k] timers.free_ok [OF assms(1), of k] TIMER_StopTimer_con by auto
qed

end
