(* ===== verification/JdText.thy ===== *)
theory JdText
  imports Relay
begin

text \<open>
  The string routines of the JD cloud service: \<^verbatim>\<open>httpdecode\<close>, \<^verbatim>\<open>my_itoa\<close> and \<^verbatim>\<open>addressis_ip\<close> of
  \<^verbatim>\<open>src/src/jdsmart/common.c\<close>, \<^verbatim>\<open>URLEncode\<close> and \<^verbatim>\<open>encode_signature\<close> of \<^verbatim>\<open>ota.c\<close>. A string lies in a
  byte list, the array that holds it; an access outside the array is undefined. \<^verbatim>\<open>char\<close> is unsigned in
  the project file of this firmware.
\<close>

subsection \<open>Decoding\<close>

text \<open>The value \<^verbatim>\<open>httpdecode\<close> takes a character for.\<close>

definition hex_value :: "u8 \<Rightarrow> u8" where
  "hex_value c = (if c \<ge> 0x41 then (c AND 0xDF) - 0x41 + 10 else c - 0x30)"

text \<open>The loop of \<^verbatim>\<open>httpdecode\<close>: \<open>p\<close> is the write position, \<open>p + i\<close> the read position. Until \<open>isLine\<close> is
  set, the characters up to an empty line are skipped.\<close>

function httpdecode_loop :: "bool \<Rightarrow> nat \<Rightarrow> nat \<Rightarrow> bytes \<Rightarrow> bytes option" where
  "httpdecode_loop isLine p i m =
     (if length m \<le> p + i then None
      else if m ! (p + i) = 0 then Some (m[p := 0])
      else if \<not> isLine then
        if m ! (p + i) = 10 then
          if length m \<le> p + i + 2 then None
          else if m ! (p + i + 2) = 10 then httpdecode_loop True p (i + 2) m
          else httpdecode_loop False p (i + 1) m
        else httpdecode_loop False p (i + 1) m
      else if m ! (p + i) = 0x25 then
        if length m \<le> p + i + 2 then None
        else httpdecode_loop True (p + 1) (i + 2)
          (m[p := hex_value (m ! (p + i + 1)) * 16 + hex_value (m ! (p + i + 2))])
      else if m ! (p + i) = 0x2B then httpdecode_loop True (p + 1) i (m[p := 0x20])
      else httpdecode_loop True (p + 1) i (m[p := m ! (p + i)]))"
  by pat_completeness auto
termination by (relation "measure (\<lambda>(_, p, i, m). length m - (p + i))") auto

declare httpdecode_loop.simps [simp del]

definition httpdecode :: "bytes \<Rightarrow> bool \<Rightarrow> bytes option" where
  "httpdecode m isFind = httpdecode_loop (\<not> isFind) 0 0 m"

subsection \<open>Encoding\<close>

text \<open>The characters that stay; the comparisons leave out \<^verbatim>\<open>Z\<close>, \<^verbatim>\<open>z\<close> and \<^verbatim>\<open>9\<close>.\<close>

definition url_plain :: "u8 \<Rightarrow> bool" where
  "url_plain c \<longleftrightarrow> 0x41 \<le> c \<and> c < 0x5A \<or> 0x61 \<le> c \<and> c < 0x7A \<or> 0x30 \<le> c \<and> c < 0x39"

definition url_mark :: "u8 \<Rightarrow> bool" where
  "url_mark c \<longleftrightarrow> c = 0x2E \<or> c = 0x2D \<or> c = 0x5F \<or> c = 0x2A"

text \<open>The upper-case digit \<^verbatim>\<open>sprintf\<close> prints.\<close>

definition hex_digit :: "u8 \<Rightarrow> u8" where
  "hex_digit n = (if n < 10 then 0x30 + n else 0x37 + n)"

fun URLEncode_loop :: "bytes \<Rightarrow> nat \<Rightarrow> nat \<Rightarrow> bytes \<Rightarrow> (nat \<times> bytes) option" where
  "URLEncode_loop [] j n r = do { r \<leftarrow> upd_opt r j 0; Some (j, r) }"
| "URLEncode_loop (c # s) j n r =
     (if \<not> j < n then do { r \<leftarrow> upd_opt r j 0; Some (j, r) }
      else if url_plain c then do { r \<leftarrow> upd_opt r j c; URLEncode_loop s (j + 1) n r }
      else if c = 0x20 then do { r \<leftarrow> upd_opt r j 0x2B; URLEncode_loop s (j + 1) n r }
      else if url_mark c then do { r \<leftarrow> upd_opt r j c; URLEncode_loop s (j + 1) n r }
      else if j + 3 < n then do {
        r \<leftarrow> wr r j [0x25, hex_digit (drop_bit 4 c), hex_digit (c AND 15), 0];
        URLEncode_loop s (j + 3) n r
      } else Some (0, r))"

text \<open>\<open>s\<close> are the \<^verbatim>\<open>strSize\<close> bytes of the input, \<open>n\<close> is \<^verbatim>\<open>resultSize\<close>; the result is the return value and
  the contents of the result array.\<close>

definition URLEncode :: "bytes \<Rightarrow> nat \<Rightarrow> bytes \<Rightarrow> (nat \<times> bytes) option" where
  "URLEncode s n r = (if s = [] \<or> n = 0 then Some (0, r) else URLEncode_loop s 0 n r)"

subsection \<open>Numbers\<close>

definition itoa_table :: bytes where
  "itoa_table = map of_char ''0123456789ABCDEFGHIJKLMNOPQRSTUVWXYZ'' @ [0]"

text \<open>The digits, lowest first; \<open>radix\<close> is positive in every call. A radix of 0 divides by zero, a radix of 1
  runs past the array.\<close>

function itoa_loop :: "nat \<Rightarrow> nat \<Rightarrow> nat \<Rightarrow> bytes \<Rightarrow> (nat \<times> bytes) option" where
  "itoa_loop num radix p m =
     (if num = 0 then Some (p, m)
      else if radix \<le> 1 then None
      else do {
        d \<leftarrow> nth_opt itoa_table (num mod radix);
        m \<leftarrow> upd_opt m p d;
        itoa_loop (num div radix) radix (p + 1) m })"
  by pat_completeness auto
termination by (relation "measure (\<lambda>(num, _). num)") auto

declare itoa_loop.simps [simp del]

function itoa_swap :: "nat \<Rightarrow> nat \<Rightarrow> bytes \<Rightarrow> bytes option" where
  "itoa_swap st p m =
     (if st < p then do {
        temp \<leftarrow> nth_opt m st;
        x \<leftarrow> nth_opt m p;
        m \<leftarrow> upd_opt m st x;
        m \<leftarrow> upd_opt m p temp;
        itoa_swap (st + 1) (p - 1) m
      } else Some m)"
  by pat_completeness auto
termination by (relation "measure (\<lambda>(st, p, _). p - st)") auto

declare itoa_swap.simps [simp del]

definition my_itoa :: "int \<Rightarrow> bytes \<Rightarrow> nat \<Rightarrow> bytes option" where
  "my_itoa num str radix =
     (if num = 0 then do { m \<leftarrow> upd_opt str 0 0x30; upd_opt m 1 0 }
      else do {
        (st, m, num) \<leftarrow> (if num < 0 then do { m \<leftarrow> upd_opt str 0 0x2D; num \<leftarrow> int32 (num * -1); Some (1, m, num) }
                            else Some (0 :: nat, str, num));
        (p, m) \<leftarrow> itoa_loop (nat num) radix st m;
        m \<leftarrow> upd_opt m p 0;
        itoa_swap st (p - 1) m })"

text \<open>One field of a dotted address: \<open>i\<close> counts its characters, \<open>ii\<close> is the position in the text and \<open>ipadd\<close>
  its value, in 8 bits. The result is whether the field is taken for one, and the next position.\<close>

function ip_field :: "bytes \<Rightarrow> nat \<Rightarrow> nat \<Rightarrow> nat \<Rightarrow> u8 \<Rightarrow> (bool \<times> nat) option" where
  "ip_field s j i ii ipadd =
     (if i < 4 then do {
        c \<leftarrow> nth_opt s ii;
        if c = 0x2E then Some (i \<noteq> 0, ii + 1)
        else if i = 3 \<and> j \<noteq> 3 then Some (False, ii)
        else if c > 0x39 \<or> c < 0x30 then Some (c = 0 \<and> j = 3 \<and> i \<noteq> 0, ii)
        else let ipadd = ipadd * 10 + (c - 0x30)
             in if unat ipadd > 255 then Some (False, ii) else ip_field s j (i + 1) (ii + 1) ipadd
      } else Some (True, ii))"
  by pat_completeness auto
termination by (relation "measure (\<lambda>(_, _, i, _). 4 - i)") auto

declare ip_field.simps [simp del]

fun ip_fields :: "bytes \<Rightarrow> nat list \<Rightarrow> nat \<Rightarrow> bool option" where
  "ip_fields s [] ii = Some True"
| "ip_fields s (j # js) ii = do {
     (ok, ii) \<leftarrow> ip_field s j 0 ii 0;
     if ok then ip_fields s js ii else Some False }"

definition addressis_ip :: "bytes \<Rightarrow> bool option" where
  "addressis_ip ipaddr = ip_fields ipaddr [0..<4] 0"

text \<open>The test \<^verbatim>\<open>ipadd > 255\<close> never holds for an 8-bit \<^verbatim>\<open>ipadd\<close>, and a last field of four digits ends the
  loop: numbers over 255 are accepted.\<close>

lemma addressis_ip_examples:
  "addressis_ip (map of_char ''192.168.1.20'' @ [0]) = Some True"
  "addressis_ip (map of_char ''apismart.jd.com'' @ [0]) = Some False"
  "addressis_ip (map of_char ''999.999.999.9999'' @ [0]) = Some True"
  by code_simp+

subsection \<open>Decoding what was encoded\<close>

lemma hex_digit_value: "n < 16 \<Longrightarrow> hex_value (hex_digit n) = n"
proof -
  assume n: "n < 16"
  have "list_all (\<lambda>k. hex_value (hex_digit (of_nat k)) = of_nat k) [0..<16]"
    by (simp add: upt_rec hex_value_def hex_digit_def)
  moreover have "unat n < 16" using n by (simp add: word_less_nat_alt)
  then have "unat n \<in> set [0..<16]" by simp
  ultimately have "hex_value (hex_digit (of_nat (unat n))) = of_nat (unat n)" unfolding list_all_iff by blast
  moreover have "(of_nat (unat n) :: u8) = n" by simp
  ultimately show ?thesis by simp
qed

lemma hex_roundtrip: "hex_value (hex_digit (drop_bit 4 c)) * 16 + hex_value (hex_digit (c AND 15)) = c"
proof -
  have n: "drop_bit 4 c = c div 16" "c AND 15 = c mod 16"
    using take_bit_eq_mod [of 4 c] take_bit_eq_mask [of 4 c] by (simp_all add: drop_bit_eq_div mask_eq_exp_minus_1)
  have "unat (c div 16) < 16" "unat (c mod 16) < 16"
    using unsigned_less [of c, where ?'a = nat] by (simp_all add: unat_div unat_mod less_mult_imp_div_less)
  then have "c div 16 < 16" "c mod 16 < 16" by (simp_all add: word_less_nat_alt)
  then show ?thesis unfolding n by (simp only: hex_digit_value div_mult_mod_eq)
qed

text \<open>The characters one character is encoded as.\<close>

definition url_chars :: "u8 \<Rightarrow> bytes" where
  "url_chars c = (if url_plain c then [c] else if c = 0x20 then [0x2B] else if url_mark c then [c]
     else [0x25, hex_digit (drop_bit 4 c), hex_digit (c AND 15)])"

lemma URLEncode_loop_chars:
  assumes "URLEncode_loop s j (length r) r = Some (k, r')" "k \<noteq> 0"
  shows "k = j + length (concat (map url_chars s)) \<and> k < length r \<and> length r' = length r \<and>
    take (Suc k) r' = take j r @ concat (map url_chars s) @ [0]"
  using assms
proof (induction s arbitrary: j r)
  case Nil
  then show ?case by (auto simp: upd_opt_def take_Suc_conv_app_nth split: if_splits)
next
  case (Cons c s)
  have one: ?case if "URLEncode_loop s (j + 1) (length r) (r[j := x]) = Some (k, r')" "url_chars c = [x]" "j < length r" for x
  proof -
    have "take (j + 1) (r[j := x]) = take j r @ [x]" using that(3) by (simp add: take_Suc_conv_app_nth take_update_cancel)
    with Cons.IH [of "j + 1" "r[j := x]"] that Cons.prems(2) show ?thesis by auto
  qed
  show ?case
  proof (cases "url_plain c \<or> c = 0x20 \<or> url_mark c")
    case True
    then show ?thesis using Cons.prems(1)
      by (intro one [of "if url_plain c then c else if c = 0x20 then 0x2B else c"])
        (auto simp: url_chars_def upd_opt_def split: if_splits)
  next
    case False
    let ?e = "[0x25, hex_digit (drop_bit 4 c), hex_digit (c AND 15)]"
    have e: "url_chars c = ?e" using False by (simp add: url_chars_def)
    have jn: "j + 3 < length r" using Cons.prems False by (auto simp: upd_opt_def split: if_splits)
    then have w: "wr r j (?e @ [0]) = Some (take j r @ ?e @ [0] @ drop (j + 4) r)" by (simp add: wr_def eval_nat_numeral)
    define q where "q = take j r @ ?e @ [0] @ drop (j + 4) r"
    have q: "length q = length r" "take (j + 3) q = take j r @ ?e" using jn by (simp_all add: q_def)
    have "URLEncode_loop s (j + 3) (length q) q = Some (k, r')" unfolding q(1) using Cons.prems(1) False jn w by (simp add: q_def)
    from Cons.IH [OF this Cons.prems(2)] have "k = j + 3 + length (concat (map url_chars s))" "k < length r" "length r' = length r"
      "take (Suc k) r' = take j r @ ?e @ concat (map url_chars s) @ [0]" unfolding q by auto
    then show ?thesis by (simp add: e)
  qed
qed

lemma httpdecode_loop_chars:
  assumes "drop (p + i) m = concat (map url_chars s) @ 0 # R" "0 \<notin> set s"
  shows "\<exists>m'. httpdecode_loop True p i m = Some m' \<and> length m' = length m \<and> take (p + Suc (length s)) m' = take p m @ s @ [0]"
  using assms
proof (induction s arbitrary: p i m)
  case Nil
  have "length m > p + i" "m ! (p + i) = 0"
    using Nil.prems(1) nth_via_drop [of "p + i" m 0 R] by (simp_all, metis length_drop length_greater_0_conv list.discI zero_less_diff)
  then show ?case by (subst httpdecode_loop.simps) (simp add: take_Suc_conv_app_nth)
next
  case (Cons c s)
  have c: "c \<noteq> 0" "0 \<notin> set s" using Cons.prems(2) by auto
  let ?T = "concat (map url_chars s) @ 0 # R"
  have go: ?case if "httpdecode_loop True p i m = httpdecode_loop True (p + 1) i' (m[p := c])"
      "drop (p + 1 + i') (m[p := c]) = ?T" "p < length m" for i'
    using Cons.IH [OF that(2) c(2)] that(1,3) by (simp add: take_Suc_conv_app_nth take_update_cancel)
  show ?case
  proof (cases "url_plain c \<or> c = 0x20 \<or> url_mark c")
    case True
    define x where "x = (if c = 0x20 then 0x2B else c)"
    have "c \<noteq> 0x25" "c \<noteq> 0x2B" "\<not> url_plain 0x20" using True by (auto simp: url_plain_def url_mark_def)
    then have x: "url_chars c = [x]" "x \<noteq> 0" "x \<noteq> 0x25" "c = (if x = 0x2B then 0x20 else x)"
      using c(1) True by (auto simp: url_chars_def x_def)
    have d: "drop (p + i) m = x # ?T" using Cons.prems(1) x(1) by simp
    then have l: "p + i < length m" by (metis drop_eq_Nil2 leI list.discI)
    have n: "m ! (p + i) = x" using nth_via_drop [OF d] .
    have t: "drop (Suc (p + i)) m = ?T" using d l by (metis Cons_nth_drop_Suc list.inject)
    show ?thesis
      by (rule go [of i]) (use x n l t in \<open>simp_all add: httpdecode_loop.simps [of True p i m] drop_update_cancel\<close>)
  next
    case False
    let ?a = "hex_digit (drop_bit 4 c)" and ?b = "hex_digit (c AND 15)"
    have d: "drop (p + i) m = 0x25 # ?a # ?b # ?T" using Cons.prems(1) False by (simp add: url_chars_def [of c])
    have "length (drop (p + i) m) \<ge> 4" unfolding d by simp
    then have l: "p + i + 3 < length m" by simp
    have n: "m ! (p + i + k) = (0x25 # ?a # ?b # ?T) ! k" for k
      using l unfolding d [symmetric] by (simp add: nth_drop)
    have nn: "m ! (p + i) = 0x25" "m ! (p + i + 1) = ?a" "m ! (p + i + 2) = ?b" using n [of 0] n [of 1] n [of 2] by simp_all
    have t: "drop (Suc (Suc (Suc (p + i)))) m = ?T" using arg_cong [OF d, of "drop 3"] by (simp add: eval_nat_numeral)
    have z: "(0x25 :: u8) \<noteq> 0" by simp
    show ?thesis
      by (rule go [of "i + 2"])
        (use nn l t z hex_roundtrip [of c] in \<open>simp_all add: httpdecode_loop.simps [of True p i m] drop_update_cancel del: add_Suc_right\<close>, simp)
  qed
qed

text \<open>\<^verbatim>\<open>httpdecode\<close> undoes \<^verbatim>\<open>URLEncode\<close>: a string without a zero that fits its result array when encoded
  is the string \<^verbatim>\<open>httpdecode\<close> leaves at the start of that array, ended by a zero.\<close>

lemma httpdecode_URLEncode:
  assumes "URLEncode s (length r) r = Some (k, r')" "k \<noteq> 0" "0 \<notin> set s"
  shows "\<exists>m. httpdecode r' False = Some m \<and> take (Suc (length s)) m = s @ [0]"
proof -
  have "URLEncode_loop s 0 (length r) r = Some (k, r')" using assms(1,2) by (auto simp: URLEncode_def split: if_splits)
  from URLEncode_loop_chars [OF this assms(2)] have k: "Suc k \<le> length r'" "take (Suc k) r' = concat (map url_chars s) @ [0]" by auto
  have "drop (0 + 0) r' = concat (map url_chars s) @ 0 # drop (Suc k) r'"
    using append_take_drop_id [of "Suc k" r'] k(2) by simp
  from httpdecode_loop_chars [OF this assms(3)] show ?thesis by (auto simp: httpdecode_def)
qed

subsection \<open>Printing and reading numbers\<close>

lemma itoa_swap_rev:
  "st \<le> Suc p \<Longrightarrow> p < length m \<Longrightarrow>
     itoa_swap st p m = Some (take st m @ rev (take (Suc p - st) (drop st m)) @ drop (Suc p) m)"
proof (induction st p m rule: itoa_swap.induct)
  case (1 s p m)
  show ?case
  proof (cases "s < p")
    case False
    then have "s = Suc p \<or> s = p" using 1(2) by auto
    then have "take s m @ rev (take (Suc p - s) (drop s m)) @ drop (Suc p) m = m"
      using 1(3) by (auto simp: take_Suc_conv_app_nth id_take_nth_drop [symmetric] hd_drop_conv_nth take_Suc Cons_nth_drop_Suc)
    then show ?thesis using False by (simp add: itoa_swap.simps [of s])
  next
    case True
    define m' where "m' = m[s := m ! p, p := m ! s]"
    have l: "length m' = length m" by (simp add: m'_def)
    have step: "itoa_swap s p m = itoa_swap (s + 1) (p - 1) m'"
      using True 1(3) by (simp add: itoa_swap.simps [of s p m] nth_opt_def upd_opt_def m'_def)
    have ih: "itoa_swap (s + 1) (p - 1) m' =
        Some (take (s + 1) m' @ rev (take (Suc (p - 1) - (s + 1)) (drop (s + 1) m')) @ drop (Suc (p - 1)) m')"
      by (rule "1.IH" [OF True, of "m ! s" "m ! p" "m[s := m ! p]" m'])
        (use True 1(3) in \<open>simp_all add: nth_opt_def upd_opt_def m'_def\<close>)
    define A M Z where "A = take s m" and "M = take (p - s - 1) (drop (Suc s) m)" and "Z = drop (Suc p) m"
    have "drop (Suc s) m = M @ drop (p - s - 1) (drop (Suc s) m)" unfolding M_def by (rule append_take_drop_id [symmetric])
    also have "drop (p - s - 1) (drop (Suc s) m) = m ! p # Z" using True 1(3) by (simp add: Z_def Cons_nth_drop_Suc)
    finally have m: "m = A @ m ! s # M @ m ! p # Z" using id_take_nth_drop [of s m] True 1(3) by (simp add: A_def)
    have lA: "length A = s" "Suc (s + length M) = p" using True 1(3) by (simp_all add: A_def M_def)
    obtain a b where ab: "a = m ! s" "b = m ! p" by blast
    note m = m [folded ab]
    have m': "m' = A @ b # M @ a # Z"
      unfolding m'_def ab [symmetric] by (subst m) (simp add: list_update_append lA(1) flip: lA(2))
    have "take (s + 1) m' @ rev (take (Suc (p - 1) - (s + 1)) (drop (s + 1) m')) @ drop (Suc (p - 1)) m' =
        take s m @ rev (take (Suc p - s) (drop s m)) @ drop (Suc p) m"
      unfolding m' by (subst (1 2 3) m) (simp add: lA(1) flip: lA(2))
    then show ?thesis using step ih by simp
  qed
qed

text \<open>The digits of a number, lowest first.\<close>

function low_digits :: "nat \<Rightarrow> nat \<Rightarrow> nat list" where
  "low_digits r n = (if n = 0 \<or> r \<le> 1 then [] else n mod r # low_digits r (n div r))"
  by pat_completeness auto
termination by (relation "measure (\<lambda>(r, n). n)") auto

declare low_digits.simps [simp del]

lemma itoa_loop_digits:
  assumes "1 < r" "r \<le> 36" "p + length (low_digits r n) \<le> length m"
  shows "itoa_loop n r p m = Some (p + length (low_digits r n),
    take p m @ map (\<lambda>d. itoa_table ! d) (low_digits r n) @ drop (p + length (low_digits r n)) m)"
  using assms
proof (induction n r p m rule: itoa_loop.induct)
  case (1 n r p m)
  show ?case
  proof (cases "n = 0")
    case False
    let ?d = "itoa_table ! (n mod r)"
    have "length itoa_table = 37" by (simp add: itoa_table_def)
    then have lt: "n mod r < length itoa_table" using 1(2,3) mod_less_divisor [of r n] by linarith
    have ds: "low_digits r n = n mod r # low_digits r (n div r)" using False 1(2) by (simp add: low_digits.simps [of r n])
    have "itoa_loop n r p m = itoa_loop (n div r) r (p + 1) (m[p := ?d])"
      using False 1(2,4) lt by (simp add: itoa_loop.simps [of n r p m] ds nth_opt_def upd_opt_def)
    also have "\<dots> = Some (p + 1 + length (low_digits r (n div r)),
        take (p + 1) (m[p := ?d]) @ map (\<lambda>d. itoa_table ! d) (low_digits r (n div r)) @
        drop (p + 1 + length (low_digits r (n div r))) (m[p := ?d]))"
      by (rule "1.IH" [OF False _ _ _ 1(2,3), of ?d]) (use 1(2,4) lt in \<open>simp_all add: ds nth_opt_def upd_opt_def\<close>)
    finally show ?thesis using 1(4) by (simp add: ds take_Suc_conv_app_nth take_update_cancel)
  qed (simp add: itoa_loop.simps [of 0 r p m] low_digits.simps [of r 0])
qed

text \<open>A positive number is printed as its digits, highest first.\<close>

lemma my_itoa_digits:
  assumes "1 < r" "r \<le> 36" "0 < n" "length (low_digits r n) < length m"
  shows "\<exists>m'. my_itoa (int n) m r = Some m' \<and> length m' = length m \<and>
    take (Suc (length (low_digits r n))) m' = rev (map (\<lambda>d. itoa_table ! d) (low_digits r n)) @ [0]"
proof -
  let ?ds = "map (\<lambda>d. itoa_table ! d) (low_digits r n)"
  define k where "k = length ?ds"
  have k: "0 < k" "k < length m" using assms by (simp_all add: k_def low_digits.simps [of r n])
  let ?m = "?ds @ 0 # drop (Suc k) m"
  have l: "itoa_loop n r 0 m = Some (k, ?ds @ drop k m)"
    using itoa_loop_digits [OF assms(1,2), of 0 n m] assms(4) by (simp add: k_def)
  have u: "upd_opt (?ds @ drop k m) k 0 = Some ?m"
    using k by (simp add: upd_opt_def k_def list_update_append Cons_nth_drop_Suc [symmetric])
  have "itoa_swap 0 (k - 1) ?m = Some (rev ?ds @ 0 # drop (Suc k) m)"
    using itoa_swap_rev [of 0 "k - 1" ?m] k by (simp add: k_def)
  then show ?thesis using l u assms(3) k by (auto simp: my_itoa_def k_def)
qed

definition radix_number :: "nat \<Rightarrow> nat list \<Rightarrow> nat" where
  "radix_number r ds = foldr (\<lambda>d n. d + r * n) ds 0"

lemma low_digits_number: "1 < r \<Longrightarrow> radix_number r (low_digits r n) = n"
proof (induction r n rule: low_digits.induct)
  case (1 r n)
  then show ?case by (cases "n = 0") (simp_all add: low_digits.simps [of r n] low_digits.simps [of r 0] radix_number_def)
qed

lemma low_digits_less: "1 < r \<Longrightarrow> d \<in> set (low_digits r n) \<Longrightarrow> d < r"
proof (induction r n rule: low_digits.induct)
  case (1 r n)
  then show ?case by (auto simp: low_digits.simps [of r n] split: if_splits)
qed

lemma low_digits_length: "1 < r \<Longrightarrow> n < r ^ k \<Longrightarrow> length (low_digits r n) \<le> k"
proof (induction k arbitrary: n)
  case (Suc k)
  then have "n div r < r ^ k" by (simp add: less_mult_imp_div_less mult.commute)
  then show ?case using Suc by (simp add: low_digits.simps [of r n])
qed (simp add: low_digits.simps)

text \<open>\<^verbatim>\<open>my_atoi\<close> reads back what \<^verbatim>\<open>my_itoa\<close> prints with radix 10, for every positive \<^verbatim>\<open>int\<close> and an array of
  at least 11 bytes.\<close>

lemma my_atoi_my_itoa:
  assumes "0 < n" "n < 2147483648" "11 \<le> length m" "my_itoa n m 10 = Some m'"
  shows "my_atoi m' = Some n"
proof -
  define k where "k = nat n"
  have k: "n = int k" "0 < k" "k < 2147483648" using assms(1,2) by (simp_all add: k_def)
  let ?ds = "low_digits 10 k"
  have len: "length ?ds \<le> 10" by (rule low_digits_length) (use k in simp_all)
  have d: "\<forall>d \<in> set (rev ?ds). d < 10" using low_digits_less [of 10] by simp
  have t: "map (\<lambda>d. itoa_table ! d) ds = digits ds" if "\<forall>d \<in> set ds. d < 10" for ds
  proof -
    have "list_all (\<lambda>d. itoa_table ! d = of_nat (48 + d)) [0..<10]" by (simp add: upt_rec itoa_table_def of_char_def)
    then have "itoa_table ! d = of_nat (48 + d)" if "d < 10" for d using that by (simp add: list_all_iff)
    with that show ?thesis by (simp add: digits_def)
  qed
  from my_itoa_digits [of 10 k m] len k assms(3,4) have
    "take (Suc (length ?ds)) m' = rev (map (\<lambda>d. itoa_table ! d) ?ds) @ [0]" by auto
  then have "take (Suc (length ?ds)) m' = digits (rev ?ds) @ [0]" using t [OF d] by (simp add: rev_map)
  then have m': "m' = digits (rev ?ds) @ 0 # drop (Suc (length ?ds)) m'"
    using append_take_drop_id [of "Suc (length ?ds)" m'] by simp
  have "decimal (rev ?ds) = radix_number 10 ?ds"
    by (simp add: decimal_def radix_number_def foldl_conv_foldr add.commute)
  then have "decimal (rev ?ds) = k" by (simp add: low_digits_number)
  then show ?thesis using my_atoi_loop_digits [OF d, of 0 "drop (Suc (length ?ds)) m'"] k(1,3) m'
    by (simp add: my_atoi_def decimal_def)
qed

end
