(* ===== verification/Malloc.thy ===== *)
theory Malloc
  imports State
begin

text \<open>
  The allocation of memory, a parameter of the bundled libraries. A heap answers the calls of \<^verbatim>\<open>malloc\<close>, which
  are counted: whether the \<open>k\<close>-th call succeeds and which bytes it hands out.
\<close>

record heap =
  h_ok :: "nat \<Rightarrow> bool"
  h_junk :: "nat \<Rightarrow> nat \<Rightarrow> u8"

text \<open>The \<open>k\<close>-th call of \<^verbatim>\<open>malloc\<close>, for a block of \<open>n\<close> bytes.\<close>

definition malloc :: "heap \<Rightarrow> nat \<Rightarrow> nat \<Rightarrow> bytes option \<times> nat" where
  "malloc H n k = (if h_ok H k then Some (map (h_junk H k) [0..<n]) else None, k + 1)"

text \<open>Every allocation succeeds.\<close>

definition heap_ok :: "heap \<Rightarrow> bool" where
  "heap_ok H \<longleftrightarrow> (\<forall>k. h_ok H k)"

definition full_heap :: heap where
  "full_heap = \<lparr>h_ok = \<lambda>_. True, h_junk = \<lambda>_ _. 7\<rparr>"

lemma full_ok: "heap_ok full_heap"
  by (simp add: heap_ok_def full_heap_def)

end
