(* ===== verification/Json.thy ===== *)
theory Json
  imports JdText Malloc
begin

text \<open>
  The JSON library of the second cloud, \<^verbatim>\<open>src/src/jdsmart/cJSON.c\<close>: items and the parser. A text lies in the byte
  list that holds it, a position is an index into it, reading outside of it is undefined. The outer
  \<open>option\<close> of a result is definedness, the inner one the null pointer a function returns on failure. Two
  parameters stand for the runtime: \<open>heap\<close> answers the calls of \<^verbatim>\<open>malloc\<close>, counted by the argument \<open>k\<close> that every
  function passes on, \<open>fpu\<close> is the arithmetic on \<^verbatim>\<open>double\<close>, whose values are 64-bit words.
\<close>

subsection \<open>The runtime\<close>

record fpu =
  f_of_int :: "int \<Rightarrow> 64 word"
  f_to_int :: "64 word \<Rightarrow> int"
  f_add :: "64 word \<Rightarrow> 64 word \<Rightarrow> 64 word"
  f_sub :: "64 word \<Rightarrow> 64 word \<Rightarrow> 64 word"
  f_mul :: "64 word \<Rightarrow> 64 word \<Rightarrow> 64 word"
  f_pow :: "64 word \<Rightarrow> 64 word \<Rightarrow> 64 word"
  f_abs :: "64 word \<Rightarrow> 64 word"
  f_floor :: "64 word \<Rightarrow> 64 word"
  f_le :: "64 word \<Rightarrow> 64 word \<Rightarrow> bool"
  f_epsilon :: "64 word"
  f_1e60 :: "64 word"
  f_1e9 :: "64 word"
  f_1e_6 :: "64 word"
  f_print_whole :: "64 word \<Rightarrow> bytes"
  f_print_e :: "64 word \<Rightarrow> bytes"
  f_print_f :: "64 word \<Rightarrow> bytes"

subsection \<open>Items\<close>

text \<open>An item is the tree of its children; the links \<^verbatim>\<open>next\<close> and \<^verbatim>\<open>prev\<close> are the order of the list. A string is
  the block that holds it, with its terminator.\<close>

datatype cJSON = cJSON (js_type: int) (valuestring: "bytes option") (valueint: int) (valuedouble: "64 word")
  (js_string: "bytes option") (child: "cJSON list")

abbreviation (input) cJSON_False :: int where "cJSON_False \<equiv> 0"
abbreviation (input) cJSON_True :: int where "cJSON_True \<equiv> 1"
abbreviation (input) cJSON_NULL :: int where "cJSON_NULL \<equiv> 2"
abbreviation (input) cJSON_Number :: int where "cJSON_Number \<equiv> 3"
abbreviation (input) cJSON_String :: int where "cJSON_String \<equiv> 4"
abbreviation (input) cJSON_Array :: int where "cJSON_Array \<equiv> 5"
abbreviation (input) cJSON_Object :: int where "cJSON_Object \<equiv> 6"
abbreviation (input) cJSON_IsReference :: int where "cJSON_IsReference \<equiv> 256"

text \<open>The item \<^verbatim>\<open>cJSON_New_Item\<close> has cleared, given a type.\<close>

definition new_item :: "int \<Rightarrow> cJSON" where
  "new_item t = cJSON t None 0 0 None []"

definition set_name :: "bytes option \<Rightarrow> cJSON \<Rightarrow> cJSON" where
  "set_name s c = (case c of cJSON t v i d _ cs \<Rightarrow> cJSON t v i d s cs)"

definition text_of :: "string \<Rightarrow> bytes" where
  "text_of = map of_char"

text \<open>A C string that ends inside its array.\<close>

definition cstr :: "bytes \<Rightarrow> bytes option" where
  "cstr b = (if 0 \<in> set b then Some (c_string b) else None)"

subsection \<open>Numbers\<close>

definition is_digit :: "u8 \<Rightarrow> bool" where
  "is_digit c \<longleftrightarrow> 0x30 \<le> c \<and> c \<le> 0x39"

definition digit_value :: "u8 \<Rightarrow> int" where
  "digit_value c = uint c - 48"

text \<open>The digits before and behind the point (\<open>scale\<close> counts the latter down), and those of the exponent, where an
  overflow of the \<^verbatim>\<open>int\<close> is undefined.\<close>

function num_digits :: "fpu \<Rightarrow> bytes \<Rightarrow> nat \<Rightarrow> 64 word \<Rightarrow> (64 word \<times> nat) option" where
  "num_digits F m i n =
     (if length m \<le> i then None
      else if is_digit (m ! i) then
        num_digits F m (i + 1) (f_add F (f_mul F n (f_of_int F 10)) (f_of_int F (digit_value (m ! i))))
      else Some (n, i))"
  by pat_completeness auto
termination by (relation "measure (\<lambda>(_, m, i, _). length m - i)") auto

function frac_digits :: "fpu \<Rightarrow> bytes \<Rightarrow> nat \<Rightarrow> 64 word \<Rightarrow> 64 word \<Rightarrow> (64 word \<times> 64 word \<times> nat) option" where
  "frac_digits F m i n scale =
     (if length m \<le> i then None
      else if is_digit (m ! i) then
        frac_digits F m (i + 1) (f_add F (f_mul F n (f_of_int F 10)) (f_of_int F (digit_value (m ! i))))
          (f_sub F scale (f_of_int F 1))
      else Some (n, scale, i))"
  by pat_completeness auto
termination by (relation "measure (\<lambda>(_, m, i, _, _). length m - i)") auto

function exp_digits :: "bytes \<Rightarrow> nat \<Rightarrow> int \<Rightarrow> (int \<times> nat) option" where
  "exp_digits m i subscale =
     (if length m \<le> i then None
      else if is_digit (m ! i) then
        (if subscale * 10 + digit_value (m ! i) < 2 ^ 31 then exp_digits m (i + 1) (subscale * 10 + digit_value (m ! i)) else None)
      else Some (subscale, i))"
  by pat_completeness auto
termination by (relation "measure (\<lambda>(m, i, _). length m - i)") auto

declare num_digits.simps [simp del] frac_digits.simps [simp del] exp_digits.simps [simp del]

text \<open>The parts of a number: the digits before the point, behind it, and the exponent.\<close>

definition parse_whole :: "fpu \<Rightarrow> bytes \<Rightarrow> nat \<Rightarrow> (64 word \<times> nat) option" where
  "parse_whole F m num = do {
     c \<leftarrow> nth_opt m num;
     let num = (if c = 0x30 then num + 1 else num);
     c \<leftarrow> nth_opt m num;
     if 0x31 \<le> c \<and> c \<le> 0x39 then num_digits F m num (f_of_int F 0) else Some (f_of_int F 0, num) }"

definition parse_frac :: "fpu \<Rightarrow> bytes \<Rightarrow> nat \<Rightarrow> 64 word \<Rightarrow> (64 word \<times> 64 word \<times> nat) option" where
  "parse_frac F m num n = do {
     c \<leftarrow> nth_opt m num;
     if c \<noteq> 0x2E then Some (n, f_of_int F 0, num)
     else do {
       d \<leftarrow> nth_opt m (num + 1);
       if is_digit d then frac_digits F m (num + 1) n (f_of_int F 0) else Some (n, f_of_int F 0, num) } }"

definition parse_exp :: "bytes \<Rightarrow> nat \<Rightarrow> (int \<times> nat) option" where
  "parse_exp m num = do {
     c \<leftarrow> nth_opt m num;
     if c \<noteq> 0x65 \<and> c \<noteq> 0x45 then Some (0, num)
     else do {
       s \<leftarrow> nth_opt m (num + 1);
       (subscale, num) \<leftarrow> exp_digits m (if s = 0x2B \<or> s = 0x2D then num + 2 else num + 1) 0;
       Some (if s = 0x2D then - subscale else subscale, num) } }"

definition parse_number :: "fpu \<Rightarrow> bytes \<Rightarrow> nat \<Rightarrow> (cJSON \<times> nat) option" where
  "parse_number F m num = do {
     c \<leftarrow> nth_opt m num;
     (n, num) \<leftarrow> parse_whole F m (if c = 0x2D then num + 1 else num);
     (n, scale, num) \<leftarrow> parse_frac F m num n;
     (e, num) \<leftarrow> parse_exp m num;
     let n = f_mul F (f_mul F (f_of_int F (if c = 0x2D then -1 else 1)) n) (f_pow F (f_of_int F 10) (f_add F scale (f_of_int F e)));
     Some (cJSON cJSON_Number None (f_to_int F n) n None [], num) }"

subsection \<open>Strings\<close>

definition hex4_digit :: "u8 \<Rightarrow> 32 word option" where
  "hex4_digit c = (if 0x30 \<le> c \<and> c \<le> 0x39 then Some (ucast (c - 0x30))
     else if 0x41 \<le> c \<and> c \<le> 0x46 then Some (ucast (10 + c - 0x41))
     else if 0x61 \<le> c \<and> c \<le> 0x66 then Some (ucast (10 + c - 0x61)) else None)"

fun hex4_loop :: "bytes \<Rightarrow> nat \<Rightarrow> nat \<Rightarrow> 32 word \<Rightarrow> 32 word option" where
  "hex4_loop m i 0 h = Some h"
| "hex4_loop m i (Suc n) h = do {
     c \<leftarrow> nth_opt m i;
     case hex4_digit c of None \<Rightarrow> Some 0 | Some d \<Rightarrow> hex4_loop m (i + 1) n (push_bit 4 h + d) }"

definition parse_hex4 :: "bytes \<Rightarrow> nat \<Rightarrow> 32 word option" where
  "parse_hex4 m i = hex4_loop m i 4 0"

definition firstByteMark :: "u32 list" where
  "firstByteMark = [0x00, 0x00, 0xC0, 0xE0, 0xF0, 0xF8, 0xFC]"

text \<open>The bytes are filled in from the last to the first.\<close>

fun utf8_fill :: "nat \<Rightarrow> u32 \<Rightarrow> u32 \<Rightarrow> bytes \<Rightarrow> bytes" where
  "utf8_fill 0 uc mark bs = ucast (uc OR mark) # bs"
| "utf8_fill (Suc n) uc mark bs = utf8_fill n (drop_bit 6 uc) mark (ucast ((uc OR 0x80) AND 0xBF) # bs)"

definition utf8 :: "u32 \<Rightarrow> bytes" where
  "utf8 uc = (let len = if uc < 0x80 then 1 else if uc < 0x800 then 2 else if uc < 0x10000 then 3 else 4
     in utf8_fill (len - 1) uc (firstByteMark ! len) [])"

text \<open>The case \<^verbatim>\<open>u\<close>: \<open>ptr\<close> is the position of the letter; the result is what is stored and the last position read.
  It steps over four characters whatever they are, the end of the text included.\<close>

definition unicode_escape :: "bytes \<Rightarrow> nat \<Rightarrow> (bytes \<times> nat) option" where
  "unicode_escape m ptr = do {
     uc \<leftarrow> parse_hex4 m (ptr + 1);
     let ptr = ptr + 4;
     if 0xDC00 \<le> uc \<and> uc \<le> 0xDFFF \<or> uc = 0 then Some ([], ptr)
     else if 0xD800 \<le> uc \<and> uc \<le> 0xDBFF then do {
       a \<leftarrow> nth_opt m (ptr + 1);
       if a \<noteq> 0x5C then Some ([], ptr)
       else do {
         b \<leftarrow> nth_opt m (ptr + 2);
         if b \<noteq> 0x75 then Some ([], ptr)
         else do {
           uc2 \<leftarrow> parse_hex4 m (ptr + 3);
           let ptr = ptr + 6;
           if uc2 < 0xDC00 \<or> 0xDFFF < uc2 then Some ([], ptr)
           else Some (utf8 (0x10000 + (push_bit 10 (uc AND 0x3FF) OR (uc2 AND 0x3FF))), ptr) } } }
     else Some (utf8 uc, ptr) }"

text \<open>What an escape stores, and the last position it reads.\<close>

definition escape_bytes :: "bytes \<Rightarrow> nat \<Rightarrow> (bytes \<times> nat) option" where
  "escape_bytes m ptr = do {
     c \<leftarrow> nth_opt m ptr;
     if c = 0x62 then Some ([8], ptr)
     else if c = 0x66 then Some ([12], ptr)
     else if c = 0x6E then Some ([10], ptr)
     else if c = 0x72 then Some ([13], ptr)
     else if c = 0x74 then Some ([9], ptr)
     else if c = 0x75 then unicode_escape m ptr
     else Some ([c], ptr) }"

text \<open>The first loop of \<^verbatim>\<open>parse_string\<close> counts the space needed, an escape as one character.\<close>

function count_string :: "bytes \<Rightarrow> nat \<Rightarrow> nat \<Rightarrow> nat option" where
  "count_string m i len =
     (if length m \<le> i then None
      else if m ! i = 0x22 \<or> m ! i = 0 then Some len
      else if m ! i = 0x5C then count_string m (i + 2) (len + 1)
      else count_string m (i + 1) (len + 1))"
  by pat_completeness auto
termination by (relation "measure (\<lambda>(m, i, _). length m - i)") auto

text \<open>The second one stores: \<open>i\<close> is \<^verbatim>\<open>ptr\<close>, \<open>j\<close> the index \<^verbatim>\<open>ptr2\<close> in the block \<open>out\<close>.\<close>

lemma escape_progress: "escape_bytes m i = Some (bs, i') \<Longrightarrow> i \<le> i'"
  by (auto simp: escape_bytes_def unicode_escape_def bind_eq_Some_conv Let_def split: if_splits)

function parse_chars :: "bytes \<Rightarrow> nat \<Rightarrow> bytes \<Rightarrow> nat \<Rightarrow> (nat \<times> bytes \<times> nat) option" where
  "parse_chars m i out j =
     (if length m \<le> i then None
      else if m ! i = 0x22 \<or> m ! i = 0 then Some (i, out, j)
      else if m ! i \<noteq> 0x5C then do { out \<leftarrow> wr out j [m ! i]; parse_chars m (i + 1) out (j + 1) }
      else do {
        (bs, i') \<leftarrow> escape_bytes m (i + 1);
        out \<leftarrow> wr out j bs;
        parse_chars m (i' + 1) out (j + length bs) })"
  by pat_completeness auto
termination by (relation "measure (\<lambda>(m, i, _, _). length m - i)") (auto dest: escape_progress)

declare count_string.simps [simp del] parse_chars.simps [simp del]

text \<open>The block of the string and the position behind it.\<close>

definition parse_string :: "heap \<Rightarrow> bytes \<Rightarrow> nat \<Rightarrow> nat \<Rightarrow> ((bytes \<times> nat) option \<times> nat) option" where
  "parse_string H m str k = do {
     c \<leftarrow> nth_opt m str;
     if c \<noteq> 0x22 then Some (None, k)
     else do {
       len \<leftarrow> count_string m (str + 1) 0;
       let (out, k) = malloc H (len + 1) k;
       case out of None \<Rightarrow> Some (None, k)
       | Some out \<Rightarrow> do {
           (ptr, out, j) \<leftarrow> parse_chars m (str + 1) out 0;
           out \<leftarrow> wr out j [0];
           c \<leftarrow> nth_opt m ptr;
           Some (Some (out, if c = 0x22 then ptr + 1 else ptr), k) } } }"

lemma parse_chars_progress: "parse_chars m i out j = Some (i', out', j') \<Longrightarrow> i \<le> i'"
proof (induction m i out j rule: parse_chars.induct)
  case (1 m i out j)
  from 1(3) show ?case
    by (subst (asm) parse_chars.simps)
      (fastforce simp: bind_eq_Some_conv dest: 1(1) 1(2) escape_progress split: if_splits)
qed

lemma parse_string_progress: "parse_string H m i k = Some (Some (s, i'), k') \<Longrightarrow> i < i'"
  by (auto simp: parse_string_def bind_eq_Some_conv Let_def malloc_def dest!: parse_chars_progress split: if_splits)

subsection \<open>Values\<close>

function skip :: "bytes \<Rightarrow> nat \<Rightarrow> nat option" where
  "skip m i = (if length m \<le> i then None else if m ! i \<noteq> 0 \<and> m ! i \<le> 32 then skip m (i + 1) else Some i)"
  by pat_completeness auto
termination by (relation "measure (\<lambda>(m, i). length m - i)") auto

declare skip.simps [simp del]

lemma skip_bounds: "skip m i = Some i' \<Longrightarrow> i \<le> i' \<and> i' < length m"
  by (induction m i rule: skip.induct) (subst (asm) (2) skip.simps, fastforce split: if_splits)

text \<open>\<^verbatim>\<open>strncmp\<close> with a constant text.\<close>

fun starts_with :: "bytes \<Rightarrow> nat \<Rightarrow> bytes \<Rightarrow> bool option" where
  "starts_with m i [] = Some True"
| "starts_with m i (x # xs) = do { c \<leftarrow> nth_opt m i; if c = x then starts_with m (i + 1) xs else Some False }"

text \<open>\<^verbatim>\<open>parse_value\<close> with \<^verbatim>\<open>parse_array\<close> and \<^verbatim>\<open>parse_object\<close>, whose loops over the items are \<open>parse_elements\<close> and
  \<open>parse_members\<close>: each turn allocates an item, parses it and looks at the character behind it.\<close>

function (domintros)
  parse_value :: "fpu \<Rightarrow> heap \<Rightarrow> bytes \<Rightarrow> nat \<Rightarrow> nat \<Rightarrow> ((cJSON \<times> nat) option \<times> nat) option" and
  parse_elements :: "fpu \<Rightarrow> heap \<Rightarrow> bytes \<Rightarrow> nat \<Rightarrow> nat \<Rightarrow> ((cJSON list \<times> nat) option \<times> nat) option" and
  parse_members :: "fpu \<Rightarrow> heap \<Rightarrow> bytes \<Rightarrow> nat \<Rightarrow> nat \<Rightarrow> ((cJSON list \<times> nat) option \<times> nat) option"
where
  "parse_value F H m i k = do {
     n \<leftarrow> starts_with m i (text_of ''null'');
     if n then Some (Some (new_item cJSON_NULL, i + 4), k)
     else do {
       f \<leftarrow> starts_with m i (text_of ''false'');
       if f then Some (Some (new_item cJSON_False, i + 5), k)
       else do {
         t \<leftarrow> starts_with m i (text_of ''true'');
         if t then Some (Some (cJSON cJSON_True None 1 0 None [], i + 4), k)
         else do {
           c \<leftarrow> nth_opt m i;
           if c = 0x22 then do {
             (r, k) \<leftarrow> parse_string H m i k;
             Some (map_option (\<lambda>(s, i). (cJSON cJSON_String (Some s) 0 0 None [], i)) r, k) }
           else if c = 0x2D \<or> is_digit c then do {
             r \<leftarrow> parse_number F m i;
             Some (Some r, k) }
           else if c = 0x5B then do {
             i \<leftarrow> skip m (i + 1);
             if m ! i = 0x5D then Some (Some (new_item cJSON_Array, i + 1), k)
             else do {
               (r, k) \<leftarrow> parse_elements F H m i k;
               Some (map_option (\<lambda>(cs, i). (cJSON cJSON_Array None 0 0 None cs, i)) r, k) } }
           else if c = 0x7B then do {
             i \<leftarrow> skip m (i + 1);
             if m ! i = 0x7D then Some (Some (new_item cJSON_Object, i + 1), k)
             else do {
               (r, k) \<leftarrow> parse_members F H m i k;
               Some (map_option (\<lambda>(cs, i). (cJSON cJSON_Object None 0 0 None cs, i)) r, k) } }
           else Some (None, k) } } } }"
| "parse_elements F H m i k =
     (if \<not> h_ok H k then Some (None, k + 1)
      else do {
        i \<leftarrow> skip m i;
        (r, k) \<leftarrow> parse_value F H m i (k + 1);
        case r of None \<Rightarrow> Some (None, k)
        | Some (c, i) \<Rightarrow> do {
            i \<leftarrow> skip m i;
            if m ! i = 0x2C then do {
              (r, k) \<leftarrow> parse_elements F H m (i + 1) k;
              Some (map_option (\<lambda>(cs, i). (c # cs, i)) r, k) }
            else if m ! i = 0x5D then Some (Some ([c], i + 1), k)
            else Some (None, k) } })"
| "parse_members F H m i k =
     (if \<not> h_ok H k then Some (None, k + 1)
      else do {
        i \<leftarrow> skip m i;
        (r, k) \<leftarrow> parse_string H m i (k + 1);
        case r of None \<Rightarrow> Some (None, k)
        | Some (name, i) \<Rightarrow> do {
            i \<leftarrow> skip m i;
            if m ! i \<noteq> 0x3A then Some (None, k)
            else do {
              i \<leftarrow> skip m (i + 1);
              (r, k) \<leftarrow> parse_value F H m i k;
              case r of None \<Rightarrow> Some (None, k)
              | Some (c, i) \<Rightarrow> do {
                  i \<leftarrow> skip m i;
                  if m ! i = 0x2C then do {
                    (r, k) \<leftarrow> parse_members F H m (i + 1) k;
                    Some (map_option (\<lambda>(cs, i). (set_name (Some name) c # cs, i)) r, k) }
                  else if m ! i = 0x7D then Some (Some ([set_name (Some name) c], i + 1), k)
                  else Some (None, k) } } } })"
  by pat_completeness auto

lemma num_digits_progress: "num_digits F m i n = Some (n', i') \<Longrightarrow> i \<le> i'"
  by (induction F m i n rule: num_digits.induct) (subst (asm) (2) num_digits.simps, fastforce split: if_splits)

lemma frac_digits_progress: "frac_digits F m i n sc = Some (n', sc', i') \<Longrightarrow> i \<le> i'"
  by (induction F m i n sc rule: frac_digits.induct) (subst (asm) (2) frac_digits.simps, fastforce split: if_splits)

lemma exp_digits_progress: "exp_digits m i e = Some (e', i') \<Longrightarrow> i \<le> i'"
  by (induction m i e rule: exp_digits.induct) (subst (asm) (2) exp_digits.simps, fastforce split: if_splits)

lemma parse_whole_progress: "parse_whole F m i = Some (n, i') \<Longrightarrow> i \<le> i'"
  by (auto simp: parse_whole_def bind_eq_Some_conv Let_def dest!: num_digits_progress split: if_splits)

lemma parse_frac_progress: "parse_frac F m i n = Some (n', sc, i') \<Longrightarrow> i \<le> i'"
  by (auto simp: parse_frac_def bind_eq_Some_conv dest!: frac_digits_progress split: if_splits)

lemma parse_exp_progress: "parse_exp m i = Some (e, i') \<Longrightarrow> i \<le> i'"
  by (auto simp: parse_exp_def bind_eq_Some_conv dest!: exp_digits_progress split: if_splits)

lemma parse_number_progress: "parse_number F m i = Some (c, i') \<Longrightarrow> i \<le> i'"
  by (auto simp: parse_number_def bind_eq_Some_conv Let_def
      dest!: parse_whole_progress parse_frac_progress parse_exp_progress split: if_splits)

text \<open>What is parsed has been stepped over; so the recursion ends.\<close>

lemma parse_progress:
  "parse_value_parse_elements_parse_members_dom (Inl (F, H, m, i, k)) \<Longrightarrow>
     parse_value F H m i k = Some (Some (c, i'), k') \<Longrightarrow> i \<le> i'"
  "parse_value_parse_elements_parse_members_dom (Inr (Inl (F, H, m, i, k))) \<Longrightarrow>
     parse_elements F H m i k = Some (Some (cs, i'), k') \<Longrightarrow> i \<le> i'"
  "parse_value_parse_elements_parse_members_dom (Inr (Inr (F, H, m, i, k))) \<Longrightarrow>
     parse_members F H m i k = Some (Some (cs', i'), k') \<Longrightarrow> i \<le> i'"
proof (induction arbitrary: c i' k' and cs i' k' and cs' i' k' rule: parse_value_parse_elements_parse_members.pinduct)
  case (1 F H m i k)
  note IH = "1.IH"
  have e: "i \<le> i'" if "skip m (Suc i) = Some j" "m ! j \<noteq> 0x5D" "parse_elements F H m j k = Some (Some (cs, i'), k')"
      "starts_with m i (text_of ''null'') = Some False" "starts_with m i (text_of ''false'') = Some False"
      "starts_with m i (text_of ''true'') = Some False" "nth_opt m i = Some 0x5B" for j cs i' k'
    using IH(1) [of False False False "0x5B" j] that skip_bounds [OF that(1)] by (simp add: is_digit_def)
  have o: "i \<le> i'" if "skip m (Suc i) = Some j" "m ! j \<noteq> 0x7D" "parse_members F H m j k = Some (Some (cs, i'), k')"
      "starts_with m i (text_of ''null'') = Some False" "starts_with m i (text_of ''false'') = Some False"
      "starts_with m i (text_of ''true'') = Some False" "nth_opt m i = Some 0x7B" for j cs i' k'
    using IH(2) [of False False False "0x7B" j] that skip_bounds [OF that(1)] by (simp add: is_digit_def)
  show ?case using "1.prems"
    by (auto simp: parse_value.psimps [OF "1.hyps"] bind_eq_Some_conv dest: e o parse_number_progress skip_bounds
        parse_string_progress split: if_splits)
next
  case (2 F H m i k)
  from "2.prems" obtain j c p q k1 where s: "h_ok H k" "skip m i = Some j" "parse_value F H m j (k + 1) = Some (Some (c, p), k1)"
    "skip m p = Some q"
    by (auto simp: parse_elements.psimps [OF "2.hyps"] bind_eq_Some_conv split: if_splits option.splits)
  have "j \<le> p" using "2.IH"(1) s by simp
  then have b: "i \<le> q" using skip_bounds [OF s(2)] skip_bounds [OF s(4)] by simp
  have "Suc q \<le> i'" if "m ! q = 0x2C" "parse_elements F H m (Suc q) k1 = Some (Some (cs, i'), k')" for cs i' k'
    using "2.IH"(2) [of j "(Some (c, p), k1)" "Some (c, p)" k1 "(c, p)" c p q] s that by simp
  with b "2.prems" s show ?case
    by (force simp: parse_elements.psimps [OF "2.hyps"] bind_eq_Some_conv split: if_splits)
next
  case (3 F H m i k)
  from "3.prems" obtain j s0 p q k1 r c u v k2 where s: "h_ok H k" "skip m i = Some j" "parse_string H m j (k + 1) = Some (Some (s0, p), k1)"
    "skip m p = Some q" "m ! q = 0x3A" "skip m (Suc q) = Some r" "parse_value F H m r k1 = Some (Some (c, u), k2)" "skip m u = Some v"
    by (auto simp: parse_members.psimps [OF "3.hyps"] bind_eq_Some_conv split: if_splits option.splits)
  have "r \<le> u" using "3.IH"(1) [of j "(Some (s0, p), k1)" "Some (s0, p)" k1 "(s0, p)" s0 p q r] s by simp
  then have b: "i \<le> v" using skip_bounds [OF s(2)] skip_bounds [OF s(4)] skip_bounds [OF s(6)] skip_bounds [OF s(8)]
    parse_string_progress [OF s(3)] by simp
  have "Suc v \<le> i'" if "m ! v = 0x2C" "parse_members F H m (Suc v) k2 = Some (Some (cs, i'), k')" for cs i' k'
    using "3.IH"(2) [of j "(Some (s0, p), k1)" "Some (s0, p)" k1 "(s0, p)" s0 p q r "(Some (c, u), k2)" "Some (c, u)" k2 "(c, u)" c u v]
      s that by simp
  with b "3.prems" s show ?case
    by (force simp: parse_members.psimps [OF "3.hyps"] bind_eq_Some_conv split: if_splits)
qed

termination parse_value
proof (relation "measure (\<lambda>x. case x of Inl (F, H, m, i, k) \<Rightarrow> 2 * (length m - i)
    | Inr (Inl (F, H, m, i, k)) \<Rightarrow> 2 * (length m - i) + 1 | Inr (Inr (F, H, m, i, k)) \<Rightarrow> 2 * (length m - i) + 1)", goal_cases)
  case 1
  show ?case by simp
qed (auto dest!: skip_bounds parse_progress parse_string_progress simp: nth_opt_def split: if_splits)

declare parse_value.simps [simp del] parse_elements.simps [simp del] parse_members.simps [simp del]

text \<open>\<^verbatim>\<open>cJSON_ParseWithOpts\<close>, \<^verbatim>\<open>cJSON_Parse\<close> and \<^verbatim>\<open>str2int\<close> of \<^verbatim>\<open>common.c\<close>.\<close>

definition cJSON_ParseWithOpts :: "fpu \<Rightarrow> heap \<Rightarrow> bool \<Rightarrow> bytes \<Rightarrow> nat \<Rightarrow> ((cJSON \<times> nat) option \<times> nat) option" where
  "cJSON_ParseWithOpts F H require_null_terminated m k =
     (if \<not> h_ok H k then Some (None, k + 1)
      else do {
        i \<leftarrow> skip m 0;
        (r, k) \<leftarrow> parse_value F H m i (k + 1);
        case r of None \<Rightarrow> Some (None, k)
        | Some (c, i) \<Rightarrow>
            if require_null_terminated then do {
              i \<leftarrow> skip m i;
              Some (if m ! i \<noteq> 0 then None else Some (c, i), k) }
            else Some (Some (c, i), k) })"

definition cJSON_Parse :: "fpu \<Rightarrow> heap \<Rightarrow> bytes \<Rightarrow> cJSON option option" where
  "cJSON_Parse F H m = do {
     (r, k) \<leftarrow> cJSON_ParseWithOpts F H False m 0;
     Some (map_option fst r) }"

definition str2int :: "fpu \<Rightarrow> bytes \<Rightarrow> int option" where
  "str2int F m = do { (c, i) \<leftarrow> parse_number F m 0; Some (valueint c) }"

end
