(* ===== verification/JsonPrint.thy ===== *)
theory JsonPrint
  imports Json
begin

text \<open>
  The printer of \<^verbatim>\<open>cJSON.c\<close> and the operations on items: building, copying, removing and replacing. A printed
  text is the text without its terminator; the block it is put in is as long as the code has computed
  before, and a text that does not fit is undefined (\<open>fits\<close>).
\<close>

subsection \<open>Blocks\<close>

definition fits :: "nat \<Rightarrow> bytes \<Rightarrow> bytes option" where
  "fits n s = (if length s + 1 \<le> n then Some s else None)"

definition cJSON_strdup :: "heap \<Rightarrow> bytes \<Rightarrow> nat \<Rightarrow> bytes option \<times> nat" where
  "cJSON_strdup H s k = (if h_ok H k then Some s else None, k + 1)"

subsection \<open>Numbers and strings\<close>

text \<open>The text \<^verbatim>\<open>%d\<close> prints.\<close>

definition int_text :: "int \<Rightarrow> bytes" where
  "int_text n = (if n = 0 then [0x30] else
     (if n < 0 then [0x2D] else []) @ rev (map (\<lambda>d. of_nat (48 + d)) (low_digits 10 (nat \<bar>n\<bar>))))"

definition near :: "fpu \<Rightarrow> 64 word \<Rightarrow> 64 word \<Rightarrow> bool" where
  "near F a b = f_le F (f_abs F (f_sub F a b)) (f_epsilon F)"

definition print_number :: "fpu \<Rightarrow> heap \<Rightarrow> cJSON \<Rightarrow> nat \<Rightarrow> (bytes option \<times> nat) option" where
  "print_number F H item k =
     (let d = valuedouble item
      in if near F (f_of_int F (valueint item)) d \<and> f_le F d (f_of_int F (2 ^ 31 - 1)) \<and> f_le F (f_of_int F (- (2 ^ 31))) d then
        if h_ok H k then do { s \<leftarrow> fits 21 (int_text (valueint item)); Some (Some s, k + 1) } else Some (None, k + 1)
      else if \<not> h_ok H k then Some (None, k + 1)
      else do {
        s \<leftarrow> fits 64 (if near F (f_floor F d) d \<and> \<not> f_le F (f_1e60 F) (f_abs F d) then f_print_whole F d
          else if \<not> f_le F (f_1e_6 F) (f_abs F d) \<or> \<not> f_le F (f_abs F d) (f_1e9 F) then f_print_e F d
          else f_print_f F d);
        Some (Some s, k + 1) })"

definition hex_low :: "u8 \<Rightarrow> u8" where
  "hex_low n = (if n < 10 then 0x30 + n else 0x57 + n)"

text \<open>A character as it is printed, and the space counted for it.\<close>

definition escape_text :: "u8 \<Rightarrow> bytes" where
  "escape_text c =
     (if 31 < c \<and> c \<noteq> 0x22 \<and> c \<noteq> 0x5C then [c]
      else 0x5C # (if c = 0x5C then [0x5C] else if c = 0x22 then [0x22] else if c = 8 then [0x62] else if c = 12 then [0x66]
        else if c = 10 then [0x6E] else if c = 13 then [0x72] else if c = 9 then [0x74]
        else [0x75, 0x30, 0x30, hex_low (drop_bit 4 c), hex_low (c AND 15)]))"

definition escape_len :: "u8 \<Rightarrow> nat" where
  "escape_len c = (if c \<in> {0x22, 0x5C, 8, 12, 10, 13, 9} then 2 else if c < 32 then 6 else 1)"

definition print_string_ptr :: "heap \<Rightarrow> bytes option \<Rightarrow> nat \<Rightarrow> (bytes option \<times> nat) option" where
  "print_string_ptr H str k = (case str of None \<Rightarrow> Some (cJSON_strdup H [] k)
     | Some s \<Rightarrow> do {
         t \<leftarrow> cstr s;
         if \<not> h_ok H k then Some (None, k + 1)
         else do {
           out \<leftarrow> fits (sum_list (map escape_len t) + 3) ([0x22] @ concat (map escape_text t) @ [0x22]);
           Some (Some out, k + 1) } })"

subsection \<open>Arrays and objects\<close>

text \<open>The entries put together, with the separators of both formats.\<close>

fun join_array :: "bool \<Rightarrow> bytes list \<Rightarrow> bytes" where
  "join_array fmt [] = []"
| "join_array fmt [e] = e"
| "join_array fmt (e # es) = e @ [0x2C] @ (if fmt then [0x20] else []) @ join_array fmt es"

fun join_object :: "bool \<Rightarrow> nat \<Rightarrow> (bytes \<times> bytes) list \<Rightarrow> bytes" where
  "join_object fmt depth [] = []"
| "join_object fmt depth ((n, e) # es) =
     (if fmt then replicate depth 9 else []) @ n @ [0x3A] @ (if fmt then [9] else []) @ e @
     (if es = [] then [] else [0x2C]) @ (if fmt then [10] else []) @ join_object fmt depth es"

definition print_array_text :: "heap \<Rightarrow> bool \<Rightarrow> bytes list option \<Rightarrow> nat \<Rightarrow> (bytes option \<times> nat) option" where
  "print_array_text H fmt entries k = (case entries of None \<Rightarrow> Some (None, k)
     | Some es \<Rightarrow>
         if \<not> h_ok H k then Some (None, k + 1)
         else do {
           out \<leftarrow> fits (5 + sum_list (map (\<lambda>e. length e + 2 + (if fmt then 1 else 0)) es)) ([0x5B] @ join_array fmt es @ [0x5D]);
           Some (Some out, k + 1) })"

definition print_object_text :: "heap \<Rightarrow> bool \<Rightarrow> nat \<Rightarrow> (bytes \<times> bytes) list option \<Rightarrow> nat \<Rightarrow> (bytes option \<times> nat) option" where
  "print_object_text H fmt depth entries k = (case entries of None \<Rightarrow> Some (None, k)
     | Some es \<Rightarrow>
         if \<not> h_ok H k then Some (None, k + 1)
         else do {
           out \<leftarrow> fits (7 + (if fmt then depth else 0) +
               sum_list (map (\<lambda>(n, e). length e + length n + 2 + (if fmt then 2 + depth else 0)) es))
             ([0x7B] @ (if fmt then [10] else []) @ join_object fmt depth es @ (if fmt then replicate (depth - 1) 9 else []) @ [0x7D]);
           Some (Some out, k + 1) })"

text \<open>\<^verbatim>\<open>print_value\<close> with \<^verbatim>\<open>print_array\<close> and \<^verbatim>\<open>print_object\<close>. The loop over an array ends at the first failure, the one
  over an object goes on.\<close>

fun print_value :: "fpu \<Rightarrow> heap \<Rightarrow> cJSON \<Rightarrow> nat \<Rightarrow> bool \<Rightarrow> nat \<Rightarrow> (bytes option \<times> nat) option"
  and print_entries :: "fpu \<Rightarrow> heap \<Rightarrow> cJSON list \<Rightarrow> nat \<Rightarrow> bool \<Rightarrow> nat \<Rightarrow> (bytes list option \<times> nat) option"
  and print_members :: "fpu \<Rightarrow> heap \<Rightarrow> cJSON list \<Rightarrow> nat \<Rightarrow> bool \<Rightarrow> nat \<Rightarrow> ((bytes \<times> bytes) list option \<times> nat) option"
where
  "print_value F H (cJSON typ v i d n cs) depth fmt k =
     (let t = typ AND 255
      in if t = cJSON_NULL then Some (cJSON_strdup H (text_of ''null'') k)
      else if t = cJSON_False then Some (cJSON_strdup H (text_of ''false'') k)
      else if t = cJSON_True then Some (cJSON_strdup H (text_of ''true'') k)
      else if t = cJSON_Number then print_number F H (cJSON typ v i d n cs) k
      else if t = cJSON_String then print_string_ptr H v k
      else if t = cJSON_Array then
        if cs = [] then Some (cJSON_strdup H (text_of ''[]'') k)
        else if \<not> h_ok H k then Some (None, k + 1)
        else do {
          (es, k) \<leftarrow> print_entries F H cs (depth + 1) fmt (k + 1);
          print_array_text H fmt es k }
      else if t = cJSON_Object then
        if cs = [] then
          if \<not> h_ok H k then Some (None, k + 1)
          else do {
            out \<leftarrow> fits (if fmt then depth + 4 else 3)
              ([0x7B] @ (if fmt then 10 # replicate (depth - 1) 9 else []) @ [0x7D]);
            Some (Some out, k + 1) }
        else if \<not> h_ok H k then Some (None, k + 1)
        else if \<not> h_ok H (k + 1) then Some (None, k + 2)
        else do {
          (es, k) \<leftarrow> print_members F H cs (depth + 1) fmt (k + 2);
          print_object_text H fmt (depth + 1) es k }
      else Some (None, k))"
| "print_entries F H [] depth fmt k = Some (Some [], k)"
| "print_entries F H (c # cs) depth fmt k = do {
     (r, k) \<leftarrow> print_value F H c depth fmt k;
     case r of None \<Rightarrow> Some (None, k)
     | Some e \<Rightarrow> do {
         (es, k) \<leftarrow> print_entries F H cs depth fmt k;
         Some (map_option ((#) e) es, k) } }"
| "print_members F H [] depth fmt k = Some (Some [], k)"
| "print_members F H (c # cs) depth fmt k = do {
     (s, k) \<leftarrow> print_string_ptr H (js_string c) k;
     (r, k) \<leftarrow> print_value F H c depth fmt k;
     (es, k) \<leftarrow> print_members F H cs depth fmt k;
     Some (case (s, r, es) of (Some n, Some e, Some es) \<Rightarrow> Some ((n, e) # es) | _ \<Rightarrow> None, k) }"

definition cJSON_PrintUnformatted :: "fpu \<Rightarrow> heap \<Rightarrow> cJSON \<Rightarrow> bytes option option" where
  "cJSON_PrintUnformatted F H item = map_option fst (print_value F H item 0 False 0)"

definition cJSON_Print :: "fpu \<Rightarrow> heap \<Rightarrow> cJSON \<Rightarrow> bytes option option" where
  "cJSON_Print F H item = map_option fst (print_value F H item 0 True 0)"

end
