(* ===== verification/JsonEdit.thy ===== *)
theory JsonEdit
  imports JsonPrint
begin

text \<open>
  The operations on items of \<^verbatim>\<open>cJSON.c\<close>: access, creation, adding, removing, replacing, copying, and the
  removal of white space and comments from a text in place. Freed blocks are not tracked; an item that
  could not be allocated is \<^term>\<open>None\<close>.
\<close>

subsection \<open>Access\<close>

definition c_tolower :: "u8 \<Rightarrow> u8" where
  "c_tolower c = (if 0x41 \<le> c \<and> c \<le> 0x5A then c + 0x20 else c)"

text \<open>True for different texts, as the C function returns non-zero.\<close>

definition cJSON_strcasecmp :: "bytes option \<Rightarrow> bytes \<Rightarrow> bool" where
  "cJSON_strcasecmp s1 s2 = (case s1 of None \<Rightarrow> True
     | Some s \<Rightarrow> map c_tolower (c_string s) \<noteq> map c_tolower (c_string s2))"

definition cJSON_GetObjectItem :: "cJSON \<Rightarrow> string \<Rightarrow> cJSON option" where
  "cJSON_GetObjectItem object s = find (\<lambda>c. \<not> cJSON_strcasecmp (js_string c) (text_of s)) (child object)"

definition cJSON_GetArraySize :: "cJSON \<Rightarrow> nat" where
  "cJSON_GetArraySize a = length (child a)"

text \<open>A negative index is taken for 0 by all operations with an index.\<close>

definition cJSON_GetArrayItem :: "cJSON \<Rightarrow> int \<Rightarrow> cJSON option" where
  "cJSON_GetArrayItem a i = nth_opt (child a) (nat i)"

subsection \<open>Creation\<close>

definition strdup :: "heap \<Rightarrow> bytes \<Rightarrow> nat \<Rightarrow> (bytes option \<times> nat) option" where
  "strdup H s k = do { t \<leftarrow> cstr s; Some (if h_ok H k then Some (t @ [0]) else None, k + 1) }"

definition create_item :: "heap \<Rightarrow> cJSON \<Rightarrow> nat \<Rightarrow> cJSON option \<times> nat" where
  "create_item H c k = (if h_ok H k then Some c else None, k + 1)"

definition cJSON_CreateNull :: "heap \<Rightarrow> nat \<Rightarrow> cJSON option \<times> nat" where
  "cJSON_CreateNull H k = create_item H (new_item cJSON_NULL) k"

definition cJSON_CreateBool :: "heap \<Rightarrow> bool \<Rightarrow> nat \<Rightarrow> cJSON option \<times> nat" where
  "cJSON_CreateBool H b k = create_item H (new_item (if b then cJSON_True else cJSON_False)) k"

definition cJSON_CreateNumber :: "fpu \<Rightarrow> heap \<Rightarrow> 64 word \<Rightarrow> nat \<Rightarrow> cJSON option \<times> nat" where
  "cJSON_CreateNumber F H num k = create_item H (cJSON cJSON_Number None (f_to_int F num) num None []) k"

definition cJSON_CreateString :: "heap \<Rightarrow> bytes \<Rightarrow> nat \<Rightarrow> (cJSON option \<times> nat) option" where
  "cJSON_CreateString H s k =
     (if \<not> h_ok H k then Some (None, k + 1)
      else do { (v, k) \<leftarrow> strdup H s (k + 1); Some (Some (cJSON cJSON_String v 0 0 None []), k) })"

definition cJSON_CreateArray :: "heap \<Rightarrow> nat \<Rightarrow> cJSON option \<times> nat" where
  "cJSON_CreateArray H k = create_item H (new_item cJSON_Array) k"

definition cJSON_CreateObject :: "heap \<Rightarrow> nat \<Rightarrow> cJSON option \<times> nat" where
  "cJSON_CreateObject H k = create_item H (new_item cJSON_Object) k"

subsection \<open>Adding\<close>

definition set_child :: "cJSON list \<Rightarrow> cJSON \<Rightarrow> cJSON" where
  "set_child cs c = (case c of cJSON t v i d n _ \<Rightarrow> cJSON t v i d n cs)"

definition cJSON_AddItemToArray :: "cJSON \<Rightarrow> cJSON option \<Rightarrow> cJSON" where
  "cJSON_AddItemToArray array item = (case item of None \<Rightarrow> array | Some c \<Rightarrow> set_child (child array @ [c]) array)"

definition cJSON_AddItemToObject :: "heap \<Rightarrow> cJSON \<Rightarrow> bytes \<Rightarrow> cJSON option \<Rightarrow> nat \<Rightarrow> (cJSON \<times> nat) option" where
  "cJSON_AddItemToObject H object name item k = (case item of None \<Rightarrow> Some (object, k)
     | Some c \<Rightarrow> do { (s, k) \<leftarrow> strdup H name k; Some (cJSON_AddItemToArray object (Some (set_name s c)), k) })"

definition cJSON_AddNumberToObject :: "fpu \<Rightarrow> heap \<Rightarrow> cJSON \<Rightarrow> bytes \<Rightarrow> 64 word \<Rightarrow> nat \<Rightarrow> (cJSON \<times> nat) option" where
  "cJSON_AddNumberToObject F H object name n k =
     (let (c, k) = cJSON_CreateNumber F H n k in cJSON_AddItemToObject H object name c k)"

definition cJSON_AddStringToObject :: "heap \<Rightarrow> cJSON \<Rightarrow> bytes \<Rightarrow> bytes \<Rightarrow> nat \<Rightarrow> (cJSON \<times> nat) option" where
  "cJSON_AddStringToObject H object name s k = do {
     (c, k) \<leftarrow> cJSON_CreateString H s k;
     cJSON_AddItemToObject H object name c k }"

definition create_reference :: "heap \<Rightarrow> cJSON \<Rightarrow> nat \<Rightarrow> cJSON option \<times> nat" where
  "create_reference H item k = (case item of cJSON t v i d n cs \<Rightarrow>
     create_item H (cJSON (t OR cJSON_IsReference) v i d None cs) k)"

definition cJSON_AddItemReferenceToArray :: "heap \<Rightarrow> cJSON \<Rightarrow> cJSON \<Rightarrow> nat \<Rightarrow> cJSON \<times> nat" where
  "cJSON_AddItemReferenceToArray H array item k = (let (r, k) = create_reference H item k in (cJSON_AddItemToArray array r, k))"

definition cJSON_AddItemReferenceToObject :: "heap \<Rightarrow> cJSON \<Rightarrow> bytes \<Rightarrow> cJSON \<Rightarrow> nat \<Rightarrow> (cJSON \<times> nat) option" where
  "cJSON_AddItemReferenceToObject H object name item k =
     (let (r, k) = create_reference H item k in cJSON_AddItemToObject H object name r k)"

text \<open>The arrays of \<open>n\<close> numbers or strings. An item that cannot be allocated leaves a null pointer that is written
  through for the next item or itself.\<close>

fun create_numbers :: "fpu \<Rightarrow> heap \<Rightarrow> 64 word list \<Rightarrow> bool \<Rightarrow> cJSON option \<Rightarrow> nat \<Rightarrow> (cJSON list \<times> nat) option" where
  "create_numbers F H [] first p k = Some ([], k)"
| "create_numbers F H (x # xs) first p k =
     (let (n, k) = cJSON_CreateNumber F H x k
      in if \<not> first \<and> (p = None \<or> n = None) then None
      else do {
        (cs, k) \<leftarrow> create_numbers F H xs False n k;
        Some (case n of None \<Rightarrow> cs | Some c \<Rightarrow> c # cs, k) })"

definition cJSON_CreateDoubleArray :: "fpu \<Rightarrow> heap \<Rightarrow> 64 word list \<Rightarrow> nat \<Rightarrow> (cJSON option \<times> nat) option" where
  "cJSON_CreateDoubleArray F H numbers k =
     (let (a, k) = cJSON_CreateArray H k
      in case a of None \<Rightarrow> Some (None, k)
      | Some a \<Rightarrow> do { (cs, k) \<leftarrow> create_numbers F H numbers True None k; Some (Some (set_child cs a), k) })"

definition cJSON_CreateIntArray :: "fpu \<Rightarrow> heap \<Rightarrow> int list \<Rightarrow> nat \<Rightarrow> (cJSON option \<times> nat) option" where
  "cJSON_CreateIntArray F H numbers k = cJSON_CreateDoubleArray F H (map (f_of_int F) numbers) k"

subsection \<open>Removing and replacing\<close>

definition cJSON_DetachItemFromArray :: "cJSON \<Rightarrow> int \<Rightarrow> cJSON option \<times> cJSON" where
  "cJSON_DetachItemFromArray array which =
     (let cs = child array; i = nat which
      in if length cs \<le> i then (None, array) else (Some (cs ! i), set_child (take i cs @ drop (i + 1) cs) array))"

definition cJSON_DeleteItemFromArray :: "cJSON \<Rightarrow> int \<Rightarrow> cJSON" where
  "cJSON_DeleteItemFromArray array which = snd (cJSON_DetachItemFromArray array which)"

fun item_index :: "bytes \<Rightarrow> cJSON list \<Rightarrow> nat option" where
  "item_index name [] = None"
| "item_index name (c # cs) = (if cJSON_strcasecmp (js_string c) name then map_option Suc (item_index name cs) else Some 0)"

definition cJSON_DetachItemFromObject :: "cJSON \<Rightarrow> bytes \<Rightarrow> cJSON option \<times> cJSON" where
  "cJSON_DetachItemFromObject object name = (case item_index name (child object) of None \<Rightarrow> (None, object)
     | Some i \<Rightarrow> cJSON_DetachItemFromArray object (int i))"

definition cJSON_DeleteItemFromObject :: "cJSON \<Rightarrow> bytes \<Rightarrow> cJSON" where
  "cJSON_DeleteItemFromObject object name = snd (cJSON_DetachItemFromObject object name)"

definition cJSON_ReplaceItemInArray :: "cJSON \<Rightarrow> int \<Rightarrow> cJSON \<Rightarrow> cJSON" where
  "cJSON_ReplaceItemInArray array which newitem =
     (let cs = child array; i = nat which in if length cs \<le> i then array else set_child (cs[i := newitem]) array)"

definition cJSON_ReplaceItemInObject :: "heap \<Rightarrow> cJSON \<Rightarrow> bytes \<Rightarrow> cJSON \<Rightarrow> nat \<Rightarrow> (cJSON \<times> nat) option" where
  "cJSON_ReplaceItemInObject H object name newitem k = (case item_index name (child object) of None \<Rightarrow> Some (object, k)
     | Some i \<Rightarrow> do { (s, k) \<leftarrow> strdup H name k; Some (cJSON_ReplaceItemInArray object (int i) (set_name s newitem), k) })"

subsection \<open>Copies\<close>

definition dup_field :: "heap \<Rightarrow> bytes option \<Rightarrow> nat \<Rightarrow> (bool \<times> bytes option \<times> nat) option" where
  "dup_field H s k = (case s of None \<Rightarrow> Some (True, None, k)
     | Some s \<Rightarrow> do { (t, k) \<leftarrow> strdup H s k; Some (t \<noteq> None, t, k) })"

fun cJSON_Duplicate :: "heap \<Rightarrow> bool \<Rightarrow> cJSON \<Rightarrow> nat \<Rightarrow> (cJSON option \<times> nat) option"
  and dup_children :: "heap \<Rightarrow> cJSON list \<Rightarrow> nat \<Rightarrow> (cJSON list option \<times> nat) option"
where
  "cJSON_Duplicate H recurse (cJSON t v i d n cs) k =
     (if \<not> h_ok H k then Some (None, k + 1)
      else do {
        (ok, v', k) \<leftarrow> dup_field H v (k + 1);
        if \<not> ok then Some (None, k)
        else do {
          (ok, n', k) \<leftarrow> dup_field H n k;
          if \<not> ok then Some (None, k)
          else if \<not> recurse then Some (Some (cJSON (t AND NOT cJSON_IsReference) v' i d n' []), k)
          else do {
            (cs', k) \<leftarrow> dup_children H cs k;
            Some (map_option (cJSON (t AND NOT cJSON_IsReference) v' i d n') cs', k) } } })"
| "dup_children H [] k = Some (Some [], k)"
| "dup_children H (c # cs) k = do {
     (r, k) \<leftarrow> cJSON_Duplicate H True c k;
     case r of None \<Rightarrow> Some (None, k)
     | Some c' \<Rightarrow> do { (cs', k) \<leftarrow> dup_children H cs k; Some (map_option ((#) c') cs', k) } }"

subsection \<open>Minifying\<close>

text \<open>\<open>i\<close> is the read position \<^verbatim>\<open>json\<close>, \<open>j\<close> the write position \<^verbatim>\<open>into\<close>. A comment to the end of the line, a comment
  block, a string with its closing quote.\<close>

function skip_line :: "bytes \<Rightarrow> nat \<Rightarrow> nat option" where
  "skip_line m i = (if length m \<le> i then None else if m ! i \<noteq> 0 \<and> m ! i \<noteq> 10 then skip_line m (i + 1) else Some i)"
  by pat_completeness auto
termination by (relation "measure (\<lambda>(m, i). length m - i)") auto

function skip_block :: "bytes \<Rightarrow> nat \<Rightarrow> nat option" where
  "skip_block m i =
     (if length m \<le> i then None
      else if m ! i = 0 then Some (i + 2)
      else if m ! i = 0x2A then
        if length m \<le> i + 1 then None else if m ! (i + 1) = 0x2F then Some (i + 2) else skip_block m (i + 1)
      else skip_block m (i + 1))"
  by pat_completeness auto
termination by (relation "measure (\<lambda>(m, i). length m - i)") auto

text \<open>\<^verbatim>\<open>*into++ = *json++\<close>\<close>

definition copy_char :: "bytes \<Rightarrow> nat \<Rightarrow> nat \<Rightarrow> bytes option" where
  "copy_char m j i = do { c \<leftarrow> nth_opt m i; wr m j [c] }"

lemma length_copy_char: "copy_char m j i = Some m' \<Longrightarrow> length m' = length m \<and> i < length m"
  by (auto simp: copy_char_def bind_eq_Some_conv nth_opt_def dest: length_wr split: if_splits)

function minify_string :: "bytes \<Rightarrow> nat \<Rightarrow> nat \<Rightarrow> (bytes \<times> nat \<times> nat) option" where
  "minify_string m j i =
     (if length m \<le> i then None
      else if m ! i \<noteq> 0 \<and> m ! i \<noteq> 0x22 then
        if m ! i = 0x5C then do {
          m \<leftarrow> copy_char m j i;
          m \<leftarrow> copy_char m (j + 1) (i + 1);
          minify_string m (j + 2) (i + 2) }
        else do { m \<leftarrow> copy_char m j i; minify_string m (j + 1) (i + 1) }
      else do { m \<leftarrow> copy_char m j i; Some (m, j + 1, i + 1) })"
  by pat_completeness auto
termination by (relation "measure (\<lambda>(m, j, i). length m - i)") (auto dest!: length_copy_char)

declare skip_line.simps [simp del] skip_block.simps [simp del] minify_string.simps [simp del]

lemma skip_line_bounds: "skip_line m i = Some i' \<Longrightarrow> i \<le> i'"
  by (induction m i rule: skip_line.induct) (subst (asm) (2) skip_line.simps, fastforce split: if_splits)

lemma skip_block_bounds: "skip_block m i = Some i' \<Longrightarrow> i < i'"
  by (induction m i rule: skip_block.induct) (subst (asm) (3) skip_block.simps, fastforce split: if_splits)

lemma minify_string_bounds: "minify_string m j i = Some (m', j', i') \<Longrightarrow> length m' = length m \<and> i < i'"
proof (induction m j i rule: minify_string.induct)
  case (1 m j i)
  from "1.prems" show ?case
    by (subst (asm) minify_string.simps)
      (fastforce simp: bind_eq_Some_conv dest: "1.IH" length_copy_char split: if_splits)
qed

function minify_loop :: "bytes \<Rightarrow> nat \<Rightarrow> nat \<Rightarrow> bytes option" where
  "minify_loop m j i =
     (if length m \<le> i then None
      else if m ! i = 0 then wr m j [0]
      else if m ! i \<in> {0x20, 9, 13, 10} then minify_loop m j (i + 1)
      else if m ! i = 0x2F then do {
        d \<leftarrow> nth_opt m (i + 1);
        if d = 0x2F then do { i' \<leftarrow> skip_line m (i + 1); minify_loop m j i' }
        else if d = 0x2A then do { i' \<leftarrow> skip_block m (i + 1); minify_loop m j i' }
        else do { m \<leftarrow> copy_char m j i; minify_loop m (j + 1) (i + 1) } }
      else if m ! i = 0x22 then do {
        m \<leftarrow> copy_char m j i;
        (m, j', i') \<leftarrow> minify_string m (j + 1) (i + 1);
        minify_loop m j' i' }
      else do { m \<leftarrow> copy_char m j i; minify_loop m (j + 1) (i + 1) })"
  by pat_completeness auto
termination
  by (relation "measure (\<lambda>(m, j, i). length m - i)")
    (auto dest!: length_copy_char skip_line_bounds skip_block_bounds minify_string_bounds)

declare minify_loop.simps [simp del]

definition cJSON_Minify :: "bytes \<Rightarrow> bytes option" where
  "cJSON_Minify m = minify_loop m 0 0"

end
