(* ===== verification/JsonRead.thy ===== *)
theory JsonRead
  imports JsonRound
begin

text \<open>
  The parser on texts of the specification: it reads the text of a value completely, whatever follows,
  and gives an item for that value. Positions are described by what is left of the text there.
\<close>

subsection \<open>Reading at a position\<close>

lemma at_read: "drop i m = x # r \<Longrightarrow> i < length m \<and> m ! i = x \<and> nth_opt m i = Some x \<and> drop (Suc i) m = r"
  by (metis Cons_nth_drop_Suc drop_Suc drop_eq_Nil leI list.distinct(1) list.inject nth_opt_def nth_via_drop tl_drop list.sel(3))

lemma at_drop: "drop i m = xs @ r \<Longrightarrow> drop (i + length xs) m = r"
  by (metis add.commute append_eq_conv_conj drop_drop)

lemma skip_stop: "drop i m = x # r \<Longrightarrow> x = 0 \<or> 32 < x \<Longrightarrow> skip m i = Some i"
  using at_read [of i m x r] by (subst skip.simps) auto

lemma starts_with_text: "drop i m = xs @ r \<Longrightarrow> starts_with m i xs = Some True"
proof (induction xs arbitrary: i)
  case (Cons x xs)
  then show ?case using at_read [of i m x "xs @ r"] by simp
qed simp

lemma starts_with_other: "drop i m = x # r \<Longrightarrow> x \<noteq> y \<Longrightarrow> starts_with m i (y # ys) = Some False"
  using at_read [of i m x r] by simp

subsection \<open>Strings\<close>

lemma hex4_digit_low: "n < 16 \<Longrightarrow> hex4_digit (hex_low n) = Some (ucast n) \<and> hex_low n \<noteq> 0 \<and> hex_low n \<noteq> 0x22 \<and> hex_low n \<noteq> 0x5C"
  for n :: u8
proof -
  have "list_all (\<lambda>n. hex4_digit (hex_low (of_nat n)) = Some (ucast (of_nat n :: u8)) \<and> hex_low (of_nat n) \<noteq> 0 \<and>
      hex_low (of_nat n) \<noteq> 0x22 \<and> hex_low (of_nat n) \<noteq> 0x5C) [0..<16]"
    by (simp add: upt_rec hex_low_def hex4_digit_def)
  then have d: "hex4_digit (hex_low (of_nat k)) = Some (ucast (of_nat k :: u8)) \<and> hex_low (of_nat k) \<noteq> 0 \<and>
      hex_low (of_nat k) \<noteq> 0x22 \<and> hex_low (of_nat k) \<noteq> 0x5C" if "k < 16" for k
    using that by (simp only: list_all_iff set_upt atLeastLessThan_iff) simp
  assume "n < 16"
  then have "unat n < 16" by (simp add: word_less_nat_alt)
  from d [OF this] show ?thesis by simp
qed

text \<open>The three ways a character is printed.\<close>

definition plain_char :: "u8 \<Rightarrow> bool" where
  "plain_char c \<longleftrightarrow> 31 < c \<and> c \<noteq> 0x22 \<and> c \<noteq> 0x5C"

definition short_escape :: "u8 \<Rightarrow> u8 option" where
  "short_escape c = (if c = 0x5C then Some 0x5C else if c = 0x22 then Some 0x22 else if c = 8 then Some 0x62
     else if c = 12 then Some 0x66 else if c = 10 then Some 0x6E else if c = 13 then Some 0x72
     else if c = 9 then Some 0x74 else None)"

lemma escape_text_cases:
  "escape_text c = (if plain_char c then [c] else case short_escape c of Some e \<Rightarrow> [0x5C, e]
     | None \<Rightarrow> [0x5C, 0x75, 0x30, 0x30, hex_low (drop_bit 4 c), hex_low (c AND 15)])"
  by (simp add: escape_text_def plain_char_def short_escape_def)

lemma short_escape_read:
  assumes "short_escape c = Some e" "nth_opt m p = Some e"
  shows "escape_bytes m p = Some ([c], p) \<and> e \<noteq> 0"
  using assms by (auto simp: short_escape_def escape_bytes_def split: if_splits)

lemma control_char:
  assumes "\<not> plain_char c" "short_escape c = None" "c \<noteq> 0"
  shows "drop_bit 4 c < 16 \<and> c AND 15 < 16 \<and> push_bit 4 (ucast (drop_bit 4 c)) + ucast (c AND 15) = (ucast c :: u32) \<and>
    utf8 (ucast c) = [c] \<and> (ucast c :: u32) \<noteq> 0 \<and> (ucast c :: u32) < 0x80"
proof -
  let ?P = "\<lambda>c. \<not> plain_char c \<and> short_escape c = None \<and> c \<noteq> 0 \<longrightarrow> drop_bit 4 c < 16 \<and> c AND 15 < 16 \<and>
    push_bit 4 (ucast (drop_bit 4 c)) + ucast (c AND 15) = (ucast c :: u32) \<and>
    utf8 (ucast c) = [c] \<and> (ucast c :: u32) \<noteq> 0 \<and> (ucast c :: u32) < 0x80"
  have "list_all (\<lambda>n. ?P (of_nat n)) [0..<256]" by code_simp
  from all_u8_by_cases [of ?P, OF this, of c] assms show ?thesis by blast
qed

lemma control_read:
  assumes "\<not> plain_char c" "short_escape c = None" "c \<noteq> 0"
    and "drop p m = 0x75 # 0x30 # 0x30 # hex_low (drop_bit 4 c) # hex_low (c AND 15) # r"
  shows "escape_bytes m p = Some ([c], p + 4)"
proof -
  note k = control_char [OF assms(1-3)]
  note d0 = at_read [OF assms(4)]
  note d1 = at_read [OF d0 [THEN conjunct2, THEN conjunct2, THEN conjunct2]]
  note d2 = at_read [OF d1 [THEN conjunct2, THEN conjunct2, THEN conjunct2]]
  note d3 = at_read [OF d2 [THEN conjunct2, THEN conjunct2, THEN conjunct2]]
  note d4 = at_read [OF d3 [THEN conjunct2, THEN conjunct2, THEN conjunct2]]
  have z: "hex4_digit 0x30 = Some 0" by (simp add: hex4_digit_def)
  have n: "parse_hex4 m i = hex4_loop m i (Suc (Suc (Suc (Suc 0)))) 0" for i by (simp add: parse_hex4_def eval_nat_numeral)
  have "parse_hex4 m (Suc p) = Some (push_bit 4 (ucast (drop_bit 4 c)) + ucast (c AND 15))"
    unfolding n using k hex4_digit_low [of "drop_bit 4 c"] hex4_digit_low [of "c AND 15"] by (simp add: d1 d2 d3 d4 z)
  then have h: "parse_hex4 m (Suc p) = Some (ucast c)" using k by simp
  have "\<not> (0xDC00 \<le> (ucast c :: u32))" "\<not> (0xD800 \<le> (ucast c :: u32))" using k by (simp_all add: not_le) unat_arith+
  then show ?thesis using k d0 by (simp add: escape_bytes_def unicode_escape_def Let_def h)
qed

text \<open>One character of a printed string, as both loops see it.\<close>

lemma printed_char:
  assumes "drop i m = escape_text c @ r" "c \<noteq> 0"
  shows "\<exists>n \<ge> 1. count_string m i len = count_string m (i + length (escape_text c)) (len + n)"
    and "j < length out \<Longrightarrow> parse_chars m i out j = parse_chars m (i + length (escape_text c)) (out[j := c]) (j + 1)"
proof -
  have w: "j < length out \<Longrightarrow> wr out j [c] = Some (out[j := c])"
    by (simp add: wr_def upd_conv_take_nth_drop)
  consider "plain_char c" | e where "\<not> plain_char c" "short_escape c = Some e" | "\<not> plain_char c" "short_escape c = None"
    by fastforce
  then have "(\<exists>n \<ge> 1. count_string m i len = count_string m (i + length (escape_text c)) (len + n)) \<and>
    (j < length out \<longrightarrow> parse_chars m i out j = parse_chars m (i + length (escape_text c)) (out[j := c]) (j + 1))"
  proof cases
    case 1
    then have "drop i m = c # r" using assms(1) by (simp add: escape_text_cases)
    note d = at_read [OF this]
    show ?thesis using d 1 assms(2) w
      by (auto simp: count_string.simps [of m i] parse_chars.simps [of m i] escape_text_cases plain_char_def intro!: exI [of _ 1])
  next
    case 2
    then have t: "drop i m = 0x5C # e # r" using assms(1) by (simp add: escape_text_cases)
    note d = at_read [OF t]
    note d2 = at_read [OF d [THEN conjunct2, THEN conjunct2, THEN conjunct2]]
    have "escape_bytes m (i + 1) = Some ([c], i + 1)" using short_escape_read [OF 2(2), of m "i + 1"] d2 by simp
    then show ?thesis using d 2 w
      by (auto simp: count_string.simps [of m i] parse_chars.simps [of m i] escape_text_cases intro!: exI [of _ 1])
  next
    case 3
    let ?h = "hex_low (drop_bit 4 c)" and ?l = "hex_low (c AND 15)"
    from 3 have t: "drop i m = 0x5C # 0x75 # 0x30 # 0x30 # ?h # ?l # r" using assms(1) by (simp add: escape_text_cases)
    note d = at_read [OF t]
    note d1 = at_read [OF d [THEN conjunct2, THEN conjunct2, THEN conjunct2]]
    note d2 = at_read [OF d1 [THEN conjunct2, THEN conjunct2, THEN conjunct2]]
    note d3 = at_read [OF d2 [THEN conjunct2, THEN conjunct2, THEN conjunct2]]
    note d4 = at_read [OF d3 [THEN conjunct2, THEN conjunct2, THEN conjunct2]]
    note d5 = at_read [OF d4 [THEN conjunct2, THEN conjunct2, THEN conjunct2]]
    note k = control_char [OF 3 assms(2)]
    note hd = hex4_digit_low [of "drop_bit 4 c"] hex4_digit_low [of "c AND 15"]
    have l: "length (escape_text c) = 6" using 3 by (simp add: escape_text_cases)
    have "escape_bytes m (Suc i) = Some ([c], Suc i + 4)"
      using control_read [OF 3 assms(2)] d by simp
    then have p: "j < length out \<longrightarrow> parse_chars m i out j = parse_chars m (i + 6) (out[j := c]) (j + 1)"
      using d w by (simp add: parse_chars.simps [of m i]) (simp add: add.commute)
    have s: "count_string m q n = count_string m (Suc q) (Suc n)" if "q < length m" "m ! q \<noteq> 0x22" "m ! q \<noteq> 0" "m ! q \<noteq> 0x5C" for q n
      using that by (simp add: count_string.simps [of m q])
    have "count_string m i len = count_string m (Suc (Suc i)) (Suc len)" using d by (simp add: count_string.simps [of m i])
    also have "\<dots> = count_string m (Suc (Suc (Suc (Suc (Suc (Suc i)))))) (Suc (Suc (Suc (Suc (Suc len)))))"
      using s [of "Suc (Suc i)"] s [of "Suc (Suc (Suc i))"] s [of "Suc (Suc (Suc (Suc i)))"] s [of "Suc (Suc (Suc (Suc (Suc i))))"]
        d2 d3 d4 d5 k hd by simp
    finally have "count_string m i len = count_string m (i + 6) (len + 5)" by (simp add: eval_nat_numeral)
    then show ?thesis unfolding l using p by (intro conjI exI [of _ 5]) simp_all
  qed
  then show "\<exists>n \<ge> 1. count_string m i len = count_string m (i + length (escape_text c)) (len + n)"
    and "j < length out \<Longrightarrow> parse_chars m i out j = parse_chars m (i + length (escape_text c)) (out[j := c]) (j + 1)"
    by blast+
qed

lemma count_printed:
  assumes "drop i m = concat (map escape_text s) @ 0x22 # r" "0 \<notin> set s"
  shows "\<exists>n \<ge> length s. count_string m i len = Some (len + n)"
  using assms
proof (induction s arbitrary: i len)
  case Nil
  then show ?case using at_read [of i m] by (simp add: count_string.simps [of m i])
next
  case (Cons c s)
  then have d: "drop i m = escape_text c @ (concat (map escape_text s) @ 0x22 # r)" "c \<noteq> 0" by auto
  from printed_char(1) [OF d] obtain n where
    n: "n \<ge> 1" "count_string m i len = count_string m (i + length (escape_text c)) (len + n)" by blast
  from Cons.IH [OF at_drop [OF d(1)]] Cons.prems(2) obtain n' where
    "n' \<ge> length s" "count_string m (i + length (escape_text c)) (len + n) = Some (len + n + n')" by auto
  with n show ?case by (intro exI [of _ "n + n'"]) simp
qed

lemma chars_printed:
  assumes "drop i m = concat (map escape_text s) @ 0x22 # r" "0 \<notin> set s" "j + length s \<le> length out"
  shows "parse_chars m i out j = Some (i + length (concat (map escape_text s)),
    take j out @ s @ drop (j + length s) out, j + length s)"
  using assms
proof (induction s arbitrary: i j out)
  case Nil
  then show ?case using at_read [of i m] by (simp add: parse_chars.simps [of m i])
next
  case (Cons c s)
  then have d: "drop i m = escape_text c @ (concat (map escape_text s) @ 0x22 # r)" "c \<noteq> 0" by auto
  have "take (Suc j) (out[j := c]) = take j out @ [c]" using Cons.prems(3) by (simp add: take_Suc_conv_app_nth)
  then show ?case using Cons.IH [OF at_drop [OF d(1)], of "j + 1" "out[j := c]"] Cons.prems printed_char(2) [OF d, of j out]
    by (simp add: drop_update_cancel add.assoc)
qed

text \<open>A printed string is read back, whatever the block held before.\<close>

lemma read_quoted:
  assumes "drop i m = quoted s @ r" "0 \<notin> set s" "heap_ok H"
  shows "\<exists>b. parse_string H m i k = Some (Some (b, i + length (quoted s)), k + 1) \<and> cstr b = Some s"
proof -
  have t: "drop i m = 0x22 # concat (map escape_text s) @ 0x22 # r" using assms(1) by (simp add: quoted_def)
  note d = at_read [OF t]
  then have t1: "drop (i + 1) m = concat (map escape_text s) @ 0x22 # r" by simp
  from count_printed [OF t1 assms(2), of 0] obtain n where n: "length s \<le> n" "count_string m (i + 1) 0 = Some n" by auto
  define out where "out = map (h_junk H k) [0..<n + 1]"
  have l: "length out = n + 1" by (simp add: out_def)
  have p: "parse_chars m (i + 1) out 0 = Some (i + 1 + length (concat (map escape_text s)), s @ drop (length s) out, length s)"
    using chars_printed [OF t1 assms(2), of 0 out] n l by simp
  have e: "nth_opt m (i + 1 + length (concat (map escape_text s))) = Some 0x22"
    using at_read [OF at_drop [OF t1]] by simp
  define b where "b = s @ 0 # drop (Suc (length s)) out"
  have w: "wr (s @ drop (length s) out) (length s) [0] = Some b" using n l by (simp add: wr_def b_def)
  have "malloc H (n + 1) k = (Some out, k + 1)" using assms(3) by (simp add: malloc_def heap_ok_def out_def)
  then have "parse_string H m i k = Some (Some (b, i + length (quoted s)), k + 1)"
    using d n(2) p e w by (simp add: parse_string_def quoted_def)
  moreover have "cstr b = Some s" using assms(2) by (auto simp: cstr_def b_def c_string_def intro!: takeWhile_append2 [where xs = s, THEN trans])
  ultimately show ?thesis by blast
qed

end
