(* ===== verification/JsonTrip.thy ===== *)
theory JsonTrip
  imports JsonRead
begin

text \<open>
  The parser reads the text of every value: numbers, then values by induction. The property of the
  library: what it prints it reads back.
\<close>

subsection \<open>Numbers\<close>

definition delim :: "u8 \<Rightarrow> bool" where
  "delim x \<longleftrightarrow> x = 0 \<or> x = 0x2C \<or> x = 0x5D \<or> x = 0x7D"

lemma delim_facts: "delim x \<Longrightarrow> \<not> is_digit x \<and> x \<noteq> 0x2E \<and> x \<noteq> 0x65 \<and> x \<noteq> 0x45 \<and> (x = 0 \<or> 32 < x)"
  by (auto simp: delim_def is_digit_def)

lemma digit_char: "d < 10 \<Longrightarrow> is_digit (of_nat (48 + d)) \<and> digit_value (of_nat (48 + d)) = int d"
proof -
  have "list_all (\<lambda>d. is_digit (of_nat (48 + d)) \<and> digit_value (of_nat (48 + d)) = int d) [0..<10]"
    by (simp add: upt_rec is_digit_def digit_value_def)
  then show "d < 10 \<Longrightarrow> ?thesis" by (simp add: list_all_iff)
qed

lemma num_digits_read:
  assumes "fpu_exact F" "drop i m = digits ds @ x # r" "\<not> is_digit x" "\<forall>d \<in> set ds. d < 10"
    and "foldl (\<lambda>n d. 10 * n + d) v ds \<le> 2 ^ 53"
  shows "num_digits F m i (f_of_int F (int v)) = Some (f_of_int F (int (foldl (\<lambda>n d. 10 * n + d) v ds)), i + length ds)"
  using assms(2,4,5)
proof (induction ds arbitrary: i v)
  case Nil
  then show ?case using at_read [of i m x r] assms(3) by (simp add: num_digits.simps [of F m i] digits_def)
next
  case (Cons d ds)
  then have t: "drop i m = of_nat (48 + d) # digits ds @ x # r" by (simp add: digits_def)
  note a = at_read [OF t]
  have d: "d < 10" using Cons.prems(2) by simp
  have b: "10 * v + d \<le> 2 ^ 53" using foldl_decimal_ge [of "10 * v + d" ds] Cons.prems(3) by simp
  then have "exact (int v)" "exact (int v * 10)" "exact 10" "exact (int d)" "exact (int v * 10 + int d)"
    using d by (simp_all add: exact_def)
  then have "f_add F (f_mul F (f_of_int F (int v)) (f_of_int F 10)) (f_of_int F (int d)) = f_of_int F (int (10 * v + d))"
    using assms(1) unfolding fpu_exact_def by (simp add: mult.commute)
  then show ?case using Cons.IH [of "Suc i" "10 * v + d"] Cons.prems a digit_char [OF d] by (simp add: num_digits.simps [of F m i])
qed

definition num_text :: "nat \<Rightarrow> nat list" where
  "num_text n = (if n = 0 then [0] else rev (low_digits 10 n))"

lemma low_digits_last: "0 < n \<Longrightarrow> last (low_digits 10 n) \<noteq> 0"
proof (induction n rule: less_induct)
  case (less n)
  have e: "low_digits 10 n = n mod 10 # low_digits 10 (n div 10)" using less(2) by (simp add: low_digits.simps [of 10 n])
  show ?case
  proof (cases "n < 10")
    case True
    then show ?thesis using less(2) e by (simp add: low_digits.simps [of 10 0])
  next
    case False
    then have "0 < n div 10" by simp
    moreover have "low_digits 10 (n div 10) \<noteq> []" using False by (simp add: low_digits.simps [of 10 "n div 10"])
    ultimately show ?thesis using e less(1) [of "n div 10"] less(2) by simp
  qed
qed

lemma num_text_facts:
  "int_text n = (if n < 0 then [0x2D] else []) @ digits (num_text (nat \<bar>n\<bar>))"
  "\<forall>d \<in> set (num_text k). d < 10" "num_text k \<noteq> []" "foldl (\<lambda>n d. 10 * n + d) 0 (num_text k) = k"
  "k = 0 \<or> hd (num_text k) \<noteq> 0"
proof -
  show "int_text n = (if n < 0 then [0x2D] else []) @ digits (num_text (nat \<bar>n\<bar>))"
    by (simp add: int_text_def num_text_def digits_def rev_map)
  show "\<forall>d \<in> set (num_text k). d < 10" using low_digits_less [of 10 _ k] by (auto simp: num_text_def)
  show n: "num_text k \<noteq> []" by (simp add: num_text_def low_digits.simps [of 10 k])
  show "k = 0 \<or> hd (num_text k) \<noteq> 0"
    using low_digits_last [of k] n by (auto simp: num_text_def hd_rev)
  have "foldl (\<lambda>n d. 10 * n + d) 0 (rev ds) = radix_number 10 ds" for ds
    by (simp add: radix_number_def foldl_conv_foldr add.commute)
  then show "foldl (\<lambda>n d. 10 * n + d) 0 (num_text k) = k" by (simp add: num_text_def low_digits_number)
qed

lemma whole_read:
  assumes "fpu_exact F" "drop i m = digits (num_text k) @ x # r" "\<not> is_digit x" "k < 2 ^ 53"
  shows "parse_whole F m i = Some (f_of_int F (int k), i + length (num_text k))"
proof (cases "k = 0")
  case True
  then have t: "drop i m = 0x30 # x # r" using assms(2) by (simp add: num_text_def digits_def)
  note a = at_read [OF t]
  note b = at_read [OF a [THEN conjunct2, THEN conjunct2, THEN conjunct2]]
  have "\<not> (0x31 \<le> x \<and> x \<le> 0x39)" using assms(3) unfolding is_digit_def by unat_arith
  then show ?thesis using a b True by (auto simp: parse_whole_def num_text_def)
next
  case False
  then obtain d ds where d: "num_text k = d # ds" "d \<noteq> 0" using num_text_facts(3,5) [of k] by (cases "num_text k") auto
  then have "d < 10" using num_text_facts(2) [of k] by simp
  have "list_all (\<lambda>d. 0x31 \<le> (of_nat (48 + d) :: u8) \<and> (of_nat (48 + d) :: u8) \<le> 0x39 \<and> (of_nat (48 + d) :: u8) \<noteq> 0x30) [1..<10]"
    by (simp add: upt_rec)
  then have c: "0x31 \<le> (of_nat (48 + d) :: u8) \<and> (of_nat (48 + d) :: u8) \<le> 0x39 \<and> (of_nat (48 + d) :: u8) \<noteq> 0x30"
    using d(2) \<open>d < 10\<close> by (simp add: list_all_iff)
  have "drop i m = of_nat (48 + d) # digits ds @ x # r" using assms(2) d(1) by (simp add: digits_def)
  note a = at_read [OF this]
  have "num_digits F m i (f_of_int F 0) = Some (f_of_int F (int k), i + length (num_text k))"
    using num_digits_read [OF assms(1-3) num_text_facts(2), of 0] assms(4) by (simp add: num_text_facts(4))
  then show ?thesis using a c by (simp add: parse_whole_def)
qed

lemma number_read:
  assumes "fpu_exact F" "drop i m = int_text n @ x # r" "delim x" "- (2 ^ 31) \<le> n" "n < 2 ^ 31"
  shows "parse_number F m i = Some (cJSON cJSON_Number None n (f_of_int F n) None [], i + length (int_text n))"
proof -
  define k where "k = nat \<bar>n\<bar>"
  have k: "k < 2 ^ 53" "int k = \<bar>n\<bar>" using assms(4,5) by (simp_all add: k_def)
  note x = delim_facts [OF assms(3)]
  let ?p = "if n < 0 then i + 1 else i"
  obtain c where c: "nth_opt m i = Some c" "c = 0x2D \<longleftrightarrow> n < 0" and t: "drop ?p m = digits (num_text k) @ x # r"
  proof (cases "n < 0")
    case True
    then have "drop i m = 0x2D # digits (num_text k) @ x # r" using assms(2) by (simp add: num_text_facts(1) k_def)
    with at_read [OF this] True that show ?thesis by simp
  next
    case False
    obtain d ds where d: "num_text k = d # ds" using num_text_facts(3) [of k] by (cases "num_text k") auto
    then have "d < 10" using num_text_facts(2) [of k] by simp
    have "list_all (\<lambda>d. (of_nat (48 + d) :: u8) \<noteq> 0x2D) [0..<10]" by (simp add: upt_rec)
    then have "(of_nat (48 + d) :: u8) \<noteq> 0x2D" using \<open>d < 10\<close> by (simp add: list_all_iff)
    moreover have e: "drop i m = digits (num_text k) @ x # r" using assms(2) False by (simp add: num_text_facts(1) k_def)
    then have "nth_opt m i = Some (of_nat (48 + d))" using at_read [of i m] d by (simp add: digits_def)
    ultimately show ?thesis using False that e by simp
  qed
  have w: "parse_whole F m ?p = Some (f_of_int F (int k), ?p + length (num_text k))"
    using whole_read [OF assms(1) t _ k(1)] x by simp
  have e: "drop (?p + length (num_text k)) m = x # r"
    using at_drop [OF t] by (simp add: digits_def)
  have l: "?p + length (num_text k) = i + length (int_text n)" by (simp add: num_text_facts(1) k_def digits_def)
  have "nth_opt m (i + length (int_text n)) = Some x" using at_read [OF e] unfolding l by simp
  then have f: "parse_frac F m (i + length (int_text n)) v = Some (v, f_of_int F 0, i + length (int_text n))"
      "parse_exp m (i + length (int_text n)) = Some (0, i + length (int_text n))" for v
    using x by (simp_all add: parse_frac_def parse_exp_def)
  have z: "f_add F (f_of_int F 0) (f_of_int F 0) = f_of_int F 0" "f_pow F (f_of_int F 10) (f_of_int F 0) = f_of_int F 1"
    using assms(1) by (simp_all add: fpu_exact_def exact_def)
  have "exact n" "exact 1" "exact (-1)" "exact (int k)" using k assms(4,5) by (simp_all add: exact_def)
  then have "f_mul F (f_of_int F (if c = 0x2D then -1 else 1)) (f_of_int F (int k)) = f_of_int F n"
      "f_mul F (f_of_int F n) (f_of_int F 1) = f_of_int F n"
    using assms(1) k(2) c(2) unfolding fpu_exact_def by auto
  moreover have "f_to_int F (f_of_int F n) = n" using assms(1,4,5) by (simp add: fpu_exact_def)
  ultimately show ?thesis using c w l f by (simp add: parse_number_def z Let_def)
qed

subsection \<open>Values\<close>

lemma keyword_texts:
  "text_of ''null'' = [0x6E, 0x75, 0x6C, 0x6C]" "text_of ''true'' = [0x74, 0x72, 0x75, 0x65]"
  "text_of ''false'' = [0x66, 0x61, 0x6C, 0x73, 0x65]"
  by (simp_all add: text_of_def of_char_def)

text \<open>The first character of a text: no white space, no closing bracket.\<close>

lemma int_text_head: "\<exists>c t. int_text n = c # t \<and> (c = 0x2D \<or> is_digit c)"
proof (cases "n < 0")
  case False
  obtain d ds where d: "num_text (nat \<bar>n\<bar>) = d # ds" using num_text_facts(3) [of "nat \<bar>n\<bar>"] by (cases "num_text (nat \<bar>n\<bar>)") auto
  then have "d < 10" using num_text_facts(2) [of "nat \<bar>n\<bar>"] by simp
  with d False show ?thesis using digit_char [of d] by (simp add: num_text_facts(1) digits_def)
qed (simp add: num_text_facts(1))

lemma digit_head: "is_digit c \<Longrightarrow> 32 < c \<and> c \<noteq> 0x22 \<and> c \<noteq> 0x5D \<and> c \<noteq> 0x5B \<and> c \<noteq> 0x7B \<and> c \<noteq> 0x7D \<and> c \<noteq> 0x6E \<and> c \<noteq> 0x66 \<and> c \<noteq> 0x74"
  unfolding is_digit_def by (intro conjI; unat_arith)

lemma json_text_head: "\<exists>c t. json_text j = c # t \<and> 32 < c \<and> c \<noteq> 0x5D \<and> c \<noteq> 0x7D"
proof (cases j)
  case (JNum n)
  then show ?thesis using int_text_head [of n] digit_head by fastforce
qed (auto simp: keyword_texts quoted_def)

text \<open>Reading the text of a value, with a delimiter behind it.\<close>

definition reads :: "fpu \<Rightarrow> heap \<Rightarrow> json \<Rightarrow> bool" where
  "reads F H j \<longleftrightarrow> (\<forall>m i x r k. drop i m = json_text j @ x # r \<longrightarrow> delim x \<longrightarrow>
     (\<exists>c k'. parse_value F H m i k = Some (Some (c, i + length (json_text j)), k') \<and> denotes F j c))"

lemma readsD:
  assumes "reads F H j" "drop i m = json_text j @ x # r" "delim x"
  shows "\<exists>c k' q. skip m i = Some i \<and> parse_value F H m i k = Some (Some (c, q), k') \<and> denotes F j c \<and>
    q = i + length (json_text j) \<and> skip m q = Some q \<and> m ! q = x \<and> drop (Suc q) m = r"
proof -
  obtain c t where "json_text j = c # t" "32 < c" using json_text_head [of j] by blast
  then have "skip m i = Some i" using skip_stop [of i m c] assms(2) by simp
  moreover have "skip m (i + length (json_text j)) = Some (i + length (json_text j))"
    using skip_stop [OF at_drop [OF assms(2)]] delim_facts [OF assms(3)] by simp
  ultimately show ?thesis using assms(1) [unfolded reads_def, rule_format, OF assms(2,3), of k] at_read [OF at_drop [OF assms(2)]]
    by auto
qed

lemma read_elements:
  assumes "heap_ok H" "\<forall>j \<in> set js. reads F H j" "js \<noteq> []" "drop i m = join_array False (map json_text js) @ 0x5D # r"
  shows "\<exists>cs k'. parse_elements F H m i k = Some (Some (cs, i + length (join_array False (map json_text js)) + 1), k') \<and>
    denote_elements F js cs"
  using assms(2-4)
proof (induction js arbitrary: i k)
  case (Cons j js)
  have h: "h_ok H k" using assms(1) by (simp add: heap_ok_def)
  have j: "reads F H j" using Cons.prems(1) by simp
  show ?case
  proof (cases js)
    case Nil
    then have "drop i m = json_text j @ 0x5D # r" using Cons.prems(3) by simp
    from readsD [OF j this, of "k + 1"] obtain c k' q where
      "skip m i = Some i" "parse_value F H m i (k + 1) = Some (Some (c, q), k')" "denotes F j c" "q = i + length (json_text j)"
      "skip m q = Some q" "m ! q = 0x5D" by (auto simp: delim_def)
    with Nil h show ?thesis by (simp add: parse_elements.simps [of F H m i])
  next
    case (Cons j' js')
    let ?rest = "join_array False (map json_text js) @ 0x5D # r"
    have t: "drop i m = json_text j @ 0x2C # ?rest" using Cons.prems(3) Cons by simp
    from readsD [OF j t, of "k + 1"] obtain c k' q where
      p: "skip m i = Some i" "parse_value F H m i (k + 1) = Some (Some (c, q), k')" "denotes F j c" "q = i + length (json_text j)"
      "skip m q = Some q" "m ! q = 0x2C" "drop (Suc q) m = ?rest" by (auto simp: delim_def)
    from Cons.IH [of "Suc q" k'] Cons.prems(1) Cons p(7) obtain cs k2 where
      e: "parse_elements F H m (Suc q) k' = Some (Some (cs, Suc q + length (join_array False (map json_text js)) + 1), k2)"
      "denote_elements F js cs" by auto
    show ?thesis using p e h Cons by (simp add: parse_elements.simps [of F H m i])
  qed
qed simp

abbreviation member_texts :: "(bytes \<times> json) list \<Rightarrow> (bytes \<times> bytes) list" where
  "member_texts ms \<equiv> map (\<lambda>(n, j). (quoted n, json_text j)) ms"

lemma read_members:
  assumes "heap_ok H" "\<forall>(n, j) \<in> set ms. 0 \<notin> set n \<and> reads F H j" "ms \<noteq> []"
    and "drop i m = join_object False 0 (member_texts ms) @ 0x7D # r"
  shows "\<exists>cs k'. parse_members F H m i k = Some (Some (cs, i + length (join_object False 0 (member_texts ms)) + 1), k') \<and>
    denote_members F ms cs"
  using assms(2-4)
proof (induction ms arbitrary: i k)
  case (Cons p ms)
  obtain n j where nj: "p = (n, j)" by fastforce
  have h: "h_ok H k" using assms(1) by (simp add: heap_ok_def)
  have j: "reads F H j" "0 \<notin> set n" using Cons.prems(1) nj by simp_all
  define tl where "tl = (if ms = [] then [0x7D] @ r else [0x2C] @ join_object False 0 (member_texts ms) @ 0x7D # r)"
  have t: "drop i m = quoted n @ 0x3A # json_text j @ tl"
    using Cons.prems(3) nj by (simp add: tl_def)
  have "drop i m = 0x22 # concat (map escape_text n) @ 0x22 # 0x3A # json_text j @ tl" using t by (simp add: quoted_def)
  then have s: "skip m i = Some i" by (rule skip_stop) simp
  from read_quoted [OF t j(2) assms(1), of "k + 1"] obtain b where
    b: "parse_string H m i (k + 1) = Some (Some (b, i + length (quoted n)), k + 2)" "cstr b = Some n" by auto
  define q where "q = i + length (quoted n)"
  have tq: "drop q m = 0x3A # json_text j @ tl" using at_drop [OF t] by (simp add: q_def)
  then have sq: "skip m q = Some q" "m ! q = 0x3A" "drop (Suc q) m = json_text j @ tl"
    using skip_stop [OF tq] at_read [OF tq] by simp_all
  obtain x u where x: "tl = x # u" "delim x" "x = (if ms = [] then 0x7D else 0x2C)"
    by (cases "ms = []") (simp_all add: tl_def delim_def)
  from readsD [OF j(1) sq(3) [unfolded x(1)] x(2), of "k + 2"] obtain c k' p where
    p: "skip m (Suc q) = Some (Suc q)" "parse_value F H m (Suc q) (k + 2) = Some (Some (c, p), k')" "denotes F j c"
      "p = Suc q + length (json_text j)" "skip m p = Some p" "m ! p = x" "drop (Suc p) m = u" by auto
  have nm: "js_string (set_name (Some b) c) = Some b" "denotes F j (set_name (Some b) c)"
    using p(3) by (cases c; cases j; simp add: set_name_def)+
  have hd: "holds_text (Some b) n" using b(2) by (simp add: holds_text_def)
  show ?case
  proof (cases "ms = []")
    case True
    then show ?thesis using h s b(1) sq p x nm hd nj
      by (simp add: parse_members.simps [of F H m i] q_def)
  next
    case False
    then have "drop (Suc p) m = join_object False 0 (member_texts ms) @ 0x7D # r" using p(7) x(1) by (simp add: tl_def)
    from Cons.IH [OF _ False this, of k'] Cons.prems(1) obtain cs k2 where
      e: "parse_members F H m (Suc p) k' = Some (Some (cs, Suc p + length (join_object False 0 (member_texts ms)) + 1), k2)"
      "denote_members F ms cs" by auto
    show ?thesis using False h s b(1) sq p x nm hd e nj
      by (simp add: parse_members.simps [of F H m i] q_def)
  qed
qed simp

text \<open>What precedes the case distinction of \<^verbatim>\<open>parse_value\<close> on the first character.\<close>

lemma no_keyword:
  assumes "drop i m = c # r" "c \<noteq> 0x6E" "c \<noteq> 0x66" "c \<noteq> 0x74"
  shows "starts_with m i (text_of ''null'') = Some False" "starts_with m i (text_of ''false'') = Some False"
    "starts_with m i (text_of ''true'') = Some False"
  using assms starts_with_other [OF assms(1)] by (simp_all only: keyword_texts) auto

text \<open>An object is read whatever follows it.\<close>

lemma read_object:
  assumes "heap_ok H" "\<forall>(n, j) \<in> set ms. 0 \<notin> set n \<and> reads F H j" "drop i m = json_text (JObj ms) @ r"
  shows "\<exists>c k'. parse_value F H m i k = Some (Some (c, i + length (json_text (JObj ms))), k') \<and> denotes F (JObj ms) c"
proof -
  let ?es = "join_object False 0 (member_texts ms)"
  have d: "drop i m = 0x7B # ?es @ 0x7D # r" using assms(3) by simp
  note a = at_read [OF d]
  then have e: "drop (Suc i) m = ?es @ 0x7D # r" by simp
  show ?thesis
  proof (cases "ms = []")
    case True
    then have e': "drop (Suc i) m = 0x7D # r" using e by simp
    have "skip m (Suc i) = Some (Suc i)" by (rule skip_stop [OF e']) simp
    then show ?thesis using no_keyword [OF d] a at_read [OF e'] True by (simp add: parse_value.simps new_item_def is_digit_def)
  next
    case False
    then obtain n j ms' where ms: "ms = (n, j) # ms'" by (cases ms) auto
    obtain v where e': "drop (Suc i) m = 0x22 # v" using e ms by (auto simp: quoted_def)
    have "skip m (Suc i) = Some (Suc i)" by (rule skip_stop [OF e']) simp
    moreover from read_members [OF assms(1,2) False e, of k] obtain cs k' where
      "parse_members F H m (Suc i) k = Some (Some (cs, Suc i + length ?es + 1), k')" "denote_members F ms cs" by blast
    ultimately show ?thesis using no_keyword [OF d] a at_read [OF e'] by (simp add: parse_value.simps is_digit_def)
  qed
qed

lemma read_json:
  assumes "fpu_exact F" "heap_ok H"
  shows "json_ok j \<Longrightarrow> reads F H j"
proof (induction j)
  case JNull
  show ?case unfolding reads_def
  proof (intro allI impI)
    fix m i x r k assume t: "drop i m = json_text JNull @ x # r"
    from starts_with_text [of i m "text_of ''null''"] t have "starts_with m i (text_of ''null'') = Some True" by simp
    then show "\<exists>c k'. parse_value F H m i k = Some (Some (c, i + length (json_text JNull)), k') \<and> denotes F JNull c"
      by (simp add: parse_value.simps new_item_def) (simp add: text_of_def)
  qed
next
  case (JBool b)
  show ?case unfolding reads_def
  proof (intro allI impI)
    fix m i x r k assume t: "drop i m = json_text (JBool b) @ x # r"
    have n: "starts_with m i (text_of ''null'') = Some False"
      using t starts_with_other [of i m] by (cases b) (simp_all only: keyword_texts json_text.simps if_True if_False append_Cons, auto)
    show "\<exists>c k'. parse_value F H m i k = Some (Some (c, i + length (json_text (JBool b))), k') \<and> denotes F (JBool b) c"
    proof (cases b)
      case True
      have "starts_with m i (text_of ''false'') = Some False"
        using t True starts_with_other [of i m] by (simp only: keyword_texts json_text.simps if_True append_Cons) auto
      moreover have "starts_with m i (text_of ''true'') = Some True" using starts_with_text [of i m "text_of ''true''"] t True by simp
      ultimately show ?thesis using n True by (simp add: parse_value.simps) (simp add: text_of_def)
    next
      case False
      have "starts_with m i (text_of ''false'') = Some True" using starts_with_text [of i m "text_of ''false''"] t False by simp
      then show ?thesis using n False by (simp add: parse_value.simps new_item_def) (simp add: text_of_def)
    qed
  qed
next
  case (JNum n)
  show ?case unfolding reads_def
  proof (intro allI impI)
    fix m i x r k assume t: "drop i m = json_text (JNum n) @ x # r" and x: "delim x"
    obtain c u where c: "int_text n = c # u" "c = 0x2D \<or> is_digit c" using int_text_head [of n] by blast
    then have d: "drop i m = c # u @ x # r" using t by simp
    have z: "c \<noteq> 0x22 \<and> c \<noteq> 0x6E \<and> c \<noteq> 0x66 \<and> c \<noteq> 0x74" using c(2) digit_head by auto
    from number_read [OF assms(1) _ x, of i m n r] t JNum have
      "parse_number F m i = Some (cJSON cJSON_Number None n (f_of_int F n) None [], i + length (int_text n))" by simp
    then show "\<exists>c k'. parse_value F H m i k = Some (Some (c, i + length (json_text (JNum n))), k') \<and> denotes F (JNum n) c"
      using no_keyword [OF d] z c(2) at_read [OF d] by (simp add: parse_value.simps)
  qed
next
  case (JStr s)
  show ?case unfolding reads_def
  proof (intro allI impI)
    fix m i x r k assume t: "drop i m = json_text (JStr s) @ x # r"
    then have d: "drop i m = 0x22 # concat (map escape_text s) @ [0x22] @ x # r" by (simp add: quoted_def)
    from read_quoted [of i m s "x # r" H k] t JStr assms(2) obtain b where
      "parse_string H m i k = Some (Some (b, i + length (quoted s)), k + 1)" "cstr b = Some s" by auto
    then show "\<exists>c k'. parse_value F H m i k = Some (Some (c, i + length (json_text (JStr s))), k') \<and> denotes F (JStr s) c"
      using no_keyword [OF d] at_read [OF d] by (simp add: parse_value.simps holds_text_def)
  qed
next
  case (JArr js)
  show ?case unfolding reads_def
  proof (intro allI impI)
    fix m i x r k assume t: "drop i m = json_text (JArr js) @ x # r"
    let ?es = "join_array False (map json_text js)"
    have d: "drop i m = 0x5B # ?es @ 0x5D # x # r" using t by simp
    note a = at_read [OF d]
    then have e: "drop (Suc i) m = ?es @ 0x5D # x # r" by simp
    show "\<exists>c k'. parse_value F H m i k = Some (Some (c, i + length (json_text (JArr js))), k') \<and> denotes F (JArr js) c"
    proof (cases "js = []")
      case True
      then have e': "drop (Suc i) m = 0x5D # x # r" using e by simp
      have "skip m (Suc i) = Some (Suc i)" by (rule skip_stop [OF e']) simp
      then show ?thesis using no_keyword [OF d] a at_read [OF e'] True by (simp add: parse_value.simps new_item_def is_digit_def)
    next
      case False
      then obtain j js' where js: "js = j # js'" by (cases js) auto
      obtain c u where c: "json_text j = c # u" "32 < c" "c \<noteq> 0x5D" using json_text_head [of j] by blast
      obtain v where e': "drop (Suc i) m = c # v" using e c(1) js by (cases js') auto
      have "skip m (Suc i) = Some (Suc i)" by (rule skip_stop [OF e']) (use c in simp)
      moreover have "\<forall>j \<in> set js. reads F H j" using JArr by (simp add: list_all_iff)
      from read_elements [OF assms(2) this False e, of k] obtain cs k' where
        "parse_elements F H m (Suc i) k = Some (Some (cs, Suc i + length ?es + 1), k')" "denote_elements F js cs" by blast
      ultimately show ?thesis using no_keyword [OF d] a at_read [OF e'] c(3) by (simp add: parse_value.simps is_digit_def)
    qed
  qed
next
  case (JObj ms)
  have "\<forall>(n, j) \<in> set ms. 0 \<notin> set n \<and> reads F H j" using JObj by (fastforce simp: list_all_iff)
  from read_object [OF assms(2) this] show ?case unfolding reads_def by blast
qed

subsection \<open>Reading back what was printed\<close>

text \<open>A runtime for the witnesses: whole numbers modulo \<open>2 ^ 64\<close> for \<^verbatim>\<open>double\<close>.\<close>

definition whole_fpu :: fpu where
  "whole_fpu = \<lparr>f_of_int = of_int, f_to_int = sint, f_add = (+), f_sub = (-), f_mul = (*), f_pow = \<lambda>a b. a ^ unat b,
     f_abs = \<lambda>a. a, f_floor = \<lambda>a. a, f_le = \<lambda>a b. sint a \<le> sint b, f_epsilon = 0, f_1e60 = 1, f_1e9 = 1, f_1e_6 = 1,
     f_print_whole = \<lambda>_. [], f_print_e = \<lambda>_. [], f_print_f = \<lambda>_. []\<rparr>"

lemma whole_exact: "fpu_exact whole_fpu"
proof -
  have "sint (of_int a :: 64 word) = a" if "exact a" for a
    using that by (simp add: exact_def signed_of_int signed_take_bit_int_eq_self)
  then show ?thesis
    by (auto simp: fpu_exact_def whole_fpu_def near_def exact_def)
qed

text \<open>C34: The JSON library reads back what it prints: an item that stands for a value (of C strings and numbers of
  type \<^verbatim>\<open>int\<close>) is printed as the text of the value, and from this text, whatever follows its end in
  the array, the parser makes an item that stands for the same value.\<close>

theorem cJSON_roundtrip:
  assumes "fpu_exact F" "heap_ok H" "json_ok j" "denotes F j c"
  shows "cJSON_PrintUnformatted F H c = Some (Some (json_text j)) \<and>
    (\<exists>c'. cJSON_Parse F H (json_text j @ 0 # rest) = Some (Some c') \<and> denotes F j c')"
proof
  show "cJSON_PrintUnformatted F H c = Some (Some (json_text j))"
    using print_json(1) [OF assms(2,1,4,3), of 0 0] by (auto simp: cJSON_PrintUnformatted_def)
  have "drop 0 (json_text j @ 0 # rest) = json_text j @ 0 # rest" by simp
  from readsD [OF read_json [OF assms(1-3)] this, of 1] show
    "\<exists>c'. cJSON_Parse F H (json_text j @ 0 # rest) = Some (Some c') \<and> denotes F j c'"
    using assms(2) by (auto simp: cJSON_Parse_def cJSON_ParseWithOpts_def heap_ok_def delim_def)
qed

lemma cJSON_roundtrip_witness:
  "\<exists>c. cJSON_Parse whole_fpu full_heap (json_text (JObj [([0x61], JArr [JNum (-20), JStr [10, 0x41], JNull])]) @ [0, 5]) = Some (Some c) \<and>
     denotes whole_fpu (JObj [([0x61], JArr [JNum (-20), JStr [10, 0x41], JNull])]) c"
proof -
  let ?c = "cJSON 6 None 0 0 None [cJSON 5 None 0 0 (Some [0x61, 0])
      [cJSON 3 None (-20) (-20) None [], cJSON 4 (Some [10, 0x41, 0, 3]) 0 0 None [], cJSON 2 None 0 0 None []]]"
  have "denotes whole_fpu (JObj [([0x61], JArr [JNum (-20), JStr [10, 0x41], JNull])]) ?c"
    by (simp add: holds_text_def cstr_def c_string_def whole_fpu_def)
  from cJSON_roundtrip [OF whole_exact full_ok _ this, of "[5]"] show ?thesis by simp
qed

end
