(* ===== verification/JsonSafe.thy ===== *)
theory JsonSafe
  imports JsonTrip
begin

text \<open>
  Memory safety of the JSON library: the printer never writes behind its blocks; the parser stays within the
  text if it has no escapes, and with an escape at its end it does not.
\<close>

subsection \<open>The printer\<close>

text \<open>Strings end inside their blocks, numbers are of type \<^verbatim>\<open>int\<close>; \<^verbatim>\<open>sprintf\<close> prints at most 63 characters for a
  \<^verbatim>\<open>double\<close> below \<open>10 ^ 60\<close> without fraction, below \<open>10 ^ 9\<close> with six digits, and for the exponential format.\<close>

definition ends :: "bytes option \<Rightarrow> bool" where
  "ends v \<longleftrightarrow> (case v of None \<Rightarrow> True | Some b \<Rightarrow> 0 \<in> set b)"

fun item_ok :: "cJSON \<Rightarrow> bool" where
  "item_ok (cJSON t v i d n cs) \<longleftrightarrow> ends v \<and> ends n \<and> - (2 ^ 31) \<le> i \<and> i < 2 ^ 31 \<and> list_all item_ok cs"

definition fpu_prints :: "fpu \<Rightarrow> bool" where
  "fpu_prints F \<longleftrightarrow> (\<forall>d. (\<not> f_le F (f_1e60 F) (f_abs F d) \<longrightarrow> length (f_print_whole F d) < 64) \<and> length (f_print_e F d) < 64 \<and>
     (f_le F (f_abs F d) (f_1e9 F) \<longrightarrow> length (f_print_f F d) < 64))"

lemma print_string_defined: "ends v \<Longrightarrow> \<exists>r. print_string_ptr H v k = Some r"
  using quoted_fits by (fastforce simp: print_string_ptr_def ends_def cstr_def quoted_def split: option.splits)

lemma print_number_defined:
  assumes "fpu_prints F" "item_ok c"
  shows "\<exists>r. print_number F H c k = Some r"
proof -
  let ?d = "valuedouble c"
  have f: "length s < n \<Longrightarrow> fits n s = Some s" for n s by (simp add: fits_def)
  have "length (int_text (valueint c)) < 21" using int_text_length [of "valueint c"] assms(2) by (cases c) simp
  moreover have "\<not> f_le F (f_1e60 F) (f_abs F ?d) \<Longrightarrow> length (f_print_whole F ?d) < 64" "length (f_print_e F ?d) < 64"
      "f_le F (f_abs F ?d) (f_1e9 F) \<Longrightarrow> length (f_print_f F ?d) < 64"
    using assms(1) by (simp_all add: fpu_prints_def)
  ultimately show ?thesis by (simp add: print_number_def f Let_def)
qed

lemma object_text_fits: "\<exists>r. print_object_text H fmt (Suc d) es k = Some r"
proof (cases es)
  case (Some l)
  then show ?thesis using join_object_length [of fmt "Suc d" l] by (cases fmt) (simp_all add: print_object_text_def fits_def)
qed (simp add: print_object_text_def)

lemma array_text_fits: "es \<noteq> Some [] \<Longrightarrow> \<exists>r. print_array_text H fmt es k = Some r"
proof (cases es)
  case (Some l)
  then show "es \<noteq> Some [] \<Longrightarrow> ?thesis" using join_array_length [of l fmt] by (simp add: print_array_text_def fits_def)
qed (simp add: print_array_text_def)

lemma entries_not_empty: "print_entries F H (c # cs) d fmt k = Some (es, k') \<Longrightarrow> es \<noteq> Some []"
  by (auto simp: bind_eq_Some_conv split: option.splits)

lemma print_defined:
  "fpu_prints F \<Longrightarrow> item_ok c \<Longrightarrow> \<exists>r. print_value F H c d fmt k = Some r"
  "fpu_prints F \<Longrightarrow> list_all item_ok cs \<Longrightarrow> \<exists>r. print_entries F H cs d fmt k = Some r"
  "fpu_prints F \<Longrightarrow> list_all item_ok cs \<Longrightarrow> \<exists>r. print_members F H cs d fmt k = Some r"
proof (induction F H c d fmt k and F H cs d fmt k and F H cs d fmt k
    rule: print_value_print_entries_print_members.induct)
  case (1 F H t v i d n cs depth fmt k)
  have l: "list_all item_ok cs" "ends v" using "1.prems" by simp_all
  have a: "\<exists>r. print_entries F H cs (depth + 1) fmt (k + 1) \<bind> (\<lambda>(es, k). print_array_text H fmt es k) = Some r"
    if "t AND 255 = 5" "cs \<noteq> []" "h_ok H k"
  proof -
    from "1.IH"(1) [OF refl] that "1.prems"(1) l obtain es k' where
      e: "print_entries F H cs (depth + 1) fmt (k + 1) = Some (es, k')" by auto
    then have "es \<noteq> Some []" using entries_not_empty that(2) by (metis neq_Nil_conv)
    with e show ?thesis using array_text_fits by simp
  qed
  have o: "\<exists>r. print_members F H cs (depth + 1) fmt (k + 2) \<bind> (\<lambda>(es, k). print_object_text H fmt (depth + 1) es k) = Some r"
    if "t AND 255 = 6" "cs \<noteq> []" "h_ok H k" "h_ok H (k + 1)"
  proof -
    from "1.IH"(2) [OF refl] that "1.prems"(1) l obtain es k' where
      "print_members F H cs (depth + 1) fmt (k + 2) = Some (es, k')" by auto
    then show ?thesis using object_text_fits by simp
  qed
  show ?case using a o print_string_defined [OF l(2)] print_number_defined [OF "1.prems"]
    by (auto simp: Let_def fits_def)
next
  case (3 F H c cs d fmt k)
  from 3 obtain r k1 where r: "print_value F H c d fmt k = Some (r, k1)" by auto
  show ?case
  proof (cases r)
    case (Some e)
    with "3.IH"(2) [OF r refl Some] "3.prems" r show ?thesis by auto
  qed (use r in simp)
next
  case (5 F H c cs d fmt k)
  have "ends (js_string c)" using "5.prems" by (cases c) simp
  from print_string_defined [OF this] obtain s k1 where s: "print_string_ptr H (js_string c) k = Some (s, k1)" by fastforce
  from "5.IH"(1) [OF s refl] "5.prems" obtain r k2 where r: "print_value F H c d fmt k1 = Some (r, k2)" by auto
  from "5.IH"(2) [OF s refl r refl] "5.prems" obtain es k3 where "print_members F H cs d fmt k2 = Some (es, k3)" by auto
  with s r show ?case by simp
qed auto

text \<open>C36: The printer stays within the blocks it allocates, in both formats and whichever allocations fail, for every
  item whose strings end inside their blocks.\<close>

theorem cJSON_print_safe:
  assumes "fpu_prints F" "item_ok c"
  shows "\<exists>r s. cJSON_PrintUnformatted F H c = Some r \<and> cJSON_Print F H c = Some s"
  using print_defined(1) [OF assms, of H 0 False 0] print_defined(1) [OF assms, of H 0 True 0]
  by (auto simp: cJSON_PrintUnformatted_def cJSON_Print_def)

lemma cJSON_print_safe_witness:
  "\<exists>r s. cJSON_PrintUnformatted whole_fpu full_heap (cJSON 5 None 0 0 None [cJSON 4 (Some [10, 0]) 0 0 None []]) = Some r \<and>
     cJSON_Print whole_fpu full_heap (cJSON 5 None 0 0 None [cJSON 4 (Some [10, 0]) 0 0 None []]) = Some s"
  by (rule cJSON_print_safe) (simp_all add: fpu_prints_def whole_fpu_def ends_def)

subsection \<open>The parser\<close>

text \<open>A text that ends at \<open>z\<close>, without escapes and without exponents.\<close>

definition plain_text :: "bytes \<Rightarrow> nat \<Rightarrow> bool" where
  "plain_text m z \<longleftrightarrow> z < length m \<and> m ! z = 0 \<and> (\<forall>q < z. m ! q \<noteq> 0 \<and> m ! q \<noteq> 0x5C \<and>
     (m ! q = 0x65 \<or> m ! q = 0x45 \<longrightarrow> \<not> is_digit (m ! (q + 1)) \<and> m ! (q + 1) \<noteq> 0x2B \<and> m ! (q + 1) \<noteq> 0x2D))"

lemma plain_read: "plain_text m z \<Longrightarrow> i \<le> z \<Longrightarrow> i < length m \<and> nth_opt m i = Some (m ! i) \<and> (m ! i \<noteq> 0 \<longleftrightarrow> i < z)"
  by (auto simp: plain_text_def nth_opt_def le_less)

lemma plain_next: "plain_text m z \<Longrightarrow> i \<le> z \<Longrightarrow> m ! i \<noteq> 0 \<Longrightarrow> i + 1 \<le> z"
  using plain_read by fastforce

lemma plain_skip: "plain_text m z \<Longrightarrow> i \<le> z \<Longrightarrow> \<exists>i'. skip m i = Some i' \<and> i' \<le> z"
proof (induction m i rule: skip.induct)
  case (1 m i)
  then show ?case using plain_read [OF 1(2,3)] by (auto simp: skip.simps [of m i])
qed

lemma digit_not_zero: "is_digit c \<Longrightarrow> c \<noteq> 0"
  by (auto simp: is_digit_def)

lemma plain_starts: "plain_text m z \<Longrightarrow> i \<le> z \<Longrightarrow> 0 \<notin> set xs \<Longrightarrow> \<exists>b. starts_with m i xs = Some b \<and> (b \<longrightarrow> i + length xs \<le> z)"
proof (induction xs arbitrary: i)
  case (Cons x xs)
  note p = plain_read [OF Cons.prems(1,2)]
  show ?case
  proof (cases "m ! i = x")
    case True
    then have "i + 1 \<le> z" using p Cons.prems(3) by auto
    with Cons.IH [of "i + 1"] Cons.prems p True show ?thesis by auto
  next
    case False
    then show ?thesis using p by (intro exI [of _ False]) simp
  qed
qed auto

lemma plain_digits: "plain_text m z \<Longrightarrow> i \<le> z \<Longrightarrow> \<exists>n' i'. num_digits F m i n = Some (n', i') \<and> i' \<le> z"
proof (induction F m i n rule: num_digits.induct)
  case (1 F m i n)
  have "is_digit (m ! i) \<Longrightarrow> i + 1 \<le> z" using plain_next [OF 1(2,3)] digit_not_zero by auto
  then show ?case using 1 plain_read [OF 1(2,3)] by (auto simp: num_digits.simps [of F m i])
qed

lemma plain_frac: "plain_text m z \<Longrightarrow> i \<le> z \<Longrightarrow> \<exists>n' s' i'. frac_digits F m i n s = Some (n', s', i') \<and> i' \<le> z"
proof (induction F m i n s rule: frac_digits.induct)
  case (1 F m i n s)
  have "is_digit (m ! i) \<Longrightarrow> i + 1 \<le> z" using plain_next [OF 1(2,3)] digit_not_zero by auto
  then show ?case using 1 plain_read [OF 1(2,3)] by (auto simp: frac_digits.simps [of F m i])
qed

lemma plain_number:
  assumes "plain_text m z" "i \<le> z"
  shows "\<exists>c i'. parse_number F m i = Some (c, i') \<and> i' \<le> z"
proof -
  note n = plain_next [OF assms(1)] and p = plain_read [OF assms(1)]
  have w: "\<exists>v i'. parse_whole F m i = Some (v, i') \<and> i' \<le> z" if "i \<le> z" for i
  proof -
    let ?i = "if m ! i = 0x30 then i + 1 else i"
    have "?i \<le> z" using n [OF that] that by simp
    then show ?thesis using p [OF that] p [of ?i] plain_digits [OF assms(1), of ?i F "f_of_int F 0"]
      by (auto simp: parse_whole_def Let_def)
  qed
  have f: "\<exists>n' s i'. parse_frac F m i v = Some (n', s, i') \<and> i' \<le> z" if "i \<le> z" for i v
  proof (cases "m ! i = 0x2E")
    case True
    then have "i + 1 \<le> z" using n [OF that] by simp
    then show ?thesis using True p [OF that] p [of "i + 1"] plain_frac [OF assms(1), of "i + 1" F v "f_of_int F 0"] that
      by (auto simp: parse_frac_def)
  qed (use p [OF that] that in \<open>simp add: parse_frac_def\<close>)
  have e: "\<exists>x i'. parse_exp m i = Some (x, i') \<and> i' \<le> z" if "i \<le> z" for i
  proof (cases "m ! i = 0x65 \<or> m ! i = 0x45")
    case True
    then have i: "i + 1 \<le> z" using n [OF that] by auto
    then have "i < z" by simp
    then have "\<not> is_digit (m ! (i + 1))" "m ! (i + 1) \<noteq> 0x2B" "m ! (i + 1) \<noteq> 0x2D"
      using True assms(1) unfolding plain_text_def by blast+
    then show ?thesis using True p [OF that] p [OF i] i by (auto simp: parse_exp_def exp_digits.simps [of m "Suc i"])
  qed (use p [OF that] that in \<open>simp add: parse_exp_def\<close>)
  let ?i = "if m ! i = 0x2D then i + 1 else i"
  have "?i \<le> z" using n [OF assms(2)] assms(2) by simp
  from w [OF this] obtain v i1 where 1: "parse_whole F m ?i = Some (v, i1)" "i1 \<le> z" by blast
  from f [OF 1(2)] obtain v2 s i2 where 2: "parse_frac F m i1 v = Some (v2, s, i2)" "i2 \<le> z" by blast
  from e [OF 2(2)] obtain x i3 where 3: "parse_exp m i2 = Some (x, i3)" "i3 \<le> z" by blast
  show ?thesis using 1 2 3 p [OF assms(2)] by (simp add: parse_number_def Let_def)
qed

lemma plain_chars:
  "plain_text m z \<Longrightarrow> i \<le> z \<Longrightarrow> \<exists>q. i \<le> q \<and> q \<le> z \<and> (m ! q = 0x22 \<or> m ! q = 0) \<and> count_string m i len = Some (len + (q - i)) \<and>
     (\<forall>out j. j + (q - i) \<le> length out \<longrightarrow>
        (\<exists>out'. parse_chars m i out j = Some (q, out', j + (q - i)) \<and> length out' = length out))"
proof (induction m i len rule: count_string.induct)
  case (1 m i len)
  note p = plain_read [OF "1.prems"]
  show ?case
  proof (cases "m ! i = 0x22 \<or> m ! i = 0")
    case True
    then show ?thesis using p "1.prems" by (intro exI [of _ i]) (auto simp: count_string.simps [of m i] parse_chars.simps [of m i])
  next
    case False
    then have i: "i < z" using p by simp
    then have b: "m ! i \<noteq> 0x5C" using "1.prems"(1) by (simp add: plain_text_def)
    from "1.IH"(2) [OF _ False b] p i "1.prems"(1) obtain q where
      q: "i + 1 \<le> q" "q \<le> z" "m ! q = 0x22 \<or> m ! q = 0" "count_string m (i + 1) (len + 1) = Some (len + 1 + (q - (i + 1)))"
      "\<And>out j. j + (q - (i + 1)) \<le> length out \<Longrightarrow>
        \<exists>out'. parse_chars m (i + 1) out j = Some (q, out', j + (q - (i + 1))) \<and> length out' = length out" by auto
    have "\<exists>out'. parse_chars m i out j = Some (q, out', j + (q - i)) \<and> length out' = length out"
      if len: "j + (q - i) \<le> length out" for out j
    proof -
      have "Suc j \<le> length out" using len q(1) by simp
      then obtain out1 where w: "wr out j [m ! i] = Some out1" by (simp add: wr_def)
      then have "length out1 = length out" by (rule length_wr)
      moreover obtain d where d: "q = i + 1 + d" using q(1) le_Suc_ex by blast
      ultimately obtain out' where
        "parse_chars m (i + 1) out1 (j + 1) = Some (q, out', j + (q - i))" "length out' = length out"
        using q(5) [of "j + 1" out1] len by auto
      then show ?thesis using False b p w by (simp add: parse_chars.simps [of m i])
    qed
    then show ?thesis using q False b p by (intro exI [of _ q]) (auto simp: count_string.simps [of m i])
  qed
qed

text \<open>What a parsing function promises: a result, and a position within the text.\<close>

definition within :: "nat \<Rightarrow> (('a \<times> nat) option \<times> nat) option \<Rightarrow> bool" where
  "within z x \<longleftrightarrow> (\<exists>r k. x = Some (r, k) \<and> (\<forall>a i. r = Some (a, i) \<longrightarrow> i \<le> z))"

lemma within_simps [simp]:
  "within z (Some (None, k))" "within z (Some (Some (a, i), k)) \<longleftrightarrow> i \<le> z"
  by (auto simp: within_def)

lemma within_map:
  "within z x \<Longrightarrow> within z (x \<bind> (\<lambda>(r, k). Some (map_option (\<lambda>(a, i). (f a, i)) r, k)))"
  by (auto simp: within_def)

lemma plain_string:
  assumes "plain_text m z" "i \<le> z"
  shows "within z (parse_string H m i k)"
proof (cases "m ! i = 0x22")
  case True
  note p = plain_read [OF assms(1)]
  have i: "i + 1 \<le> z" using plain_next [OF assms] True by simp
  from plain_chars [OF assms(1) i, of 0] obtain q where
    q: "i + 1 \<le> q" "q \<le> z" "m ! q = 0x22 \<or> m ! q = 0" "count_string m (i + 1) 0 = Some (q - (i + 1))"
    "\<And>out j. j + (q - (i + 1)) \<le> length out \<Longrightarrow>
      \<exists>out'. parse_chars m (i + 1) out j = Some (q, out', j + (q - (i + 1))) \<and> length out' = length out" by auto
  let ?out = "map (h_junk H k) [0..<q - (i + 1) + 1]"
  from q(5) [of 0 ?out] obtain out' where
    o: "parse_chars m (i + 1) ?out 0 = Some (q, out', q - (i + 1))" "length out' = q - (i + 1) + 1" by auto
  then obtain b where b: "wr out' (q - (i + 1)) [0] = Some b" by (auto simp: wr_def)
  have "m ! q = 0x22 \<Longrightarrow> q + 1 \<le> z" using plain_next [OF assms(1) q(2)] by simp
  with True p [OF assms(2)] p [OF q(2)] q(2,4) o(1) b show ?thesis
    by (simp add: parse_string_def malloc_def Let_def)
qed (use plain_read [OF assms] in \<open>simp add: parse_string_def\<close>)

lemma plain_parse:
  "plain_text m z \<Longrightarrow> i \<le> z \<Longrightarrow> within z (parse_value F H m i k)"
  "plain_text m z \<Longrightarrow> i \<le> z \<Longrightarrow> within z (parse_elements F H m i k)"
  "plain_text m z \<Longrightarrow> i \<le> z \<Longrightarrow> within z (parse_members F H m i k)"
proof (induction F H m i k and F H m i k and F H m i k rule: parse_value_parse_elements_parse_members.induct)
  case (1 F H m i k)
  note p = plain_read [OF "1.prems"]
  obtain n where n: "starts_with m i (text_of ''null'') = Some n" "n \<longrightarrow> i + 4 \<le> z"
    using plain_starts [OF "1.prems", of "text_of ''null''"] by (auto simp: keyword_texts)
  obtain f where f: "starts_with m i (text_of ''false'') = Some f" "f \<longrightarrow> i + 5 \<le> z"
    using plain_starts [OF "1.prems", of "text_of ''false''"] by (auto simp: keyword_texts)
  obtain t where t: "starts_with m i (text_of ''true'') = Some t" "t \<longrightarrow> i + 4 \<le> z"
    using plain_starts [OF "1.prems", of "text_of ''true''"] by (auto simp: keyword_texts)
  have s: "\<exists>i'. skip m (i + 1) = Some i' \<and> i' \<le> z" if "m ! i \<noteq> 0"
    by (rule plain_skip [OF "1.prems"(1) plain_next [OF "1.prems" that]])
  have close: "i' + 1 \<le> z" if "i' \<le> z" "m ! i' \<noteq> 0" for i' by (rule plain_next [OF "1.prems"(1) that])
  consider n | "\<not> n" f | "\<not> n" "\<not> f" t | "\<not> n" "\<not> f" "\<not> t" "m ! i = 0x22" | "\<not> n" "\<not> f" "\<not> t" "m ! i = 0x2D \<or> is_digit (m ! i)"
    | "\<not> n" "\<not> f" "\<not> t" "m ! i = 0x5B" | "\<not> n" "\<not> f" "\<not> t" "m ! i = 0x7B"
    | "\<not> n" "\<not> f" "\<not> t" "m ! i \<notin> {0x22, 0x2D, 0x5B, 0x7B}" "\<not> is_digit (m ! i)" by auto
  then show ?case
  proof cases
    case 4
    then show ?thesis using n f t p within_map [OF plain_string [OF "1.prems"], of H k]
      by (simp add: parse_value.simps [of F H m i k])
  next
    case 5
    then have "m ! i \<noteq> 0x22" by (auto simp: is_digit_def)
    then show ?thesis using 5 n f t p plain_number [OF "1.prems", of F]
      by (auto simp: parse_value.simps [of F H m i k])
  next
    case 6
    then obtain i1 where i1: "skip m (i + 1) = Some i1" "i1 \<le> z" using s by auto
    show ?thesis
    proof (cases "m ! i1 = 0x5D")
      case True
      then show ?thesis using 6 n f t p i1 close [OF i1(2)] by (simp add: parse_value.simps [of F H m i k] is_digit_def)
    next
      case False
      then have "within z (parse_elements F H m i1 k)" using "1.IH"(1) [of False False False "0x5B" i1] 6 n f t p i1 "1.prems"(1)
        by (simp add: is_digit_def)
      from within_map [OF this] show ?thesis using False 6 n f t p i1 by (simp add: parse_value.simps [of F H m i k] is_digit_def)
    qed
  next
    case 7
    then obtain i1 where i1: "skip m (i + 1) = Some i1" "i1 \<le> z" using s by auto
    show ?thesis
    proof (cases "m ! i1 = 0x7D")
      case True
      then show ?thesis using 7 n f t p i1 close [OF i1(2)] by (simp add: parse_value.simps [of F H m i k] is_digit_def)
    next
      case False
      then have "within z (parse_members F H m i1 k)" using "1.IH"(2) [of False False False "0x7B" i1] 7 n f t p i1 "1.prems"(1)
        by (simp add: is_digit_def)
      from within_map [OF this] show ?thesis using False 7 n f t p i1 by (simp add: parse_value.simps [of F H m i k] is_digit_def)
    qed
  qed (use n f t p in \<open>simp_all add: parse_value.simps [of F H m i k]\<close>)
next
  case (2 F H m i k)
  show ?case
  proof (cases "h_ok H k")
    case True
    from plain_skip [OF "2.prems"] obtain i1 where i1: "skip m i = Some i1" "i1 \<le> z" by blast
    have "within z (parse_value F H m i1 (k + 1))" using "2.IH"(1) True i1 "2.prems"(1) by simp
    then obtain r k1 where v: "parse_value F H m i1 (k + 1) = Some (r, k1)" "\<And>c i2. r = Some (c, i2) \<Longrightarrow> i2 \<le> z"
      by (auto simp: within_def)
    show ?thesis
    proof (cases r)
      case (Some q)
      obtain c i2 where q: "r = Some (c, i2)" using Some by (cases q) auto
      from plain_skip [OF "2.prems"(1) v(2) [OF q]] obtain i3 where i3: "skip m i2 = Some i3" "i3 \<le> z" by blast
      have n: "m ! i3 \<noteq> 0 \<Longrightarrow> i3 + 1 \<le> z" by (rule plain_next [OF "2.prems"(1) i3(2)])
      have "within z (parse_elements F H m (i3 + 1) k1)" if "m ! i3 = 0x2C"
        using "2.IH"(2) [of i1 "(r, k1)" r k1 "(c, i2)" c i2 i3] True i1 v(1) q i3(1) that n "2.prems"(1) by simp
      from within_map [OF this, of "(#) c"] show ?thesis using True i1 v(1) q i3 n by (simp add: parse_elements.simps [of F H m i k])
    qed (use True i1 v in \<open>simp add: parse_elements.simps [of F H m i k]\<close>)
  qed (simp add: parse_elements.simps [of F H m i k])
next
  case (3 F H m i k)
  show ?case
  proof (cases "h_ok H k")
    case True
    from plain_skip [OF "3.prems"] obtain i1 where i1: "skip m i = Some i1" "i1 \<le> z" by blast
    from plain_string [OF "3.prems"(1) i1(2), of H "k + 1"] obtain s k1 where
      s: "parse_string H m i1 (k + 1) = Some (s, k1)" "\<And>b i2. s = Some (b, i2) \<Longrightarrow> i2 \<le> z" by (auto simp: within_def)
    show ?thesis
    proof (cases s)
      case (Some q)
      obtain b i2 where q: "s = Some (b, i2)" using Some by (cases q) auto
      from plain_skip [OF "3.prems"(1) s(2) [OF q]] obtain i3 where i3: "skip m i2 = Some i3" "i3 \<le> z" by blast
      show ?thesis
      proof (cases "m ! i3 = 0x3A")
        case colon: True
        then have "i3 + 1 \<le> z" using plain_next [OF "3.prems"(1) i3(2)] by simp
        from plain_skip [OF "3.prems"(1) this] obtain i4 where i4: "skip m (i3 + 1) = Some i4" "i4 \<le> z" by blast
        have "within z (parse_value F H m i4 k1)"
          using "3.IH"(1) [of i1 "(s, k1)" s k1 "(b, i2)" b i2 i3 i4] True i1 s(1) q i3(1) colon i4 "3.prems"(1) by simp
        then obtain r k2 where v: "parse_value F H m i4 k1 = Some (r, k2)" "\<And>c i5. r = Some (c, i5) \<Longrightarrow> i5 \<le> z"
          by (auto simp: within_def)
        show ?thesis
        proof (cases r)
          case (Some q')
          obtain c i5 where q': "r = Some (c, i5)" using Some by (cases q') auto
          from plain_skip [OF "3.prems"(1) v(2) [OF q']] obtain i6 where i6: "skip m i5 = Some i6" "i6 \<le> z" by blast
          have n: "m ! i6 \<noteq> 0 \<Longrightarrow> i6 + 1 \<le> z" by (rule plain_next [OF "3.prems"(1) i6(2)])
          have "within z (parse_members F H m (i6 + 1) k2)" if "m ! i6 = 0x2C"
            using "3.IH"(2) [of i1 "(s, k1)" s k1 "(b, i2)" b i2 i3 i4 "(r, k2)" r k2 "(c, i5)" c i5 i6]
              True i1 s(1) q i3(1) colon i4 v(1) q' i6(1) that n "3.prems"(1) by simp
          from within_map [OF this, of "(#) (set_name (Some b) c)"] show ?thesis using True i1 s(1) q i3(1) colon i4 v(1) q' i6 n
            by (simp add: parse_members.simps [of F H m i k])
        qed (use True i1 s(1) q i3(1) colon i4 v(1) in \<open>simp add: parse_members.simps [of F H m i k]\<close>)
      qed (use True i1 s(1) q i3 in \<open>simp add: parse_members.simps [of F H m i k]\<close>)
    qed (use True i1 s(1) in \<open>simp add: parse_members.simps [of F H m i k]\<close>)
  qed (simp add: parse_members.simps [of F H m i k])
qed

text \<open>C35: On a text without escapes and exponents the parser is defined: it reads no byte behind the end of the text,
  writes within its blocks and returns, whatever the text is and whichever allocations fail.\<close>

theorem cJSON_parse_safe:
  assumes "plain_text m z"
  shows "\<exists>r. cJSON_Parse F H m = Some r"
proof -
  from plain_skip [OF assms, of 0] obtain i where i: "skip m 0 = Some i" "i \<le> z" by auto
  from plain_parse(1) [OF assms i(2), of F H 1] show ?thesis using i
    by (fastforce simp: cJSON_Parse_def cJSON_ParseWithOpts_def within_def split: option.splits)
qed

lemma cJSON_parse_safe_witness: "\<exists>r. cJSON_Parse whole_fpu full_heap (map of_char ''{[1,2.5}, tru'' @ [0, 0x22]) = Some r"
proof (rule cJSON_parse_safe [of _ 13])
  have a: "(\<forall>q < n. P q) \<longleftrightarrow> list_all P [0..<n]" for P and n :: nat by (auto simp: list_all_iff)
  show "plain_text (map of_char ''{[1,2.5}, tru'' @ [0, 0x22]) 13" unfolding plain_text_def a by code_simp
qed

text \<open>An escape \<^verbatim>\<open>u\<close> at the end of the text: the string is read on behind it.\<close>

lemma parse_string_overrun:
  assumes "h_ok H k" "length old = 6" "\<forall>c \<in> set (drop 3 old). c \<noteq> 0 \<and> c \<noteq> 0x22 \<and> c \<noteq> 0x5C"
  shows "parse_string H ([0x22, 0x5C, 0x75, 0] @ old @ rest) 0 k = None"
proof -
  obtain a b c x y z where old: "old = [a, b, c, x, y, z]" using assms(2)
    by (auto simp: eval_nat_numeral length_Suc_conv)
  have "x \<notin> {0, 0x22, 0x5C}" "y \<notin> {0, 0x22, 0x5C}" "z \<notin> {0, 0x22, 0x5C}" using assms(3) old by auto
  let ?m = "[0x22, 0x5C, 0x75, 0] @ old @ rest"
  have h: "unicode_escape ?m 2 = Some ([], 6)"
  proof -
    have "(4 :: nat) = Suc 3" by simp
    then have "parse_hex4 ?m 3 = Some 0" unfolding parse_hex4_def by (simp only: hex4_loop.simps) (simp add: nth_opt_def hex4_digit_def)
    then show ?thesis by (simp add: unicode_escape_def)
  qed
  have c: "count_string ?m (Suc 0) 0 = Some 1" 
    by (subst count_string.simps, simp, subst count_string.simps, simp)
  have n: "?m ! 7 = x" "?m ! 8 = y" "?m ! 9 = z" "9 < length ?m" by (simp_all add: old)
  have w: "wr out j [u] = (if j < length out then Some (out[j := u]) else None)" for out :: bytes and j u
    by (simp add: wr_def upd_conv_take_nth_drop)
  have "parse_chars ?m 7 out 0 = None" if "length out = 2" for out
    using n that \<open>x \<notin> _\<close> \<open>y \<notin> _\<close> \<open>z \<notin> _\<close>
    by (simp add: parse_chars.simps [of ?m 7] parse_chars.simps [of ?m 8] parse_chars.simps [of ?m 9] w del: append_Cons append_Nil)
  moreover have "escape_bytes ?m 2 = Some ([], 6)" using h by (simp add: escape_bytes_def nth_opt_def)
  ultimately have p: "parse_chars ?m (Suc 0) out 0 = None" if "length out = 2" for out
    using that by (subst parse_chars.simps) (simp add: wr_def flip: numeral_2_eq_2)
  show ?thesis using assms(1) c p by (simp add: parse_string_def malloc_def nth_opt_def)
qed

text \<open>C37: With an escape at the end of a text the parser leaves it: for the three characters quote, backslash and
  \<^verbatim>\<open>u\<close>, followed in the array by at least six bytes of an earlier text, the block of the string is overrun.
  So the condition on escapes in the safety of the parser is needed.\<close>

theorem cJSON_parse_overrun:
  assumes "h_ok H 0" "h_ok H 1" "length old = 6" "\<forall>c \<in> set (drop 3 old). c \<noteq> 0 \<and> c \<noteq> 0x22 \<and> c \<noteq> 0x5C"
  shows "cJSON_Parse F H ([0x22, 0x5C, 0x75, 0] @ old @ rest) = None"
proof -
  let ?m = "[0x22, 0x5C, 0x75, 0] @ old @ rest"
  have d: "drop 0 ?m = 0x22 # [0x5C, 0x75, 0] @ old @ rest" by simp
  have s: "skip ?m 0 = Some 0" by (rule skip_stop [OF d]) simp
  have "parse_value F H ?m 0 1 = None"
    using no_keyword [OF d] at_read [OF d] parse_string_overrun [OF assms(2-4), of rest]
    by (subst parse_value.simps) (simp del: append_Cons append_Nil)
  with s show ?thesis using assms(1) by (simp add: cJSON_Parse_def cJSON_ParseWithOpts_def del: append_Cons append_Nil)
qed

lemma cJSON_parse_overrun_witness:
  "cJSON_Parse whole_fpu full_heap ([0x22, 0x5C, 0x75, 0] @ replicate 6 0x41 @ [0x22, 0]) = None"
  by (rule cJSON_parse_overrun) (simp_all add: full_heap_def)

end
