(* ===== verification/Jd.thy ===== *)
theory Jd
  imports JsonSafe
begin

text \<open>
  The JD cloud service: \<^verbatim>\<open>src/src/jdsmart/common.c\<close> (TLS connection), \<^verbatim>\<open>jdservice.c\<close> (commands of the
  cloud, heart beat, upgrade, the task), \<^verbatim>\<open>ota.c\<close> (download) and \<^verbatim>\<open>set_network_state\<close> of \<^verbatim>\<open>jdsmart.c\<close>.
  The state \<open>jd_state\<close> holds the globals of the service and, in \<open>fw\<close>, the state of the firmware its commands
  act on. The answers of the TLS and HTTP libraries are the parameter \<open>jd_sdk\<close>, with the runtime of the JSON
  library: its arithmetic, and the heap as a function of the events so far (every use of the library is an
  event \<open>J_json\<close>). Reading a field of a JSON item that is not there is undefined.
\<close>

subsection \<open>State\<close>

record jdNVargs_t =
  nv_magic :: bytes
  feedid :: bytes
  accesskey :: bytes
  iplist :: "bytes list"
  fw_version :: u16

datatype jd_event =
    J_ssl_write bytes
  | J_ssl_read
  | J_ssl_new
  | J_ssl_free
  | J_ctx_new
  | J_ctx_free
  | J_socket
  | J_connect bytes u32
  | J_close int
  | J_select
  | J_time
  | J_sendto bytes
  | J_nvm_read
  | J_nvm_write u32
  | J_userbin_write nat bytes
  | J_http_open bytes
  | J_http_read
  | J_update_start
  | J_update_write nat bytes
  | J_update_complete nat
  | J_rssi
  | J_reset
  | J_softreset
  | J_json

record jd_state =
  jdArgs :: jdNVargs_t
  jd_mac :: bytes
  JD_PROUUID :: bytes
  jdserver_ip :: bytes
  jdserver_port :: u32
  linkst_router :: bool
  linkst_internet :: bool
  linkst_cloud :: bool
  linkst_ota :: bool
  ssl_tx :: bytes
  ssl_rx :: bytes
  ssl_fd :: int
  ssl_ssl :: bool
  ssl_ctx :: bool
  connect_fail :: int
  rhythm :: u32
  jd_io :: "jd_event list"
  fw :: world

record jd_sdk =
  j_ssl_write :: "jd_event list \<Rightarrow> int"
  j_ssl_read :: "jd_event list \<Rightarrow> bytes option"
  j_ssl_new :: "jd_event list \<Rightarrow> bool"
  j_ctx_new :: "jd_event list \<Rightarrow> bool"
  j_set_fd :: "jd_event list \<Rightarrow> int"
  j_errno :: "jd_event list \<Rightarrow> int"
  j_socket :: "jd_event list \<Rightarrow> int"
  j_connect :: "jd_event list \<Rightarrow> int"
  j_select :: "jd_event list \<Rightarrow> int"
  j_readable :: "jd_event list \<Rightarrow> bool"
  j_time :: "jd_event list \<Rightarrow> u32"
  j_smtlk :: "jd_event list \<Rightarrow> u32"
  j_sendto :: "jd_event list \<Rightarrow> int"
  j_rssi :: "jd_event list \<Rightarrow> u32"
  j_http_parse :: "jd_event list \<Rightarrow> bool"
  j_http_open :: "jd_event list \<Rightarrow> bool"
  j_http_send :: "jd_event list \<Rightarrow> bool"
  j_http_content :: "jd_event list \<Rightarrow> bytes list"
  j_malloc :: "jd_event list \<Rightarrow> bool"
  j_timer :: "jd_event list \<Rightarrow> bool"
  j_update_ok :: "jd_event list \<Rightarrow> bool"
  j_fpu :: fpu
  j_heap :: "jd_event list \<Rightarrow> heap"
  j_junk :: "jd_event list \<Rightarrow> nat \<Rightarrow> u8"

definition jemit :: "jd_event \<Rightarrow> jd_state \<Rightarrow> jd_state" where
  "jemit e j = j\<lparr>jd_io := e # jd_io j\<rparr>"

text \<open>\<^verbatim>\<open>sprintf\<close> of a text into the transmit array.\<close>

definition print_tx :: "bytes \<Rightarrow> jd_state \<Rightarrow> jd_state option" where
  "print_tx s j = do { m \<leftarrow> wr (ssl_tx j) 0 (s @ [0]); Some (j\<lparr>ssl_tx := m\<rparr>) }"

subsection \<open>The state of the links\<close>

datatype net_state = HF_STA_CONNECTED | HF_STA_DISCONNECTED | HF_DHCP_OK | HF_CLO_CONNECTED | HF_CLO_DISCONNECTED
  | HF_CLO_OTA | HF_NET_CONNECTED | HF_NET_DISCONNECTED

fun set_network_state :: "net_state \<Rightarrow> bool \<Rightarrow> jd_state \<Rightarrow> jd_state" where
  "set_network_state HF_STA_CONNECTED on j = j\<lparr>linkst_router := True\<rparr>"
| "set_network_state HF_STA_DISCONNECTED on j = j\<lparr>linkst_router := False, linkst_internet := False, linkst_cloud := False\<rparr>"
| "set_network_state HF_DHCP_OK on j = j\<lparr>linkst_router := True\<rparr>"
| "set_network_state HF_CLO_CONNECTED on j = j\<lparr>linkst_router := True, linkst_internet := True, linkst_cloud := True\<rparr>"
| "set_network_state HF_CLO_DISCONNECTED on j = j\<lparr>linkst_cloud := False\<rparr>"
| "set_network_state HF_CLO_OTA on j = j\<lparr>linkst_ota := on\<rparr>"
| "set_network_state HF_NET_CONNECTED on j = j\<lparr>linkst_internet := True\<rparr>"
| "set_network_state HF_NET_DISCONNECTED on j = j\<lparr>linkst_internet := False\<rparr>"

subsection \<open>The TLS connection\<close>

definition ssl_check :: "jd_state \<Rightarrow> bool \<times> jd_state" where
  "ssl_check j =
     (if ssl_fd j = -1 then (True, j)
      else if \<not> ssl_ssl j then (True, (jemit (J_close (ssl_fd j)) j)\<lparr>ssl_fd := -1\<rparr>)
      else (False, j))"

definition ssl_close :: "jd_state \<Rightarrow> jd_state" where
  "ssl_close j =
     (let j = (if ssl_ssl j then (jemit J_ssl_free j)\<lparr>ssl_ssl := False\<rparr> else j);
          j = (if ssl_ctx j then (jemit J_ctx_free j)\<lparr>ssl_ctx := False\<rparr> else j);
          j = (if ssl_fd j \<noteq> -1 then (jemit (J_close (ssl_fd j)) j)\<lparr>ssl_fd := -1\<rparr> else j)
      in set_network_state HF_CLO_DISCONNECTED False j)"

text \<open>The socket is not stored, and not closed, when the connection fails.\<close>

definition ssl_connect :: "jd_sdk \<Rightarrow> int \<Rightarrow> jd_state \<Rightarrow> jd_state" where
  "ssl_connect S fd j =
     (let ok = j_ctx_new S (jd_io j); j = jemit J_ctx_new j
      in if \<not> ok then j
      else let j = j\<lparr>ssl_ctx := True\<rparr>; ok = j_ssl_new S (jd_io j); j = jemit J_ssl_new j
      in if \<not> ok then (jemit J_ctx_free j)\<lparr>ssl_ctx := False\<rparr>
      else let j = j\<lparr>ssl_ssl := True\<rparr>
      in if j_set_fd S (jd_io j) = 1 then j\<lparr>ssl_fd := fd, connect_fail := 0\<rparr>
      else let j = (jemit J_ctx_free (jemit J_ssl_free j))\<lparr>ssl_ssl := False, ssl_ctx := False, connect_fail := connect_fail j + 1\<rparr>
      in if connect_fail j \<ge> 10 then jemit J_reset j else j)"

definition tcp_connect_ssl_server :: "jd_sdk \<Rightarrow> bytes \<Rightarrow> u32 \<Rightarrow> jd_state \<Rightarrow> int \<times> jd_state" where
  "tcp_connect_ssl_server S url port j =
     (let fd = j_socket S (jd_io j); j = jemit J_socket j
      in if fd < 0 then (-1, j)
      else let r = j_connect S (jd_io j); j = jemit (J_connect url port) j
      in if r = -1 then (-1, jemit (J_close fd) j) else (fd, j))"

text \<open>\<^verbatim>\<open>strtok(ip_port, ":")\<close> twice; the address is copied without its end.\<close>

definition colon_token :: "bytes \<Rightarrow> bytes" where
  "colon_token s = takeWhile (\<lambda>c. c \<noteq> 0x3A) (dropWhile (\<lambda>c. c = 0x3A) s)"

definition after_token :: "bytes \<Rightarrow> bytes" where
  "after_token s = drop 1 (dropWhile (\<lambda>c. c \<noteq> 0x3A) (dropWhile (\<lambda>c. c = 0x3A) s))"

definition get_ip_port :: "jd_sdk \<Rightarrow> bytes \<Rightarrow> jd_state \<Rightarrow> (int \<times> jd_state) option" where
  "get_ip_port S ip_port j = do {
     s \<leftarrow> cstr ip_port;
     let p = colon_token s;
     if p = [] then Some (-1, j)
     else do {
       m \<leftarrow> wr (jdserver_ip j) 0 p;
       let j = j\<lparr>jdserver_ip := m\<rparr>;
       let q = colon_token (after_token s);
       if q = [] then Some (-1, j)
       else do { port \<leftarrow> str2int (j_fpu S) (q @ [0]); Some (1, j\<lparr>jdserver_port := of_int port\<rparr>) }
     } }"

subsection \<open>Sending\<close>

text \<open>The loop of \<^verbatim>\<open>jdssl_send\<close>; \<open>r\<close> is \<^verbatim>\<open>retransmission\<close>. The only descriptor in the set is the one of the
  connection.\<close>

function jdssl_send_loop :: "jd_sdk \<Rightarrow> nat \<Rightarrow> bytes \<Rightarrow> jd_state \<Rightarrow> (int \<times> jd_state) option" where
  "jdssl_send_loop S r d j =
     (let ret = j_select S (jd_io j); j = jemit J_select j
      in if ret = 0 \<or> ret = -1 then Some (ret, j)
      else if ssl_fd j = -1 then (if r = 0 then Some (ret, j) else None)
      else let ret = j_ssl_write S (jd_io j); j = jemit (J_ssl_write d) j
      in if ret > 0 then Some (ret, j)
      else if r + 1 = 2 then
        (let j = ssl_close j; e = j_errno S (jd_io j)
         in Some (ret, if e = 0x0B \<or> e = 0x6B then jemit J_softreset j else j))
      else if r \<ge> 2 then None
      else jdssl_send_loop S (r + 1) d j)"
  by pat_completeness auto
termination by (relation "measure (\<lambda>(S, r, d, j). 2 - r)") auto

declare jdssl_send_loop.simps [simp del]

definition jdssl_send :: "jd_sdk \<Rightarrow> bytes \<Rightarrow> jd_state \<Rightarrow> (int \<times> jd_state) option" where
  "jdssl_send S send_data j = do { d \<leftarrow> cstr send_data; jdssl_send_loop S 0 d j }"

definition device_text :: "jd_state \<Rightarrow> bytes option" where
  "device_text j = do {
     f \<leftarrow> cstr (feedid (jdArgs j));
     a \<leftarrow> cstr (accesskey (jdArgs j));
     Some (text_of ''{\"feed_id\":\"'' @ f @ text_of ''\",\"access_key\":\"'' @ a @ text_of ''\"'') }"

definition heart_tick_report :: "jd_sdk \<Rightarrow> jd_state \<Rightarrow> jd_state option" where
  "heart_tick_report S j = do {
     dev \<leftarrow> device_text j;
     let rssi = j_rssi S (jd_io j);
     let j = jemit J_rssi j;
     j \<leftarrow> print_tx (text_of ''{\"code\":101,\"device\":'' @ dev @ text_of '',\"firm_version\":'' @
       int_text (uint (fw_version (jdArgs j))) @ text_of '',\"rssi\":'' @ int_text (sint rssi) @ text_of ''}}'' @ [10]) j;
     if ssl_ssl j then map_option snd (jdssl_send S (ssl_tx j) j) else Some j }"

end
