(* ===== verification/JdService.thy ===== *)
theory JdService
  imports Jd
begin

text \<open>
  The commands of the JD cloud: the download of a firmware (\<^verbatim>\<open>Httpc_get\<close> of \<^verbatim>\<open>ota.c\<close>), the upgrade, the
  control commands, the turn of the task \<^verbatim>\<open>jdssl_thread\<close> (\<^verbatim>\<open>jdservice.c\<close>), and the answers to a search on
  the local network (\<^verbatim>\<open>jdudp.c\<close>).
\<close>

subsection \<open>Download\<close>

abbreviation (input) DOWNLOAD_OK :: int where "DOWNLOAD_OK \<equiv> 7001"
abbreviation (input) DOWNLOAD_FAIL :: int where "DOWNLOAD_FAIL \<equiv> 7002"
abbreviation (input) UPGRADE_OK :: int where "UPGRADE_OK \<equiv> 7003"
abbreviation (input) UPGRADE_FAIL :: int where "UPGRADE_FAIL \<equiv> 7004"

fun find_text :: "bytes \<Rightarrow> bytes \<Rightarrow> nat option" where
  "find_text needle hay = (if take (length needle) hay = needle then Some 0
     else case hay of [] \<Rightarrow> None | _ # hay \<Rightarrow> map_option Suc (find_text needle hay))"

declare find_text.simps [simp del]

text \<open>\<open>url\<close> is the array from the address of the string on; the rest behind \<^verbatim>\<open>Signature=\<close> is encoded.\<close>

definition encode_signature :: "bytes \<Rightarrow> jd_state \<Rightarrow> (int \<times> jd_state) option" where
  "encode_signature url j = do {
     s \<leftarrow> cstr url;
     case find_text (text_of ''Signature'') s of None \<Rightarrow> Some (-1, j)
     | Some sig \<Rightarrow> do {
         let len = sig + 10;
         h \<leftarrow> rd url 0 len;
         m \<leftarrow> wr (replicate (length (ssl_tx j)) 0) 0 h;
         sg \<leftarrow> cstr (drop len url);
         (k, signature) \<leftarrow> URLEncode sg 50 (replicate 50 0);
         t \<leftarrow> cstr m;
         e \<leftarrow> cstr signature;
         m \<leftarrow> wr m (length t) (e @ [0]);
         Some (1, j\<lparr>ssl_tx := m\<rparr>)
       } }"

text \<open>The contents are written to the update area chunk by chunk; the result is the total size.\<close>

fun write_chunks :: "bytes list \<Rightarrow> nat \<Rightarrow> jd_state \<Rightarrow> nat \<times> jd_state" where
  "write_chunks [] total_size j = (total_size, jemit J_http_read j)"
| "write_chunks (c # cs) total_size j =
     write_chunks cs (total_size + length c) (jemit (J_update_write total_size c) (jemit J_http_read j))"

text \<open>The download. The second component is \<^verbatim>\<open>dl_status\<close>, \<^term>\<open>None\<close> where the function leaves it unset. The
  address is cleared before it is used.\<close>

definition Httpc_get :: "jd_sdk \<Rightarrow> bytes \<Rightarrow> jd_state \<Rightarrow> (int \<times> int option \<times> jd_state) option" where
  "Httpc_get S purl j = do {
     (rv, j) \<leftarrow> encode_signature purl j;
     if rv = -1 then Some (-1, Some DOWNLOAD_FAIL, j)
     else do {
       let j = j\<lparr>ssl_tx := replicate (length (ssl_tx j)) 0\<rparr>;
       if \<not> j_malloc S (jd_io j) \<or> \<not> j_http_parse S (jd_io j) then Some (DOWNLOAD_FAIL, None, j)
       else do {
         test_url \<leftarrow> cstr (ssl_tx j);
         let ok = j_http_open S (jd_io j);
         let j = jemit (J_http_open test_url) j;
         if \<not> ok then Some (DOWNLOAD_FAIL, None, j)
         else do {
           let j = jemit J_update_start j;
           if \<not> j_http_send S (jd_io j) \<or> \<not> j_malloc S (jd_io j) \<or> \<not> j_timer S (jd_io j) then Some (DOWNLOAD_FAIL, None, j)
           else do {
             let (total_size, j) = write_chunks (j_http_content S (jd_io j)) 0 j;
             let dl_status = (if total_size = 0 then DOWNLOAD_FAIL else DOWNLOAD_OK);
             let ok = j_update_ok S (jd_io j);
             let j = jemit (J_update_complete total_size) j;
             Some (if ok then UPGRADE_OK else UPGRADE_FAIL, Some dl_status, j)
           } } } } }"

abbreviation (input) JDCONFIG_OFFSET :: nat where "JDCONFIG_OFFSET \<equiv> 512"

definition jdNVargs_bytes :: "jdNVargs_t \<Rightarrow> bytes" where
  "jdNVargs_bytes a = nv_magic a @ feedid a @ accesskey a @ concat (iplist a) @ le16_bytes (fw_version a)"

text \<open>A text written over the connection, and the upgrade the cloud asks for.\<close>

definition ssl_write_tx :: "jd_sdk \<Rightarrow> bytes \<Rightarrow> jd_state \<Rightarrow> (int \<times> jd_state) option" where
  "ssl_write_tx S s j = do {
     j \<leftarrow> print_tx s j;
     Some (j_ssl_write S (jd_io j), jemit (J_ssl_write s) j) }"

definition JDssl_APP_upgrade :: "jd_sdk \<Rightarrow> cJSON \<Rightarrow> jd_state \<Rightarrow> jd_state option" where
  "JDssl_APP_upgrade S pRoot j = do {
     uPdate \<leftarrow> cJSON_GetObjectItem pRoot ''update'';
     fw_item \<leftarrow> cJSON_GetObjectItem uPdate ''firm_version'';
     serial \<leftarrow> cJSON_GetObjectItem pRoot ''serial'';
     dev \<leftarrow> device_text j;
     (ret, j) \<leftarrow> ssl_write_tx S (text_of ''{\"code\":105,\"result\":0,\"serial\":'' @ int_text (valueint serial) @
       text_of '',\"device\":'' @ dev @ text_of ''}}'' @ [10]) (set_network_state HF_CLO_OTA True j);
     url \<leftarrow> cJSON_GetObjectItem uPdate ''firm_url'';
     u \<leftarrow> valuestring url;
     (up_result, dl_status, j) \<leftarrow> Httpc_get S u j;
     let up_result = (if dl_status = Some DOWNLOAD_FAIL then DOWNLOAD_FAIL else up_result);
     session \<leftarrow> cJSON_GetObjectItem pRoot ''session_id'';
     sid \<leftarrow> valuestring session;
     dev \<leftarrow> device_text j;
     (ret, j) \<leftarrow> ssl_write_tx S (text_of ''{\"code\":107,\"firm_version\":'' @ int_text (valueint fw_item) @
       text_of '',\"status\":'' @ int_text up_result @ text_of '',\"session_id\":\"'' @ c_string sid @
       text_of ''\",\"device\":'' @ dev @ text_of ''}}'' @ [10]) j;
     let j = (if ret > 0 \<and> up_result = UPGRADE_OK then
                let j = j\<lparr>jdArgs := (jdArgs j)\<lparr>fw_version := of_int (valueint fw_item)\<rparr>\<rparr>
                in jemit J_reset (jemit (J_userbin_write JDCONFIG_OFFSET (jdNVargs_bytes (jdArgs j))) j)
              else j);
     Some (set_network_state HF_CLO_OTA False j) }"

subsection \<open>Control commands\<close>

text \<open>The value of a control item as text: a string is taken as it is, a number is printed with radix 25 into an
  array of 25 bytes. For other types the pointer is not set.\<close>

definition control_value :: "jd_sdk \<Rightarrow> cJSON \<Rightarrow> jd_state \<Rightarrow> bytes option" where
  "control_value S pTmp j =
     (if js_type pTmp = cJSON_String then valuestring pTmp
      else if js_type pTmp = cJSON_Number then my_itoa (valueint pTmp) (map (j_junk S (jd_io j)) [0..<25]) 25
      else None)"

definition control_item :: "jd_sdk \<Rightarrow> cJSON \<Rightarrow> jd_state \<Rightarrow> jd_state option" where
  "control_item S pItem j = do {
     pTmp \<leftarrow> cJSON_GetObjectItem pItem ''stream_id'';
     sKey \<leftarrow> valuestring pTmp;
     pTmp \<leftarrow> cJSON_GetObjectItem pItem ''current_value'';
     v \<leftarrow> control_value S pTmp j;
     w \<leftarrow> json_to_binary sKey v (fw j);
     Some (j\<lparr>fw := w\<rparr>) }"

fun control_items :: "jd_sdk \<Rightarrow> cJSON list \<Rightarrow> jd_state \<Rightarrow> jd_state option" where
  "control_items S [] j = Some j"
| "control_items S (c # cs) j = do { j \<leftarrow> control_item S c j; control_items S cs j }"

definition control_response :: "jd_sdk \<Rightarrow> cJSON \<Rightarrow> jd_state \<Rightarrow> jd_state option" where
  "control_response S pRoot j = do {
     pJatt \<leftarrow> cJSON_GetObjectItem pRoot ''attribute'';
     f \<leftarrow> cstr (feedid (jdArgs j));
     a \<leftarrow> cstr (accesskey (jdArgs j));
     r \<leftarrow> cJSON_PrintUnformatted (j_fpu S) (j_heap S (jd_io j)) pJatt;
     out \<leftarrow> r;
     let j = jemit J_json j;
     j \<leftarrow> print_tx (text_of ''{\"code\": 102,\"attribute\":'' @ out @
       text_of '',\"result\":0,\"control_resp\":\"Succeed\",\"device\":{\"feed_id\":\"'' @ f @
       text_of ''\",\"accees_key\":\"'' @ a @ text_of ''\"}}'' @ [10]) j;
     map_option snd (jdssl_send S (ssl_tx j) j) }"

definition JDCmdProcess :: "jd_sdk \<Rightarrow> bytes \<Rightarrow> jd_state \<Rightarrow> jd_state option" where
  "JDCmdProcess S pBuf j = do {
     r \<leftarrow> cJSON_Parse (j_fpu S) (j_heap S (jd_io j)) pBuf;
     pRoot \<leftarrow> r;
     let j = jemit J_json j;
     pJCode \<leftarrow> cJSON_GetObjectItem pRoot ''code'';
     let code_id = valueint pJCode;
     if code_id = 1001 then Some (set_network_state HF_CLO_CONNECTED False j)
     else if code_id = 1005 then JDssl_APP_upgrade S pRoot j
     else if code_id = 1002 then do {
       pJCon \<leftarrow> cJSON_GetObjectItem pRoot ''control'';
       j \<leftarrow> control_items S (child pJCon) j;
       control_response S pRoot j }
     else Some j }"

subsection \<open>The task\<close>

text \<open>The connection: a closed one is opened again, with the address of the first server of the list.\<close>

definition open_ssl :: "jd_sdk \<Rightarrow> jd_state \<Rightarrow> (bool \<times> jd_state) option" where
  "open_ssl S j =
     (let (closed, j) = ssl_check j
      in if \<not> closed then Some (True, j)
      else do {
        ip \<leftarrow> nth_opt (iplist (jdArgs j)) 0;
        s \<leftarrow> cstr ip;
        ssl_server \<leftarrow> wr (map (j_junk S (jd_io j)) [0..<50]) 0 s;
        (ret, j) \<leftarrow> get_ip_port S ssl_server j;
        if ret = -1 then Some (False, j)
        else do {
          url \<leftarrow> cstr (jdserver_ip j);
          let (fd, j) = tcp_connect_ssl_server S url (jdserver_port j) j;
          if fd = -1 then Some (False, j) else Some (True, ssl_connect S fd j)
        }
      })"

text \<open>What arrives is decoded in place and processed; \<^verbatim>\<open>CyaSSL_read\<close> returns at most 599 bytes.\<close>

definition jd_receive :: "jd_sdk \<Rightarrow> jd_state \<Rightarrow> jd_state option" where
  "jd_receive S j =
     (let r = j_ssl_read S (jd_io j); j = jemit J_ssl_read j
      in case r of None \<Rightarrow> Some (ssl_close j)
      | Some d \<Rightarrow> if d = [] then Some (ssl_close j)
          else do {
            m \<leftarrow> wr (ssl_rx j) 0 (d @ [0]);
            m \<leftarrow> httpdecode m False;
            let j = j\<lparr>ssl_rx := m\<rparr>;
            JDCmdProcess S m j })"

text \<open>The heart beat is sent every 35 seconds; the readings of the clock in one test are taken as one.\<close>

definition jd_heart :: "jd_sdk \<Rightarrow> jd_state \<Rightarrow> jd_state option" where
  "jd_heart S j =
     (let t = j_time S (jd_io j); j = jemit J_time j
      in if t - rhythm j \<ge> 35000 \<or> t < rhythm j \<or> rhythm j = 0 then heart_tick_report S (j\<lparr>rhythm := t\<rparr>) else Some j)"

text \<open>One turn of \<^verbatim>\<open>jdssl_thread\<close>. When the firmware update stops the task it does nothing any more.\<close>

definition jdssl_turn :: "jd_sdk \<Rightarrow> jd_state \<Rightarrow> jd_state option" where
  "jdssl_turn S j =
     (if g_u32StopJdTask (fw j) = 1 then Some j
      else if \<not> linkst_router j then Some (if linkst_cloud j then ssl_close j else j)
      else do {
        let j = (if \<not> linkst_internet j \<and> linkst_cloud j then ssl_close j else j);
        (go, j) \<leftarrow> open_ssl S j;
        if \<not> go then Some j
        else if ssl_fd j \<noteq> -1 then do {
          let ready = j_readable S (jd_io j);
          let j = jemit J_select j;
          j \<leftarrow> (if ready then jd_receive S j else Some j);
          jd_heart S j
        } else Some j })"

end
