(* ===== verification/JdSearch.thy ===== *)
theory JdSearch
  imports JdService
begin

text \<open>
  The search on the local network (\<^verbatim>\<open>src/src/jdsmart/jdudp.c\<close>): the frame around a JSON text, and the answers
  to an application that looks for devices or hands over the account. Then the runs of firmware and JD
  service together.
\<close>

subsection \<open>Packets\<close>

text \<open>\<^verbatim>\<open>common_header_t\<close> (13 bytes, packed) and \<^verbatim>\<open>cmd_header\<close> (6 bytes).\<close>

definition byte_sum :: "bytes \<Rightarrow> u8" where
  "byte_sum = sum_list"

definition PacketBuild :: "fpu \<Rightarrow> heap \<Rightarrow> bytes \<Rightarrow> u32 \<Rightarrow> cJSON \<Rightarrow> (nat \<times> bytes) option" where
  "PacketBuild F H pBuf typ root = do {
     r \<leftarrow> cJSON_PrintUnformatted F H root;
     psJson \<leftarrow> r;
     let len = length psJson + 6;
     m \<leftarrow> wr pBuf 0 (le32_bytes 0x55AA);
     m \<leftarrow> wr m 8 (le32_bytes 0);
     m \<leftarrow> wr m 13 (le32_bytes typ @ [0x4F, 0x4B]);
     m \<leftarrow> wr m 19 psJson;
     m \<leftarrow> wr m 4 (le32_bytes (of_nat len));
     d \<leftarrow> rd m 13 len;
     m \<leftarrow> wr m 12 [byte_sum d];
     Some (len + 13, m) }"

text \<open>The result is the type of the command and the JSON value, \<^term>\<open>None\<close> inside for a packet that is refused.\<close>

definition PacketAnalyse :: "fpu \<Rightarrow> heap \<Rightarrow> bytes \<Rightarrow> u32 \<Rightarrow> (u32 \<times> cJSON) option option" where
  "PacketAnalyse F H pBuf len = do {
     magic \<leftarrow> rd pBuf 0 4;
     let magic = fld32 magic 0;
     n \<leftarrow> rd pBuf 4 4;
     let n = fld32 n 0;
     if magic AND 0xFFFFFF00 = 0x30303000 then
       map_option (map_option (Pair ((magic AND 0xFF) - 0x30))) (cJSON_Parse F H (drop 4 pBuf))
     else if magic \<noteq> 0x55AA \<or> len \<noteq> n + 13 then Some None
     else do {
       d \<leftarrow> rd pBuf 13 (unat n);
       t \<leftarrow> rd pBuf 13 4;
       c \<leftarrow> nth_opt pBuf 12;
       if c \<noteq> byte_sum d then Some None
       else map_option (map_option (Pair (fld32 t 0))) (cJSON_Parse F H (drop 19 pBuf))
     } }"

subsection \<open>Answers\<close>

text \<open>The device answers within two minutes of its start and only after a successful configuration.\<close>

definition search_open :: "jd_sdk \<Rightarrow> jd_state \<Rightarrow> bool \<times> jd_state" where
  "search_open S j =
     (let smtlk = j_smtlk S (jd_io j); j = jemit J_nvm_read j;
          t = j_time S (jd_io j); j = jemit J_time j
      in if t < 120000 \<and> smtlk = 1 then (True, j) else (False, jemit (J_nvm_write 0) j))"

definition same_text :: "bytes \<Rightarrow> bytes \<Rightarrow> bool" where
  "same_text a b \<longleftrightarrow> c_string a = c_string b"

definition answer_search :: "jd_sdk \<Rightarrow> bytes \<Rightarrow> cJSON \<Rightarrow> cJSON \<Rightarrow> jd_state \<Rightarrow> (bytes \<times> jd_state) option" where
  "answer_search S rx jDevice root j = do {
     pItem \<leftarrow> cJSON_GetObjectItem jDevice ''productuuid'';
     v \<leftarrow> valuestring pItem;
     v0 \<leftarrow> nth_opt v 0;
     if \<not> same_text (JD_PROUUID j) v \<or> v0 = 0 \<or> \<not> same_text (text_of ''0'') v then do {
       f0 \<leftarrow> nth_opt (feedid (jdArgs j)) 0;
       let H = j_heap S (jd_io j);
       (root, k) \<leftarrow> cJSON_AddStringToObject H root (text_of ''feedid'' @ [0])
         (if f0 = 0 \<or> f0 = 0xFF then text_of ''0'' @ [0] else feedid (jdArgs j)) 0;
       (root, k) \<leftarrow> cJSON_AddStringToObject H root (text_of ''mac'' @ [0]) (jd_mac j) k;
       (root, k) \<leftarrow> cJSON_AddStringToObject H root (text_of ''productuuid'' @ [0]) (JD_PROUUID j) k;
       let j = jemit J_json j;
       (n, rx) \<leftarrow> PacketBuild (j_fpu S) (j_heap S (jd_io j)) rx 2 root;
       d \<leftarrow> rd rx 0 n;
       Some (rx, jemit (J_sendto d) j)
     } else Some (rx, j) }"

definition strcpy :: "bytes \<Rightarrow> bytes \<Rightarrow> bytes option" where
  "strcpy dst src = do { s \<leftarrow> cstr src; wr dst 0 (s @ [0]) }"

fun store_servers :: "cJSON list \<Rightarrow> nat \<Rightarrow> bytes list \<Rightarrow> bytes list option" where
  "store_servers [] i l = Some l"
| "store_servers (c # cs) i l = do {
     v \<leftarrow> valuestring c;
     dst \<leftarrow> nth_opt l i;
     dst \<leftarrow> strcpy dst v;
     store_servers cs (i + 1) (l[i := dst]) }"

definition store_account :: "jd_sdk \<Rightarrow> bytes \<Rightarrow> cJSON \<Rightarrow> cJSON \<Rightarrow> jd_state \<Rightarrow> (bytes \<times> jd_state) option" where
  "store_account S rx jDevice root j = do {
     let a = jdArgs j;
     i1 \<leftarrow> cJSON_GetObjectItem jDevice ''feedid'';
     v \<leftarrow> valuestring i1;
     f \<leftarrow> strcpy (feedid a) v;
     i2 \<leftarrow> cJSON_GetObjectItem jDevice ''accesskey'';
     v \<leftarrow> valuestring i2;
     k \<leftarrow> strcpy (accesskey a) v;
     i3 \<leftarrow> cJSON_GetObjectItem jDevice ''server'';
     l \<leftarrow> store_servers (child i3) 0 (iplist a);
     m \<leftarrow> wr (nv_magic a) 0 (text_of ''HF_JD'');
     let j = j\<lparr>jdArgs := a\<lparr>nv_magic := m, feedid := f, accesskey := k, iplist := l\<rparr>\<rparr>;
     let j = jemit (J_userbin_write JDCONFIG_OFFSET (jdNVargs_bytes (jdArgs j))) j;
     let H = j_heap S (jd_io j);
     (root, k) \<leftarrow> cJSON_AddNumberToObject (j_fpu S) H root (text_of ''code'' @ [0]) (f_of_int (j_fpu S) 0) 0;
     (root, k) \<leftarrow> cJSON_AddStringToObject H root (text_of ''msg'' @ [0])
       (text_of ''write feed_id and accesskey successfully!'' @ [0]) k;
     let j = jemit J_json j;
     (n, rx) \<leftarrow> PacketBuild (j_fpu S) (j_heap S (jd_io j)) rx 4 root;
     d \<leftarrow> rd rx 0 n;
     Some (rx, jemit (J_sendto d) j) }"

text \<open>\<open>rx\<close> is the 256-byte array \<^verbatim>\<open>g_u8JdRcvBuffer\<close>, of which \<open>len\<close> bytes have been received.\<close>

definition app_search_device :: "jd_sdk \<Rightarrow> bytes \<Rightarrow> u32 \<Rightarrow> jd_state \<Rightarrow> (bytes \<times> jd_state) option" where
  "app_search_device S rx len j = do {
     r \<leftarrow> PacketAnalyse (j_fpu S) (j_heap S (jd_io j)) rx len;
     let j = jemit J_json j;
     case r of None \<Rightarrow> Some (rx, j)
     | Some (typ, jDevice) \<Rightarrow> (case fst (cJSON_CreateObject (j_heap S (jd_io j)) 0) of None \<Rightarrow> Some (rx, j)
         | Some root \<Rightarrow>
             if typ = 1 then (let (ok, j) = search_open S j in if ok then answer_search S rx jDevice root j else Some (rx, j))
             else if typ = 3 then (let (ok, j) = search_open S j in if ok then store_account S rx jDevice root j else Some (rx, j))
             else Some (rx, j)) }"

subsection \<open>Network events\<close>

datatype jd_net_event = JE_STA_CONNECTED | JE_SYS sys_event

text \<open>The handler of \<^verbatim>\<open>jdsmart.c\<close> with its effect on both clouds.\<close>

definition jd_event_callback :: "sdk \<Rightarrow> jd_net_event \<Rightarrow> jd_state \<Rightarrow> jd_state option" where
  "jd_event_callback F e j = (case e of
     JE_STA_CONNECTED \<Rightarrow> Some (set_network_state HF_STA_CONNECTED True j)
   | JE_SYS e \<Rightarrow> do {
       let j = (case e of HFE_WIFI_STA_DISCONNECTED \<Rightarrow> set_network_state HF_STA_DISCONNECTED False j
                | HFE_DHCP_OK _ \<Rightarrow> set_network_state HF_DHCP_OK True j | HFE_OTHER \<Rightarrow> j);
       w \<leftarrow> hfsys_event_callback F e (fw j);
       Some (j\<lparr>fw := w\<rparr>) })"

subsection \<open>Runs\<close>

definition jd_start :: "sdk \<Rightarrow> jdNVargs_t \<Rightarrow> bytes \<Rightarrow> bytes \<Rightarrow> jd_state" where
  "jd_start F args mac uuid = \<lparr>jdArgs = args, jd_mac = mac, JD_PROUUID = uuid, jdserver_ip = replicate 20 0, jdserver_port = 0,
     linkst_router = False, linkst_internet = False, linkst_cloud = False, linkst_ota = False,
     ssl_tx = replicate 400 0, ssl_rx = replicate 600 0, ssl_fd = -1, ssl_ssl = False, ssl_ctx = False,
     connect_fail = 0, rhythm = 0, jd_io = [], fw = start F\<rparr>"

inductive jd_step :: "sdk \<Rightarrow> jd_sdk \<Rightarrow> jd_state \<Rightarrow> jd_state \<Rightarrow> bool" for F S where
  turn: "jdssl_turn S j = Some j' \<Longrightarrow> jd_step F S j j'"
| search: "length rx = 256 \<Longrightarrow> app_search_device S rx len j = Some (rx', j') \<Longrightarrow> jd_step F S j j'"
| event: "jd_event_callback F e j = Some j' \<Longrightarrow> jd_step F S j j'"
| firmware: "step F (fw j) w \<Longrightarrow> jd_step F S j (j\<lparr>fw := w\<rparr>)"

inductive jd_reach :: "sdk \<Rightarrow> jd_sdk \<Rightarrow> jd_state \<Rightarrow> bool" for F S where
  init: "jd_reach F S (jd_start F args mac uuid)"
| next_step: "jd_reach F S j \<Longrightarrow> jd_step F S j j' \<Longrightarrow> jd_reach F S j'"

end
