(* ===== verification/JdProps.thy ===== *)
theory JdProps
  imports JdSearch
begin

text \<open>
  Properties of the JD service: the packets of the local network, the link states, the runs of the
  firmware under its commands, the numbers in its commands, and the address of a download.
\<close>

subsection \<open>Packets\<close>

lemma wr_get:
  "wr m k d = Some m' \<Longrightarrow> k + length d \<le> length m \<and> length m' = length m \<and> rd m' k (length d) = Some d"
  by (auto simp: wr_def rd_def split: if_splits)

lemma wr_keep: "wr m k d = Some m' \<Longrightarrow> i + n \<le> k \<or> k + length d \<le> i \<Longrightarrow> rd m' i n = rd m i n"
  by (auto simp: wr_def rd_def min_def take_drop split: if_splits)

lemma rd_prefix: "rd m k n = Some d \<Longrightarrow> i \<le> n \<Longrightarrow> rd m k i = Some (take i d)"
  by (auto simp: rd_def min_def split: if_splits)

text \<open>C33: A packet with a JSON object that \<^verbatim>\<open>PacketBuild\<close> has put into an array is accepted by \<^verbatim>\<open>PacketAnalyse\<close>: the type
  comes back and an item for the same object, whatever the array held behind the text.\<close>

theorem packet_roundtrip:
  assumes "fpu_exact F" "heap_ok H" "json_ok (JObj ms)" "denotes F (JObj ms) root"
    and "PacketBuild F H buf typ root = Some (n, m)" "length buf < 2 ^ 32"
  shows "\<exists>root'. PacketAnalyse F H m (of_nat n) = Some (Some (typ, root')) \<and> denotes F (JObj ms) root'"
proof -
  define js where "js = json_text (JObj ms)"
  have pr: "cJSON_PrintUnformatted F H root = Some (Some js)"
    using print_json(1) [OF assms(2,1,4,3), of 0 0] by (auto simp: cJSON_PrintUnformatted_def js_def)
  define len where "len = length js + 6"
  from assms(5) obtain m1 m2 m3 m4 m5 d where
    w: "wr buf 0 (le32_bytes 0x55AA) = Some m1" "wr m1 8 (le32_bytes 0) = Some m2"
      "wr m2 13 (le32_bytes typ @ [0x4F, 0x4B]) = Some m3" "wr m3 19 js = Some m4"
      "wr m4 4 (le32_bytes (of_nat len)) = Some m5" "wr m5 12 [byte_sum d] = Some m"
    and d: "rd m5 13 len = Some d" and n: "n = len + 13"
    by (auto simp: PacketBuild_def Let_def pr len_def bind_eq_Some_conv)
  note g = w [THEN wr_get]
  have r0: "rd m 0 4 = Some (le32_bytes 0x55AA)"
    using g(1) wr_keep [OF w(2), of 0 4] wr_keep [OF w(3), of 0 4] wr_keep [OF w(4), of 0 4] wr_keep [OF w(5), of 0 4]
      wr_keep [OF w(6), of 0 4] by simp
  have r4: "rd m 4 4 = Some (le32_bytes (of_nat len))" using g(5) wr_keep [OF w(6), of 4 4] by simp
  have r13: "rd m 13 len = Some d" using d wr_keep [OF w(6), of 13 len] by simp
  have "rd m3 13 6 = Some (le32_bytes typ @ [0x4F, 0x4B])" using g(3) by simp
  from rd_prefix [OF this, of 4] have "rd m3 13 4 = Some (le32_bytes typ)" by simp
  then have rt: "rd m 13 4 = Some (le32_bytes typ)"
    using wr_keep [OF w(4), of 13 4] wr_keep [OF w(5), of 13 4] wr_keep [OF w(6), of 13 4] by simp
  have "rd m 19 (length js) = Some js"
    using g(4) wr_keep [OF w(5), of 19 "length js"] wr_keep [OF w(6), of 19 "length js"] by simp
  then have js: "drop 19 m = js @ drop (length js) (drop 19 m)"
    by (metis append_take_drop_id option.inject option.simps(3) rd_def)
  have c: "nth_opt m 12 = Some (byte_sum d)" using g(6) by (auto simp: rd_def nth_opt_def hd_drop_conv_nth take_Suc split: if_splits)
  have l: "len + 13 < 2 ^ 32" using g assms(6) d by (auto simp: rd_def len_def split: if_splits)
  then have u: "unat (of_nat len :: u32) = len" by (simp add: unat_of_nat)
  have h: "\<forall>(n, j) \<in> set ms. 0 \<notin> set n \<and> reads F H j"
    using assms(3) read_json [OF assms(1,2)] by (fastforce simp: list_all_iff)
  have "drop 0 (drop 19 m) = 0x7B # join_object False 0 (member_texts ms) @ 0x7D # drop (length js) (drop 19 m)"
    by (subst drop_0, subst js) (simp add: js_def)
  then have s: "skip (drop 19 m) 0 = Some 0" by (rule skip_stop) simp
  obtain root' k where "parse_value F H (drop 19 m) 0 1 = Some (Some (root', length js), k)" "denotes F (JObj ms) root'"
    using read_object [OF assms(2) h, of 0 "drop 19 m" "drop (length js) (drop 19 m)" 1] js by (auto simp: js_def)
  then have p: "cJSON_Parse F H (drop 19 m) = Some (Some root')" "denotes F (JObj ms) root'"
    using s assms(2) by (simp_all add: cJSON_Parse_def cJSON_ParseWithOpts_def heap_ok_def)
  have f: "fld32 (le32_bytes x) 0 = x" for x by (simp add: fld32_def le32_bytes_def)
  show ?thesis unfolding PacketAnalyse_def
    using p(2) by (simp add: r0 r4 r13 rt c u p(1) f n Let_def)
qed

text \<open>A network that answers serves the witnesses.\<close>

definition echo_sdk :: jd_sdk where
  "echo_sdk = \<lparr>j_ssl_write = \<lambda>_. 1, j_ssl_read = \<lambda>_. None, j_ssl_new = \<lambda>_. True, j_ctx_new = \<lambda>_. True, j_set_fd = \<lambda>_. 1,
     j_errno = \<lambda>_. 0, j_socket = \<lambda>_. 3, j_connect = \<lambda>_. 0, j_select = \<lambda>_. 1, j_readable = \<lambda>_. False, j_time = \<lambda>_. 0,
     j_smtlk = \<lambda>_. 1, j_sendto = \<lambda>_. 1, j_rssi = \<lambda>_. 0, j_http_parse = \<lambda>_. True, j_http_open = \<lambda>_. True,
     j_http_send = \<lambda>_. True, j_http_content = \<lambda>_. [], j_malloc = \<lambda>_. True, j_timer = \<lambda>_. True, j_update_ok = \<lambda>_. True,
     j_fpu = whole_fpu, j_heap = \<lambda>_. full_heap, j_junk = \<lambda>_ _. 0\<rparr>"

lemma packet_roundtrip_witness:
  "\<exists>m root'. PacketBuild whole_fpu full_heap (replicate 40 7) 2 (set_child [cJSON 3 None 5 5 (Some [0x61, 0]) []] (new_item 6)) = Some (26, m) \<and>
     PacketAnalyse whole_fpu full_heap m 26 = Some (Some (2, root')) \<and> denotes whole_fpu (JObj [([0x61], JNum 5)]) root'"
proof -
  let ?root = "set_child [cJSON 3 None 5 5 (Some [0x61, 0]) []] (new_item 6)"
  have d: "denotes whole_fpu (JObj [([0x61], JNum 5)]) ?root"
    by (simp add: set_child_def new_item_def holds_text_def cstr_def c_string_def whole_fpu_def)
  have o: "json_ok (JObj [([0x61], JNum 5)])" by simp
  have "length (json_text (JObj [([0x61], JNum 5)])) = 7"
    by (simp add: quoted_def escape_text_def int_text_def low_digits.simps)
  then obtain m where m: "PacketBuild whole_fpu full_heap (replicate 40 7) 2 ?root = Some (26, m)"
    using print_json(1) [OF full_ok whole_exact d o, of 0 0]
    by (auto simp: PacketBuild_def cJSON_PrintUnformatted_def wr_def rd_def simp del: json_text.simps)
  from packet_roundtrip [OF whole_exact full_ok o d m] m show ?thesis by simp
qed

subsection \<open>Links and runs\<close>

definition links_ok :: "jd_state \<Rightarrow> bool" where
  "links_ok j \<longleftrightarrow> (linkst_cloud j \<longrightarrow> linkst_internet j) \<and> (linkst_internet j \<longrightarrow> linkst_router j)"

text \<open>An operation of the service: the firmware takes steps only, the links stay consistent.\<close>

definition jd_ok :: "sdk \<Rightarrow> jd_state \<Rightarrow> jd_state \<Rightarrow> bool" where
  "jd_ok F j j' \<longleftrightarrow> (step F)\<^sup>*\<^sup>* (fw j) (fw j') \<and> (links_ok j \<longrightarrow> links_ok j')"

lemma jd_ok_refl [intro]: "jd_ok F j j"
  by (simp add: jd_ok_def)

lemma jd_ok_trans [trans]: "jd_ok F j j1 \<Longrightarrow> jd_ok F j1 j2 \<Longrightarrow> jd_ok F j j2"
  by (auto simp: jd_ok_def)

text \<open>Most operations change neither the firmware nor the links.\<close>

definition jd_same :: "jd_state \<Rightarrow> jd_state \<Rightarrow> bool" where
  "jd_same j j' \<longleftrightarrow> fw j' = fw j \<and> linkst_cloud j' = linkst_cloud j \<and> linkst_internet j' = linkst_internet j \<and>
     linkst_router j' = linkst_router j"

lemma jd_same_ok: "jd_same j j' \<Longrightarrow> jd_ok F j j'"
  by (simp add: jd_same_def jd_ok_def links_ok_def)

lemma jd_same_trans: "jd_same j j1 \<Longrightarrow> jd_same j1 j2 \<Longrightarrow> jd_same j j2"
  by (simp add: jd_same_def)

lemma jd_same_simps [simp]:
  "jd_same j j" "jd_same j (jemit e j') \<longleftrightarrow> jd_same j j'"
  "jd_same j (j'\<lparr>ssl_tx := m\<rparr>) \<longleftrightarrow> jd_same j j'" "jd_same j (j'\<lparr>ssl_rx := m\<rparr>) \<longleftrightarrow> jd_same j j'"
  "jd_same j (j'\<lparr>ssl_fd := f\<rparr>) \<longleftrightarrow> jd_same j j'" "jd_same j (j'\<lparr>ssl_ssl := b\<rparr>) \<longleftrightarrow> jd_same j j'"
  "jd_same j (j'\<lparr>ssl_ctx := b\<rparr>) \<longleftrightarrow> jd_same j j'" "jd_same j (j'\<lparr>connect_fail := n\<rparr>) \<longleftrightarrow> jd_same j j'"
  "jd_same j (j'\<lparr>rhythm := t\<rparr>) \<longleftrightarrow> jd_same j j'" "jd_same j (j'\<lparr>jdArgs := a\<rparr>) \<longleftrightarrow> jd_same j j'"
  "jd_same j (j'\<lparr>jdserver_ip := m\<rparr>) \<longleftrightarrow> jd_same j j'" "jd_same j (j'\<lparr>jdserver_port := t\<rparr>) \<longleftrightarrow> jd_same j j'"
  "jd_same j (j'\<lparr>linkst_ota := b\<rparr>) \<longleftrightarrow> jd_same j j'"
  by (simp_all add: jd_same_def jemit_def)

lemma jd_ok_network: "jd_ok F j (set_network_state s on j)" if "s \<noteq> HF_NET_CONNECTED" "s \<noteq> HF_NET_DISCONNECTED"
  using that by (cases s) (simp_all add: jd_ok_def links_ok_def)

lemma jd_ok_close: "jd_ok F j (ssl_close j)"
proof -
  obtain x where x: "ssl_close j = set_network_state HF_CLO_DISCONNECTED False x" "jd_same j x"
    by (auto simp: ssl_close_def Let_def)
  show ?thesis unfolding x(1) by (rule jd_ok_trans [OF jd_same_ok [OF x(2)] jd_ok_network]) simp_all
qed

lemma jd_ok_send_loop: "jdssl_send_loop S r d j = Some (ret, j') \<Longrightarrow> jd_ok F j j'"
proof (induction S r d j rule: jdssl_send_loop.induct)
  case (1 S r d j)
  let ?j = "jemit (J_ssl_write d) (jemit J_select j)"
  have e: "jd_ok F j (jemit J_select j)" "jd_ok F j ?j" by (simp_all add: jd_same_ok)
  have c: "jd_ok F j (ssl_close ?j)" "jd_ok F j (jemit J_softreset (ssl_close ?j))"
    using jd_ok_trans [OF e(2) jd_ok_close] jd_ok_trans [OF jd_ok_trans [OF e(2) jd_ok_close] jd_same_ok] by simp_all
  show ?case using 1 e c jd_ok_trans [OF e(2)]
    by (subst (asm) (2) jdssl_send_loop.simps) (auto simp: Let_def split: if_splits)
qed

lemma jd_ok_send: "jdssl_send S d j = Some (ret, j') \<Longrightarrow> jd_ok F j j'"
  by (auto simp: jdssl_send_def bind_eq_Some_conv dest: jd_ok_send_loop)

lemma jd_same_print: "print_tx s j = Some j' \<Longrightarrow> jd_same j j'"
  by (auto simp: print_tx_def bind_eq_Some_conv)

lemma jd_ok_print: "print_tx s j = Some j' \<Longrightarrow> jd_ok F j j'"
  by (rule jd_same_ok [OF jd_same_print])

lemma jd_ok_emit: "jd_ok F j j' \<Longrightarrow> jd_ok F j (jemit e j')"
  by (simp add: jd_ok_def jemit_def links_ok_def)

lemma jd_ok_heart: "heart_tick_report S j = Some j' \<Longrightarrow> jd_ok F j j'"
proof -
  assume a: "heart_tick_report S j = Some j'"
  then obtain s x where x: "print_tx s (jemit J_rssi j) = Some x" "x = j' \<or> (\<exists>r. jdssl_send S (ssl_tx x) x = Some (r, j'))"
    by (auto simp: heart_tick_report_def bind_eq_Some_conv Let_def split: if_splits)
  have "jd_ok F j x" by (rule jd_ok_trans [OF jd_ok_emit [OF jd_ok_refl] jd_ok_print [OF x(1)]])
  with x(2) jd_ok_send jd_ok_trans show ?thesis by blast
qed

lemma jd_same_chunks: "jd_same j (snd (write_chunks cs n j))"
proof (induction cs n j rule: write_chunks.induct)
  case (2 c cs n j)
  have "jd_same j (jemit (J_update_write n c) (jemit J_http_read j))" by simp
  from jd_same_trans [OF this 2] show ?case by simp
qed simp

lemma ens_signature: "ens (encode_signature url j) (\<lambda>(r, j'). jd_same j j')"
  by (auto simp: encode_signature_def Let_def bind_eq_Some_conv ens_def split: option.splits)

lemma ens_Httpc_get: "ens (Httpc_get S url j) (\<lambda>(r, d, j'). jd_same j j')"
  unfolding Httpc_get_def Let_def case_prod_unfold
proof (rule ens_bind [OF ens_signature], goal_cases)
  case (1 x)
  then have x: "jd_same j (snd x)" by (simp add: case_prod_unfold)
  show ?case
    by (intro ens_if ens_bind_any ens_Some) (use x in \<open>simp_all add: jd_same_trans [OF _ jd_same_chunks]\<close>)
qed

lemma ens_write: "ens (ssl_write_tx S s j) (\<lambda>(r, j'). jd_same j j')"
  by (auto simp: ssl_write_tx_def bind_eq_Some_conv ens_def dest: jd_same_print)

lemma ens_same_steps:
  assumes "jd_same j x"
  shows "ens (ssl_write_tx S s x) (\<lambda>q. jd_same j (snd q))" "ens (Httpc_get S u x) (\<lambda>q. jd_same j (snd (snd q)))"
  using ens_mono [OF ens_write] ens_mono [OF ens_Httpc_get] jd_same_trans [OF assms] by fastforce+

lemma jd_same_ota: "jd_same j (set_network_state HF_CLO_OTA on j') \<longleftrightarrow> jd_same j j'"
  by simp

lemma ens_upgrade: "ens (JDssl_APP_upgrade S root j) (jd_same j)"
  unfolding JDssl_APP_upgrade_def Let_def case_prod_unfold
proof (rule ens_bind_any, rule ens_bind_any, rule ens_bind_any, rule ens_bind_any, rule ens_bind, rule ens_same_steps(1) [where j = j], goal_cases)
  case 1
  show ?case unfolding jd_same_ota by simp
next
  case (2 a b c d x)
  show ?case
  proof (rule ens_bind_any, rule ens_bind_any, rule ens_bind, rule ens_same_steps(2) [where j = j], goal_cases)
    case 1
    show ?case by (rule 2(5))
  next
    case (2 u v y)
    show ?case
    proof (rule ens_bind_any, rule ens_bind_any, rule ens_bind_any, rule ens_bind, rule ens_same_steps(1) [where j = j], goal_cases)
      case 1
      show ?case by (rule 2(3))
    next
      case (2 p q r z)
      then show ?case by (intro ens_Some) (simp add: jd_same_ota del: set_network_state.simps)
    qed
  qed
qed

lemma jd_ok_upgrade: "JDssl_APP_upgrade S root j = Some j' \<Longrightarrow> jd_ok F j j'"
  by (rule jd_same_ok) (rule ensD [OF ens_upgrade])

lemma jd_ok_item: "control_item S c j = Some j' \<Longrightarrow> jd_ok F j j'"
proof -
  assume "control_item S c j = Some j'"
  then obtain k v w where "json_to_binary k v (fw j) = Some w" "j' = j\<lparr>fw := w\<rparr>"
    by (auto simp: control_item_def bind_eq_Some_conv)
  then show ?thesis using step.command [of k v "fw j" w F] by (auto simp: jd_ok_def links_ok_def)
qed

lemma jd_ok_items: "control_items S cs j = Some j' \<Longrightarrow> jd_ok F j j'"
proof (induction S cs j rule: control_items.induct)
  case (2 S c cs j)
  then show ?case by (auto simp: bind_eq_Some_conv intro: jd_ok_trans [OF jd_ok_item])
qed auto

lemma jd_ok_response: "control_response S root j = Some j' \<Longrightarrow> jd_ok F j j'"
proof -
  assume a: "control_response S root j = Some j'"
  then obtain s x r where "print_tx s (jemit J_json j) = Some x" "jdssl_send S (ssl_tx x) x = Some (r, j')"
    by (auto simp: control_response_def bind_eq_Some_conv)
  then show ?thesis using jd_ok_trans [OF jd_ok_emit [OF jd_ok_refl] jd_ok_trans [OF jd_ok_print jd_ok_send]] by blast
qed

lemma jd_ok_command: "JDCmdProcess S p j = Some j' \<Longrightarrow> jd_ok F j j'"
proof -
  assume a: "JDCmdProcess S p j = Some j'"
  let ?j = "jemit J_json j"
  have "jd_ok F ?j (set_network_state HF_CLO_CONNECTED False ?j)" by (rule jd_ok_network) simp_all
  then have "jd_ok F ?j j'" using a
    by (auto simp: JDCmdProcess_def bind_eq_Some_conv Let_def intro: jd_ok_upgrade jd_ok_trans [OF jd_ok_items jd_ok_response]
        split: if_splits)
  then show ?thesis by (rule jd_ok_trans [OF jd_ok_emit [OF jd_ok_refl]])
qed

lemma jd_ok_receive: "jd_receive S j = Some j' \<Longrightarrow> jd_ok F j j'"
proof -
  assume a: "jd_receive S j = Some j'"
  have e: "jd_ok F j (jemit J_ssl_read j)" by (rule jd_ok_emit) auto
  have "jd_ok F j (ssl_close (jemit J_ssl_read j))" by (rule jd_ok_trans [OF e jd_ok_close])
  moreover have "jd_ok F j ((jemit J_ssl_read j)\<lparr>ssl_rx := m\<rparr>)" for m by (rule jd_same_ok) simp
  ultimately show ?thesis using a
    by (auto simp: jd_receive_def Let_def bind_eq_Some_conv split: option.splits if_splits intro: jd_ok_trans [OF _ jd_ok_command])
qed

lemma jd_ok_open: "open_ssl S j = Some (b, j') \<Longrightarrow> jd_ok F j j'"
proof -
  assume a: "open_ssl S j = Some (b, j')"
  have c: "jd_same x (snd (ssl_check x))" for x by (simp add: ssl_check_def)
  have t: "jd_same x (snd (tcp_connect_ssl_server S u p x))" for u p x by (simp add: tcp_connect_ssl_server_def Let_def)
  have s: "jd_same x (ssl_connect S fd x)" for fd x by (simp add: ssl_connect_def Let_def)
  have g: "get_ip_port S p x = Some (r, x') \<Longrightarrow> jd_same x x'" for p x r x'
    by (auto simp: get_ip_port_def bind_eq_Some_conv Let_def split: if_splits)
  have "jd_same j j'" using a c [of j]
    by (auto simp: open_ssl_def bind_eq_Some_conv Let_def case_prod_unfold split: if_splits
        dest!: g intro: jd_same_trans jd_same_trans [OF t s] t)
  then show ?thesis by (rule jd_same_ok)
qed

lemma ens_jd_heart: "ens (jd_heart S j) (jd_ok F j)"
proof -
  have "jd_ok F j (jemit J_time j)" "jd_ok F j ((jemit J_time j)\<lparr>rhythm := t\<rparr>)" for t by (simp_all add: jd_same_ok)
  then show ?thesis unfolding jd_heart_def Let_def
    by (intro ens_if ens_Some ensI) (auto intro: jd_ok_trans [OF _ jd_ok_heart])
qed

lemma jd_ok_turn: "ens (jdssl_turn S j) (jd_ok F j)"
  unfolding jdssl_turn_def Let_def case_prod_unfold
proof (intro ens_if, goal_cases)
  case 3
  let ?j = "if \<not> linkst_internet j \<and> linkst_cloud j then ssl_close j else j"
  have j: "jd_ok F j ?j" using jd_ok_close by auto
  show ?case
  proof (rule ens_bind_any, goal_cases)
    case (1 x)
    then have x: "jd_ok F j (snd x)" using jd_ok_trans [OF j jd_ok_open] by (cases x) auto
    let ?x = "jemit J_select (snd x)"
    have e: "jd_ok F j ?x" by (rule jd_ok_emit [OF x])
    have r: "ens (if b then jd_receive S ?x else Some ?x) (jd_ok F j)" for b
      using e by (intro ens_if ens_Some ensI) (auto intro: jd_ok_trans [OF e jd_ok_receive])
    show ?case
      by (intro ens_if ens_Some x ens_bind [OF r] ens_mono [OF ens_jd_heart]) (rule jd_ok_trans)
  qed
qed (auto intro: ens_Some jd_ok_close)

lemma jd_ok_search: "app_search_device S rx len j = Some (rx', j') \<Longrightarrow> jd_ok F j j'"
proof -
  assume a: "app_search_device S rx len j = Some (rx', j')"
  have o: "jd_same x (snd (search_open S x))" for x by (simp add: search_open_def Let_def)
  have 1: "answer_search S rx d c x = Some (r, y) \<Longrightarrow> jd_same x y" for d c x r y
    by (auto simp: answer_search_def bind_eq_Some_conv Let_def split: if_splits)
  have 2: "store_account S rx d c x = Some (r, y) \<Longrightarrow> jd_same x y" for d c x r y
    by (auto simp: store_account_def bind_eq_Some_conv Let_def)
  let ?j = "jemit J_json j"
  have p: "jd_same j (snd (search_open S ?j))" using o [of ?j] by (simp add: jd_same_def jemit_def)
  have e: "ens (answer_search S rx d c (snd (search_open S ?j))) (\<lambda>q. jd_same j (snd q))"
      "ens (store_account S rx d c (snd (search_open S ?j))) (\<lambda>q. jd_same j (snd q))" for d c
    using 1 2 jd_same_trans [OF p] by (auto intro!: ensI)
  have "ens (app_search_device S rx len j) (\<lambda>q. jd_same j (snd q))"
    unfolding app_search_device_def Let_def case_prod_unfold
    by (rule ens_bind_any, split option.split, intro conjI allI impI ens_Some, simp)
      (split option.split, intro conjI allI impI ens_if e ens_Some, simp_all add: p)
  from ensD [OF this a] show ?thesis by (simp add: jd_same_ok)
qed

lemma jd_ok_event: "jd_event_callback F e j = Some j' \<Longrightarrow> jd_ok F j j'"
proof -
  assume a: "jd_event_callback F e j = Some j'"
  have n: "jd_ok F j (set_network_state s on j)" if "s \<in> {HF_STA_CONNECTED, HF_STA_DISCONNECTED, HF_DHCP_OK}" for s on
    using that by (intro jd_ok_network) auto
  have f: "hfsys_event_callback F e w = Some w' \<Longrightarrow> (step F)\<^sup>*\<^sup>* w w'" for e w w'
    by (rule r_into_rtranclp) (rule step.event)
  show ?thesis
  proof (cases e)
    case JE_STA_CONNECTED
    then show ?thesis using a n [of HF_STA_CONNECTED] by (simp add: jd_event_callback_def)
  next
    case (JE_SYS v)
    then obtain w where w: "hfsys_event_callback F v (fw j) = Some w"
      using a by (auto simp: jd_event_callback_def bind_eq_Some_conv split: sys_event.splits)
    show ?thesis using a f [OF w] w JE_SYS
      by (auto simp: jd_event_callback_def jd_ok_def links_ok_def split: sys_event.splits)
  qed
qed

lemma jd_ok_step: "jd_step F S j j' \<Longrightarrow> jd_ok F j j'"
proof (induction rule: jd_step.induct)
  case (turn j j')
  then show ?case by (rule ensD [OF jd_ok_turn])
next
  case (firmware j w)
  then show ?case by (auto simp: jd_ok_def links_ok_def)
qed (auto intro: jd_ok_search jd_ok_event)

text \<open>C31: In every state of every run of firmware and JD service together, the firmware is in a state it can
  reach by itself, a connection of the cloud implies a connection to the internet and this one a
  connection to the router.\<close>

theorem jd_reachable:
  assumes "jd_reach F S j"
  shows "reach F (fw j) \<and> (linkst_cloud j \<longrightarrow> linkst_internet j) \<and> (linkst_internet j \<longrightarrow> linkst_router j)"
proof -
  have "reach F (fw j) \<and> links_ok j" using assms
  proof (induction rule: jd_reach.induct)
    case (init args mac uuid)
    show ?case by (simp add: jd_start_def links_ok_def reach.init)
  next
    case (next_step j j')
    have "(step F)\<^sup>*\<^sup>* (fw j) w \<Longrightarrow> reach F w" for w
      by (induction rule: rtranclp_induct) (use next_step.IH in \<open>auto intro: reach.next_step\<close>)
    with jd_ok_step [OF next_step.hyps(2)] next_step.IH show ?case by (auto simp: jd_ok_def)
  qed
  then show ?thesis by (simp add: links_ok_def)
qed

lemma jd_reachable_witness:
  "\<exists>j. jd_reach quiet_sdk echo_sdk j \<and> linkst_router j \<and> reach quiet_sdk (fw j)"
proof -
  let ?j = "set_network_state HF_STA_CONNECTED True (jd_start quiet_sdk \<lparr>nv_magic = [], feedid = [], accesskey = [], iplist = [], fw_version = 0\<rparr> [] [])"
  have "jd_reach quiet_sdk echo_sdk ?j"
    by (rule jd_reach.next_step [OF jd_reach.init jd_step.event [of _ JE_STA_CONNECTED]]) (simp add: jd_event_callback_def)
  with jd_reachable [OF this] show ?thesis by (auto intro!: exI [of _ ?j])
qed

subsection \<open>Numbers in commands\<close>

text \<open>A digit of \<^verbatim>\<open>itoa_table\<close> as \<^verbatim>\<open>my_atoi\<close> reads it: the letters count from 17 on.\<close>

definition letter_value :: "nat \<Rightarrow> nat" where
  "letter_value d = (if d < 10 then d else d + 7)"

lemma itoa_table_value: "d < 36 \<Longrightarrow> itoa_table ! d \<noteq> 0 \<and> uint (itoa_table ! d) - 48 = int (letter_value d)"
proof -
  have "list_all (\<lambda>d. itoa_table ! d \<noteq> 0 \<and> uint (itoa_table ! d) - 48 = int (letter_value d)) [0..<36]"
    by (simp add: upt_rec itoa_table_def letter_value_def of_char_def)
  then show "d < 36 \<Longrightarrow> ?thesis" by (simp add: list_all_iff)
qed

text \<open>A number below 256 has one or two digits for the radix 25.\<close>

lemma number_radix_25:
  assumes "n < 256" "my_itoa (int n) m 25 = Some s" "25 \<le> length m"
  shows "my_atoi s = Some (int (10 * letter_value (n div 25) + letter_value (n mod 25)))"
proof (cases "n = 0")
  case True
  then show ?thesis using assms by (cases m; cases "tl m")
      (auto simp: my_itoa_def upd_opt_def my_atoi_def int32_def letter_value_def)
next
  case False
  have q: "n div 25 < 25" using assms(1) by (simp add: less_mult_imp_div_less)
  define ds where "ds = (if n div 25 = 0 then [n] else [n mod 25, n div 25])"
  have "low_digits 25 n = ds"
  proof (cases "n div 25 = 0")
    case True
    then show ?thesis using \<open>n \<noteq> 0\<close> by (simp add: low_digits.simps [of 25 n] low_digits.simps [of 25 0] ds_def)
  next
    case q0: False
    then show ?thesis using \<open>n \<noteq> 0\<close> q
      by (simp add: low_digits.simps [of 25 n] low_digits.simps [of 25 "n div 25"] low_digits.simps [of 25 0] ds_def)
  qed
  with my_itoa_digits [of 25 n m] False assms(2,3) have
    s: "take (Suc (length ds)) s = rev (map (\<lambda>d. itoa_table ! d) ds) @ [0]" by (auto simp: ds_def split: if_splits)
  obtain r where r: "s = rev (map (\<lambda>d. itoa_table ! d) ds) @ 0 # r"
    using append_take_drop_id [of "Suc (length ds)" s] s by (metis append.assoc append_Cons append_Nil)
  show ?thesis
  proof (cases "n div 25 = 0")
    case True
    then have n: "n < 25" by (simp add: div_eq_0_iff)
    then show ?thesis using r itoa_table_value [of n] True
      by (auto simp: ds_def my_atoi_def int32_def letter_value_def)
  next
    case q0: False
    then show ?thesis using r itoa_table_value [of "n div 25"] itoa_table_value [of "n mod 25"] q
      by (auto simp: ds_def my_atoi_def int32_def letter_value_def)
  qed
qed



subsection \<open>Sending, downloading, answering\<close>

definition ssl_writes :: "jd_state \<Rightarrow> nat" where
  "ssl_writes j = length (filter (\<lambda>e. case e of J_ssl_write _ \<Rightarrow> True | _ \<Rightarrow> False) (jd_io j))"

lemma ssl_writes_emit [simp]:
  "ssl_writes (jemit e j) = (case e of J_ssl_write _ \<Rightarrow> 1 | _ \<Rightarrow> 0) + ssl_writes j"
  by (cases e) (simp_all add: ssl_writes_def jemit_def)

lemma ssl_writes_close [simp]: "ssl_writes (ssl_close j) = ssl_writes j" "ssl_fd (ssl_close j) = -1" "\<not> linkst_cloud (ssl_close j)"
  by (simp_all add: ssl_writes_def ssl_close_def jemit_def Let_def)

lemma jemit_simps [simp]: "ssl_fd (jemit e j) = ssl_fd j" "linkst_cloud (jemit e j) = linkst_cloud j"
  by (simp_all add: jemit_def)

text \<open>A text is sent after at most two attempts; after two failures the connection is closed.\<close>

lemma jdssl_send_bounded:
  assumes "ssl_fd j \<noteq> -1" "cstr d = Some s"
  shows "\<exists>ret j'. jdssl_send S d j = Some (ret, j') \<and> ssl_writes j' \<le> ssl_writes j + 2 \<and>
    (ret \<le> 0 \<and> ssl_writes j' = ssl_writes j + 2 \<longrightarrow> ssl_fd j' = -1 \<and> \<not> linkst_cloud j')"
  using assms by (simp add: jdssl_send_def jdssl_send_loop.simps [of S 0] jdssl_send_loop.simps [of S "Suc 0"] Let_def)

text \<open>The address of a download is always empty: it is cleared after it has been encoded.\<close>

lemma Httpc_get_empty_address:
  assumes "Httpc_get S url j = Some (r, d, j')" "ssl_tx j \<noteq> []" "J_http_open u \<in> set (jd_io j')"
  shows "u = [] \<or> J_http_open u \<in> set (jd_io j)"
proof -
  let ?P = "\<lambda>x. (J_http_open u \<in> set (jd_io x) \<longrightarrow> u = [] \<or> J_http_open u \<in> set (jd_io j))"
  have e: "ens (encode_signature url j) (\<lambda>q. jd_io (snd q) = jd_io j \<and> ssl_tx (snd q) \<noteq> [])"
    using assms(2) by (auto simp: encode_signature_def Let_def bind_eq_Some_conv ens_def wr_def split: option.splits if_splits)
  have c: "?P x \<Longrightarrow> ?P (snd (write_chunks cs n x))" for cs n x
    by (induction cs n x rule: write_chunks.induct) (auto simp: jemit_def)
  have z: "cstr (replicate n 0) = Some t \<Longrightarrow> t = []" for n t
    by (cases n) (auto simp: cstr_def c_string_def)
  have "ens (Httpc_get S url j) (\<lambda>q. ?P (snd (snd q)))"
    unfolding Httpc_get_def Let_def case_prod_unfold
  proof (rule ens_bind [OF e], rule ens_if, goal_cases)
    case (1 x)
    then show ?case by (intro ens_Some) simp
  next
    case (2 x)
    then show ?case
      by (intro ens_if ens_Some ens_bind_any) (auto simp: jemit_def dest!: z intro!: c [simplified])
  qed
  from ensD [OF this assms(1)] assms(3) show ?thesis by simp
qed

text \<open>The product of the searching application does not matter: one of the comparisons with the own product and
  with \<^verbatim>\<open>0\<close> always fails.\<close>

lemma answer_any_product:
  assumes "answer_search S rx d root j = Some (rx', j')" "\<not> same_text (JD_PROUUID j) (text_of ''0'')"
  shows "\<exists>p. jd_io j' = J_sendto p # J_json # jd_io j"
proof -
  have c: "\<not> same_text (JD_PROUUID j) v \<or> v0 = 0 \<or> \<not> same_text (text_of ''0'') v" for v v0
    using assms(2) by (auto simp: same_text_def)
  show ?thesis using assms(1) unfolding answer_search_def Let_def
    by (simp only: c simp_thms if_True bind_eq_Some_conv case_prod_unfold) (auto simp: jemit_def)
qed

end
