(* ===== verification/Mpi.thy ===== *)
theory Mpi
  imports Malloc
begin

text \<open>
  The big numbers of the bundled library \<^verbatim>\<open>tropicssl\<close>, \<^verbatim>\<open>src/src/ZC/src/tropicssl/bignum.c\<close>: storage, import and
  export, shifts and comparisons. A number is a sign and a block of 32-bit limbs, the least significant first;
  the null pointer is the empty block. A function returns its \<^verbatim>\<open>int\<close>, the object it has written and the count of
  allocations; \<^term>\<open>None\<close> is undefined behaviour. Limb counts are natural numbers.
\<close>

subsection \<open>Objects and results\<close>

type_synonym limbs = "u32 list"

record mpi =
  mpi_s :: int
  mpi_p :: limbs

abbreviation mpi_n :: "mpi \<Rightarrow> nat" where "mpi_n X \<equiv> length (mpi_p X)"

type_synonym 'a mp = "(int \<times> 'a \<times> nat) option"

abbreviation (input) MPI_BAD_INPUT_DATA :: int where "MPI_BAD_INPUT_DATA \<equiv> -4"
abbreviation (input) MPI_BUFFER_TOO_SMALL :: int where "MPI_BUFFER_TOO_SMALL \<equiv> -8"
abbreviation (input) MPI_NEGATIVE_VALUE :: int where "MPI_NEGATIVE_VALUE \<equiv> -10"
abbreviation (input) MPI_DIVISION_BY_ZERO :: int where "MPI_DIVISION_BY_ZERO \<equiv> -12"
abbreviation (input) MPI_NOT_ACCEPTABLE :: int where "MPI_NOT_ACCEPTABLE \<equiv> -14"

text \<open>\<^verbatim>\<open>MPI_CHK\<close>: go on with the object a call has written, or leave the function with its error. \<open>out\<close> picks, from
  what the failed call has left, the objects that the function itself has written so far.\<close>

definition MPI_CHK :: "('a \<Rightarrow> 'b) \<Rightarrow> 'a mp \<Rightarrow> ('a \<Rightarrow> nat \<Rightarrow> 'b mp) \<Rightarrow> 'b mp" where
  "MPI_CHK out f g = do { (r, y, k) \<leftarrow> f; if r \<noteq> 0 then Some (r, out y, k) else g y k }"

text \<open>Where a function writes its result: into another object with what it holds, or into one of its operands.\<close>

datatype dest = Into mpi | InA | InB

definition dest_of :: "dest \<Rightarrow> mpi \<Rightarrow> mpi \<Rightarrow> mpi" where
  "dest_of D A B = (case D of Into X \<Rightarrow> X | InA \<Rightarrow> A | InB \<Rightarrow> B)"

definition mpi_init :: mpi where
  "mpi_init = \<lparr>mpi_s = 1, mpi_p = []\<rparr>"

definition mpi_free :: "mpi \<Rightarrow> mpi" where
  "mpi_free X = \<lparr>mpi_s = 1, mpi_p = []\<rparr>"

definition mpi_grow :: "heap \<Rightarrow> mpi \<Rightarrow> nat \<Rightarrow> nat \<Rightarrow> mpi mp" where
  "mpi_grow H X nblimbs k =
     (if mpi_n X < nblimbs then
        (case malloc H (nblimbs * 4) k of
           (None, k) \<Rightarrow> Some (1, X, k)
         | (Some _, k) \<Rightarrow> Some (0, X\<lparr>mpi_p := mpi_p X @ replicate (nblimbs - mpi_n X) 0\<rparr>, k))
      else Some (0, X, k))"

text \<open>One more than the index at which a loop downwards from \<open>i - 1\<close> finds a limb that is not zero.\<close>

fun top_limb :: "limbs \<Rightarrow> nat \<Rightarrow> nat" where
  "top_limb p 0 = 0"
| "top_limb p (Suc i) = (if p ! i \<noteq> 0 then Suc i else top_limb p i)"

definition limbs_used :: "limbs \<Rightarrow> nat" where
  "limbs_used p = top_limb p (length p)"

text \<open>The loops of \<^verbatim>\<open>mpi_copy\<close> and \<^verbatim>\<open>mpi_msb\<close> stop at the first limb.\<close>

definition limbs_kept :: "limbs \<Rightarrow> nat" where
  "limbs_kept p = (if p = [] then 0 else max 1 (limbs_used p))"

definition mpi_copy :: "heap \<Rightarrow> mpi \<Rightarrow> mpi \<Rightarrow> nat \<Rightarrow> mpi mp" where
  "mpi_copy H X Y k =
     (let i = limbs_kept (mpi_p Y)
      in MPI_CHK (\<lambda>X. X) (mpi_grow H (X\<lparr>mpi_s := mpi_s Y\<rparr>) i k) (\<lambda>X k.
           Some (0, X\<lparr>mpi_p := take i (mpi_p Y) @ replicate (mpi_n X - i) 0\<rparr>, k)))"

definition mpi_swap :: "mpi \<Rightarrow> mpi \<Rightarrow> mpi \<times> mpi" where
  "mpi_swap X Y = (Y, X)"

definition int_sign :: "int \<Rightarrow> int" where
  "int_sign z = (if z < 0 then -1 else 1)"

definition mpi_lset :: "heap \<Rightarrow> mpi \<Rightarrow> int \<Rightarrow> nat \<Rightarrow> mpi mp" where
  "mpi_lset H X z k = MPI_CHK (\<lambda>X. X) (mpi_grow H X 1 k) (\<lambda>X k.
     Some (0, \<lparr>mpi_s = int_sign z, mpi_p = word_of_int \<bar>z\<bar> # replicate (mpi_n X - 1) 0\<rparr>, k))"

text \<open>The number on the stack that stands for an \<^verbatim>\<open>int\<close>.\<close>

definition int_mpi :: "int \<Rightarrow> mpi" where
  "int_mpi z = \<lparr>mpi_s = int_sign z, mpi_p = [word_of_int \<bar>z\<bar>]\<rparr>"

subsection \<open>Sizes\<close>

definition mpi_lsb :: "mpi \<Rightarrow> nat" where
  "mpi_lsb X = (case find (\<lambda>i. bit (mpi_p X ! (i div 32)) (i mod 32)) [0..<32 * mpi_n X] of None \<Rightarrow> 0 | Some i \<Rightarrow> i)"

definition mpi_msb :: "mpi \<Rightarrow> nat option" where
  "mpi_msb X =
     (if mpi_p X = [] then None
      else let i = limbs_kept (mpi_p X) - 1
           in Some (i * 32 + (case find (bit (mpi_p X ! i)) (rev [0..<32]) of None \<Rightarrow> 0 | Some j \<Rightarrow> j + 1)))"

definition mpi_size :: "mpi \<Rightarrow> nat option" where
  "mpi_size X = do { n \<leftarrow> mpi_msb X; Some ((n + 7) div 8) }"

subsection \<open>Import and export\<close>

fun read_bytes :: "bytes \<Rightarrow> nat \<Rightarrow> limbs \<Rightarrow> limbs" where
  "read_bytes [] j p = p"
| "read_bytes (b # bs) j p =
     read_bytes bs (j + 1) (p[j div 4 := p ! (j div 4) OR push_bit (8 * (j mod 4)) (ucast b)])"

definition mpi_read_binary :: "heap \<Rightarrow> mpi \<Rightarrow> bytes \<Rightarrow> nat \<Rightarrow> mpi mp" where
  "mpi_read_binary H X buf k =
     (let b = dropWhile (\<lambda>x. x = 0) buf
      in MPI_CHK (\<lambda>X. X) (mpi_grow H X ((length b + 3) div 4) k) (\<lambda>X k.
         MPI_CHK (\<lambda>X. X) (mpi_lset H X 0 k) (\<lambda>X k.
           Some (0, X\<lparr>mpi_p := read_bytes (rev b) 0 (mpi_p X)\<rparr>, k))))"

text \<open>The return value and the buffer, which is filled from its end.\<close>

definition mpi_write_binary :: "mpi \<Rightarrow> bytes \<Rightarrow> (int \<times> bytes) option" where
  "mpi_write_binary X buf = do {
     n \<leftarrow> mpi_size X;
     if length buf < n then Some (MPI_BUFFER_TOO_SMALL, buf)
     else Some (0, rev (map (\<lambda>j. if j < n then ucast (drop_bit (8 * (j mod 4)) (mpi_p X ! (j div 4))) else 0)
            [0..<length buf])) }"

subsection \<open>Shifts\<close>

text \<open>By whole limbs, and by bits with a carry from limb to limb.\<close>

definition limbs_shl :: "nat \<Rightarrow> limbs \<Rightarrow> limbs" where
  "limbs_shl v p = take (length p) (replicate v 0 @ p)"

fun bits_shl :: "nat \<Rightarrow> u32 \<Rightarrow> limbs \<Rightarrow> limbs" where
  "bits_shl t r0 [] = []"
| "bits_shl t r0 (x # xs) = (push_bit t x OR r0) # bits_shl t (drop_bit (32 - t) x) xs"

definition limbs_shift_l :: "nat \<Rightarrow> limbs \<Rightarrow> limbs" where
  "limbs_shift_l count p =
     (let v0 = count div 32;
          t1 = count mod 32;
          p = (if v0 > 0 then limbs_shl v0 p else p)
      in if t1 > 0 then take v0 p @ bits_shl t1 0 (drop v0 p) else p)"

definition mpi_shift_l :: "heap \<Rightarrow> mpi \<Rightarrow> nat \<Rightarrow> nat \<Rightarrow> mpi mp" where
  "mpi_shift_l H X count k = do {
     n \<leftarrow> mpi_msb X;
     MPI_CHK (\<lambda>X. X) (if mpi_n X * 32 < n + count then mpi_grow H X ((n + count + 31) div 32) k else Some (0, X, k))
       (\<lambda>X k. Some (0, X\<lparr>mpi_p := limbs_shift_l count (mpi_p X)\<rparr>, k)) }"

definition limbs_shr :: "nat \<Rightarrow> limbs \<Rightarrow> limbs" where
  "limbs_shr v p = drop v p @ replicate (min v (length p)) 0"

fun bits_shr :: "nat \<Rightarrow> u32 \<Rightarrow> limbs \<Rightarrow> limbs" where
  "bits_shr t r0 [] = []"
| "bits_shr t r0 (x # xs) = (drop_bit t x OR r0) # bits_shr t (push_bit (32 - t) x) xs"

definition mpi_shift_r :: "mpi \<Rightarrow> nat \<Rightarrow> mpi" where
  "mpi_shift_r X count =
     (let v0 = count div 32;
          v1 = count mod 32;
          p = (if v0 > 0 then limbs_shr v0 (mpi_p X) else mpi_p X);
          p = (if v1 > 0 then rev (bits_shr v1 0 (rev p)) else p)
      in X\<lparr>mpi_p := p\<rparr>)"

subsection \<open>Comparison\<close>

fun cmp_limbs :: "limbs \<Rightarrow> limbs \<Rightarrow> nat \<Rightarrow> int" where
  "cmp_limbs p q 0 = 0"
| "cmp_limbs p q (Suc i) = (if p ! i > q ! i then 1 else if p ! i < q ! i then -1 else cmp_limbs p q i)"

definition mpi_cmp_abs :: "mpi \<Rightarrow> mpi \<Rightarrow> int" where
  "mpi_cmp_abs X Y =
     (let i = limbs_used (mpi_p X); j = limbs_used (mpi_p Y)
      in if i = 0 \<and> j = 0 then 0
         else if i > j then 1
         else if j > i then -1
         else cmp_limbs (mpi_p X) (mpi_p Y) i)"

definition mpi_cmp_mpi :: "mpi \<Rightarrow> mpi \<Rightarrow> int" where
  "mpi_cmp_mpi X Y =
     (let i = limbs_used (mpi_p X); j = limbs_used (mpi_p Y)
      in if i = 0 \<and> j = 0 then 0
         else if i > j then mpi_s X
         else if j > i then - mpi_s X
         else if mpi_s X > 0 \<and> mpi_s Y < 0 then 1
         else if mpi_s Y > 0 \<and> mpi_s X < 0 then -1
         else mpi_s X * cmp_limbs (mpi_p X) (mpi_p Y) i)"

definition mpi_cmp_int :: "mpi \<Rightarrow> int \<Rightarrow> int" where
  "mpi_cmp_int X z = mpi_cmp_mpi X (int_mpi z)"

end
