(* ===== verification/MpiArith.thy ===== *)
theory MpiArith
  imports Mpi
begin

text \<open>
  The arithmetic of \<^verbatim>\<open>src/src/ZC/src/tropicssl/bignum.c\<close>: addition, subtraction, multiplication with the half-limb
  core of \<^verbatim>\<open>bn_mul.h\<close> (the build has neither \<^verbatim>\<open>long long\<close> nor the inline assembler of GNU C), division and
  remainders. The objects of a call are different, unless its \<open>dest\<close> says that the result goes into an operand.
\<close>

subsection \<open>Addition and subtraction\<close>

text \<open>\<^verbatim>\<open>d += s\<close> limb by limb, the carry into the limbs behind, and what is carried out of them.\<close>

fun add_limbs :: "limbs \<Rightarrow> limbs \<Rightarrow> u32 \<Rightarrow> limbs \<times> u32" where
  "add_limbs (x # xs) (y # ys) c =
     (let x1 = x + c;
          c1 = (if x1 < c then 1 else 0);
          x2 = x1 + y;
          (r, c2) = add_limbs xs ys (c1 + (if x2 < y then 1 else 0))
      in (x2 # r, c2))"
| "add_limbs xs ys c = (xs, c)"

fun add_carry :: "limbs \<Rightarrow> u32 \<Rightarrow> limbs \<times> u32" where
  "add_carry [] c = ([], c)"
| "add_carry (x # xs) c =
     (if c = 0 then (x # xs, 0)
      else let (r, c2) = add_carry xs (if x + c < c then 1 else 0) in ((x + c) # r, c2))"

definition add_to :: "heap \<Rightarrow> mpi \<Rightarrow> mpi \<Rightarrow> nat \<Rightarrow> mpi mp" where
  "add_to H B X k =
     (let j = limbs_used (mpi_p B)
      in MPI_CHK (\<lambda>X. X) (mpi_grow H X j k) (\<lambda>X k.
         let (q, c) = add_limbs (take j (mpi_p X)) (take j (mpi_p B)) 0;
             (q', c) = add_carry (drop j (mpi_p X)) c;
             X = X\<lparr>mpi_p := q @ q'\<rparr>;
             i = mpi_n X
         in if c = 0 then Some (0, X, k)
            else MPI_CHK (\<lambda>X. X) (mpi_grow H X (i + 1) k) (\<lambda>X k.
                   Some (0, X\<lparr>mpi_p := (mpi_p X)[i := mpi_p X ! i + c]\<rparr>, k))))"

text \<open>When the result goes into \<open>B\<close>, the operands change places.\<close>

definition mpi_add_abs :: "heap \<Rightarrow> dest \<Rightarrow> mpi \<Rightarrow> mpi \<Rightarrow> nat \<Rightarrow> mpi mp" where
  "mpi_add_abs H D A B k =
     (case D of Into X \<Rightarrow> MPI_CHK (\<lambda>X. X) (mpi_copy H X A k) (add_to H B)
      | InA \<Rightarrow> add_to H B A k
      | InB \<Rightarrow> add_to H A B k)"

text \<open>\<^verbatim>\<open>mpi_sub_hlp\<close>; the loop that borrows does not look for the end of the number.\<close>

fun sub_borrow :: "limbs \<Rightarrow> u32 \<Rightarrow> limbs option" where
  "sub_borrow [] c = (if c = 0 then Some [] else None)"
| "sub_borrow (x # xs) c =
     (if c = 0 then Some (x # xs)
      else map_option (\<lambda>r. (x - c) # r) (sub_borrow xs (if x < c then 1 else 0)))"

fun mpi_sub_hlp :: "limbs \<Rightarrow> limbs \<Rightarrow> u32 \<Rightarrow> limbs option" where
  "mpi_sub_hlp [] d c = sub_borrow d c"
| "mpi_sub_hlp (y # ys) [] c = None"
| "mpi_sub_hlp (y # ys) (x # xs) c =
     (let z = (if x < c then 1 else 0);
          x1 = x - c
      in map_option (\<lambda>r. (x1 - y) # r) (mpi_sub_hlp ys xs ((if x1 < y then 1 else 0) + z)))"

definition mpi_sub_abs :: "heap \<Rightarrow> dest \<Rightarrow> mpi \<Rightarrow> mpi \<Rightarrow> nat \<Rightarrow> mpi mp" where
  "mpi_sub_abs H D A B k =
     (if mpi_cmp_abs A B < 0 then Some (MPI_NEGATIVE_VALUE, dest_of D A B, k)
      else MPI_CHK (\<lambda>_. dest_of D A B) (case D of InB \<Rightarrow> mpi_copy H mpi_init B k | _ \<Rightarrow> Some (0, B, k)) (\<lambda>TB k.
           MPI_CHK (\<lambda>X. X) (case D of InA \<Rightarrow> Some (0, A, k) | _ \<Rightarrow> mpi_copy H (dest_of D A B) A k) (\<lambda>X k.
             do { p \<leftarrow> mpi_sub_hlp (take (limbs_used (mpi_p TB)) (mpi_p TB)) (mpi_p X) 0;
                  Some (0, X\<lparr>mpi_p := p\<rparr>, k) })))"

definition swap_dest :: "dest \<Rightarrow> dest" where
  "swap_dest D = (case D of Into X \<Rightarrow> Into X | InA \<Rightarrow> InB | InB \<Rightarrow> InA)"

definition set_sign :: "int \<Rightarrow> mpi \<Rightarrow> nat \<Rightarrow> mpi mp" where
  "set_sign s X k = Some (0, X\<lparr>mpi_s := s\<rparr>, k)"

definition mpi_add_mpi :: "heap \<Rightarrow> dest \<Rightarrow> mpi \<Rightarrow> mpi \<Rightarrow> nat \<Rightarrow> mpi mp" where
  "mpi_add_mpi H D A B k =
     (let s = mpi_s A
      in if mpi_s A * mpi_s B < 0 then
           (if mpi_cmp_abs A B \<ge> 0 then MPI_CHK (\<lambda>X. X) (mpi_sub_abs H D A B k) (set_sign s)
            else MPI_CHK (\<lambda>X. X) (mpi_sub_abs H (swap_dest D) B A k) (set_sign (- s)))
         else MPI_CHK (\<lambda>X. X) (mpi_add_abs H D A B k) (set_sign s))"

definition mpi_sub_mpi :: "heap \<Rightarrow> dest \<Rightarrow> mpi \<Rightarrow> mpi \<Rightarrow> nat \<Rightarrow> mpi mp" where
  "mpi_sub_mpi H D A B k =
     (let s = mpi_s A
      in if mpi_s A * mpi_s B > 0 then
           (if mpi_cmp_abs A B \<ge> 0 then MPI_CHK (\<lambda>X. X) (mpi_sub_abs H D A B k) (set_sign s)
            else MPI_CHK (\<lambda>X. X) (mpi_sub_abs H (swap_dest D) B A k) (set_sign (- s)))
         else MPI_CHK (\<lambda>X. X) (mpi_add_abs H D A B k) (set_sign s))"

definition mpi_add_int :: "heap \<Rightarrow> dest \<Rightarrow> mpi \<Rightarrow> int \<Rightarrow> nat \<Rightarrow> mpi mp" where
  "mpi_add_int H D A b k = mpi_add_mpi H D A (int_mpi b) k"

definition mpi_sub_int :: "heap \<Rightarrow> dest \<Rightarrow> mpi \<Rightarrow> int \<Rightarrow> nat \<Rightarrow> mpi mp" where
  "mpi_sub_int H D A b k = mpi_sub_mpi H D A (int_mpi b) k"

subsection \<open>Multiplication\<close>

definition low_half :: "u32 \<Rightarrow> u32" where
  "low_half x = drop_bit 16 (push_bit 16 x)"

text \<open>\<^verbatim>\<open>MULADDC_CORE\<close>: the limb \<open>d\<close> and the carry after adding \<open>s * b\<close> and the carry \<open>c\<close>.\<close>

definition MULADDC_CORE :: "u32 \<Rightarrow> u32 \<Rightarrow> u32 \<Rightarrow> u32 \<Rightarrow> u32 \<times> u32" where
  "MULADDC_CORE s d b c =
     (let b0 = low_half b; b1 = drop_bit 16 b;
          s0 = low_half s; s1 = drop_bit 16 s;
          rx = s0 * b1; r0 = s0 * b0;
          ry = s1 * b0; r1 = s1 * b1;
          r1 = r1 + drop_bit 16 rx;
          r1 = r1 + drop_bit 16 ry;
          rx = push_bit 16 rx; ry = push_bit 16 ry;
          r0 = r0 + rx; r1 = r1 + (if r0 < rx then 1 else 0);
          r0 = r0 + ry; r1 = r1 + (if r0 < ry then 1 else 0);
          r0 = r0 + c; r1 = r1 + (if r0 < c then 1 else 0);
          r0 = r0 + d; r1 = r1 + (if r0 < d then 1 else 0)
      in (r0, r1))"

text \<open>\<^verbatim>\<open>mpi_mul_hlp\<close>, the carry loop of which runs at least once.\<close>

fun mul_carry :: "limbs \<Rightarrow> u32 \<Rightarrow> limbs option" where
  "mul_carry [] c = None"
| "mul_carry (x # xs) c =
     (if x + c < c then map_option (\<lambda>r. (x + c) # r) (mul_carry xs 1) else Some ((x + c) # xs))"

fun mpi_mul_hlp :: "limbs \<Rightarrow> limbs \<Rightarrow> u32 \<Rightarrow> u32 \<Rightarrow> limbs option" where
  "mpi_mul_hlp [] d b c = mul_carry d c"
| "mpi_mul_hlp (y # ys) [] b c = None"
| "mpi_mul_hlp (y # ys) (x # xs) b c =
     (let (r0, r1) = MULADDC_CORE y x b c
      in map_option (\<lambda>r. r0 # r) (mpi_mul_hlp ys xs b r1))"

fun mul_rows :: "limbs \<Rightarrow> limbs \<Rightarrow> nat \<Rightarrow> limbs \<Rightarrow> limbs option" where
  "mul_rows a b 0 p = Some p"
| "mul_rows a b (Suc j) p = do {
     q \<leftarrow> mpi_mul_hlp a (drop j p) (b ! j) 0;
     mul_rows a b j (take j p @ q) }"

definition mpi_mul_mpi :: "heap \<Rightarrow> dest \<Rightarrow> mpi \<Rightarrow> mpi \<Rightarrow> nat \<Rightarrow> mpi mp" where
  "mpi_mul_mpi H D A B k =
     (let X = dest_of D A B
      in MPI_CHK (\<lambda>_. X) (case D of InA \<Rightarrow> mpi_copy H mpi_init A k | _ \<Rightarrow> Some (0, A, k)) (\<lambda>A k.
         MPI_CHK (\<lambda>_. X) (case D of InB \<Rightarrow> mpi_copy H mpi_init B k | _ \<Rightarrow> Some (0, B, k)) (\<lambda>B k.
         let i = limbs_used (mpi_p A); j = limbs_used (mpi_p B)
         in MPI_CHK (\<lambda>X. X) (mpi_grow H X (i + j) k) (\<lambda>X k.
            MPI_CHK (\<lambda>X. X) (mpi_lset H X 0 k) (\<lambda>X k. do {
              p \<leftarrow> mul_rows (take i (mpi_p A)) (mpi_p B) j (mpi_p X);
              Some (0, \<lparr>mpi_s = mpi_s A * mpi_s B, mpi_p = p\<rparr>, k) })))))"

definition mpi_mul_int :: "heap \<Rightarrow> dest \<Rightarrow> mpi \<Rightarrow> u32 \<Rightarrow> nat \<Rightarrow> mpi mp" where
  "mpi_mul_int H D A b k = mpi_mul_mpi H D A \<lparr>mpi_s = 1, mpi_p = [b]\<rparr> k"

end
