(* ===== verification/MpiDiv.thy ===== *)
theory MpiDiv
  imports MpiArith
begin

text \<open>
  Division and remainders of \<^verbatim>\<open>src/src/ZC/src/tropicssl/bignum.c\<close>. The loops whose end the code does not show are
  partial functions; where they do not return, their value is \<^term>\<open>None\<close>.
\<close>

lemma MPI_CHK_mono [partial_function_mono]:
  assumes "mono_option f" "\<And>y k. mono_option (\<lambda>h. g h y k)"
  shows "mono_option (\<lambda>h. MPI_CHK out (f h) (g h))"
  unfolding MPI_CHK_def case_prod_beta
  by (intro bind_mono assms if_mono) (simp_all add: monotone_def fun_ord_def flat_ord_def)

subsection \<open>The estimate of a digit\<close>

text \<open>The loop of \<^verbatim>\<open>__udiv_qrnnd_c\<close> that corrects a half of the quotient, and the estimate from two limbs of the
  dividend and one of the divisor.\<close>

partial_function (option) div_adjust :: "u32 \<Rightarrow> u32 \<Rightarrow> u32 \<Rightarrow> u32 \<Rightarrow> (u32 \<times> u32) option" where
  "div_adjust d m q r = (if r \<ge> d \<and> r < m then div_adjust d m (q - 1) (r + d) else Some (q, r))"

definition div_half :: "u32 \<Rightarrow> u32 \<Rightarrow> u32 \<Rightarrow> (u32 \<times> u32) option" where
  "div_half d x low =
     (let d0 = low_half d; d1 = drop_bit 16 d
      in if d1 = 0 then None
         else let q = x div d1;
                  r = x - d1 * q;
                  r = push_bit 16 r OR low;
                  m = q * d0
              in do { (q, r) \<leftarrow> (if r < m then div_adjust d m (q - 1) (r + d) else Some (q, r));
                      Some (q, r - m) })"

definition udiv_qrnnd :: "u32 \<Rightarrow> u32 \<Rightarrow> u32 \<Rightarrow> u32 option" where
  "udiv_qrnnd x1 x0 d = do {
     (q1, r1) \<leftarrow> div_half d x1 (drop_bit 16 x0);
     (q0, r0) \<leftarrow> div_half d r1 (low_half x0);
     Some (push_bit 16 q1 OR q0) }"

subsection \<open>Division\<close>

text \<open>The \<^verbatim>\<open>do ... while\<close> loop that lowers a digit \<open>z\<close> until its product with the two top limbs of the divisor is
  at most the three top limbs of the dividend. \<open>T1\<close> and \<open>T2\<close> are its two numbers.\<close>

partial_function (option) div_digit ::
  "heap \<Rightarrow> u32 \<times> u32 \<Rightarrow> u32 \<times> u32 \<times> u32 \<Rightarrow> u32 \<Rightarrow> mpi \<Rightarrow> mpi \<Rightarrow> nat \<Rightarrow> (u32 \<times> mpi \<times> mpi) mp" where
  "div_digit H ys xs z T1 T2 k =
     MPI_CHK (\<lambda>T1. (z, T1, T2)) (mpi_lset H T1 0 k) (\<lambda>T1 k. do {
       p \<leftarrow> wr (mpi_p T1) 0 [fst ys, snd ys];
       MPI_CHK (\<lambda>T1. (z, T1, T2)) (mpi_mul_int H InA (T1\<lparr>mpi_p := p\<rparr>) z k) (\<lambda>T1 k.
       MPI_CHK (\<lambda>T2. (z, T1, T2)) (mpi_lset H T2 0 k) (\<lambda>T2 k. do {
         p \<leftarrow> wr (mpi_p T2) 0 [fst xs, fst (snd xs), snd (snd xs)];
         let T2 = T2\<lparr>mpi_p := p\<rparr>;
         if mpi_cmp_mpi T1 T2 > 0 then div_digit H ys xs (z - 1) T1 T2 k
         else Some (0, (z, T1, T2), k) })) })"

text \<open>The loop over the digits below the first one; \<open>c\<close> is \<^verbatim>\<open>i - t\<close>. The state is the dividend, the quotient and
  the two numbers of the inner loop.\<close>

type_synonym div_state = "mpi \<times> mpi \<times> mpi \<times> mpi"

definition div_step :: "heap \<Rightarrow> mpi \<Rightarrow> nat \<Rightarrow> nat \<Rightarrow> div_state \<Rightarrow> nat \<Rightarrow> div_state mp" where
  "div_step H Y t c = (\<lambda>(X, Z, T1, T2) k. do {
     let i = t + Suc c;
     xi \<leftarrow> nth_opt (mpi_p X) i;
     x1 \<leftarrow> nth_opt (mpi_p X) (i - 1);
     yt \<leftarrow> nth_opt (mpi_p Y) t;
     z \<leftarrow> (if xi \<ge> yt then Some (-1) else udiv_qrnnd xi x1 yt);
     y1 \<leftarrow> (if t < 1 then Some 0 else nth_opt (mpi_p Y) (t - 1));
     x2 \<leftarrow> (if i < 2 then Some 0 else nth_opt (mpi_p X) (i - 2));
     MPI_CHK (\<lambda>_. (X, Z, T1, T2)) (div_digit H (y1, yt) (x2, x1, xi) z T1 T2 k) (\<lambda>(z, T1, T2) k.
     MPI_CHK (\<lambda>_. (X, Z, T1, T2)) (mpi_mul_int H (Into T1) Y z k) (\<lambda>T1 k.
     MPI_CHK (\<lambda>_. (X, Z, T1, T2)) (mpi_shift_l H T1 (32 * c) k) (\<lambda>T1 k.
     MPI_CHK (\<lambda>X. (X, Z, T1, T2)) (mpi_sub_mpi H InA X T1 k) (\<lambda>X k.
     if mpi_cmp_int X 0 < 0 then
       MPI_CHK (\<lambda>_. (X, Z, T1, T2)) (mpi_copy H T1 Y k) (\<lambda>T1 k.
       MPI_CHK (\<lambda>_. (X, Z, T1, T2)) (mpi_shift_l H T1 (32 * c) k) (\<lambda>T1 k.
       MPI_CHK (\<lambda>X. (X, Z, T1, T2)) (mpi_add_mpi H InA X T1 k) (\<lambda>X k. do {
         p \<leftarrow> upd_opt (mpi_p Z) c (z - 1);
         Some (0, (X, Z\<lparr>mpi_p := p\<rparr>, T1, T2), k) })))
     else do {
       p \<leftarrow> upd_opt (mpi_p Z) c z;
       Some (0, (X, Z\<lparr>mpi_p := p\<rparr>, T1, T2), k) })))) })"

fun div_loop :: "heap \<Rightarrow> mpi \<Rightarrow> nat \<Rightarrow> nat \<Rightarrow> div_state \<Rightarrow> nat \<Rightarrow> div_state mp" where
  "div_loop H Y t 0 st k = Some (0, st, k)"
| "div_loop H Y t (Suc c) st k = MPI_CHK (\<lambda>st. st) (div_step H Y t c st k) (div_loop H Y t c)"

text \<open>The first digit: while \<open>X\<close> is at least \<open>Y\<close>, which has been shifted under it. The result of the subtraction is
  not looked at.\<close>

partial_function (option) div_top :: "heap \<Rightarrow> mpi \<Rightarrow> nat \<Rightarrow> mpi \<Rightarrow> mpi \<Rightarrow> nat \<Rightarrow> (mpi \<times> mpi \<times> nat) option" where
  "div_top H Y i X Z k =
     (if mpi_cmp_mpi X Y \<ge> 0 then do {
        z \<leftarrow> nth_opt (mpi_p Z) i;
        p \<leftarrow> upd_opt (mpi_p Z) i (z + 1);
        (r, X, k) \<leftarrow> mpi_sub_mpi H InA X Y k;
        div_top H Y i X (Z\<lparr>mpi_p := p\<rparr>) k }
      else Some (X, Z, k))"

text \<open>What the end of \<^verbatim>\<open>mpi_div_mpi\<close> stores: the quotient, if it is asked for, and the remainder, which may take the
  place of the dividend (\<open>R = InA\<close>). The results of the two copies are not looked at.\<close>

definition store_quotient :: "heap \<Rightarrow> mpi option \<Rightarrow> mpi \<Rightarrow> int \<Rightarrow> nat \<Rightarrow> (mpi option \<times> nat) option" where
  "store_quotient H Q Z s k =
     (case Q of None \<Rightarrow> Some (None, k)
      | Some X \<Rightarrow> do { (r, X, k) \<leftarrow> mpi_copy H X Z k; Some (Some (X\<lparr>mpi_s := s\<rparr>), k) })"

definition store_remainder :: "heap \<Rightarrow> dest option \<Rightarrow> mpi \<Rightarrow> mpi \<Rightarrow> nat \<Rightarrow> mpi \<Rightarrow> nat \<Rightarrow> (mpi option \<times> nat) option" where
  "store_remainder H R A B bits X k =
     (case R of None \<Rightarrow> Some (None, k)
      | Some D \<Rightarrow> do {
          (r, X, k) \<leftarrow> mpi_copy H (dest_of D A B) (mpi_shift_r X bits) k;
          let X = (if D = InA then X else X\<lparr>mpi_s := mpi_s A\<rparr>);
          Some (Some (if mpi_cmp_int X 0 = 0 then X\<lparr>mpi_s := 1\<rparr> else X), k) })"

text \<open>The digits of the quotient: the first one, with the divisor shifted under the dividend, and those below it.\<close>

definition div_digits :: "heap \<Rightarrow> mpi \<Rightarrow> mpi \<Rightarrow> mpi \<Rightarrow> mpi \<Rightarrow> mpi \<Rightarrow> nat \<Rightarrow> div_state mp" where
  "div_digits H X Y Z T1 T2 k =
     (let n = mpi_n X - 1; t = mpi_n Y - 1
      in do {
        (r, Y, k) \<leftarrow> mpi_shift_l H Y (32 * (n - t)) k;
        (X, Z, k) \<leftarrow> div_top H Y (n - t) X Z k;
        div_loop H (mpi_shift_r Y (32 * (n - t))) t (n - t) (X, Z, T1, T2) k })"

text \<open>The division of a number by one that is not larger.\<close>

definition div_long ::
  "heap \<Rightarrow> mpi option \<Rightarrow> dest option \<Rightarrow> mpi \<Rightarrow> mpi \<Rightarrow> nat \<Rightarrow> (mpi option \<times> mpi option) mp" where
  "div_long H Q R A B k =
     (let out = (Q, map_option (\<lambda>D. dest_of D A B) R)
      in MPI_CHK (\<lambda>_. out) (mpi_copy H mpi_init A k) (\<lambda>X k.
         MPI_CHK (\<lambda>_. out) (mpi_copy H mpi_init B k) (\<lambda>Y k.
         MPI_CHK (\<lambda>_. out) (mpi_grow H mpi_init (mpi_n A + 2) k) (\<lambda>Z k.
         MPI_CHK (\<lambda>_. out) (mpi_lset H Z 0 k) (\<lambda>Z k.
         MPI_CHK (\<lambda>_. out) (mpi_grow H mpi_init 2 k) (\<lambda>T1 k.
         MPI_CHK (\<lambda>_. out) (mpi_grow H mpi_init 3 k) (\<lambda>T2 k. do {
           let X = X\<lparr>mpi_s := 1\<rparr>;
           let Y = Y\<lparr>mpi_s := 1\<rparr>;
           m \<leftarrow> mpi_msb Y;
           let bits = 31 - m mod 32;
           MPI_CHK (\<lambda>_. out) (if bits > 0 then mpi_shift_l H X bits k else Some (0, X, k)) (\<lambda>X k.
           MPI_CHK (\<lambda>_. out) (if bits > 0 then mpi_shift_l H Y bits k else Some (0, Y, k)) (\<lambda>Y k.
           MPI_CHK (\<lambda>_. out) (div_digits H X Y Z T1 T2 k) (\<lambda>(X, Z, T1, T2) k. do {
             (Q, k) \<leftarrow> store_quotient H Q Z (mpi_s A * mpi_s B) k;
             (R, k) \<leftarrow> store_remainder H R A B bits X k;
             Some (0, (Q, R), k) }))) })))))))"

definition mpi_div_mpi ::
  "heap \<Rightarrow> mpi option \<Rightarrow> dest option \<Rightarrow> mpi \<Rightarrow> mpi \<Rightarrow> nat \<Rightarrow> (mpi option \<times> mpi option) mp" where
  "mpi_div_mpi H Q R A B k =
     (let R0 = map_option (\<lambda>D. dest_of D A B) R
      in if mpi_cmp_int B 0 = 0 then Some (MPI_DIVISION_BY_ZERO, (Q, R0), k)
      else if mpi_cmp_abs A B < 0 then
        MPI_CHK (\<lambda>Q. (Q, R0)) (case Q of None \<Rightarrow> Some (0, None, k)
            | Some X \<Rightarrow> map_option (\<lambda>(r, X, k). (r, Some X, k)) (mpi_lset H X 0 k)) (\<lambda>Q k.
        MPI_CHK (\<lambda>R. (Q, R)) (case R of None \<Rightarrow> Some (0, None, k) | Some InA \<Rightarrow> Some (0, R0, k)
            | Some D \<Rightarrow> map_option (\<lambda>(r, X, k). (r, Some X, k)) (mpi_copy H (dest_of D A B) A k)) (\<lambda>R k.
        Some (0, (Q, R), k)))
      else div_long H Q R A B k)"

definition mpi_div_int :: "heap \<Rightarrow> mpi option \<Rightarrow> dest option \<Rightarrow> mpi \<Rightarrow> int \<Rightarrow> nat \<Rightarrow> (mpi option \<times> mpi option) mp" where
  "mpi_div_int H Q R A b k = mpi_div_mpi H Q R A (int_mpi b) k"

subsection \<open>Remainders\<close>

partial_function (option) mod_up :: "heap \<Rightarrow> mpi \<Rightarrow> mpi \<Rightarrow> nat \<Rightarrow> mpi mp" where
  "mod_up H B R k =
     (if mpi_cmp_int R 0 < 0 then MPI_CHK (\<lambda>R. R) (mpi_add_mpi H InA R B k) (mod_up H B) else Some (0, R, k))"

partial_function (option) mod_down :: "heap \<Rightarrow> mpi \<Rightarrow> mpi \<Rightarrow> nat \<Rightarrow> mpi mp" where
  "mod_down H B R k =
     (if mpi_cmp_mpi R B \<ge> 0 then MPI_CHK (\<lambda>R. R) (mpi_sub_mpi H InA R B k) (mod_down H B) else Some (0, R, k))"

text \<open>\<^verbatim>\<open>mpi_mod_mpi\<close>, with the remainder in an object other than the divisor.\<close>

definition mpi_mod_mpi :: "heap \<Rightarrow> dest \<Rightarrow> mpi \<Rightarrow> mpi \<Rightarrow> nat \<Rightarrow> mpi mp" where
  "mpi_mod_mpi H D A B k =
     MPI_CHK (\<lambda>(Q, R). the R) (mpi_div_mpi H None (Some D) A B k) (\<lambda>(Q, R) k.
     MPI_CHK (\<lambda>R. R) (mod_up H B (the R) k) (mod_down H B))"

text \<open>\<^verbatim>\<open>mpi_mod_int\<close>: the remainder by half limbs, from the top.\<close>

fun mod_halves :: "u32 \<Rightarrow> limbs \<Rightarrow> u32 \<Rightarrow> u32" where
  "mod_halves b [] y = y"
| "mod_halves b (x # xs) y =
     (let y = push_bit 16 y OR drop_bit 16 x;
          z = y div b;
          y = y - z * b;
          x = push_bit 16 x;
          y = push_bit 16 y OR drop_bit 16 x;
          z = y div b;
          y = y - z * b
      in mod_halves b xs y)"

definition mpi_mod_int :: "mpi \<Rightarrow> int \<Rightarrow> (int \<times> u32) option" where
  "mpi_mod_int A b =
     (if b = 0 then Some (MPI_DIVISION_BY_ZERO, 0)
      else let b = \<bar>b\<bar>
           in if b = 1 then Some (0, 0)
              else if b = 2 then do { x \<leftarrow> nth_opt (mpi_p A) 0; Some (0, x AND 1) }
              else Some (0, mod_halves (word_of_int b) (rev (mpi_p A)) 0))"

end
