(* ===== verification/MpiMod.thy ===== *)
theory MpiMod
  imports MpiDiv
begin

text \<open>
  Modular exponentiation, greatest common divisors, inverses and the search for primes of
  \<^verbatim>\<open>src/src/ZC/src/tropicssl/bignum.c\<close>. The random numbers of \<^verbatim>\<open>f_rng\<close> are a function of the number of calls made
  so far.
\<close>

subsection \<open>Montgomery multiplication\<close>

definition montg_step :: "u32 \<Rightarrow> u32 \<Rightarrow> u32" where
  "montg_step m0 x = x * (2 - m0 * x)"

definition mpi_montg_init :: "mpi \<Rightarrow> u32 option" where
  "mpi_montg_init N = do {
     m0 \<leftarrow> nth_opt (mpi_p N) 0;
     let x = m0 + push_bit 1 ((m0 + 2) AND 4);
     let x = montg_step m0 (montg_step m0 (montg_step m0 x));
     Some (NOT x + 1) }"

text \<open>The loop over the limbs of \<open>A\<close>: the pointer \<open>d\<close> moves on by one limb each time, the limb it leaves takes the
  limb of \<open>A\<close>.\<close>

fun mont_rows :: "limbs \<Rightarrow> limbs \<Rightarrow> limbs \<Rightarrow> u32 \<Rightarrow> limbs \<Rightarrow> (limbs \<times> limbs) option" where
  "mont_rows [] b m mm d = Some ([], d)"
| "mont_rows (u0 # us) b m mm d = do {
     d0 \<leftarrow> nth_opt d 0;
     b0 \<leftarrow> nth_opt b 0;
     let u1 = (d0 + u0 * b0) * mm;
     d \<leftarrow> mpi_mul_hlp b d u0 0;
     d \<leftarrow> mpi_mul_hlp m d u1 0;
     d \<leftarrow> upd_opt (tl d) (length m + 1) 0;
     (done, d) \<leftarrow> mont_rows us b m mm d;
     Some (u0 # done, d) }"

definition mpi_montmul :: "mpi \<Rightarrow> mpi \<Rightarrow> mpi \<Rightarrow> u32 \<Rightarrow> mpi \<Rightarrow> (mpi \<times> mpi) option" where
  "mpi_montmul A B N mm T = do {
     let n = mpi_n N;
     let m = (if mpi_n B < n then mpi_n B else n);
     a \<leftarrow> rd (mpi_p A) 0 n;
     (done, d) \<leftarrow> mont_rows a (take m (mpi_p B)) (mpi_p N) mm (replicate (mpi_n T) 0);
     p \<leftarrow> memcpy (mpi_p A) 0 d (n + 1);
     let A = A\<lparr>mpi_p := p\<rparr>;
     let T = T\<lparr>mpi_p := done @ d\<rparr>;
     if mpi_cmp_abs A N \<ge> 0 then do {
       p \<leftarrow> mpi_sub_hlp (mpi_p N) (mpi_p A) 0;
       Some (A\<lparr>mpi_p := p\<rparr>, T) }
     else do {
       p \<leftarrow> mpi_sub_hlp (take n (mpi_p A)) (mpi_p T) 0;
       Some (A, T\<lparr>mpi_p := p\<rparr>) } }"

definition mpi_montred :: "mpi \<Rightarrow> mpi \<Rightarrow> u32 \<Rightarrow> mpi \<Rightarrow> (mpi \<times> mpi) option" where
  "mpi_montred A N mm T = mpi_montmul A \<lparr>mpi_s = 1, mpi_p = [1]\<rparr> N mm T"

fun mont_squares :: "nat \<Rightarrow> mpi \<Rightarrow> mpi \<Rightarrow> u32 \<Rightarrow> mpi \<Rightarrow> (mpi \<times> mpi) option" where
  "mont_squares 0 X N mm T = Some (X, T)"
| "mont_squares (Suc i) X N mm T = do { (X, T) \<leftarrow> mpi_montmul X X N mm T; mont_squares i X N mm T }"

subsection \<open>Sliding-window exponentiation\<close>

definition window_size :: "nat \<Rightarrow> nat" where
  "window_size i = (if i > 671 then 6 else if i > 239 then 5 else if i > 79 then 4 else if i > 23 then 3 else 1)"

text \<open>The table of windows: \<open>W[j]\<close> and the entries \<open>i\<close> behind it, each from the one before.\<close>

fun window_entries :: "heap \<Rightarrow> mpi \<Rightarrow> u32 \<Rightarrow> nat list \<Rightarrow> mpi list \<times> mpi \<Rightarrow> nat \<Rightarrow> (mpi list \<times> mpi) mp" where
  "window_entries H N mm [] WT k = Some (0, WT, k)"
| "window_entries H N mm (i # is) (W, T) k =
     MPI_CHK (\<lambda>_. (W, T)) (mpi_grow H (W ! i) (mpi_n N + 1) k) (\<lambda>X k.
     MPI_CHK (\<lambda>_. (W, T)) (mpi_copy H X (W ! (i - 1)) k) (\<lambda>X k. do {
       (X, T) \<leftarrow> mpi_montmul X (W ! 1) N mm T;
       window_entries H N mm is (W[i := X], T) k }))"

definition window_table :: "heap \<Rightarrow> mpi \<Rightarrow> u32 \<Rightarrow> nat \<Rightarrow> mpi list \<times> mpi \<Rightarrow> nat \<Rightarrow> (mpi list \<times> mpi) mp" where
  "window_table H N mm wsize = (\<lambda>(W, T) k.
     if wsize > 1 then
       let j = 2 ^ (wsize - 1)
       in MPI_CHK (\<lambda>_. (W, T)) (mpi_grow H (W ! j) (mpi_n N + 1) k) (\<lambda>X k.
          MPI_CHK (\<lambda>_. (W, T)) (mpi_copy H X (W ! 1) k) (\<lambda>X k. do {
            (X, T) \<leftarrow> mont_squares (wsize - 1) X N mm T;
            window_entries H N mm [j + 1..<2 ^ wsize] (W[j := X], T) k }))
     else Some (0, (W, T), k))"

text \<open>The bits of the exponent from the top, and what one of them does to the result, the number and the value of
  the bits in the window, the state and the scratch number.\<close>

definition exp_bits :: "mpi \<Rightarrow> bool list" where
  "exp_bits E = concat (map (\<lambda>x. map (bit x) (rev [0..<32])) (rev (mpi_p E)))"

type_synonym exp_state = "mpi \<times> nat \<times> nat \<times> nat \<times> mpi"

definition exp_step :: "mpi list \<Rightarrow> nat \<Rightarrow> mpi \<Rightarrow> u32 \<Rightarrow> bool \<Rightarrow> exp_state \<Rightarrow> exp_state option" where
  "exp_step W wsize N mm ei = (\<lambda>(X, nbits, wbits, state, T).
     if \<not> ei \<and> state = 0 then Some (X, nbits, wbits, state, T)
     else if \<not> ei \<and> state = 1 then do {
       (X, T) \<leftarrow> mpi_montmul X X N mm T;
       Some (X, nbits, wbits, state, T) }
     else
       let nbits = nbits + 1;
           wbits = wbits OR (if ei then push_bit (wsize - nbits) 1 else 0)
       in if nbits = wsize then do {
            (X, T) \<leftarrow> mont_squares wsize X N mm T;
            w \<leftarrow> nth_opt W wbits;
            (X, T) \<leftarrow> mpi_montmul X w N mm T;
            Some (X, 0, 0, 1, T) }
          else Some (X, nbits, wbits, 2, T))"

fun exp_run :: "mpi list \<Rightarrow> nat \<Rightarrow> mpi \<Rightarrow> u32 \<Rightarrow> bool list \<Rightarrow> exp_state \<Rightarrow> exp_state option" where
  "exp_run W wsize N mm [] st = Some st"
| "exp_run W wsize N mm (ei # bs) st = do { st \<leftarrow> exp_step W wsize N mm ei st; exp_run W wsize N mm bs st }"

fun exp_rest :: "mpi list \<Rightarrow> nat \<Rightarrow> mpi \<Rightarrow> u32 \<Rightarrow> nat \<Rightarrow> nat \<Rightarrow> mpi \<Rightarrow> mpi \<Rightarrow> (mpi \<times> mpi) option" where
  "exp_rest W wsize N mm 0 wbits X T = Some (X, T)"
| "exp_rest W wsize N mm (Suc i) wbits X T = do {
     (X, T) \<leftarrow> mpi_montmul X X N mm T;
     let wbits = push_bit 1 wbits;
     (X, T) \<leftarrow> (if bit wbits wsize then do { w \<leftarrow> nth_opt W 1; mpi_montmul X w N mm T } else Some (X, T));
     exp_rest W wsize N mm i wbits X T }"

text \<open>\<^verbatim>\<open>mpi_exp_mod\<close>: the result goes into \<open>D\<close> (another object, or \<open>A\<close>), \<open>RR\<close> keeps the square of the Montgomery factor
  for the next call, unless it is the null pointer. The results of the calls that fill the first entry of the
  table are not looked at.\<close>

definition mont_factor :: "heap \<Rightarrow> mpi option \<Rightarrow> mpi \<Rightarrow> nat \<Rightarrow> mpi mp" where
  "mont_factor H RR N k =
     (if RR = None \<or> mpi_p (the RR) = [] then
        MPI_CHK (\<lambda>_. mpi_init) (mpi_lset H mpi_init 1 k) (\<lambda>R k.
        MPI_CHK (\<lambda>_. mpi_init) (mpi_shift_l H R (mpi_n N * 2 * 32) k) (\<lambda>R k.
        MPI_CHK (\<lambda>_. mpi_init) (mpi_mod_mpi H InA R N k) (\<lambda>R k. Some (0, R, k))))
      else Some (0, the RR, k))"

definition exp_main :: "mpi \<Rightarrow> mpi \<Rightarrow> u32 \<Rightarrow> nat \<Rightarrow> mpi list \<Rightarrow> mpi \<Rightarrow> mpi \<Rightarrow> mpi option" where
  "exp_main E N mm wsize W X T = do {
     (X, nbits, wbits, state, T) \<leftarrow> exp_run W wsize N mm (exp_bits E) (X, 0, 0, 0, T);
     (X, T) \<leftarrow> exp_rest W wsize N mm nbits wbits X T;
     (X, T) \<leftarrow> mpi_montred X N mm T;
     Some X }"

definition mpi_exp_mod ::
  "heap \<Rightarrow> dest \<Rightarrow> mpi \<Rightarrow> mpi \<Rightarrow> mpi \<Rightarrow> mpi option \<Rightarrow> nat \<Rightarrow> (mpi \<times> mpi option) mp" where
  "mpi_exp_mod H D A E N RR k = do {
     n0 \<leftarrow> nth_opt (mpi_p N) 0;
     if mpi_cmp_int N 0 < 0 \<or> n0 AND 1 = 0 then Some (MPI_BAD_INPUT_DATA, (dest_of D A A, RR), k)
     else do {
       mm \<leftarrow> mpi_montg_init N;
       i \<leftarrow> mpi_msb E;
       let wsize = window_size i;
       let j = mpi_n N + 1;
       MPI_CHK (\<lambda>X. (X, RR)) (mpi_grow H (dest_of D A A) j k) (\<lambda>X k.
       let A = (case D of Into _ \<Rightarrow> A | _ \<Rightarrow> X) in
       MPI_CHK (\<lambda>_. (X, RR)) (mpi_grow H \<lparr>mpi_s = 0, mpi_p = []\<rparr> j k) (\<lambda>W1 k.
       MPI_CHK (\<lambda>_. (X, RR)) (mpi_grow H mpi_init (j * 2) k) (\<lambda>T k.
       MPI_CHK (\<lambda>_. (X, RR)) (mont_factor H RR N k) (\<lambda>O_RR k. do {
         let RR = map_option (\<lambda>_. O_RR) RR;
         (r, W1, k) \<leftarrow> (if mpi_cmp_mpi A N \<ge> 0 then mpi_mod_mpi H (Into W1) A N k else mpi_copy H W1 A k);
         (W1, T) \<leftarrow> mpi_montmul W1 O_RR N mm T;
         MPI_CHK (\<lambda>X. (X, RR)) (mpi_copy H X O_RR k) (\<lambda>X k. do {
           (X, T) \<leftarrow> mpi_montred X N mm T;
           MPI_CHK (\<lambda>_. (X, RR)) (window_table H N mm wsize ((replicate 64 \<lparr>mpi_s = 0, mpi_p = []\<rparr>)[1 := W1], T) k)
             (\<lambda>(W, T) k. do {
               X \<leftarrow> exp_main E N mm wsize W X T;
               Some (0, (X, RR), k) }) }) })))) } }"

subsection \<open>Greatest common divisor\<close>

partial_function (option) gcd_loop :: "heap \<Rightarrow> mpi \<Rightarrow> mpi \<Rightarrow> nat \<Rightarrow> mpi mp" where
  "gcd_loop H TA TB k =
     (if mpi_cmp_int TA 0 \<noteq> 0 then
        let TA = mpi_shift_r TA (mpi_lsb TA);
            TB = mpi_shift_r TB (mpi_lsb TB)
        in if mpi_cmp_mpi TA TB \<ge> 0 then
             MPI_CHK (\<lambda>_. TB) (mpi_sub_abs H InA TA TB k) (\<lambda>TA k. gcd_loop H (mpi_shift_r TA 1) TB k)
           else
             MPI_CHK (\<lambda>TB. TB) (mpi_sub_abs H InA TB TA k) (\<lambda>TB k. gcd_loop H TA (mpi_shift_r TB 1) k)
      else Some (0, TB, k))"

definition mpi_gcd :: "heap \<Rightarrow> dest \<Rightarrow> mpi \<Rightarrow> mpi \<Rightarrow> nat \<Rightarrow> mpi mp" where
  "mpi_gcd H D A B k =
     (let G = dest_of D A B
      in MPI_CHK (\<lambda>_. G) (mpi_copy H mpi_init A k) (\<lambda>TA k.
         MPI_CHK (\<lambda>_. G) (mpi_copy H mpi_init B k) (\<lambda>TB k.
         let lz = min (mpi_lsb TA) (mpi_lsb TB);
             TA = (mpi_shift_r TA lz)\<lparr>mpi_s := 1\<rparr>;
             TB = (mpi_shift_r TB lz)\<lparr>mpi_s := 1\<rparr>
         in MPI_CHK (\<lambda>_. G) (gcd_loop H TA TB k) (\<lambda>TB k.
            MPI_CHK (\<lambda>_. G) (mpi_shift_l H TB lz k) (\<lambda>TB k. mpi_copy H G TB k)))))"

subsection \<open>Modular inverse\<close>

text \<open>One of the two inner loops: \<open>U\<close> is halved while it is even, with its two coefficients.\<close>

partial_function (option) inv_halve :: "heap \<Rightarrow> mpi \<Rightarrow> mpi \<Rightarrow> mpi \<times> mpi \<times> mpi \<Rightarrow> nat \<Rightarrow> (mpi \<times> mpi \<times> mpi) mp" where
  "inv_halve H TA TB Us k =
     (let (U, U1, U2) = Us in do {
       u \<leftarrow> nth_opt (mpi_p U) 0;
       if u AND 1 = 0 then do {
         let U = mpi_shift_r U 1;
         u1 \<leftarrow> nth_opt (mpi_p U1) 0;
         u2 \<leftarrow> nth_opt (mpi_p U2) 0;
         if u1 AND 1 \<noteq> 0 \<or> u2 AND 1 \<noteq> 0 then
           MPI_CHK (\<lambda>U1. (U, U1, U2)) (mpi_add_mpi H InA U1 TB k) (\<lambda>U1 k.
           MPI_CHK (\<lambda>U2. (U, U1, U2)) (mpi_sub_mpi H InA U2 TA k) (\<lambda>U2 k.
             inv_halve H TA TB (U, mpi_shift_r U1 1, mpi_shift_r U2 1) k))
         else inv_halve H TA TB (U, mpi_shift_r U1 1, mpi_shift_r U2 1) k }
       else Some (0, Us, k) })"

definition inv_subtract :: "heap \<Rightarrow> mpi \<times> mpi \<times> mpi \<Rightarrow> mpi \<times> mpi \<times> mpi \<Rightarrow> nat \<Rightarrow> (mpi \<times> mpi \<times> mpi) mp" where
  "inv_subtract H = (\<lambda>(U, U1, U2) (V, V1, V2) k.
     MPI_CHK (\<lambda>U. (U, U1, U2)) (mpi_sub_mpi H InA U V k) (\<lambda>U k.
     MPI_CHK (\<lambda>U1. (U, U1, U2)) (mpi_sub_mpi H InA U1 V1 k) (\<lambda>U1 k.
     MPI_CHK (\<lambda>U2. (U, U1, U2)) (mpi_sub_mpi H InA U2 V2 k) (\<lambda>U2 k. Some (0, (U, U1, U2), k)))))"

partial_function (option) inv_loop ::
  "heap \<Rightarrow> mpi \<Rightarrow> mpi \<Rightarrow> mpi \<times> mpi \<times> mpi \<Rightarrow> mpi \<times> mpi \<times> mpi \<Rightarrow> nat \<Rightarrow> mpi mp" where
  "inv_loop H TA TB Us Vs k =
     MPI_CHK (\<lambda>_. fst (snd Vs)) (inv_halve H TA TB Us k) (\<lambda>Us k.
     MPI_CHK (\<lambda>Vs. fst (snd Vs)) (inv_halve H TA TB Vs k) (\<lambda>Vs k.
     if mpi_cmp_mpi (fst Us) (fst Vs) \<ge> 0 then
       MPI_CHK (\<lambda>_. fst (snd Vs)) (inv_subtract H Us Vs k) (\<lambda>Us k.
         if mpi_cmp_int (fst Us) 0 \<noteq> 0 then inv_loop H TA TB Us Vs k else Some (0, fst (snd Vs), k))
     else
       MPI_CHK (\<lambda>Vs. fst (snd Vs)) (inv_subtract H Vs Us k) (\<lambda>Vs k.
         if mpi_cmp_int (fst Us) 0 \<noteq> 0 then inv_loop H TA TB Us Vs k else Some (0, fst (snd Vs), k))))"

definition mpi_inv_mod :: "heap \<Rightarrow> dest \<Rightarrow> mpi \<Rightarrow> mpi \<Rightarrow> nat \<Rightarrow> mpi mp" where
  "mpi_inv_mod H D A N k =
     (let X = dest_of D A N in
      if mpi_cmp_int N 0 \<le> 0 then Some (MPI_BAD_INPUT_DATA, X, k)
      else MPI_CHK (\<lambda>_. X) (mpi_gcd H (Into mpi_init) A N k) (\<lambda>G k.
        if mpi_cmp_int G 1 \<noteq> 0 then Some (MPI_NOT_ACCEPTABLE, X, k)
        else
          MPI_CHK (\<lambda>_. X) (mpi_mod_mpi H (Into mpi_init) A N k) (\<lambda>TA k.
          MPI_CHK (\<lambda>_. X) (mpi_copy H mpi_init TA k) (\<lambda>TU k.
          MPI_CHK (\<lambda>_. X) (mpi_copy H mpi_init N k) (\<lambda>TB k.
          MPI_CHK (\<lambda>_. X) (mpi_copy H mpi_init N k) (\<lambda>TV k.
          MPI_CHK (\<lambda>_. X) (mpi_lset H mpi_init 1 k) (\<lambda>U1 k.
          MPI_CHK (\<lambda>_. X) (mpi_lset H mpi_init 0 k) (\<lambda>U2 k.
          MPI_CHK (\<lambda>_. X) (mpi_lset H mpi_init 0 k) (\<lambda>V1 k.
          MPI_CHK (\<lambda>_. X) (mpi_lset H mpi_init 1 k) (\<lambda>V2 k.
          MPI_CHK (\<lambda>_. X) (inv_loop H TA TB (TU, U1, U2) (TV, V1, V2) k) (\<lambda>V1 k.
          MPI_CHK (\<lambda>_. X) (mod_up H N V1 k) (\<lambda>V1 k.
          MPI_CHK (\<lambda>_. X) (mod_down H N V1 k) (\<lambda>V1 k. mpi_copy H X V1 k)))))))))))))"

end
