(* ===== verification/MpiPrime.thy ===== *)
theory MpiPrime
  imports MpiMod
begin

text \<open>
  The test for primes and the generation of primes of \<^verbatim>\<open>src/src/ZC/src/tropicssl/bignum.c\<close>. \<open>rng\<close> answers the calls
  of \<^verbatim>\<open>f_rng\<close>; a result of these functions carries the count of allocations and that of random numbers.
\<close>

definition small_prime :: "int list" where
  "small_prime =
    [3, 5, 7, 11, 13, 17, 19, 23, 29, 31, 37, 41, 43, 47, 53, 59, 61, 67, 71, 73,
     79, 83, 89, 97, 101, 103, 107, 109, 113, 127, 131, 137, 139, 149, 151, 157, 163, 167, 173, 179,
     181, 191, 193, 197, 199, 211, 223, 227, 229, 233, 239, 241, 251, 257, 263, 269, 271, 277, 281, 283,
     293, 307, 311, 313, 317, 331, 337, 347, 349, 353, 359, 367, 373, 379, 383, 389, 397, 401, 409, 419,
     421, 431, 433, 439, 443, 449, 457, 461, 463, 467, 479, 487, 491, 499, 503, 509, 521, 523, 541, 547,
     557, 563, 569, 571, 577, 587, 593, 599, 601, 607, 613, 617, 619, 631, 641, 643, 647, 653, 659, 661,
     673, 677, 683, 691, 701, 709, 719, 727, 733, 739, 743, 751, 757, 761, 769, 773, 787, 797, 809, 811,
     821, 823, 827, 829, 839, 853, 857, 859, 863, 877, 881, 883, 887, 907, 911, 919, 929, 937, 941, 947,
     953, 967, 971, 977, 983, 991, 997, -103]"

text \<open>The random bytes \<^verbatim>\<open>f_rng\<close> writes into \<open>n\<close> limbs, from its \<open>j\<close>-th call on.\<close>

definition random_limbs :: "(nat \<Rightarrow> int) \<Rightarrow> nat \<Rightarrow> nat \<Rightarrow> limbs" where
  "random_limbs rng j n =
     map (\<lambda>i. le32 (of_int (rng (j + 4 * i))) (of_int (rng (j + 4 * i + 1))) (of_int (rng (j + 4 * i + 2)))
        (of_int (rng (j + 4 * i + 3)))) [0..<n]"

text \<open>A shift to the right by an \<^verbatim>\<open>int\<close>: the division by 32 rounds towards zero, the remainder takes the low bits.\<close>

definition shift_r_int :: "mpi \<Rightarrow> int \<Rightarrow> mpi" where
  "shift_r_int X c = mpi_shift_r X (nat (if c < 0 then c mod 32 else c))"

definition set_low_bits :: "mpi \<Rightarrow> mpi option" where
  "set_low_bits A = do { x \<leftarrow> nth_opt (mpi_p A) 0; Some (A\<lparr>mpi_p := (mpi_p A)[0 := x OR 3]\<rparr>) }"

text \<open>The trial divisions: the return value of the test, or none when it goes on.\<close>

fun trial_divisions :: "mpi \<Rightarrow> int list \<Rightarrow> int option option" where
  "trial_divisions X [] = None"
| "trial_divisions X (p # ps) =
     (if p \<le> 0 then Some None
      else if mpi_cmp_int X p \<le> 0 then Some (Some 0)
      else do {
        (ret, r) \<leftarrow> mpi_mod_int X p;
        if ret \<noteq> 0 then Some (Some ret)
        else if r = 0 then Some (Some MPI_NOT_ACCEPTABLE)
        else trial_divisions X ps })"

text \<open>The loop \<^verbatim>\<open>while (j < s && ...)\<close> that squares \<open>A\<close>.\<close>

fun prime_squares :: "heap \<Rightarrow> mpi \<Rightarrow> mpi \<Rightarrow> nat \<Rightarrow> mpi \<Rightarrow> mpi \<Rightarrow> nat \<Rightarrow> (mpi \<times> mpi) mp" where
  "prime_squares H X W 0 A T k = Some (0, (A, T), k)"
| "prime_squares H X W (Suc c) A T k =
     (if mpi_cmp_mpi A W \<noteq> 0 then
        MPI_CHK (\<lambda>T. (A, T)) (mpi_mul_mpi H (Into T) A A k) (\<lambda>T k.
        MPI_CHK (\<lambda>A. (A, T)) (mpi_mod_mpi H (Into A) T X k) (\<lambda>A k.
        if mpi_cmp_int A 1 = 0 then Some (0, (A, T), k) else prime_squares H X W c A T k))
      else Some (0, (A, T), k))"

fun prime_rounds ::
  "heap \<Rightarrow> (nat \<Rightarrow> int) \<Rightarrow> mpi \<Rightarrow> mpi \<Rightarrow> mpi \<Rightarrow> nat \<Rightarrow> nat \<Rightarrow> mpi \<times> mpi \<times> mpi \<times> nat \<Rightarrow> nat \<Rightarrow> nat mp" where
  "prime_rounds H rng X W R s 0 (A, T, RR, j) k = Some (0, j, k)"
| "prime_rounds H rng X W R s (Suc c) (A, T, RR, j) k =
     MPI_CHK (\<lambda>_. j) (mpi_grow H A (mpi_n X) k) (\<lambda>A k. do {
       let A = A\<lparr>mpi_p := random_limbs rng j (mpi_n A)\<rparr>;
       let j = j + 4 * mpi_n A;
       a \<leftarrow> mpi_msb A;
       w \<leftarrow> mpi_msb W;
       A \<leftarrow> set_low_bits (shift_r_int A (int a - int w + 1));
       MPI_CHK (\<lambda>_. j) (mpi_exp_mod H InA A R X (Some RR) k) (\<lambda>(A, RR) k.
       if mpi_cmp_mpi A W = 0 \<or> mpi_cmp_int A 1 = 0 then prime_rounds H rng X W R s c (A, T, the RR, j) k
       else
         MPI_CHK (\<lambda>_. j) (prime_squares H X W (s - 1) A T k) (\<lambda>(A, T) k.
         if mpi_cmp_mpi A W \<noteq> 0 \<or> mpi_cmp_int A 1 = 0 then Some (MPI_NOT_ACCEPTABLE, j, k)
         else prime_rounds H rng X W R s c (A, T, the RR, j) k)) })"

definition prime_trials :: "nat \<Rightarrow> nat" where
  "prime_trials i =
     (if i \<ge> 1300 then 2 else if i \<ge> 850 then 3 else if i \<ge> 650 then 4 else if i \<ge> 350 then 8
      else if i \<ge> 250 then 12 else if i \<ge> 150 then 18 else 27)"

text \<open>\<^verbatim>\<open>mpi_is_prime\<close>: \<open>s\<close> is computed from \<open>W\<close> before \<open>W\<close> has got its value. The early returns leave the sign of \<open>X\<close>
  positive; the object is \<open>X\<close> with the count of random numbers.\<close>

definition mpi_is_prime :: "heap \<Rightarrow> (nat \<Rightarrow> int) \<Rightarrow> mpi \<Rightarrow> nat \<Rightarrow> nat \<Rightarrow> (mpi \<times> nat) mp" where
  "mpi_is_prime H rng X0 j k =
     (if mpi_cmp_int X0 0 = 0 then Some (0, (X0, j), k)
      else do {
        let X = X0\<lparr>mpi_s := 1\<rparr>;
        x0 \<leftarrow> nth_opt (mpi_p X) 0;
        if x0 AND 1 = 0 then Some (MPI_NOT_ACCEPTABLE, (X, j), k)
        else do {
          t \<leftarrow> trial_divisions X small_prime;
          case t of Some ret \<Rightarrow> Some (ret, (X, j), k)
          | None \<Rightarrow> do {
              let s = mpi_lsb mpi_init;
              MPI_CHK (\<lambda>_. (X0, j)) (mpi_sub_int H (Into mpi_init) X 1 k) (\<lambda>W k.
              MPI_CHK (\<lambda>_. (X0, j)) (mpi_copy H mpi_init W k) (\<lambda>R k. do {
                let R = mpi_shift_r R s;
                i \<leftarrow> mpi_msb X;
                (ret, j, k) \<leftarrow> prime_rounds H rng X W R s (prime_trials i) (mpi_init, mpi_init, mpi_init, j) k;
                Some (ret, (X0, j), k) })) } } })"

subsection \<open>Generation\<close>

partial_function (option) search_prime :: "heap \<Rightarrow> (nat \<Rightarrow> int) \<Rightarrow> mpi \<Rightarrow> nat \<Rightarrow> nat \<Rightarrow> (mpi \<times> nat) mp" where
  "search_prime H rng X j k = do {
     (ret, (X, j), k) \<leftarrow> mpi_is_prime H rng X j k;
     if ret = 0 then Some (0, (X, j), k)
     else if ret \<noteq> MPI_NOT_ACCEPTABLE then Some (ret, (X, j), k)
     else MPI_CHK (\<lambda>X. (X, j)) (mpi_add_int H InA X 2 k) (\<lambda>X k. search_prime H rng X j k) }"

partial_function (option) search_dh_prime :: "heap \<Rightarrow> (nat \<Rightarrow> int) \<Rightarrow> mpi \<Rightarrow> mpi \<Rightarrow> nat \<Rightarrow> nat \<Rightarrow> (mpi \<times> nat) mp" where
  "search_dh_prime H rng X Y j k = do {
     (ret, (X, j), k) \<leftarrow> mpi_is_prime H rng X j k;
     (ret', (Y, j), k) \<leftarrow> (if ret = 0 then mpi_is_prime H rng Y j k else Some (ret, (Y, j), k));
     if ret' = 0 then Some (0, (X, j), k)
     else if ret' \<noteq> MPI_NOT_ACCEPTABLE then Some (ret', (X, j), k)
     else
       MPI_CHK (\<lambda>_. (X, j)) (mpi_add_int H (Into Y) X 1 k) (\<lambda>Y k.
       MPI_CHK (\<lambda>X. (X, j)) (mpi_add_int H InA X 2 k) (\<lambda>X k.
         search_dh_prime H rng X (mpi_shift_r Y 1) j k)) }"

definition mpi_gen_prime :: "heap \<Rightarrow> (nat \<Rightarrow> int) \<Rightarrow> mpi \<Rightarrow> int \<Rightarrow> int \<Rightarrow> nat \<Rightarrow> nat \<Rightarrow> (mpi \<times> nat) mp" where
  "mpi_gen_prime H rng X nbits dh_flag j k =
     (if nbits < 3 then Some (MPI_BAD_INPUT_DATA, (X, j), k)
      else let bits = nat nbits in
        MPI_CHK (\<lambda>X. (X, j)) (mpi_grow H X ((bits + 31) div 32) k) (\<lambda>X k.
        MPI_CHK (\<lambda>X. (X, j)) (mpi_lset H X 0 k) (\<lambda>X k. do {
          let X = X\<lparr>mpi_p := random_limbs rng j (mpi_n X)\<rparr>;
          let j = j + 4 * mpi_n X;
          b \<leftarrow> mpi_msb X;
          MPI_CHK (\<lambda>X. (X, j)) (if b < bits then mpi_shift_l H X (bits - b) k else Some (0, X, k)) (\<lambda>X k. do {
            X \<leftarrow> set_low_bits (if b > bits then mpi_shift_r X (b - bits) else X);
            if dh_flag = 0 then search_prime H rng X j k
            else MPI_CHK (\<lambda>_. (X, j)) (mpi_sub_int H (Into mpi_init) X 1 k) (\<lambda>Y k.
                   search_dh_prime H rng X (mpi_shift_r Y 1) j k) }) })))"

end
