(* ===== verification/Rsa.thy ===== *)
theory Rsa
  imports MpiPrime
begin

text \<open>
  The RSA of the bundled library, \<^verbatim>\<open>src/src/ZC/src/tropicssl/rsa.c\<close>: the public and the private operation, the latter by
  Chinese remainders, and the padding of PKCS 1. A function returns its \<^verbatim>\<open>int\<close>, the context with the output buffer,
  and the count of allocations. \<^verbatim>\<open>rand\<close> is a function of the number of calls made so far.
  The two operations have the suffix \<open>_op\<close>, since the key records of theory \<open>State\<close> are called after them.
\<close>

record rsa_context =
  rsa_padding :: int
  rsa_hash_id :: int
  ctx_len :: nat
  ctx_N :: mpi
  ctx_E :: mpi
  ctx_D :: mpi
  ctx_P :: mpi
  ctx_Q :: mpi
  ctx_DP :: mpi
  ctx_DQ :: mpi
  ctx_QP :: mpi
  ctx_RN :: mpi
  ctx_RP :: mpi
  ctx_RQ :: mpi

abbreviation (input) RSA_PKCS_V15 :: int where "RSA_PKCS_V15 \<equiv> 0"
abbreviation (input) RSA_PUBLIC :: int where "RSA_PUBLIC \<equiv> 0"
abbreviation (input) RSA_PRIVATE :: int where "RSA_PRIVATE \<equiv> 1"
abbreviation (input) RSA_CRYPT :: u8 where "RSA_CRYPT \<equiv> 2"
abbreviation (input) RSA_BAD_INPUT_DATA :: int where "RSA_BAD_INPUT_DATA \<equiv> -0x400"
abbreviation (input) RSA_INVALID_PADDING :: int where "RSA_INVALID_PADDING \<equiv> -0x410"
abbreviation (input) RSA_PUBLIC_FAILED :: int where "RSA_PUBLIC_FAILED \<equiv> -0x440"
abbreviation (input) RSA_PRIVATE_FAILED :: int where "RSA_PRIVATE_FAILED \<equiv> -0x450"
abbreviation (input) RSA_OUTPUT_TO_LARGE :: int where "RSA_OUTPUT_TO_LARGE \<equiv> -0x470"

text \<open>\<^verbatim>\<open>rsa_init\<close> clears the context; the sign of a cleared number is 0.\<close>

definition rsa_init :: "int \<Rightarrow> int \<Rightarrow> rsa_context" where
  "rsa_init padding hash_id =
     (let z = \<lparr>mpi_s = 0, mpi_p = []\<rparr>
      in \<lparr>rsa_padding = padding, rsa_hash_id = hash_id, ctx_len = 0, ctx_N = z, ctx_E = z, ctx_D = z, ctx_P = z, ctx_Q = z,
          ctx_DP = z, ctx_DQ = z, ctx_QP = z, ctx_RN = z, ctx_RP = z, ctx_RQ = z\<rparr>)"

definition rsa_free :: "rsa_context \<Rightarrow> rsa_context" where
  "rsa_free c = c\<lparr>ctx_RQ := mpi_free (ctx_RQ c), ctx_RP := mpi_free (ctx_RP c), ctx_RN := mpi_free (ctx_RN c),
     ctx_QP := mpi_free (ctx_QP c), ctx_DQ := mpi_free (ctx_DQ c), ctx_DP := mpi_free (ctx_DP c),
     ctx_Q := mpi_free (ctx_Q c), ctx_P := mpi_free (ctx_P c), ctx_D := mpi_free (ctx_D c),
     ctx_E := mpi_free (ctx_E c), ctx_N := mpi_free (ctx_N c)\<rparr>"

text \<open>The number a function has computed goes to the first \<^verbatim>\<open>ctx->len\<close> bytes of the output.\<close>

definition write_output :: "mpi \<Rightarrow> rsa_context \<Rightarrow> bytes \<Rightarrow> nat \<Rightarrow> (rsa_context \<times> bytes) mp" where
  "write_output T c output k = do {
     b \<leftarrow> rd output 0 (ctx_len c);
     (r, b) \<leftarrow> mpi_write_binary T b;
     output \<leftarrow> wr output 0 b;
     Some (r, (c, output), k) }"

text \<open>The end of both operations: an error of the big numbers is joined to the error of the operation.\<close>

definition rsa_result :: "int \<Rightarrow> (rsa_context \<times> bytes) mp \<Rightarrow> (rsa_context \<times> bytes) mp" where
  "rsa_result failed m = do { (r, st, k) \<leftarrow> m; Some (if r \<noteq> 0 then failed OR r else 0, st, k) }"

definition rsa_public_op :: "heap \<Rightarrow> rsa_context \<Rightarrow> bytes \<Rightarrow> bytes \<Rightarrow> nat \<Rightarrow> (rsa_context \<times> bytes) mp" where
  "rsa_public_op H c input output k = do {
     b \<leftarrow> rd input 0 (ctx_len c);
     (r, T, k) \<leftarrow> mpi_read_binary H mpi_init b k;
     if r \<noteq> 0 then Some (RSA_PUBLIC_FAILED OR r, (c, output), k)
     else if mpi_cmp_mpi T (ctx_N c) \<ge> 0 then Some (RSA_BAD_INPUT_DATA, (c, output), k)
     else rsa_result RSA_PUBLIC_FAILED (
       MPI_CHK (\<lambda>(T, RR). (c\<lparr>ctx_RN := the RR\<rparr>, output)) (mpi_exp_mod H InA T (ctx_E c) (ctx_N c) (Some (ctx_RN c)) k)
         (\<lambda>(T, RR). write_output T (c\<lparr>ctx_RN := the RR\<rparr>) output)) }"

text \<open>The recombination \<open>T2 + ((T1 - T2) * QP mod P) * Q\<close>; \<open>T\<close> and \<open>T1\<close> take the intermediate results.\<close>

definition rsa_recombine :: "heap \<Rightarrow> rsa_context \<Rightarrow> mpi \<Rightarrow> mpi \<Rightarrow> mpi \<Rightarrow> nat \<Rightarrow> mpi mp" where
  "rsa_recombine H c T T1 T2 k =
     MPI_CHK (\<lambda>T. T) (mpi_sub_mpi H (Into T) T1 T2 k) (\<lambda>T k.
     MPI_CHK (\<lambda>_. T) (mpi_mul_mpi H (Into T1) T (ctx_QP c) k) (\<lambda>T1 k.
     MPI_CHK (\<lambda>T. T) (mpi_mod_mpi H (Into T) T1 (ctx_P c) k) (\<lambda>T k.
     MPI_CHK (\<lambda>_. T) (mpi_mul_mpi H (Into T1) T (ctx_Q c) k) (\<lambda>T1 k.
     mpi_add_mpi H (Into T) T2 T1 k))))"

definition rsa_private_op :: "heap \<Rightarrow> rsa_context \<Rightarrow> bytes \<Rightarrow> bytes \<Rightarrow> nat \<Rightarrow> (rsa_context \<times> bytes) mp" where
  "rsa_private_op H c input output k = do {
     b \<leftarrow> rd input 0 (ctx_len c);
     (r, T, k) \<leftarrow> mpi_read_binary H mpi_init b k;
     if r \<noteq> 0 then Some (RSA_PRIVATE_FAILED OR r, (c, output), k)
     else if mpi_cmp_mpi T (ctx_N c) \<ge> 0 then Some (RSA_BAD_INPUT_DATA, (c, output), k)
     else rsa_result RSA_PRIVATE_FAILED (
       MPI_CHK (\<lambda>(T1, RR). (c\<lparr>ctx_RP := the RR\<rparr>, output))
         (mpi_exp_mod H (Into mpi_init) T (ctx_DP c) (ctx_P c) (Some (ctx_RP c)) k) (\<lambda>(T1, RR) k.
       let c = c\<lparr>ctx_RP := the RR\<rparr> in
       MPI_CHK (\<lambda>(T2, RR). (c\<lparr>ctx_RQ := the RR\<rparr>, output))
         (mpi_exp_mod H (Into mpi_init) T (ctx_DQ c) (ctx_Q c) (Some (ctx_RQ c)) k) (\<lambda>(T2, RR) k.
       let c = c\<lparr>ctx_RQ := the RR\<rparr> in
       MPI_CHK (\<lambda>_. (c, output)) (rsa_recombine H c T T1 T2 k) (\<lambda>T. write_output T c output)))) }"

subsection \<open>Padding\<close>

text \<open>A random byte that is not zero, and \<open>n\<close> of them; \<open>j\<close> counts the calls of \<^verbatim>\<open>rand\<close>.\<close>

partial_function (option) rand_byte :: "(nat \<Rightarrow> int) \<Rightarrow> nat \<Rightarrow> (u8 \<times> nat) option" where
  "rand_byte rnd j = (if (of_int (rnd j) :: u8) = 0 then rand_byte rnd (j + 1) else Some (of_int (rnd j), j + 1))"

fun rand_bytes :: "(nat \<Rightarrow> int) \<Rightarrow> nat \<Rightarrow> nat \<Rightarrow> bytes option" where
  "rand_bytes rnd 0 j = Some []"
| "rand_bytes rnd (Suc n) j = do { (b, j) \<leftarrow> rand_byte rnd j; bs \<leftarrow> rand_bytes rnd n j; Some (b # bs) }"

definition pkcs1_encrypt ::
  "heap \<Rightarrow> (nat \<Rightarrow> int) \<Rightarrow> rsa_context \<Rightarrow> int \<Rightarrow> int \<Rightarrow> bytes \<Rightarrow> bytes \<Rightarrow> nat \<Rightarrow> (rsa_context \<times> bytes) mp" where
  "pkcs1_encrypt H rnd c mode ilen input output k =
     (if rsa_padding c \<noteq> RSA_PKCS_V15 then Some (RSA_INVALID_PADDING, (c, output), k)
      else if ilen < 0 \<or> int (ctx_len c) < ilen + 11 then Some (RSA_BAD_INPUT_DATA, (c, output), k)
      else do {
        pad \<leftarrow> rand_bytes rnd (ctx_len c - 3 - nat ilen) 0;
        m \<leftarrow> rd input 0 (nat ilen);
        output \<leftarrow> wr output 0 ([0, RSA_CRYPT] @ pad @ [0] @ m);
        if mode = RSA_PUBLIC then rsa_public_op H c output output k else rsa_private_op H c output output k })"

text \<open>The position of the byte behind the padding, which the loop looks for from \<open>i\<close> on in the first \<open>n\<close> bytes.\<close>

function padding_end :: "bytes \<Rightarrow> nat \<Rightarrow> nat \<Rightarrow> nat option option" where
  "padding_end buf n i = do {
     x \<leftarrow> nth_opt buf i;
     if x = 0 then Some (Some (i + 1))
     else if n \<le> i + 1 then Some None
     else padding_end buf n (i + 1) }"
  by pat_completeness auto
termination by (relation "measure (\<lambda>(buf, n, i). n - i)") auto

declare padding_end.simps [simp del]

definition pkcs1_decrypt ::
  "heap \<Rightarrow> rsa_context \<Rightarrow> int \<Rightarrow> int \<Rightarrow> bytes \<Rightarrow> bytes \<Rightarrow> int \<Rightarrow> bytes \<Rightarrow> nat \<Rightarrow> (rsa_context \<times> int \<times> bytes \<times> bytes) mp" where
  "pkcs1_decrypt H c mode olen input output output_max_len buf k =
     (let ilen = ctx_len c in
      if ilen < 16 \<or> length buf < ilen then Some (RSA_BAD_INPUT_DATA, (c, olen, output, buf), k)
      else do {
        (r, (c, buf), k) \<leftarrow> (if mode = RSA_PUBLIC then rsa_public_op H c input buf k else rsa_private_op H c input buf k);
        if r \<noteq> 0 then Some (r, (c, olen, output, buf), k)
        else if rsa_padding c \<noteq> RSA_PKCS_V15 then Some (RSA_INVALID_PADDING, (c, olen, output, buf), k)
        else do {
          b0 \<leftarrow> nth_opt buf 0;
          b1 \<leftarrow> nth_opt buf 1;
          if b0 \<noteq> 0 \<or> b1 \<noteq> RSA_CRYPT then Some (RSA_INVALID_PADDING, (c, olen, output, buf), k)
          else do {
            e \<leftarrow> padding_end buf ilen 2;
            case e of None \<Rightarrow> Some (RSA_INVALID_PADDING, (c, olen, output, buf), k)
            | Some p \<Rightarrow>
                if int ilen - int p > output_max_len then Some (RSA_OUTPUT_TO_LARGE, (c, olen, output, buf), k)
                else do {
                  m \<leftarrow> rd buf p (ilen - p);
                  output \<leftarrow> wr output 0 m;
                  Some (0, (c, int (ilen - p), output, buf), k) } } } })"

end
