(* ===== verification/MpiValue.thy ===== *)
theory MpiValue
  imports Rsa
begin

text \<open>
  The value of a number, and what storage, import, export, shifts and comparisons do to it. \<open>returns m P\<close> says that a
  call succeeds with an object that satisfies \<open>P\<close>; its rules follow \<open>MPI_CHK\<close>.
\<close>

subsection \<open>Values\<close>

definition wbase :: nat where "wbase = 2 ^ 32"

fun val :: "limbs \<Rightarrow> nat" where
  "val [] = 0"
| "val (x # xs) = unat x + wbase * val xs"

definition mpi_abs :: "mpi \<Rightarrow> nat" where
  "mpi_abs X = val (mpi_p X)"

definition mpi_val :: "mpi \<Rightarrow> int" where
  "mpi_val X = mpi_s X * int (mpi_abs X)"

definition sign_ok :: "mpi \<Rightarrow> bool" where
  "sign_ok X \<longleftrightarrow> mpi_s X = 1 \<or> mpi_s X = -1"

lemma wbase_pos [simp]: "0 < wbase" "wbase \<noteq> 0"
  by (simp_all add: wbase_def)

lemma unat_lt_wbase [simp]: "unat (x :: u32) < wbase"
  using unat_u32_lt [of x] by (simp add: wbase_def)

lemma val_append: "val (p @ q) = val p + wbase ^ length p * val q"
  by (induction p) (simp_all add: algebra_simps)

lemma val_zeros [simp]: "val (replicate n 0) = 0"
  by (induction n) simp_all

lemma val_lt: "val p < wbase ^ length p"
proof (induction p)
  case (Cons x xs)
  have "unat x + wbase * val xs < wbase + wbase * val xs" by simp
  also have "\<dots> = wbase * Suc (val xs)" by simp
  also have "\<dots> \<le> wbase * wbase ^ length xs" using Cons by (intro mult_le_mono2) simp
  finally show ?case by simp
qed simp

lemma val_split: "n \<le> length p \<Longrightarrow> val p = val (take n p) + wbase ^ n * val (drop n p)"
  using val_append [of "take n p" "drop n p"] by simp

lemma val_eq_0: "val p = 0 \<longleftrightarrow> (\<forall>x \<in> set p. x = 0)"
  by (induction p) (auto simp: unat_eq_0)

lemma val_pad [simp]: "val (p @ replicate n 0) = val p"
  by (simp add: val_append)

lemma top_limb_le: "top_limb p i \<le> i"
  by (induction i) auto

lemma top_limb_zeros: "top_limb p i \<le> j \<Longrightarrow> j < i \<Longrightarrow> p ! j = 0"
  by (induction i) (auto simp: less_Suc_eq split: if_splits)

lemma top_limb_nonzero: "top_limb p i = Suc j \<Longrightarrow> p ! j \<noteq> 0"
  by (induction i) (auto split: if_splits)

lemma limbs_used_le [simp]: "limbs_used p \<le> length p"
  by (simp add: limbs_used_def top_limb_le)

lemma val_used: "val (take (limbs_used p) p) = val p"
proof -
  have "val (drop (limbs_used p) p) = 0"
    using top_limb_zeros [of p "length p"]
    by (auto simp: val_eq_0 in_set_conv_nth limbs_used_def)
  then show ?thesis using val_split [of "limbs_used p" p] by simp
qed

lemma val_used_more: "limbs_used p \<le> n \<Longrightarrow> val (take n p) = val p"
  using val_used [of p] val_split [of "limbs_used p" "take n p"] val_split [of "limbs_used p" p]
  by (cases "n \<le> length p") (auto simp: min_def val_split)

lemma val_used_ge: "limbs_used p = Suc i \<Longrightarrow> wbase ^ i \<le> val p"
proof -
  assume u: "limbs_used p = Suc i"
  then have i: "i < length p" using limbs_used_le [of p] by simp
  have "p ! i \<noteq> 0" using u top_limb_nonzero by (auto simp: limbs_used_def)
  then have "1 \<le> unat (p ! i)" by (simp add: unat_gt_0 Suc_le_eq)
  then have "wbase ^ i \<le> wbase ^ i * unat (p ! i)" by simp
  also have "\<dots> \<le> val p"
    using val_split [of i p] i by (simp add: Cons_nth_drop_Suc [symmetric] distrib_left)
  finally show ?thesis .
qed

lemma wbase_power_mono: "i \<le> j \<Longrightarrow> wbase ^ i \<le> wbase ^ j"
  by (rule power_increasing) (simp_all add: Suc_leI)

lemma limbs_used_0 [simp]: "limbs_used p = 0 \<longleftrightarrow> val p = 0"
proof
  assume "limbs_used p = 0"
  then show "val p = 0" using val_used [of p] by simp
next
  assume "val p = 0"
  then show "limbs_used p = 0" using val_used_ge [of p "limbs_used p - 1"] by (cases "limbs_used p") auto
qed

lemma val_used_lt: "val p < wbase ^ limbs_used p"
  using val_lt [of "take (limbs_used p) p"] by (simp add: val_used)

lemma limbs_used_iff: "limbs_used p \<le> n \<longleftrightarrow> val p < wbase ^ n"
proof
  assume "limbs_used p \<le> n"
  from less_le_trans [OF val_used_lt wbase_power_mono [OF this]] show "val p < wbase ^ n" .
next
  assume v: "val p < wbase ^ n"
  show "limbs_used p \<le> n"
  proof (rule ccontr)
    assume "\<not> limbs_used p \<le> n"
    then obtain i where i: "limbs_used p = Suc i" "n \<le> i" by (cases "limbs_used p") auto
    from le_trans [OF wbase_power_mono [OF i(2)] val_used_ge [OF i(1)]] v show False by simp
  qed
qed

lemma limbs_used_mono: "val p \<le> val q \<Longrightarrow> limbs_used p \<le> limbs_used q"
  using val_used_lt [of q] by (auto simp: limbs_used_iff)

lemma limbs_used_less: "limbs_used p < limbs_used q \<Longrightarrow> val p < val q"
  using limbs_used_mono [of q p] by (meson leI not_le)

subsection \<open>Calls that succeed\<close>

definition returns :: "'a mp \<Rightarrow> ('a \<Rightarrow> bool) \<Rightarrow> bool" where
  "returns m P \<longleftrightarrow> (\<exists>x k. m = Some (0, x, k) \<and> P x)"

named_theorems mp_rules \<open>rules for calls that succeed\<close>

lemma returns_Some [mp_rules]: "P x \<Longrightarrow> returns (Some (0, x, k)) P"
  by (simp add: returns_def)

lemma returns_CHK: "returns f Q \<Longrightarrow> (\<And>y k. Q y \<Longrightarrow> returns (g y k) P) \<Longrightarrow> returns (MPI_CHK out f g) P"
  by (auto simp: returns_def MPI_CHK_def)

lemma returns_mono: "returns m Q \<Longrightarrow> (\<And>x. Q x \<Longrightarrow> P x) \<Longrightarrow> returns m P"
  by (auto simp: returns_def)

lemma returns_if [mp_rules]: "(b \<Longrightarrow> returns x P) \<Longrightarrow> (\<not> b \<Longrightarrow> returns y P) \<Longrightarrow> returns (if b then x else y) P"
  by simp

lemma returns_bind: "m = Some x \<Longrightarrow> returns (f x) P \<Longrightarrow> returns (m \<bind> f) P"
  by simp

lemma returnsE: "returns m P \<Longrightarrow> (\<And>x k. m = Some (0, x, k) \<Longrightarrow> P x \<Longrightarrow> thesis) \<Longrightarrow> thesis"
  by (auto simp: returns_def)

lemma returns_conj: "returns m P \<Longrightarrow> returns m Q \<Longrightarrow> returns m (\<lambda>x. P x \<and> Q x)"
  by (auto simp: returns_def)

subsection \<open>Storage\<close>

lemma grow_returns:
  "heap_ok H \<Longrightarrow> returns (mpi_grow H X n k) (\<lambda>Y. Y = X\<lparr>mpi_p := mpi_p X @ replicate (n - mpi_n X) 0\<rparr>)"
  by (simp add: mpi_grow_def malloc_def heap_ok_def returns_def)

lemma limbs_kept_bounds: "limbs_kept p \<le> length p" "limbs_used p \<le> limbs_kept p" "p \<noteq> [] \<Longrightarrow> 1 \<le> limbs_kept p"
  using limbs_used_le [of p] by (auto simp: limbs_kept_def Suc_le_eq simp del: limbs_used_le)

lemma val_kept: "val (take (limbs_kept p) p) = val p"
  by (rule val_used_more) (rule limbs_kept_bounds)

lemma copy_returns:
  "heap_ok H \<Longrightarrow> returns (mpi_copy H X Y k) (\<lambda>Z. mpi_s Z = mpi_s Y \<and> mpi_abs Z = mpi_abs Y \<and>
     mpi_n Z = max (mpi_n X) (limbs_kept (mpi_p Y)))"
  unfolding mpi_copy_def Let_def
  by (rule returns_CHK [OF grow_returns])
    (auto simp: returns_def mpi_abs_def val_append val_kept limbs_kept_bounds max_absorb1 max_absorb2
      min_absorb2 le_max_iff_disj max_def [of "length _"] intro: le_antisym limbs_kept_bounds(1))

lemma lset_returns:
  "heap_ok H \<Longrightarrow> \<bar>z\<bar> < 2 ^ 32 \<Longrightarrow> returns (mpi_lset H X z k) (\<lambda>Z. mpi_s Z = int_sign z \<and> mpi_abs Z = nat \<bar>z\<bar> \<and>
     mpi_n Z = max (mpi_n X) 1)"
  unfolding mpi_lset_def
  by (rule returns_CHK [OF grow_returns])
    (auto simp: returns_def mpi_abs_def unsigned_of_int take_bit_int_eq_self max_def)

lemma int_mpi_value: "\<bar>z\<bar> < 2 ^ 32 \<Longrightarrow> mpi_val (int_mpi z) = z" "\<bar>z\<bar> < 2 ^ 32 \<Longrightarrow> mpi_abs (int_mpi z) = nat \<bar>z\<bar>"
  "sign_ok (int_mpi z)"
  by (auto simp: mpi_val_def mpi_abs_def int_mpi_def int_sign_def sign_ok_def unsigned_of_int take_bit_int_eq_self)

subsection \<open>Comparison\<close>

lemma cmp_limbs_val:
  "i \<le> length p \<Longrightarrow> i \<le> length q \<Longrightarrow>
     cmp_limbs p q i = sgn (int (val (take i p)) - int (val (take i q)))"
proof (induction i)
  case (Suc i)
  have v: "val (take (Suc i) x) = val (take i x) + wbase ^ i * unat (x ! i)" if "Suc i \<le> length x" for x
    using that by (simp add: take_Suc_conv_app_nth val_append)
  have lt: "val (take i x) < wbase ^ i" if "Suc i \<le> length x" for x
    using val_lt [of "take i x"] that by simp
  have step: "a + wbase ^ i * m < b + wbase ^ i * n" if "a < wbase ^ i" "m < n" for a b m n :: nat
  proof -
    have "a + wbase ^ i * m < wbase ^ i * Suc m" using that(1) by simp
    also have "\<dots> \<le> wbase ^ i * n" using that(2) by (intro mult_le_mono2) simp
    finally show ?thesis by simp
  qed
  consider "p ! i = q ! i" | "p ! i < q ! i" | "q ! i < p ! i" by fastforce
  then show ?case
  proof cases
    case 1
    then show ?thesis using Suc by (simp add: v)
  next
    case 2
    then have "val (take (Suc i) p) < val (take (Suc i) q)"
      using Suc.prems lt step by (simp add: v word_less_nat_alt)
    then show ?thesis using 2 by simp
  next
    case 3
    then have "val (take (Suc i) q) < val (take (Suc i) p)"
      using Suc.prems lt step by (simp add: v word_less_nat_alt)
    then show ?thesis using 3 by simp
  qed
qed simp

lemma cmp_used:
  "limbs_used p = limbs_used q \<Longrightarrow> cmp_limbs p q (limbs_used p) = sgn (int (val p) - int (val q))"
  using cmp_limbs_val [of "limbs_used q" p q] limbs_used_le [of p] val_used [of p] val_used [of q] by simp

lemma mpi_cmp_abs_val: "mpi_cmp_abs X Y = sgn (int (mpi_abs X) - int (mpi_abs Y))"
  using limbs_used_less [of "mpi_p X" "mpi_p Y"] limbs_used_less [of "mpi_p Y" "mpi_p X"] cmp_used [of "mpi_p X" "mpi_p Y"]
  by (auto simp: mpi_cmp_abs_def mpi_abs_def Let_def)

text \<open>The signed comparison is right unless the signs differ and the second number has more limbs: then its result
  has the wrong sign.\<close>

lemma mpi_cmp_mpi_value:
  assumes "sign_ok X" "sign_ok Y"
  shows "mpi_cmp_mpi X Y =
    (if limbs_used (mpi_p X) < limbs_used (mpi_p Y) \<and> mpi_s X \<noteq> mpi_s Y then -1 else 1) * sgn (mpi_val X - mpi_val Y)"
proof -
  let ?i = "limbs_used (mpi_p X)" and ?j = "limbs_used (mpi_p Y)"
  consider "?i < ?j" "mpi_abs X < mpi_abs Y" | "?j < ?i" "mpi_abs Y < mpi_abs X" | "?i = ?j" "mpi_abs X = 0" "mpi_abs Y = 0"
    | "?i = ?j" "0 < mpi_abs X" "0 < mpi_abs Y"
    using limbs_used_less limbs_used_0 by (metis mpi_abs_def linorder_less_linear neq0_conv)
  then show ?thesis
  proof cases
    case 4
    then have "cmp_limbs (mpi_p X) (mpi_p Y) ?i = sgn (int (mpi_abs X) - int (mpi_abs Y))"
      using cmp_used by (simp add: mpi_abs_def)
    with 4 show ?thesis using assms
      by (auto simp: mpi_cmp_mpi_def mpi_val_def sign_ok_def mpi_abs_def [symmetric] sgn_if)
  qed (use assms in \<open>auto simp: mpi_cmp_mpi_def mpi_val_def sign_ok_def mpi_abs_def [symmetric] sgn_if\<close>)
qed

lemma mpi_cmp_mpi_same:
  "sign_ok X \<Longrightarrow> mpi_s X = mpi_s Y \<Longrightarrow> mpi_cmp_mpi X Y = sgn (mpi_val X - mpi_val Y)"
  by (simp add: mpi_cmp_mpi_value sign_ok_def)

lemma mpi_cmp_int_0: "sign_ok X \<Longrightarrow> mpi_cmp_int X 0 = sgn (mpi_val X)"
proof -
  assume s: "sign_ok X"
  have "\<not> limbs_used (mpi_p X) < limbs_used (mpi_p (int_mpi 0))" by (simp add: int_mpi_def limbs_used_def)
  then show ?thesis using s int_mpi_value [of 0]
    by (simp add: mpi_cmp_int_def mpi_cmp_mpi_value)
qed

end
