(* ===== verification/MpiShift.thy ===== *)
theory MpiShift
  imports MpiValue
begin

text \<open>
  Import and export of big-endian bytes, sizes and shifts of big numbers, on their values.
\<close>

subsection \<open>Bits of limbs\<close>

lemma or_push_bit: "a < 2 ^ n \<Longrightarrow> a OR push_bit n b = a + push_bit n (b :: nat)"
proof -
  assume "a < 2 ^ n"
  then have "take_bit n a = a" by (simp add: take_bit_nat_eq_self)
  then have lt: "bit a i \<Longrightarrow> i < n" for i by (metis bit_take_bit_iff)
  show ?thesis by (rule disjunctive_add_eq_or [symmetric]) (auto simp: bit_eq_iff bit_simps dest!: lt)
qed

lemma unat_or_push_bit:
  "unat (a :: u32) < 2 ^ n \<Longrightarrow> 2 ^ n * unat b < 2 ^ 32 \<Longrightarrow> unat (a OR push_bit n b) = unat a + 2 ^ n * unat (b :: u32)"
proof -
  assume a: "unat a < 2 ^ n" and b: "2 ^ n * unat b < 2 ^ 32"
  have "unat (push_bit n b) = push_bit n (unat b)"
    unfolding unsigned_push_bit_eq using b by (intro take_bit_nat_eq_self) (simp add: push_bit_eq_mult mult.commute)
  with or_push_bit [OF a, of "unat b"] show ?thesis
    by (simp add: unsigned_or_eq push_bit_eq_mult [of n "unat b"] mult.commute del: push_bit_eq_mult)
qed

lemma unat_drop_bit: "unat (drop_bit n (x :: u32)) = unat x div 2 ^ n"
  using unat_u32_lt [of x] unfolding unsigned_drop_bit_eq by (simp add: drop_bit_eq_div take_bit_nat_eq_self)

lemma unat_push_bit: "t \<le> 32 \<Longrightarrow> unat (push_bit t (x :: u32)) = push_bit t (take_bit (32 - t) (unat x))"
  unfolding unsigned_push_bit_eq by (simp add: take_bit_push_bit)

lemma val_update:
  "i < length p \<Longrightarrow> val (p[i := x]) + wbase ^ i * unat (p ! i) = val p + wbase ^ i * unat x"
proof (induction p arbitrary: i)
  case (Cons y p)
  show ?case
  proof (cases i)
    case (Suc j)
    then have "wbase * (val (p[j := x]) + wbase ^ j * unat (p ! j)) = wbase * (val p + wbase ^ j * unat x)"
      using Cons by simp
    then show ?thesis using Suc by (simp add: distrib_left mult.assoc)
  qed simp
qed simp

lemma find_top_bit:
  "case find (bit u) (rev [0..<n]) of None \<Rightarrow> take_bit n u = 0 | Some j \<Rightarrow> 2 ^ j \<le> take_bit n u \<and> take_bit n u < 2 ^ Suc j"
  for u :: nat
proof (induction n)
  case (Suc n)
  then show ?case
    using take_bit_nat_less_exp [of n u]
    by (auto simp: take_bit_Suc_from_most split: option.splits)
qed simp

lemma top_bit:
  fixes x :: u32
  assumes "x \<noteq> 0"
  shows "\<exists>j < 32. find (bit x) (rev [0..<32]) = Some j \<and> 2 ^ j \<le> unat x \<and> unat x < 2 ^ Suc j"
proof -
  have b: "bit x = bit (unat x)" by (rule ext) (simp add: bit_unsigned_iff)
  have t: "take_bit 32 (unat x) = unat x" using unat_u32_lt [of x] by (simp add: take_bit_nat_eq_self_iff)
  obtain j where "find (bit (unat x)) (rev [0..<32]) = Some j" "2 ^ j \<le> unat x" "unat x < 2 ^ Suc j"
    using find_top_bit [where u = "unat x" and n = 32] t assms
    by (auto simp del: upt_rec_numeral simp: unat_eq_0 split: option.splits)
  moreover from calculation have "j < 32"
    using unat_u32_lt [of x] power_less_imp_less_exp [of "2 :: nat" j 32] by simp
  ultimately show ?thesis using b by auto
qed

text \<open>The number of bits: \<open>mpi_msb\<close> is the least \<open>m\<close> with a value below \<^verbatim>\<open>2^m\<close>.\<close>

lemma mpi_msb_value:
  assumes "mpi_p X \<noteq> []"
  obtains m where "mpi_msb X = Some m" "mpi_abs X < 2 ^ m" "mpi_abs X = 0 \<Longrightarrow> m = 0" "mpi_abs X \<noteq> 0 \<Longrightarrow> 2 ^ (m - 1) \<le> mpi_abs X \<and> 0 < m"
proof (cases "limbs_used (mpi_p X)")
  case 0
  then have z: "mpi_abs X = 0" by (simp add: mpi_abs_def)
  then have "mpi_p X ! 0 = 0" using assms by (cases "mpi_p X") (auto simp: mpi_abs_def unat_eq_0)
  then have "find (bit (mpi_p X ! 0)) (rev [0..<32]) = None" by (simp add: find_None_iff)
  then have "mpi_msb X = Some 0" using assms 0 by (simp add: mpi_msb_def limbs_kept_def)
  with that z show ?thesis by simp
next
  case (Suc i)
  let ?p = "mpi_p X"
  have i: "i < length ?p" using Suc limbs_used_le [of ?p] by simp
  have n: "?p ! i \<noteq> 0" using Suc top_limb_nonzero by (auto simp: limbs_used_def)
  from top_bit [OF this] obtain j where j: "j < 32" "find (bit (?p ! i)) (rev [0..<32]) = Some j"
    "2 ^ j \<le> unat (?p ! i)" "unat (?p ! i) < 2 ^ Suc j" by blast
  have k: "limbs_kept ?p = Suc i" using assms Suc by (simp add: limbs_kept_def)
  have v: "mpi_abs X = val (take i ?p) + wbase ^ i * unat (?p ! i)"
    using val_used [of ?p] Suc i by (simp add: mpi_abs_def take_Suc_conv_app_nth val_append)
  have w: "wbase ^ i * 2 ^ m = 2 ^ (32 * i + m)" for m by (simp add: wbase_def power_mult power_add)
  have "val (take i ?p) < wbase ^ i" using val_lt [of "take i ?p"] i by simp
  then have "mpi_abs X < wbase ^ i * Suc (unat (?p ! i))" using v by simp
  also have "\<dots> \<le> wbase ^ i * 2 ^ Suc j" using j(4) by (intro mult_le_mono2) simp
  finally have lt: "mpi_abs X < 2 ^ (32 * i + Suc j)" by (simp only: w)
  have "wbase ^ i * 2 ^ j \<le> mpi_abs X" using v j(3) by (simp add: trans_le_add2)
  then have ge: "2 ^ (32 * i + j) \<le> mpi_abs X" by (simp only: w)
  have "mpi_msb X = Some (32 * i + Suc j)"
    using assms k j(2) by (simp add: mpi_msb_def mult.commute del: upt_rec_numeral)
  with that lt ge show ?thesis by fastforce
qed

subsection \<open>Import and export\<close>

definition be_val :: "bytes \<Rightarrow> nat" where
  "be_val b = foldl (\<lambda>v x. v * 256 + unat x) 0 b"

fun le_val :: "bytes \<Rightarrow> nat" where
  "le_val [] = 0"
| "le_val (x # xs) = unat x + 256 * le_val xs"

lemma le_val_append: "le_val (xs @ ys) = le_val xs + 256 ^ length xs * le_val ys"
  by (induction xs) (simp_all add: algebra_simps)

lemma be_val_rev: "be_val b = le_val (rev b)"
  by (induction b rule: rev_induct) (simp_all add: be_val_def)

lemma le_val_lt: "le_val b < 256 ^ length b"
proof (induction b)
  case (Cons x xs)
  have "unat x + 256 * le_val xs < 256 * Suc (le_val xs)" using unat_u8_lt [of x] by simp
  also have "\<dots> \<le> 256 * 256 ^ length xs" using Cons by (intro mult_le_mono2) simp
  finally show ?case by simp
qed simp

lemma be_val_leading: "be_val (dropWhile (\<lambda>x. x = 0) b) = be_val b"
  by (induction b) (simp_all add: be_val_def)

lemma wbase_256: "wbase ^ (j div 4) * 256 ^ (j mod 4) = 256 ^ j"
proof -
  have "wbase = 256 ^ 4" by (simp add: wbase_def)
  then have "wbase ^ (j div 4) * 256 ^ (j mod 4) = 256 ^ (4 * (j div 4) + j mod 4)"
    by (simp only: power_mult power_add)
  then show ?thesis by simp
qed

lemma read_bytes_value:
  "val p < 256 ^ j \<Longrightarrow> j + length bs \<le> 4 * length p \<Longrightarrow>
     val (read_bytes bs j p) = val p + 256 ^ j * le_val bs \<and> length (read_bytes bs j p) = length p"
proof (induction bs arbitrary: j p)
  case (Cons b bs)
  let ?i = "j div 4" and ?m = "j mod 4"
  let ?x = "p ! ?i OR push_bit (8 * ?m) (ucast b)"
  have i: "?i < length p" using Cons.prems(2) by (simp add: less_mult_imp_div_less mult.commute)
  have "wbase ^ ?i * unat (p ! ?i) \<le> val p"
    using val_split [of ?i p] i by (simp add: Cons_nth_drop_Suc [symmetric] distrib_left)
  then have "wbase ^ ?i * unat (p ! ?i) < wbase ^ ?i * 256 ^ ?m"
    using Cons.prems(1) by (simp add: wbase_256)
  then have lt: "unat (p ! ?i) < 2 ^ (8 * ?m)" by (simp add: power_mult)
  have "(2 :: nat) ^ (8 * ?m) * unat b < 2 ^ (8 * ?m) * 2 ^ 8" using unat_u8_lt [of b] by simp
  also have "\<dots> \<le> 2 ^ 32" unfolding power_add [symmetric] by (rule power_increasing) (simp_all add: mod_less_divisor Suc_leI)
  finally have x: "unat ?x = unat (p ! ?i) + 256 ^ ?m * unat b"
    using lt by (subst unat_or_push_bit) (simp_all add: power_mult)
  have "val (p[?i := ?x]) = val p + wbase ^ ?i * 256 ^ ?m * unat b"
    using val_update [OF i, of ?x] x by (simp add: algebra_simps)
  then have v: "val (p[?i := ?x]) = val p + 256 ^ j * unat b" by (simp add: wbase_256)
  have "val p + 256 ^ j * unat b < 256 ^ j * Suc (unat b)" using Cons.prems(1) by simp
  also have "\<dots> \<le> 256 ^ j * 256" using unat_u8_lt [of b] by (intro mult_le_mono2) simp
  finally have "val (p[?i := ?x]) < 256 ^ Suc j" using v by simp
  from Cons.IH [OF this] Cons.prems(2) v show ?case by (simp add: algebra_simps)
qed simp

lemma read_binary_returns:
  assumes "heap_ok H"
  shows "returns (mpi_read_binary H mpi_init b k) (\<lambda>X. mpi_s X = 1 \<and> mpi_abs X = be_val b \<and> mpi_p X \<noteq> [])"
  unfolding mpi_read_binary_def Let_def
proof (rule returns_CHK [OF grow_returns [OF assms]], rule returns_CHK [OF lset_returns [OF assms]], simp)
  fix X k Y k' 
  let ?b = "dropWhile (\<lambda>x. x = 0) b"
  assume X: "X = mpi_init\<lparr>mpi_p := mpi_p mpi_init @ replicate ((length ?b + 3) div 4 - mpi_n mpi_init) 0\<rparr>"
    and Y: "mpi_s Y = int_sign 0 \<and> mpi_abs Y = nat \<bar>0\<bar> \<and> mpi_n Y = max (mpi_n X) 1"
  have "length ?b \<le> 4 * mpi_n Y" using X Y by (auto simp: mpi_init_def)
  with Y read_bytes_value [of "mpi_p Y" 0 "rev ?b"]
  show "returns (Some (0, Y\<lparr>mpi_p := read_bytes (rev ?b) 0 (mpi_p Y)\<rparr>, k')) (\<lambda>X. mpi_s X = 1 \<and> mpi_abs X = be_val b \<and> mpi_p X \<noteq> [])"
    by (auto simp: returns_def mpi_abs_def int_sign_def be_val_rev [symmetric] be_val_leading)
qed

lemma wbase_part: "m < 4 \<Longrightarrow> wbase = 256 ^ m * (256 * 256 ^ (3 - m))"
proof -
  assume "m < 4"
  then consider "m = 0" | "m = 1" | "m = 2" | "m = 3" by linarith
  then show ?thesis by cases (simp_all add: wbase_def)
qed

lemma byte_of_limbs:
  "j < 4 * length p \<Longrightarrow> unat (ucast (drop_bit (8 * (j mod 4)) (p ! (j div 4))) :: u8) = val p div 256 ^ j mod 256"
proof -
  assume j: "j < 4 * length p"
  let ?i = "j div 4" and ?m = "j mod 4"
  have i: "?i < length p" using j by (simp add: less_mult_imp_div_less mult.commute)
  have "val p = val (take ?i p) + wbase ^ ?i * (unat (p ! ?i) + wbase * val (drop (Suc ?i) p))"
    using val_split [of ?i p] i by (simp add: Cons_nth_drop_Suc [symmetric])
  moreover have "val (take ?i p) < wbase ^ ?i" using val_lt [of "take ?i p"] i by simp
  ultimately have "val p div wbase ^ ?i = unat (p ! ?i) + wbase * val (drop (Suc ?i) p)" by simp
  then have "val p div 256 ^ j = (unat (p ! ?i) + wbase * val (drop (Suc ?i) p)) div 256 ^ ?m"
    unfolding wbase_256 [of j, symmetric] div_mult2_eq by (rule arg_cong)
  also have "\<dots> = (unat (p ! ?i) + 256 ^ ?m * (256 * (256 ^ (3 - ?m) * val (drop (Suc ?i) p)))) div 256 ^ ?m"
    by (subst wbase_part [of ?m]) (simp_all add: mult.assoc)
  also have "\<dots> = unat (p ! ?i) div 256 ^ ?m + 256 * (256 ^ (3 - ?m) * val (drop (Suc ?i) p))" by simp
  finally have "val p div 256 ^ j mod 256 = unat (p ! ?i) div 256 ^ ?m mod 256" by simp
  moreover have "unat (ucast (drop_bit (8 * ?m) (p ! ?i)) :: u8) = unat (p ! ?i) div 256 ^ ?m mod 256"
    unfolding unsigned_ucast_eq by (simp only: unat_drop_bit take_bit_eq_mod power_mult) simp
  ultimately show ?thesis by simp
qed

lemma le_val_digits:
  "v < 256 ^ n \<Longrightarrow> (\<And>j. j < n \<Longrightarrow> unat (f j) = v div 256 ^ j mod 256) \<Longrightarrow> le_val (map f [0..<n]) = v"
proof (induction n arbitrary: v)
  case (Suc n)
  have "le_val (map f [0..<n]) = v mod 256 ^ n"
  proof (rule Suc.IH)
    show "unat (f j) = v mod 256 ^ n div 256 ^ j mod 256" if "j < n" for j
    proof -
      have "v mod 256 ^ n div 256 ^ j mod 256 = v mod (256 ^ j * 256 ^ (n - j)) div 256 ^ j mod 256"
        using that by (simp add: power_add [symmetric])
      also have "\<dots> = v div 256 ^ j mod 256 ^ (n - j) mod 256"
        by (simp add: mod_mult2_eq)
      also have "\<dots> = v div 256 ^ j mod 256"
        using that by (simp add: mod_mod_cancel dvd_power)
      finally show ?thesis using Suc.prems(2) [of j] that by simp
    qed
  qed simp
  moreover have "v div 256 ^ n < 256" using Suc.prems(1) by (simp add: less_mult_imp_div_less mult.commute)
  ultimately show ?case using Suc.prems(2) [of n] by (simp add: le_val_append)
qed simp

lemma write_binary_value:
  assumes "mpi_p X \<noteq> []" "mpi_abs X < 256 ^ length buf"
  shows "\<exists>b. mpi_write_binary X buf = Some (0, b) \<and> length b = length buf \<and> be_val b = mpi_abs X"
proof -
  from mpi_msb_value [OF assms(1)] obtain m where m: "mpi_msb X = Some m" "mpi_abs X < 2 ^ m"
    "mpi_abs X = 0 \<Longrightarrow> m = 0" "mpi_abs X \<noteq> 0 \<Longrightarrow> 2 ^ (m - 1) \<le> mpi_abs X \<and> 0 < m" by blast
  let ?n = "(m + 7) div 8" and ?p = "mpi_p X"
  have small: "(m + 7) div 8 \<le> l" if "mpi_abs X < 256 ^ l" for l
  proof (cases "mpi_abs X = 0")
    case False
    with m(4) that have "(2 :: nat) ^ (m - 1) < 2 ^ (8 * l)" by (simp add: power_mult)
    then have "m - 1 < 8 * l" by (rule power_less_imp_less_exp [rotated]) simp
    then show ?thesis using m(4) False by linarith
  qed (use m(3) in simp)
  have len: "?n \<le> length buf" by (rule small) (rule assms(2))
  have "mpi_abs X < 256 ^ (4 * length ?p)" using val_lt [of ?p] by (simp add: mpi_abs_def wbase_def power_mult)
  from small [OF this] have lp: "?n \<le> 4 * length ?p" .
  have "m \<le> 8 * ?n" by linarith
  then have "(2 :: nat) ^ m \<le> 2 ^ (8 * ?n)" by (rule power_increasing) simp
  with m(2) have vn: "mpi_abs X < 256 ^ ?n" by (simp add: power_mult)
  let ?f = "\<lambda>j. if j < ?n then ucast (drop_bit (8 * (j mod 4)) (?p ! (j div 4))) else 0 :: u8"
  have "le_val (map ?f [0..<length buf]) = mpi_abs X"
  proof (rule le_val_digits [OF assms(2)])
    show "unat (?f j) = mpi_abs X div 256 ^ j mod 256" if "j < length buf" for j
    proof (cases "j < ?n")
      case True
      then show ?thesis using byte_of_limbs [of j ?p] lp by (simp add: mpi_abs_def)
    next
      case False
      then have "mpi_abs X < 256 ^ j" using less_le_trans [OF vn power_increasing [of ?n j 256]] by simp
      then show ?thesis using False by simp
    qed
  qed
  then show ?thesis using m(1) len
    by (simp add: mpi_write_binary_def mpi_size_def be_val_rev)
qed

subsection \<open>Shifts\<close>

lemma val_bits_shl:
  assumes "0 < t" "t < 32"
  shows "unat r0 < 2 ^ t \<Longrightarrow> \<exists>c < 2 ^ t. val (bits_shl t r0 p) + wbase ^ length p * c = unat r0 + 2 ^ t * val p"
proof (induction p arbitrary: r0)
  case Nil
  then show ?case by auto
next
  case (Cons x xs)
  have hi: "unat (drop_bit (32 - t) x) = unat x div 2 ^ (32 - t)"
    by (rule unat_drop_bit)
  have pw: "(2 :: nat) ^ 32 = 2 ^ t * 2 ^ (32 - t)" using assms by (simp flip: power_add)
  have r1: "unat (drop_bit (32 - t) x) < 2 ^ t"
    unfolding hi using unat_u32_lt [of x] pw by (intro less_mult_imp_div_less) simp
  have u: "unat (push_bit t x) = push_bit t (take_bit (32 - t) (unat x))"
    using assms by (intro unat_push_bit) simp
  have o: "unat (push_bit t x OR r0) = unat r0 + unat (push_bit t x)"
    unfolding unsigned_or_eq u by (subst or.commute) (rule or_push_bit [OF Cons.prems])
  have "unat (push_bit t x) + wbase * unat (drop_bit (32 - t) x) =
      2 ^ t * (unat x mod 2 ^ (32 - t) + 2 ^ (32 - t) * (unat x div 2 ^ (32 - t)))"
    unfolding u hi wbase_def pw by (simp only: push_bit_eq_mult take_bit_eq_mod distrib_left mult.commute mult.left_commute mult.assoc)
  then have p: "unat (push_bit t x) + wbase * unat (drop_bit (32 - t) x) = 2 ^ t * unat x" by simp
  from Cons.IH [OF r1] obtain c where c: "c < 2 ^ t"
    "val (bits_shl t (drop_bit (32 - t) x) xs) + wbase ^ length xs * c = unat (drop_bit (32 - t) x) + 2 ^ t * val xs" by blast
  have "val (bits_shl t r0 (x # xs)) + wbase ^ length (x # xs) * c =
      unat r0 + (unat (push_bit t x) + wbase * unat (drop_bit (32 - t) x)) + wbase * (2 ^ t * val xs)"
    using arg_cong [OF c(2), of "(*) wbase"] o by (simp add: distrib_left mult.assoc)
  then have "val (bits_shl t r0 (x # xs)) + wbase ^ length (x # xs) * c = unat r0 + 2 ^ t * val (x # xs)"
    unfolding p by (simp add: algebra_simps)
  with c(1) show ?case by blast
qed

lemma length_bits_shl [simp]: "length (bits_shl t r0 p) = length p"
  by (induction p arbitrary: r0) simp_all

lemma length_bits_shr [simp]: "length (bits_shr t r0 p) = length p"
  by (induction p arbitrary: r0) simp_all

lemma count_split: "(2 :: nat) ^ c = wbase ^ (c div 32) * 2 ^ (c mod 32)"
  unfolding wbase_def power_mult [symmetric] power_add [symmetric] by simp

lemma limbs_shift_l_value:
  assumes p: "count div 32 \<le> length p" and lt: "2 ^ count * val p < wbase ^ length p"
  shows "val (limbs_shift_l count p) = 2 ^ count * val p"
proof -
  let ?v = "count div 32" and ?t = "count mod 32" and ?L = "length p"
  let ?q = "if ?v > 0 then limbs_shl ?v p else p"
  have L: "wbase ^ ?L = wbase ^ ?v * wbase ^ (?L - ?v)" using p by (simp flip: power_add)
  have lt': "2 ^ ?t * val p < wbase ^ (?L - ?v)" using lt unfolding count_split [of count] L by (simp add: mult.assoc)
  have "val p < wbase ^ (?L - ?v)" using lt' by (metis le_less_trans mult_le_mono1 nat_mult_1 one_le_numeral one_le_power)
  then have tk: "val (take (?L - ?v) p) = val p" using val_used_more limbs_used_iff by blast
  have q': "?q = replicate ?v 0 @ take (?L - ?v) p" using p by (auto simp: limbs_shl_def min_absorb2)
  show ?thesis
  proof (cases "?t > 0")
    case True
    from val_bits_shl [OF True, of 0 "take (?L - ?v) p"] obtain c
      where c: "val (bits_shl ?t 0 (take (?L - ?v) p)) + wbase ^ (?L - ?v) * c = 2 ^ ?t * val p"
      using tk by auto
    then have "c = 0" using lt' by (cases c) auto
    with c True show ?thesis
      unfolding limbs_shift_l_def Let_def q' by (subst count_split) (simp add: val_append mult.assoc)
  next
    case False
    then show ?thesis using tk
      unfolding limbs_shift_l_def Let_def q' by (subst count_split) (simp add: val_append)
  qed
qed

lemma length_limbs_shift_l [simp]: "length (limbs_shift_l count p) = length p"
proof -
  have "length (if v > 0 then limbs_shl v p else p) = length p" for v
    by (auto simp: limbs_shl_def)
  then show ?thesis by (auto simp: limbs_shift_l_def Let_def min_def)
qed

lemma shift_l_returns:
  assumes H: "heap_ok H" and X: "mpi_msb X = Some m"
  shows "returns (mpi_shift_l H X count k) (\<lambda>Y. mpi_s Y = mpi_s X \<and> mpi_abs Y = 2 ^ count * mpi_abs X \<and>
    mpi_n Y = max (mpi_n X) ((m + count + 31) div 32))"
proof -
  have ne: "mpi_p X \<noteq> []" using X by (auto simp: mpi_msb_def)
  have v: "mpi_abs X < 2 ^ m" using mpi_msb_value [OF ne] X by (metis option.inject)
  have g: "returns (if mpi_n X * 32 < m + count then mpi_grow H X ((m + count + 31) div 32) k else Some (0, X, k))
      (\<lambda>Y. mpi_s Y = mpi_s X \<and> mpi_abs Y = mpi_abs X \<and> mpi_n Y = max (mpi_n X) ((m + count + 31) div 32))"
  proof (cases "mpi_n X * 32 < m + count")
    case True
    then have "mpi_n X \<le> (m + count + 31) div 32" by linarith
    with True show ?thesis
      by (auto intro!: returns_mono [OF grow_returns [OF H]] simp: mpi_abs_def)
  next
    case False
    then have "(m + count + 31) div 32 \<le> mpi_n X" by linarith
    with False show ?thesis by (simp add: returns_def)
  qed
  have sh: "mpi_abs (Y\<lparr>mpi_p := limbs_shift_l count (mpi_p Y)\<rparr>) = 2 ^ count * mpi_abs X"
    if "mpi_abs Y = mpi_abs X" "mpi_n Y = max (mpi_n X) ((m + count + 31) div 32)" for Y
  proof -
    have n: "m + count \<le> 32 * mpi_n Y" using that by linarith
    have d: "count div 32 \<le> mpi_n Y" using n by linarith
    have "2 ^ count * mpi_abs Y < 2 ^ count * 2 ^ m" using v that by simp
    also have "\<dots> \<le> (2 :: nat) ^ (32 * mpi_n Y)" unfolding power_add [symmetric] using n by (intro power_increasing) simp_all
    finally have lt: "2 ^ count * val (mpi_p Y) < wbase ^ mpi_n Y" by (simp add: wbase_def power_mult mpi_abs_def)
    show ?thesis using limbs_shift_l_value [OF d lt] that by (simp add: mpi_abs_def)
  qed
  show ?thesis unfolding mpi_shift_l_def
    by (rule returns_bind [OF X], rule returns_CHK [OF g], rule returns_Some) (use sh in simp)
qed

lemma val_bits_shr:
  assumes "0 < t" "t < 32"
  shows "xs \<noteq> [] \<Longrightarrow> val (rev (bits_shr t (push_bit (32 - t) y) xs)) =
      val (rev xs) div 2 ^ t + wbase ^ (length xs - 1) * unat (push_bit (32 - t) y)"
proof (induction xs arbitrary: y)
  case (Cons x xs)
  have r: "unat (push_bit (32 - t) z) = 2 ^ (32 - t) * (unat z mod 2 ^ t)" for z :: u32
    using assms by (subst unat_push_bit) (simp_all add: push_bit_eq_mult take_bit_eq_mod)
  have pw: "wbase = 2 ^ t * 2 ^ (32 - t)" using assms by (simp add: wbase_def flip: power_add)
  have "unat (drop_bit t x) < 2 ^ (32 - t)"
    unfolding unat_drop_bit using unat_lt_wbase [of x] pw by (intro less_mult_imp_div_less) (simp add: mult.commute)
  moreover have "unat (push_bit (32 - t) y) = push_bit (32 - t) (take_bit t (unat y))"
    using assms by (subst unat_push_bit) simp_all
  ultimately have o: "unat (drop_bit t x OR push_bit (32 - t) y) = unat x div 2 ^ t + unat (push_bit (32 - t) y)"
    unfolding unsigned_or_eq by (simp only: or_push_bit) (simp only: unat_drop_bit)
  show ?case
  proof (cases "xs = []")
    case True
    then show ?thesis using o by simp
  next
    case False
    then obtain n where n: "length xs = Suc n" by (cases xs) auto
    let ?a = "val (rev xs)"
    have "wbase ^ Suc n * unat x = 2 ^ t * (wbase ^ Suc n * (unat x div 2 ^ t) + wbase ^ n * (2 ^ (32 - t) * (unat x mod 2 ^ t)))"
    proof -
      have "wbase ^ Suc n * unat x = wbase ^ Suc n * (2 ^ t * (unat x div 2 ^ t) + unat x mod 2 ^ t)" by simp
      also have "\<dots> = 2 ^ t * (wbase ^ Suc n * (unat x div 2 ^ t)) + wbase ^ n * (wbase * (unat x mod 2 ^ t))"
        by (simp only: distrib_left power_Suc mult.assoc mult.commute mult.left_commute)
      also have "wbase * (unat x mod 2 ^ t) = 2 ^ t * (2 ^ (32 - t) * (unat x mod 2 ^ t))" by (subst pw) simp
      finally show ?thesis by (simp add: algebra_simps)
    qed
    then have "(?a + wbase ^ Suc n * unat x) div 2 ^ t =
        ?a div 2 ^ t + (wbase ^ Suc n * (unat x div 2 ^ t) + wbase ^ n * (2 ^ (32 - t) * (unat x mod 2 ^ t)))" by simp
    then show ?thesis using Cons.IH [OF False, of x] n o r [of x]
      by (simp add: val_append distrib_left)
  qed
qed simp

lemma shift_r_value: "mpi_s (mpi_shift_r X count) = mpi_s X" "mpi_n (mpi_shift_r X count) = mpi_n X"
  "mpi_abs (mpi_shift_r X count) = mpi_abs X div 2 ^ count"
proof -
  let ?v = "count div 32" and ?t = "count mod 32" and ?p = "mpi_p X"
  let ?q = "if ?v > 0 then limbs_shr ?v ?p else ?p"
  have q: "val ?q = val ?p div wbase ^ ?v"
  proof (cases "?v \<le> length ?p")
    case True
    have "val (take ?v ?p) < wbase ^ ?v" using val_lt [of "take ?v ?p"] True by simp
    then have "val ?p div wbase ^ ?v = val (drop ?v ?p)" using val_split [OF True] by simp
    then show ?thesis by (simp add: limbs_shr_def)
  next
    case False
    then have "val ?p < wbase ^ ?v" using less_le_trans [OF val_lt wbase_power_mono] by simp
    then show ?thesis using False by (simp add: limbs_shr_def)
  qed
  have l: "length ?q = length ?p" by (auto simp: limbs_shr_def min_def)
  have "val (if ?t > 0 then rev (bits_shr ?t 0 (rev ?q)) else ?q) = val ?q div 2 ^ ?t"
  proof (cases "?t > 0 \<and> ?q \<noteq> []")
    case True
    then show ?thesis using val_bits_shr [of ?t "rev ?q" 0] by simp
  qed auto
  then show "mpi_abs (mpi_shift_r X count) = mpi_abs X div 2 ^ count"
    using q unfolding mpi_shift_r_def mpi_abs_def Let_def count_split [of count] div_mult2_eq by simp
  show "mpi_s (mpi_shift_r X count) = mpi_s X" "mpi_n (mpi_shift_r X count) = mpi_n X"
    using l by (simp_all add: mpi_shift_r_def Let_def)
qed

end
