(* ===== verification/MpiSum.thy ===== *)
theory MpiSum
  imports MpiShift
begin

text \<open>
  Addition, subtraction and multiplication of big numbers compute the sum, the difference and the product of the
  values, whatever object the result goes to.
\<close>

subsection \<open>Limbs\<close>

lemma add_word_carry: "unat x + unat y = unat (x + y) + wbase * (if x + y < y then 1 else 0)" for x y :: u32
proof (cases "unat x + unat y < 2 ^ 32")
  case True
  then have "unat (x + y) = unat x + unat y" by (simp add: unat_word_ariths)
  then show ?thesis by (simp add: word_less_nat_alt)
next
  case False
  then have "unat (x + y) = unat x + unat y - 2 ^ 32"
    using unat_u32_lt [of x] unat_u32_lt [of y] by (simp add: unat_word_ariths mod_if)
  then show ?thesis using False unat_u32_lt [of x] by (simp add: word_less_nat_alt wbase_def)
qed

lemma sub_word_borrow: "unat x + wbase * (if x < y then 1 else 0) = unat (x - y) + unat y" for x y :: u32
proof -
  have "x < y \<longleftrightarrow> \<not> unat (x - y) + unat y < 2 ^ 32"
    using unat_u32_lt [of x] unat_u32_lt [of y] by (auto simp: unat_sub_if' word_less_nat_alt word_le_nat_alt)
  then show ?thesis
    using unat_u32_lt [of x] unat_u32_lt [of y] by (auto simp: unat_sub_if' word_less_nat_alt word_le_nat_alt wbase_def)
qed

lemma unat_flag: "unat (if b then 1 else 0 :: u32) = (if b then 1 else 0)"
  by simp

lemma unat_flag_sum:
  "unat ((if a then 1 else 0) + (if b then 1 else 0 :: u32)) = unat (if a then 1 else 0 :: u32) + unat (if b then 1 else 0 :: u32)"
  by simp

lemma carry_le_1: "r + wbase * c < wbase * 2 \<Longrightarrow> c \<le> 1"
  using mult_le_mono2 [of 2 c wbase] by linarith

lemma wbase_Suc: "(x + wbase * v) + wbase ^ Suc n * c = x + wbase * (v + wbase ^ n * c)"
  by (simp add: distrib_left)

lemma add_limbs_value:
  "length xs = length ys \<Longrightarrow> unat c \<le> 1 \<Longrightarrow> \<exists>r c'. add_limbs xs ys c = (r, c') \<and> length r = length xs \<and> unat c' \<le> 1 \<and>
     val r + wbase ^ length xs * unat c' = val xs + val ys + unat c"
proof (induction xs ys c rule: add_limbs.induct)
  case (1 x xs y ys c)
  define e where "e = (if x + c < c then 1 else 0) + (if x + c + y < y then 1 else 0 :: u32)"
  have s: "unat x + unat c + unat y = unat (x + c + y) + wbase * unat e"
    using add_word_carry [of x c] add_word_carry [of "x + c" y] unfolding e_def unat_flag_sum unat_flag distrib_left by linarith
  have "unat (x + c + y) + wbase * unat e < wbase * 2"
    unfolding s [symmetric] using "1.prems"(2) unat_lt_wbase [of x] unat_lt_wbase [of y] by linarith
  then have c: "unat e \<le> 1" by (rule carry_le_1)
  from "1.IH" [OF refl refl refl] "1.prems"(1) c obtain r c' where r: "add_limbs xs ys e = (r, c')" "length r = length xs" "unat c' \<le> 1"
    "val r + wbase ^ length xs * unat c' = val xs + val ys + unat e" by (auto simp: e_def)
  have "unat (x + c + y) + wbase * val r + wbase ^ Suc (length xs) * unat c' = unat (x + c + y) + wbase * (val xs + val ys + unat e)"
    unfolding wbase_Suc r(4) ..
  also have "\<dots> = unat x + wbase * val xs + (unat y + wbase * val ys) + unat c"
    unfolding distrib_left using s by linarith
  finally show ?case using r(1-3) by (simp add: Let_def e_def [symmetric])
qed auto

lemma add_carry_value:
  "unat c \<le> 1 \<Longrightarrow> \<exists>r c'. add_carry xs c = (r, c') \<and> length r = length xs \<and> unat c' \<le> 1 \<and>
     val r + wbase ^ length xs * unat c' = val xs + unat c"
proof (induction xs arbitrary: c)
  case (Cons x xs)
  show ?case
  proof (cases "c = 0")
    case False
    define e where "e = (if x + c < c then 1 else 0 :: u32)"
    have "unat e \<le> 1" by (simp add: e_def)
    from Cons.IH [OF this] obtain r c' where r: "add_carry xs e = (r, c')" "length r = length xs" "unat c' \<le> 1"
      "val r + wbase ^ length xs * unat c' = val xs + unat e" by blast
    have s: "unat x + unat c = unat (x + c) + wbase * unat e"
      using add_word_carry [of x c] unfolding e_def unat_flag .
    have "unat (x + c) + wbase * val r + wbase ^ Suc (length xs) * unat c' = unat (x + c) + wbase * (val xs + unat e)"
      unfolding wbase_Suc r(4) ..
    also have "\<dots> = unat x + wbase * val xs + unat c" unfolding distrib_left using s by linarith
    finally show ?thesis using r(1-3) False by (simp add: Let_def e_def [symmetric])
  qed simp
qed simp

lemma sub_borrow_value:
  "unat c \<le> val xs \<Longrightarrow> unat c \<le> 1 \<Longrightarrow> \<exists>r. sub_borrow xs c = Some r \<and> length r = length xs \<and> val r + unat c = val xs"
proof (induction xs arbitrary: c)
  case (Cons x xs)
  show ?case
  proof (cases "c = 0")
    case False
    then have c: "unat c = 1" using Cons.prems(2) unat_eq_0 [of c] by linarith
    define e where "e = (if x < c then 1 else 0 :: u32)"
    have b: "unat x + wbase * unat e = unat (x - c) + unat c" using sub_word_borrow [of x c] unfolding e_def unat_flag .
    have le: "unat e \<le> 1" by (simp add: e_def)
    have "unat e \<le> val xs"
    proof (cases "x < c")
      case True
      then have "unat x = 0" using c by (simp add: word_less_nat_alt)
      then have "val xs \<noteq> 0" using Cons.prems(1) c by (intro notI) simp
      then show ?thesis using le by linarith
    qed (simp add: e_def)
    from Cons.IH [OF this le] obtain r where r: "sub_borrow xs e = Some r" "length r = length xs" "val r + unat e = val xs"
      by blast
    have "unat (x - c) + wbase * val r + unat c = unat x + wbase * (val r + unat e)" unfolding distrib_left using b by linarith
    then show ?thesis using r False by (simp add: e_def [symmetric])
  qed simp
qed (simp add: unat_eq_0)

lemma mpi_sub_hlp_value:
  "length ys \<le> length xs \<Longrightarrow> val ys + unat c \<le> val xs \<Longrightarrow> unat c \<le> 1 \<Longrightarrow>
     \<exists>r. mpi_sub_hlp ys xs c = Some r \<and> length r = length xs \<and> val r + val ys + unat c = val xs"
proof (induction ys xs c rule: mpi_sub_hlp.induct)
  case (1 d c)
  then show ?case using sub_borrow_value [of c d] by auto
next
  case (3 y ys x xs c)
  define e where "e = (if x - c < y then 1 else 0) + (if x < c then 1 else 0 :: u32)"
  have s: "unat x + wbase * unat e = unat (x - c - y) + unat y + unat c"
    using sub_word_borrow [of x c] sub_word_borrow [of "x - c" y] unfolding e_def unat_flag_sum unat_flag distrib_left by linarith
  have "unat x + wbase * unat e < wbase * 2"
    unfolding s using "3.prems"(3) unat_lt_wbase [of "x - c - y"] unat_lt_wbase [of y] by linarith
  then have c: "unat e \<le> 1" by (rule carry_le_1)
  have "wbase * (val ys + unat e) < wbase * Suc (val xs)"
    using "3.prems"(2) s unat_lt_wbase [of "x - c - y"] unfolding distrib_left mult_Suc_right val.simps by linarith
  then have le: "val ys + unat e \<le> val xs" by (simp only: mult_less_cancel1 less_Suc_eq_le wbase_pos simp_thms)
  from "3.IH" [OF refl refl] "3.prems"(1) le c obtain r where r: "mpi_sub_hlp ys xs e = Some r" "length r = length xs"
    "val r + val ys + unat e = val xs" by (auto simp: e_def)
  have "unat (x - c - y) + wbase * val r + (unat y + wbase * val ys) + unat c = unat x + wbase * (val r + val ys + unat e)"
    unfolding distrib_left using s by linarith
  then show ?case using r by (simp add: Let_def e_def [symmetric])
qed simp

text \<open>The half-limb core computes the product of two limbs with both carries exactly.\<close>

lemma unat_low_half: "unat (low_half x) = unat x mod 65536"
  unfolding low_half_def unat_drop_bit by (subst unat_push_bit) (simp_all add: push_bit_eq_mult take_bit_eq_mod)

lemma unat_mult_small: "unat x < 65536 \<Longrightarrow> unat y < 65536 \<Longrightarrow> unat (x * y) = unat x * unat y" for x y :: u32
proof -
  assume "unat x < 65536" "unat y < 65536"
  then have "unat x * unat y < 65536 * 65536" by (intro mult_strict_mono) auto
  then show ?thesis by (simp add: unat_word_ariths)
qed

lemma shift_half: "unat (push_bit 16 x) + wbase * unat (drop_bit 16 x) = 65536 * unat x" for x :: u32
proof -
  have "unat (push_bit 16 x) = 65536 * (unat x mod 65536)"
    by (subst unat_push_bit) (simp_all add: push_bit_eq_mult take_bit_eq_mod)
  moreover have "unat (drop_bit 16 x) = unat x div 65536" by (simp only: unat_drop_bit) simp
  moreover have "unat x = 65536 * (unat x div 65536) + unat x mod 65536" by simp
  ultimately have "unat (push_bit 16 x) + 4294967296 * unat (drop_bit 16 x) = 65536 * unat x" by linarith
  then show ?thesis by (simp add: wbase_def)
qed

lemma MULADDC_CORE_value:
  assumes "MULADDC_CORE s d b c = (r0, r1)"
  shows "unat r0 + wbase * unat r1 = unat s * unat b + unat c + unat d"
proof -
  define s0 s1 b0 b1 where h: "s0 = low_half s" "s1 = drop_bit 16 s" "b0 = low_half b" "b1 = drop_bit 16 b"
  have lt: "unat s0 < 65536" "unat s1 < 65536" "unat b0 < 65536" "unat b1 < 65536"
    using unat_u32_lt [of s] unat_u32_lt [of b] by (auto simp: h unat_low_half unat_drop_bit)
  have sb: "unat s = unat s0 + 65536 * unat s1" "unat b = unat b0 + 65536 * unat b1"
    by (simp_all add: h unat_low_half unat_drop_bit)
  define rx ry where rr: "rx = s0 * b1" "ry = s1 * b0"
  have m: "unat rx = unat s0 * unat b1" "unat ry = unat s1 * unat b0" "unat (s0 * b0) = unat s0 * unat b0"
    "unat (s1 * b1) = unat s1 * unat b1"
    using lt by (simp_all add: rr unat_mult_small)
  define q0 where "q0 = s0 * b0"
  define q1 where "q1 = q0 + push_bit 16 rx"
  define q2 where "q2 = q1 + push_bit 16 ry"
  define q3 where "q3 = q2 + c"
  define f1 f2 f3 f4 :: u32 where f: "f1 = (if q1 < push_bit 16 rx then 1 else 0)" "f2 = (if q2 < push_bit 16 ry then 1 else 0)"
    "f3 = (if q3 < c then 1 else 0)" "f4 = (if q3 + d < d then 1 else 0)"
  define K where "K = unat (s1 * b1) + unat (drop_bit 16 rx) + unat (drop_bit 16 ry) + unat f1 + unat f2 + unat f3 + unat f4"
  have "(r0, r1) = (q3 + d, s1 * b1 + drop_bit 16 rx + drop_bit 16 ry + f1 + f2 + f3 + f4)"
    unfolding assms [symmetric] MULADDC_CORE_def Let_def h f rr q0_def q1_def q2_def q3_def by (rule refl)
  then have r: "r0 = q3 + d" "r1 = s1 * b1 + drop_bit 16 rx + drop_bit 16 ry + f1 + f2 + f3 + f4" by blast+
  have "unat q0 + unat (push_bit 16 rx) = unat q1 + wbase * unat f1" "unat q1 + unat (push_bit 16 ry) = unat q2 + wbase * unat f2"
    "unat q2 + unat c = unat q3 + wbase * unat f3" "unat q3 + unat d = unat r0 + wbase * unat f4"
    unfolding f r q1_def q2_def q3_def unat_flag by (rule add_word_carry)+
  then have sum: "unat r0 + wbase * K = unat q0 + 65536 * unat rx + 65536 * unat ry + wbase * unat (s1 * b1) + unat c + unat d"
    using shift_half [of rx] shift_half [of ry] unfolding K_def distrib_left by linarith
  also have "\<dots> = unat s * unat b + unat c + unat d"
    unfolding sb m q0_def wbase_def by (simp add: algebra_simps)
  finally have total: "unat r0 + wbase * K = unat s * unat b + unat c + unat d" .
  have "unat s * unat b \<le> (wbase - 1) * (wbase - 1)"
    using unat_lt_wbase [of s] unat_lt_wbase [of b] by (intro mult_le_mono) linarith+
  moreover have "(wbase - 1) * (wbase - 1) + 2 * (wbase - 1) < wbase * wbase" by (simp add: wbase_def)
  ultimately have "wbase * K < wbase * wbase" using total unat_lt_wbase [of c] unat_lt_wbase [of d] by linarith
  then have "K < wbase" by simp
  moreover have "of_nat K = r1" unfolding r K_def by simp
  ultimately have "unat r1 = K" by (auto simp: unat_of_nat take_bit_nat_eq_self wbase_def)
  then show ?thesis using total by simp
qed

lemma mul_carry_value:
  "val xs + unat c < wbase ^ length xs \<Longrightarrow> xs \<noteq> [] \<Longrightarrow>
     \<exists>r. mul_carry xs c = Some r \<and> length r = length xs \<and> val r = val xs + unat c"
proof (induction xs arbitrary: c)
  case (Cons x xs)
  show ?case
  proof (cases "x + c < c")
    case True
    then have s: "unat x + unat c = unat (x + c) + wbase" using add_word_carry [of x c] by simp
    have "wbase * (val xs + 1) \<le> val (x # xs) + unat c" unfolding val.simps distrib_left using s by linarith
    also have "\<dots> < wbase * wbase ^ length xs" using Cons.prems(1) by simp
    finally have "val xs + 1 < wbase ^ length xs" by (simp only: mult_less_cancel1 wbase_pos simp_thms)
    then have lt: "val xs + unat (1 :: u32) < wbase ^ length xs" by simp
    then have "xs \<noteq> []" by auto
    from Cons.IH [OF lt this] obtain r where r: "mul_carry xs 1 = Some r" "length r = length xs" "val r = val xs + 1" by auto
    have "unat (x + c) + wbase * val r = val (x # xs) + unat c" unfolding r(3) val.simps distrib_left using s by linarith
    with True r show ?thesis by simp
  next
    case False
    then show ?thesis using add_word_carry [of x c] by simp
  qed
qed simp

lemma mpi_mul_hlp_value:
  "length ys < length xs \<Longrightarrow> val xs + val ys * unat b + unat c < wbase ^ length xs \<Longrightarrow>
     \<exists>r. mpi_mul_hlp ys xs b c = Some r \<and> length r = length xs \<and> val r = val xs + val ys * unat b + unat c"
proof (induction ys xs b c rule: mpi_mul_hlp.induct)
  case (1 d b c)
  then show ?case using mul_carry_value [of d c] by auto
next
  case (3 y ys x xs b c)
  obtain r0 r1 where m: "MULADDC_CORE y x b c = (r0, r1)" by fastforce
  have s: "unat r0 + wbase * unat r1 = unat y * unat b + unat c + unat x" by (rule MULADDC_CORE_value [OF m])
  have v: "unat r0 + wbase * (val xs + val ys * unat b + unat r1) = val (x # xs) + val (y # ys) * unat b + unat c"
    using s unfolding val.simps distrib_left distrib_right mult.assoc by linarith
  then have "wbase * (val xs + val ys * unat b + unat r1) < wbase * wbase ^ length xs"
    using "3.prems"(2) by (metis add_lessD1 add.commute length_Cons power_Suc)
  then have "val xs + val ys * unat b + unat r1 < wbase ^ length xs" by simp
  from "3.IH" [OF m [symmetric] refl _ this] "3.prems"(1) obtain r where r: "mpi_mul_hlp ys xs b r1 = Some r" "length r = length xs"
    "val r = val xs + val ys * unat b + unat r1" by auto
  then show ?case using m v by simp
qed simp

lemma mul_rows_value:
  "j \<le> length b \<Longrightarrow> length a + j \<le> length p \<Longrightarrow> val p + val a * val (take j b) < wbase ^ length p \<Longrightarrow>
     \<exists>q. mul_rows a b j p = Some q \<and> length q = length p \<and> val q = val p + val a * val (take j b)"
proof (induction j arbitrary: p)
  case (Suc j)
  have t: "val (take (Suc j) b) = val (take j b) + wbase ^ j * unat (b ! j)"
    using Suc.prems(1) by (simp add: take_Suc_conv_app_nth val_append)
  have j: "j \<le> length p" using Suc.prems(2) by simp
  have pw: "wbase ^ length p = wbase ^ j * wbase ^ (length p - j)" using j by (simp flip: power_add)
  have e: "val p + val a * val (take (Suc j) b) =
      val (take j p) + val a * val (take j b) + wbase ^ j * (val (drop j p) + val a * unat (b ! j))"
    unfolding t val_split [OF j] by (simp add: algebra_simps)
  have "wbase ^ j * (val (drop j p) + val a * unat (b ! j)) < wbase ^ j * wbase ^ (length p - j)"
    using Suc.prems(3) unfolding e pw by linarith
  then have "val (drop j p) + val a * unat (b ! j) + unat (0 :: u32) < wbase ^ length (drop j p)" by simp
  moreover have "length a < length (drop j p)" using Suc.prems(2) by simp
  ultimately obtain q where q: "mpi_mul_hlp a (drop j p) (b ! j) 0 = Some q"
    "length q = length p - j" "val q = val (drop j p) + val a * unat (b ! j)"
    using mpi_mul_hlp_value [of a "drop j p" "b ! j" 0] by auto
  let ?p = "take j p @ q"
  have l: "length ?p = length p" using q(2) j by simp
  have v: "val ?p + val a * val (take j b) = val p + val a * val (take (Suc j) b)"
    unfolding e using q(3) j by (simp add: val_append)
  from Suc.IH [of ?p] Suc.prems l v q(1) show ?case by auto
qed simp

subsection \<open>Numbers\<close>

lemma add_to_returns:
  assumes H: "heap_ok H"
  shows "returns (add_to H B X k) (\<lambda>Z. mpi_abs Z = mpi_abs X + mpi_abs B \<and> mpi_n X \<le> mpi_n Z)"
  unfolding add_to_def Let_def
proof (rule returns_CHK [OF grow_returns [OF H]])
  fix X' k'
  let ?j = "limbs_used (mpi_p B)"
  assume X': "X' = X\<lparr>mpi_p := mpi_p X @ replicate (?j - mpi_n X) 0\<rparr>"
  have j: "?j \<le> mpi_n X'" by (simp add: X')
  obtain q c where q: "add_limbs (take ?j (mpi_p X')) (take ?j (mpi_p B)) 0 = (q, c)" "length q = ?j" "unat c \<le> 1"
    "val q + wbase ^ ?j * unat c = val (take ?j (mpi_p X')) + mpi_abs B"
    using add_limbs_value [of "take ?j (mpi_p X')" "take ?j (mpi_p B)" 0] j by (auto simp: mpi_abs_def val_used)
  obtain q' c' where q': "add_carry (drop ?j (mpi_p X')) c = (q', c')" "length q' = mpi_n X' - ?j" "unat c' \<le> 1"
    "val q' + wbase ^ (mpi_n X' - ?j) * unat c' = val (drop ?j (mpi_p X')) + unat c"
    using add_carry_value [OF q(3), of "drop ?j (mpi_p X')"] by auto
  have "mpi_abs X = val (take ?j (mpi_p X')) + wbase ^ ?j * val (drop ?j (mpi_p X'))"
    using val_split [OF j] by (simp add: X' mpi_abs_def)
  then have "mpi_abs X + mpi_abs B = val q + wbase ^ ?j * (val (drop ?j (mpi_p X')) + unat c)"
    using q(4) by (simp add: distrib_left)
  also have "\<dots> = val (q @ q') + wbase ^ mpi_n X' * unat c'"
    unfolding q'(4) [symmetric] using j q(2) by (simp add: val_append distrib_left power_add [symmetric] mult.assoc [symmetric])
  finally have v: "mpi_abs X + mpi_abs B = val (q @ q') + wbase ^ mpi_n X' * unat c'" .
  have l: "length (q @ q') = mpi_n X'" using q(2) q'(2) j by simp
  have n: "mpi_n X \<le> mpi_n X'" by (simp add: X')
  let ?P = "\<lambda>Z. mpi_abs Z = mpi_abs X + mpi_abs B \<and> mpi_n X \<le> mpi_n Z"
  show "returns (case add_limbs (take ?j (mpi_p X')) (take ?j (mpi_p B)) 0 of (q, c) \<Rightarrow>
      case add_carry (drop ?j (mpi_p X')) c of (q', c) \<Rightarrow>
        if c = 0 then Some (0, X'\<lparr>mpi_p := q @ q'\<rparr>, k')
        else MPI_CHK (\<lambda>X. X) (mpi_grow H (X'\<lparr>mpi_p := q @ q'\<rparr>) (mpi_n (X'\<lparr>mpi_p := q @ q'\<rparr>) + 1) k')
           (\<lambda>X k. Some (0, X\<lparr>mpi_p := (mpi_p X)[mpi_n (X'\<lparr>mpi_p := q @ q'\<rparr>) := mpi_p X ! mpi_n (X'\<lparr>mpi_p := q @ q'\<rparr>) + c]\<rparr>, k))) ?P"
  proof (cases "c' = 0")
    case True
    then show ?thesis using q(1) q'(1) v n l by (simp add: returns_def mpi_abs_def)
  next
    case False
    let ?r = "q @ q'"
    have z: "(?r @ [0])[mpi_n X' := (?r @ [0]) ! mpi_n X' + c'] = ?r @ [c']"
      using l by (simp add: list_update_append nth_append del: append_assoc)
    have "returns (MPI_CHK (\<lambda>X. X) (mpi_grow H (X'\<lparr>mpi_p := ?r\<rparr>) (mpi_n X' + 1) k')
           (\<lambda>X k. Some (0, X\<lparr>mpi_p := (mpi_p X)[mpi_n X' := mpi_p X ! mpi_n X' + c']\<rparr>, k)))
        (\<lambda>Z. mpi_p Z = ?r @ [c'])"
      by (rule returns_CHK [OF grow_returns [OF H]], rule returns_Some) (use l z in \<open>simp del: append_assoc\<close>)
    then have "returns (MPI_CHK (\<lambda>X. X) (mpi_grow H (X'\<lparr>mpi_p := ?r\<rparr>) (mpi_n X' + 1) k')
           (\<lambda>X k. Some (0, X\<lparr>mpi_p := (mpi_p X)[mpi_n X' := mpi_p X ! mpi_n X' + c']\<rparr>, k))) ?P"
      by (rule returns_mono) (use v l n val_append [of ?r "[c']"] in \<open>simp add: mpi_abs_def del: append_assoc\<close>)
    then show ?thesis using False q(1) q'(1) l by simp
  qed
qed

lemma add_abs_returns:
  assumes H: "heap_ok H"
  shows "returns (mpi_add_abs H D A B k) (\<lambda>Z. mpi_abs Z = mpi_abs A + mpi_abs B \<and> mpi_n (dest_of D A B) \<le> mpi_n Z \<and>
    (mpi_p A \<noteq> [] \<longrightarrow> mpi_p B \<noteq> [] \<longrightarrow> mpi_p Z \<noteq> []))"
proof (cases D)
  case (Into X)
  have "returns (MPI_CHK (\<lambda>X. X) (mpi_copy H X A k) (add_to H B)) (\<lambda>Z. mpi_abs Z = mpi_abs A + mpi_abs B \<and>
      mpi_n X \<le> mpi_n Z \<and> (mpi_p A \<noteq> [] \<longrightarrow> mpi_p Z \<noteq> []))"
    by (rule returns_CHK [OF copy_returns [OF H]], rule returns_mono [OF add_to_returns [OF H]])
      (auto simp: limbs_kept_def split: if_splits)
  then show ?thesis by (auto simp: mpi_add_abs_def Into dest_of_def intro: returns_mono)
qed (auto simp: mpi_add_abs_def dest_of_def intro!: returns_mono [OF add_to_returns [OF H]])

lemma sub_abs_returns:
  assumes H: "heap_ok H" and le: "mpi_abs B \<le> mpi_abs A"
  shows "returns (mpi_sub_abs H D A B k) (\<lambda>Z. mpi_abs Z = mpi_abs A - mpi_abs B \<and>
    mpi_n (dest_of D A B) \<le> mpi_n Z \<and> (mpi_p A \<noteq> [] \<longrightarrow> mpi_p Z \<noteq> []))"
proof -
  have sub: "\<exists>p. mpi_sub_hlp (take (limbs_used (mpi_p TB)) (mpi_p TB)) (mpi_p X) 0 = Some p \<and> length p = mpi_n X \<and>
      val p = mpi_abs A - mpi_abs B"
    if "mpi_abs TB = mpi_abs B" "mpi_abs X = mpi_abs A" for TB X
  proof -
    have "limbs_used (mpi_p TB) \<le> limbs_used (mpi_p X)"
      using that le by (intro limbs_used_mono) (simp add: mpi_abs_def)
    then have "limbs_used (mpi_p TB) \<le> mpi_n X" using limbs_used_le [of "mpi_p X"] by linarith
    then show ?thesis
      using mpi_sub_hlp_value [of "take (limbs_used (mpi_p TB)) (mpi_p TB)" "mpi_p X" 0] that le
      by (auto simp: mpi_abs_def val_used)
  qed
  have TB: "returns (case D of InB \<Rightarrow> mpi_copy H mpi_init B k | _ \<Rightarrow> Some (0, B, k)) (\<lambda>TB. mpi_abs TB = mpi_abs B)"
    by (cases D) (auto intro!: returns_mono [OF copy_returns [OF H]] returns_Some)
  have X: "returns (case D of InA \<Rightarrow> Some (0, A, k') | _ \<Rightarrow> mpi_copy H (dest_of D A B) A k')
      (\<lambda>X. mpi_abs X = mpi_abs A \<and> mpi_n (dest_of D A B) \<le> mpi_n X \<and> (mpi_p A \<noteq> [] \<longrightarrow> mpi_p X \<noteq> []))" for k'
    by (cases D) (auto intro!: returns_mono [OF copy_returns [OF H]] returns_Some simp: limbs_kept_def dest_of_def)
  have c: "\<not> mpi_cmp_abs A B < 0" using le by (simp add: mpi_cmp_abs_val sgn_if)
  show ?thesis unfolding mpi_sub_abs_def if_not_P [OF c]
  proof (rule returns_CHK [OF TB], rule returns_CHK [OF X], elim conjE)
    fix TB k1 X k2
    assume t: "mpi_abs TB = mpi_abs B" and x: "mpi_abs X = mpi_abs A" "mpi_n (dest_of D A B) \<le> mpi_n X" "mpi_p A \<noteq> [] \<longrightarrow> mpi_p X \<noteq> []"
    from sub [OF t x(1)] obtain p where "mpi_sub_hlp (take (limbs_used (mpi_p TB)) (mpi_p TB)) (mpi_p X) 0 = Some p"
      "length p = mpi_n X" "val p = mpi_abs A - mpi_abs B" by blast
    with x show "returns (mpi_sub_hlp (take (limbs_used (mpi_p TB)) (mpi_p TB)) (mpi_p X) 0 \<bind>
        (\<lambda>p. Some (0, X\<lparr>mpi_p := p\<rparr>, k2)))
      (\<lambda>Z. mpi_abs Z = mpi_abs A - mpi_abs B \<and> mpi_n (dest_of D A B) \<le> mpi_n Z \<and> (mpi_p A \<noteq> [] \<longrightarrow> mpi_p Z \<noteq> []))"
      by (auto simp: returns_def mpi_abs_def)
  qed
qed

lemma set_sign_returns: "returns m (\<lambda>Z. P (Z\<lparr>mpi_s := s\<rparr>)) \<Longrightarrow> returns (MPI_CHK out m (set_sign s)) P"
  by (erule returns_CHK) (simp add: set_sign_def returns_def)

text \<open>A number is proper when its sign is 1 or -1 and it has limbs.\<close>

definition proper :: "mpi \<Rightarrow> bool" where
  "proper X \<longleftrightarrow> sign_ok X \<and> mpi_p X \<noteq> []"

lemma dest_swap [simp]: "dest_of (swap_dest D) B A = dest_of D A B"
  by (cases D) (simp_all add: swap_dest_def dest_of_def)

text \<open>The sign of a sum is that of the first number, unless the second one has the other sign and is larger.\<close>

definition sum_sign :: "int \<Rightarrow> mpi \<Rightarrow> mpi \<Rightarrow> int" where
  "sum_sign e A B = (if mpi_s A \<noteq> e * mpi_s B \<and> mpi_abs A < mpi_abs B then - mpi_s A else mpi_s A)"

lemma sum_returns:
  assumes H: "heap_ok H" and A: "proper A" and B: "proper B" and e: "e = 1 \<or> e = -1"
  shows "returns (if mpi_s A * (e * mpi_s B) < 0 then
           (if mpi_cmp_abs A B \<ge> 0 then MPI_CHK (\<lambda>X. X) (mpi_sub_abs H D A B k) (set_sign (mpi_s A))
            else MPI_CHK (\<lambda>X. X) (mpi_sub_abs H (swap_dest D) B A k) (set_sign (- mpi_s A)))
         else MPI_CHK (\<lambda>X. X) (mpi_add_abs H D A B k) (set_sign (mpi_s A)))
    (\<lambda>Z. mpi_val Z = mpi_val A + e * mpi_val B \<and> proper Z \<and> mpi_s Z = sum_sign e A B \<and> mpi_n (dest_of D A B) \<le> mpi_n Z)"
    (is "returns _ ?P")
proof -
  have s: "mpi_s A = 1 \<or> mpi_s A = -1" "mpi_s B = 1 \<or> mpi_s B = -1" using A B by (auto simp: proper_def sign_ok_def)
  have ne: "mpi_p A \<noteq> []" "mpi_p B \<noteq> []" using A B by (auto simp: proper_def)
  note defs = mpi_val_def mpi_abs_def proper_def sign_ok_def sum_sign_def
  show ?thesis
  proof (intro returns_if set_sign_returns)
    assume "mpi_s A * (e * mpi_s B) < 0" "0 \<le> mpi_cmp_abs A B"
    then show "returns (mpi_sub_abs H D A B k) (\<lambda>Z. ?P (Z\<lparr>mpi_s := mpi_s A\<rparr>))"
      using s e ne by (intro returns_mono [OF sub_abs_returns [OF H]])
        (auto simp: defs of_nat_diff mpi_cmp_abs_val [unfolded mpi_abs_def] sgn_if split: if_splits)
  next
    assume "mpi_s A * (e * mpi_s B) < 0" "\<not> 0 \<le> mpi_cmp_abs A B"
    then show "returns (mpi_sub_abs H (swap_dest D) B A k) (\<lambda>Z. ?P (Z\<lparr>mpi_s := - mpi_s A\<rparr>))"
      using s e ne by (intro returns_mono [OF sub_abs_returns [OF H]])
        (auto simp: defs of_nat_diff mpi_cmp_abs_val [unfolded mpi_abs_def] sgn_if split: if_splits)
  next
    assume "\<not> mpi_s A * (e * mpi_s B) < 0"
    then show "returns (mpi_add_abs H D A B k) (\<lambda>Z. ?P (Z\<lparr>mpi_s := mpi_s A\<rparr>))"
      using s e ne by (intro returns_mono [OF add_abs_returns [OF H]]) (auto simp: defs)
  qed
qed

lemma add_mpi_returns:
  "heap_ok H \<Longrightarrow> proper A \<Longrightarrow> proper B \<Longrightarrow>
     returns (mpi_add_mpi H D A B k) (\<lambda>Z. mpi_val Z = mpi_val A + mpi_val B \<and> proper Z \<and> mpi_s Z = sum_sign 1 A B \<and>
       mpi_n (dest_of D A B) \<le> mpi_n Z)"
  using sum_returns [of H A B 1 D k] by (simp add: mpi_add_mpi_def Let_def)

lemma sub_mpi_returns:
  "heap_ok H \<Longrightarrow> proper A \<Longrightarrow> proper B \<Longrightarrow>
     returns (mpi_sub_mpi H D A B k) (\<lambda>Z. mpi_val Z = mpi_val A - mpi_val B \<and> proper Z \<and> mpi_s Z = sum_sign (-1) A B \<and>
       mpi_n (dest_of D A B) \<le> mpi_n Z)"
  using sum_returns [of H A B "-1" D k] by (simp add: mpi_sub_mpi_def Let_def)

lemma mul_mpi_returns:
  assumes H: "heap_ok H"
  shows "returns (mpi_mul_mpi H D A B k) (\<lambda>Z. mpi_s Z = mpi_s A * mpi_s B \<and> mpi_abs Z = mpi_abs A * mpi_abs B \<and> mpi_p Z \<noteq> [] \<and>
    mpi_n Z = max (max (mpi_n (dest_of D A B)) 1) (limbs_used (mpi_p A) + limbs_used (mpi_p B)))"
proof -
  let ?eq = "\<lambda>(A :: mpi) (A' :: mpi). mpi_s A' = mpi_s A \<and> mpi_abs A' = mpi_abs A \<and> limbs_used (mpi_p A') = limbs_used (mpi_p A)"
  have u: "limbs_used (mpi_p X) = limbs_used (mpi_p Y)" if "mpi_abs X = mpi_abs Y" for X Y :: mpi
    using that by (intro antisym limbs_used_mono) (simp_all add: mpi_abs_def)
  have TA: "returns (case D of InA \<Rightarrow> mpi_copy H mpi_init A k | _ \<Rightarrow> Some (0, A, k)) (?eq A)"
    by (cases D) (auto intro!: returns_mono [OF copy_returns [OF H]] returns_Some u)
  have TB: "returns (case D of InB \<Rightarrow> mpi_copy H mpi_init B k' | _ \<Rightarrow> Some (0, B, k')) (?eq B)" for k'
    by (cases D) (auto intro!: returns_mono [OF copy_returns [OF H]] returns_Some u)
  show ?thesis unfolding mpi_mul_mpi_def Let_def
  proof (rule returns_CHK [OF TA], rule returns_CHK [OF TB], rule returns_CHK [OF grow_returns [OF H]],
      rule returns_CHK [OF lset_returns [OF H]], simp, elim conjE)
    fix A' B' X Y :: mpi and kA kB kX kY
    let ?i = "limbs_used (mpi_p A')" and ?j = "limbs_used (mpi_p B')"
    assume a: "mpi_s A' = mpi_s A" "mpi_abs A' = mpi_abs A" "?i = limbs_used (mpi_p A)"
      and b: "mpi_s B' = mpi_s B" "mpi_abs B' = mpi_abs B" "?j = limbs_used (mpi_p B)"
      and X: "X = (dest_of D A B)\<lparr>mpi_p := mpi_p (dest_of D A B) @ replicate (?i + ?j - mpi_n (dest_of D A B)) 0\<rparr>"
      and Y: "mpi_s Y = int_sign 0" "mpi_abs Y = nat \<bar>0\<bar>" "mpi_n Y = max (mpi_n X) 1"
    have n: "mpi_n Y = max (max (mpi_n (dest_of D A B)) 1) (?i + ?j)" using X Y(3) by auto
    have "mpi_abs A * mpi_abs B < wbase ^ ?i * wbase ^ ?j"
      using val_used_lt [of "mpi_p A'"] val_used_lt [of "mpi_p B'"] a(2) b(2)
      by (intro mult_strict_mono) (simp_all add: mpi_abs_def)
    also have "\<dots> \<le> wbase ^ mpi_n Y" unfolding power_add [symmetric] using n by (intro wbase_power_mono) simp
    finally have lt: "mpi_abs A * mpi_abs B < wbase ^ mpi_n Y" .
    have v: "val (take ?i (mpi_p A')) = mpi_abs A" "val (take ?j (mpi_p B')) = mpi_abs B" "val (mpi_p Y) = 0"
      using a(2) b(2) Y(2) by (simp_all add: val_used mpi_abs_def)
    have l: "length (take ?i (mpi_p A')) + ?j \<le> mpi_n Y" unfolding n by simp
    have "val (mpi_p Y) + val (take ?i (mpi_p A')) * val (take ?j (mpi_p B')) < wbase ^ mpi_n Y" unfolding v using lt by simp
    from mul_rows_value [OF limbs_used_le l this]
    have "\<exists>q. mul_rows (take ?i (mpi_p A')) (mpi_p B') ?j (mpi_p Y) = Some q \<and> length q = mpi_n Y \<and> val q = mpi_abs A * mpi_abs B"
      unfolding v by simp
    then obtain q where q: "mul_rows (take ?i (mpi_p A')) (mpi_p B') ?j (mpi_p Y) = Some q" "length q = mpi_n Y"
      "val q = mpi_abs A * mpi_abs B" by blast
    then have "q \<noteq> []" using n by auto
    with q n a b show "returns (mul_rows (take ?i (mpi_p A')) (mpi_p B') ?j (mpi_p Y) \<bind>
        (\<lambda>p. Some (0, \<lparr>mpi_s = mpi_s A' * mpi_s B', mpi_p = p\<rparr>, kY)))
      (\<lambda>Z. mpi_s Z = mpi_s A * mpi_s B \<and> mpi_abs Z = mpi_abs A * mpi_abs B \<and> mpi_p Z \<noteq> [] \<and>
        mpi_n Z = max (max (mpi_n (dest_of D A B)) 1) (limbs_used (mpi_p A) + limbs_used (mpi_p B)))"
      by (simp add: returns_def mpi_abs_def)
  qed
qed

lemma mul_mpi_value_returns:
  "heap_ok H \<Longrightarrow> proper A \<Longrightarrow> proper B \<Longrightarrow>
     returns (mpi_mul_mpi H D A B k) (\<lambda>Z. mpi_val Z = mpi_val A * mpi_val B \<and> proper Z)"
  by (rule returns_mono [OF mul_mpi_returns]) (auto simp: mpi_val_def proper_def sign_ok_def)

end
