(* ===== verification/Quotient_Digits.thy ===== *)
theory Quotient_Digits
  imports MpiSum
begin

text \<open>
  The digits of a division. Whatever the estimate of a digit is, the loop that lowers it and the step that adds the
  divisor back leave a dividend that is not negative, and what the step takes from the dividend is the digit it
  stores times the divisor.
\<close>

subsection \<open>The estimate returns\<close>

lemma div_adjust_returns: "0 < d \<Longrightarrow> \<exists>q' r'. div_adjust d m q r = Some (q', r')"
proof (induction "unat m - unat r" arbitrary: q r rule: less_induct)
  case less
  show ?case
  proof (cases "r \<ge> d \<and> r < m")
    case True
    show ?thesis
    proof (cases "unat r + unat d < 2 ^ 32")
      case True
      then have "unat (r + d) = unat r + unat d" by (intro unat_add_lt) simp
      moreover have "0 < unat d" "unat r < unat m" using less.prems \<open>r \<ge> d \<and> r < m\<close> by (simp_all add: word_less_nat_alt)
      ultimately have "unat m - unat (r + d) < unat m - unat r" by linarith
      from less.hyps [OF this less.prems] show ?thesis
        by (subst div_adjust.simps) (simp only: if_P [OF \<open>r \<ge> d \<and> r < m\<close>])
    next
      case False
      then have "r + d < d" using add_word_carry [of r d] unat_lt_wbase [of "r + d"] by (auto simp: wbase_def split: if_splits)
      then have "\<not> (r + d \<ge> d \<and> r + d < m)" by (meson leD)
      then have "div_adjust d m (q - 1) (r + d) = Some (q - 1, r + d)" by (subst div_adjust.simps) (simp only: if_False)
      then show ?thesis by (subst div_adjust.simps) (simp only: if_P [OF \<open>r \<ge> d \<and> r < m\<close>], simp)
    qed
  next
    case False
    then show ?thesis by (subst div_adjust.simps) auto
  qed
qed

lemma div_half_returns: "drop_bit 16 d \<noteq> 0 \<Longrightarrow> \<exists>q r. div_half d x low = Some (q, r)"
proof -
  assume d: "drop_bit 16 d \<noteq> 0"
  then have "d \<noteq> 0" by auto
  then have "0 < d" by (simp add: word_neq_0_conv)
  then have a: "\<exists>q' r'. div_adjust d m q r = Some (q', r')" for m q r by (rule div_adjust_returns)
  show ?thesis
    using d a [of "x div drop_bit 16 d * low_half d" "x div drop_bit 16 d - 1"
        "(push_bit 16 (x - drop_bit 16 d * (x div drop_bit 16 d)) OR low) + d"]
    unfolding div_half_def Let_def if_not_P [OF d] by (auto split: if_split)
qed

lemma udiv_qrnnd_returns: "drop_bit 16 d \<noteq> 0 \<Longrightarrow> \<exists>q. udiv_qrnnd x1 x0 d = Some q"
proof -
  assume d: "drop_bit 16 d \<noteq> 0"
  from div_half_returns [OF d] obtain q1 r1 where "div_half d x1 (drop_bit 16 x0) = Some (q1, r1)" by blast
  moreover from div_half_returns [OF d] obtain q0 r0 where "div_half d r1 (low_half x0) = Some (q0, r0)" by blast
  ultimately show ?thesis by (simp add: udiv_qrnnd_def)
qed

subsection \<open>Lowering a digit\<close>

lemma zero_limbs: "mpi_abs X = 0 \<Longrightarrow> mpi_p X = replicate (mpi_n X) 0"
  by (simp add: mpi_abs_def val_eq_0) (metis replicate_eqI)

lemma wr_zero_limbs:
  "mpi_abs X = 0 \<Longrightarrow> length ys \<le> mpi_n X \<Longrightarrow> \<exists>p. wr (mpi_p X) 0 ys = Some p \<and> length p = mpi_n X \<and> val p = val ys"
proof -
  assume x: "mpi_abs X = 0" "length ys \<le> mpi_n X"
  then obtain n where n: "mpi_p X = replicate n 0" using zero_limbs by blast
  then show ?thesis using x(2) by (simp add: wr_def val_append)
qed

definition top2 :: "u32 \<times> u32 \<Rightarrow> nat" where "top2 ys = val [fst ys, snd ys]"
definition top3 :: "u32 \<times> u32 \<times> u32 \<Rightarrow> nat" where "top3 xs = val [fst xs, fst (snd xs), snd (snd xs)]"

lemma mul_int_returns:
  "heap_ok H \<Longrightarrow> returns (mpi_mul_int H D A b k) (\<lambda>Z. mpi_s Z = mpi_s A \<and> mpi_abs Z = mpi_abs A * unat b \<and> mpi_p Z \<noteq> [] \<and>
    mpi_n (dest_of D A \<lparr>mpi_s = 1, mpi_p = [b]\<rparr>) \<le> mpi_n Z)"
  unfolding mpi_mul_int_def by (rule returns_mono [OF mul_mpi_returns]) (auto simp: mpi_abs_def)

lemma div_digit_returns:
  assumes H: "heap_ok H"
  shows "2 \<le> mpi_n T1 \<Longrightarrow> 3 \<le> mpi_n T2 \<Longrightarrow> returns (div_digit H ys xs z T1 T2 k)
    (\<lambda>(z', T1', T2'). unat z' * top2 ys \<le> top3 xs \<and> 2 \<le> mpi_n T1' \<and> 3 \<le> mpi_n T2')"
proof (induction "unat z" arbitrary: z T1 T2 k rule: less_induct)
  case less
  let ?P = "\<lambda>(z', T1', T2'). unat z' * top2 ys \<le> top3 xs \<and> 2 \<le> mpi_n T1' \<and> 3 \<le> mpi_n T2'"
  show ?case
  proof (subst div_digit.simps, rule returns_CHK [OF lset_returns [OF H]], simp, elim conjE)
    fix Y1 :: mpi and k1
    assume y1: "mpi_s Y1 = int_sign 0" "mpi_abs Y1 = nat \<bar>0\<bar>" "mpi_n Y1 = max (mpi_n T1) 1"
    from wr_zero_limbs [of Y1 "[fst ys, snd ys]"] y1 less.prems(1) obtain p where
      p: "wr (mpi_p Y1) 0 [fst ys, snd ys] = Some p" "length p = mpi_n Y1" "val p = top2 ys"
      by (auto simp: top2_def)
    show "returns (wr (mpi_p Y1) 0 [fst ys, snd ys] \<bind> (\<lambda>p.
       MPI_CHK (\<lambda>T1. (z, T1, T2)) (mpi_mul_int H InA (Y1\<lparr>mpi_p := p\<rparr>) z k1) (\<lambda>T1 k.
       MPI_CHK (\<lambda>T2. (z, T1, T2)) (mpi_lset H T2 0 k) (\<lambda>T2 k. do {
         p \<leftarrow> wr (mpi_p T2) 0 [fst xs, fst (snd xs), snd (snd xs)];
         let T2 = T2\<lparr>mpi_p := p\<rparr>;
         if mpi_cmp_mpi T1 T2 > 0 then div_digit H ys xs (z - 1) T1 T2 k
         else Some (0, (z, T1, T2), k) })))) ?P"
    proof (rule returns_bind [OF p(1)], rule returns_CHK [OF mul_int_returns [OF H]], rule returns_CHK [OF lset_returns [OF H]], simp, elim conjE)
      fix Z1 Z2 :: mpi and k2 k3
      assume z1: "mpi_s Z1 = mpi_s (Y1\<lparr>mpi_p := p\<rparr>)" "mpi_abs Z1 = mpi_abs (Y1\<lparr>mpi_p := p\<rparr>) * unat z" "mpi_p Z1 \<noteq> []"
          "mpi_n (dest_of InA (Y1\<lparr>mpi_p := p\<rparr>) \<lparr>mpi_s = 1, mpi_p = [z]\<rparr>) \<le> mpi_n Z1"
        and z2: "mpi_s Z2 = int_sign 0" "mpi_abs Z2 = nat \<bar>0\<bar>" "mpi_n Z2 = max (mpi_n T2) 1"
      from wr_zero_limbs [of Z2 "[fst xs, fst (snd xs), snd (snd xs)]"] z2 less.prems(2) obtain q where
        q: "wr (mpi_p Z2) 0 [fst xs, fst (snd xs), snd (snd xs)] = Some q" "length q = mpi_n Z2" "val q = top3 xs"
        by (auto simp: top3_def)
      have s: "mpi_s Z1 = 1" "mpi_abs Z1 = top2 ys * unat z" "2 \<le> mpi_n Z1"
        using z1 y1 p(2,3) less.prems(1) by (auto simp: mpi_abs_def int_sign_def dest_of_def)
      let ?Z2 = "Z2\<lparr>mpi_p := q\<rparr>"
      have t: "mpi_s ?Z2 = 1" "mpi_abs ?Z2 = top3 xs" "3 \<le> mpi_n ?Z2"
        using z2 q(2,3) less.prems(2) by (auto simp: mpi_abs_def int_sign_def)
      have c: "mpi_cmp_mpi Z1 ?Z2 = sgn (int (top2 ys * unat z) - int (top3 xs))"
        using s t by (subst mpi_cmp_mpi_same) (simp_all add: sign_ok_def mpi_val_def)
      have "returns (if mpi_cmp_mpi Z1 ?Z2 > 0 then div_digit H ys xs (z - 1) Z1 ?Z2 k3 else Some (0, (z, Z1, ?Z2), k3)) ?P"
      proof (rule returns_if)
        assume "mpi_cmp_mpi Z1 ?Z2 > 0"
        then have "z \<noteq> 0" using c by (auto simp: sgn_if split: if_splits)
        then have "unat (z - 1) < unat z" by (simp add: unat_minus_one unat_gt_0)
        from less.hyps [OF this s(3) t(3)] show "returns (div_digit H ys xs (z - 1) Z1 ?Z2 k3) ?P" .
      next
        assume "\<not> mpi_cmp_mpi Z1 ?Z2 > 0"
        then have "int (top2 ys * unat z) \<le> int (top3 xs)" unfolding c by (simp only: sgn_if split: if_splits)
        then have "top2 ys * unat z \<le> top3 xs" by (simp only: of_nat_le_iff)
        with s t show "returns (Some (0, (z, Z1, ?Z2), k3)) ?P" by (auto simp: returns_def mult.commute)
      qed
      then show "returns (wr (mpi_p Z2) 0 [fst xs, fst (snd xs), snd (snd xs)] \<bind> (\<lambda>p.
         let T2 = Z2\<lparr>mpi_p := p\<rparr> in
         if mpi_cmp_mpi Z1 T2 > 0 then div_digit H ys xs (z - 1) Z1 T2 k3
         else Some (0, (z, Z1, T2), k3))) ?P"
        using q(1) by (simp add: Let_def)
    qed
  qed
qed

subsection \<open>A step\<close>

lemma val_part_le: "wbase ^ j * val (take m (drop j p)) \<le> val p"
proof (cases "j \<le> length p")
  case True
  have "val (drop j p) = val (take m (drop j p)) + wbase ^ length (take m (drop j p)) * val (drop m (drop j p))"
    unfolding val_append [symmetric] append_take_drop_id ..
  then have "val (take m (drop j p)) \<le> val (drop j p)" by linarith
  then have "wbase ^ j * val (take m (drop j p)) \<le> wbase ^ j * val (drop j p)" by (rule mult_le_mono2)
  also have "\<dots> \<le> val p" using val_split [OF True] by simp
  finally show ?thesis .
qed simp

lemma digit_bound:
  fixes z :: u32 and p q :: limbs
  assumes p: "t < length p" "p ! t \<noteq> 0" "val p < wbase ^ Suc t" and q: "t + Suc c < length q"
    and z: "unat z * top2 (if t < 1 then 0 else p ! (t - 1), p ! t) \<le>
      top3 (if t + Suc c < 2 then 0 else q ! (t + Suc c - 2), q ! (t + Suc c - 1), q ! (t + Suc c))"
  shows "unat z * val p * wbase ^ c < val q + val p * wbase ^ c"
proof -
  have v: "val p = val (take (Suc t) p)" using p(3) by (intro val_used_more [symmetric]) (simp only: limbs_used_iff)
  have pt: "1 \<le> unat (p ! t)" using p(2) by (simp add: Suc_le_eq unat_gt_0)
  show ?thesis
  proof (cases t)
    case 0
    have p0: "val p = unat (p ! 0)" using v p(1) 0 by (simp add: take_Suc_conv_app_nth)
    define x where "x = unat (q ! c) + wbase * unat (q ! Suc c)"
    have "take 2 (drop c q) = [q ! c, q ! Suc c]"
      using q 0 by (simp add: numeral_2_eq_2 Cons_nth_drop_Suc [symmetric])
    then have vq: "wbase ^ c * x \<le> val q" using val_part_le [of c 2 q] by (simp add: x_def)
    have zx: "unat z * val p \<le> x"
    proof -
      have "wbase * (unat z * val p) \<le> unat (if c < 1 then 0 else q ! (c - 1)) + wbase * x"
        using z 0 unfolding p0 x_def top2_def top3_def by (auto simp: algebra_simps)
      then have "wbase * (unat z * val p) < wbase * Suc x"
        using unat_lt_wbase [of "if c < 1 then 0 else q ! (c - 1)"] unfolding mult_Suc_right by linarith
      then have "unat z * val p < Suc x" by (simp only: mult_less_cancel1 wbase_pos simp_thms)
      then show ?thesis by simp
    qed
    have "unat z * val p * wbase ^ c \<le> val q"
      using mult_le_mono1 [OF zx, of "wbase ^ c"] vq by (simp only: mult.commute [of x])
    moreover have "0 < val p * wbase ^ c" using p0 pt 0 by simp
    ultimately show ?thesis by linarith
  next
    case (Suc s)
    define x y where "x = top3 (q ! (s + c), q ! Suc (s + c), q ! Suc (Suc (s + c)))" and "y = top2 (p ! s, p ! t)"
    have zy: "unat z * y \<le> x" using z Suc by (simp add: x_def y_def)
    have "take 3 (drop (s + c) q) = [q ! (s + c), q ! Suc (s + c), q ! Suc (Suc (s + c))]"
      using q Suc by (simp add: numeral_3_eq_3 Cons_nth_drop_Suc [symmetric])
    then have vq: "wbase ^ (s + c) * x \<le> val q" using val_part_le [of "s + c" 3 q] by (simp add: x_def top3_def)
    have vp: "val p = val (take s p) + wbase ^ s * y"
      using v p(1) Suc by (simp add: take_Suc_conv_app_nth val_append y_def top2_def distrib_left)
    have tk: "val (take s p) < wbase ^ s" using val_lt [of "take s p"] p(1) Suc by simp
    have "wbase \<le> y"
      using mult_le_mono2 [OF pt, of wbase] unfolding y_def top2_def fst_conv snd_conv val.simps mult_0_right add_0_right nat_mult_1_right by linarith
    then have "wbase ^ s * wbase \<le> val p" using vp mult_le_mono2 [of wbase y "wbase ^ s"] by linarith
    moreover have "unat z * val (take s p) < wbase * wbase ^ s"
      using unat_lt_wbase [of z] tk by (intro mult_strict_mono) simp_all
    ultimately have low: "unat z * val (take s p) < val p" by (simp add: mult.commute)
    have "unat z * val p * wbase ^ c = unat z * val (take s p) * wbase ^ c + wbase ^ (s + c) * (unat z * y)"
      unfolding vp by (simp add: algebra_simps power_add)
    also have "\<dots> < val p * wbase ^ c + wbase ^ (s + c) * x"
      using low zy by (intro add_less_le_mono mult_strict_right_mono mult_le_mono2) simp_all
    finally show ?thesis using vq by linarith
  qed
qed

lemma shift_l_returns':
  assumes "heap_ok H" "mpi_p X \<noteq> []"
  shows "returns (mpi_shift_l H X count k) (\<lambda>Y. mpi_s Y = mpi_s X \<and> mpi_abs Y = 2 ^ count * mpi_abs X \<and> mpi_n X \<le> mpi_n Y \<and> mpi_p Y \<noteq> [])"
proof -
  obtain m where "mpi_msb X = Some m" using mpi_msb_value [OF assms(2)] by blast
  from shift_l_returns [OF assms(1) this] show ?thesis by (rule returns_mono) (use assms(2) in auto)
qed

lemma two_power_limbs: "(2 :: nat) ^ (32 * c) = wbase ^ c"
  by (simp add: wbase_def power_mult)

definition divisor :: "mpi \<Rightarrow> nat \<Rightarrow> bool" where
  "divisor Y t \<longleftrightarrow> mpi_s Y = 1 \<and> t < mpi_n Y \<and> drop_bit 16 (mpi_p Y ! t) \<noteq> 0 \<and> mpi_abs Y < wbase ^ Suc t"

definition dividing :: "nat \<Rightarrow> nat \<Rightarrow> div_state \<Rightarrow> bool" where
  "dividing t c = (\<lambda>(X, Z, T1, T2). mpi_s X = 1 \<and> t + c < mpi_n X \<and> c \<le> mpi_n Z \<and> (\<forall>j < c. mpi_p Z ! j = 0) \<and>
     2 \<le> mpi_n T1 \<and> 3 \<le> mpi_n T2)"

definition quot_sum :: "mpi \<Rightarrow> div_state \<Rightarrow> nat" where
  "quot_sum Y = (\<lambda>(X, Z, T1, T2). mpi_abs X + mpi_abs Y * mpi_abs Z)"

lemma divisor_facts: "divisor Y t \<Longrightarrow> mpi_p Y ! t \<noteq> 0" "divisor Y t \<Longrightarrow> proper Y" "divisor Y t \<Longrightarrow> 0 < mpi_abs Y"
proof -
  assume d: "divisor Y t"
  then show n: "mpi_p Y ! t \<noteq> 0" by (auto simp: divisor_def)
  show "proper Y" using d by (auto simp: divisor_def proper_def sign_ok_def)
  show "0 < mpi_abs Y" using d n by (auto simp: divisor_def mpi_abs_def val_eq_0 intro!: Nat.gr0I)
qed

lemma store_digit:
  assumes "dividing t (Suc c) (X, Z, T1, T2)"
  shows "\<exists>p. upd_opt (mpi_p Z) c z = Some p \<and> length p = mpi_n Z \<and> val p = mpi_abs Z + wbase ^ c * unat z \<and>
    (\<forall>j < c. p ! j = 0)"
  using assms val_update [of c "mpi_p Z" z] by (auto simp: upd_opt_def dividing_def mpi_abs_def)

lemma div_step_returns:
  assumes H: "heap_ok H" and Y: "divisor Y t" and st: "dividing t (Suc c) st"
  shows "returns (div_step H Y t c st k) (\<lambda>st'. dividing t c st' \<and> quot_sum Y st' = quot_sum Y st)"
proof -
  obtain X Z T1 T2 where st': "st = (X, Z, T1, T2)" by (cases st) auto
  have X: "mpi_s X = 1" "t + Suc c < mpi_n X" "2 \<le> mpi_n T1" "3 \<le> mpi_n T2" "proper X"
    using st by (auto simp: st' dividing_def proper_def sign_ok_def)
  have Y1: "mpi_s Y = 1" "t < mpi_n Y" "drop_bit 16 (mpi_p Y ! t) \<noteq> 0" using Y by (auto simp: divisor_def)
  note Yf = divisor_facts [OF Y]
  let ?y1 = "if t < 1 then 0 else mpi_p Y ! (t - 1)" and ?x2 = "if t + Suc c < 2 then 0 else mpi_p X ! (t + Suc c - 2)"
    and ?x1 = "mpi_p X ! (t + Suc c - 1)" and ?xi = "mpi_p X ! (t + Suc c)" and ?yt = "mpi_p Y ! t"
  obtain z0 where z0: "(if ?xi \<ge> ?yt then Some (-1) else udiv_qrnnd ?xi ?x1 ?yt) = Some z0"
    using udiv_qrnnd_returns [OF Y1(3)] by (cases "?xi \<ge> ?yt") auto
  have y1: "(if t < 1 then Some 0 else nth_opt (mpi_p Y) (t - 1)) = Some ?y1" using Y1(2) by (auto simp: nth_opt_def)
  have x2: "(if t + Suc c < 2 then Some 0 else nth_opt (mpi_p X) (t + Suc c - 2)) = Some ?x2" using X(2) by (auto simp: nth_opt_def)
  have n: "nth_opt (mpi_p X) (t + Suc c) = Some ?xi" "nth_opt (mpi_p X) (t + Suc c - 1) = Some ?x1" "nth_opt (mpi_p Y) t = Some ?yt"
    using X(2) Y1(2) by (auto simp: nth_opt_def)
  let ?Q = "\<lambda>st'. dividing t c st' \<and> quot_sum Y st' = quot_sum Y (X, Z, T1, T2)"
  show ?thesis
    unfolding div_step_def st' prod.case Let_def
  proof (rule returns_bind [OF n(1)], rule returns_bind [OF n(2)], rule returns_bind [OF n(3)], rule returns_bind [OF z0],
      rule returns_bind [OF y1], rule returns_bind [OF x2], rule returns_CHK [OF div_digit_returns [OF H X(3,4)]],
      clarify, rule returns_CHK [OF mul_int_returns [OF H]], elim conjE, rule returns_CHK [OF shift_l_returns' [OF H]],
      assumption, elim conjE, rule returns_CHK [OF sub_mpi_returns [OF H X(5)]])
    fix z :: u32 and S1 S2 A B :: mpi and k1 k2 k3
    assume "mpi_p A \<noteq> []" "mpi_s A = mpi_s Y" "mpi_s B = mpi_s A" "mpi_p B \<noteq> []"
    then show "proper B" using Yf(2) by (simp add: proper_def sign_ok_def)
  next
    fix z :: u32 and S1 S2 A B D :: mpi and k1 k2 k3 k4
    assume z: "unat z * top2 (?y1, ?yt) \<le> top3 (?x2, ?x1, ?xi)" "2 \<le> mpi_n S1" "3 \<le> mpi_n S2"
      and A: "mpi_s A = mpi_s Y" "mpi_abs A = mpi_abs Y * unat z" "mpi_p A \<noteq> []"
        "mpi_n (dest_of (Into S1) Y \<lparr>mpi_s = 1, mpi_p = [z]\<rparr>) \<le> mpi_n A"
      and B: "mpi_s B = mpi_s A" "mpi_abs B = 2 ^ (32 * c) * mpi_abs A" "mpi_n A \<le> mpi_n B" "mpi_p B \<noteq> []"
      and D: "mpi_val D = mpi_val X - mpi_val B \<and> proper D \<and> mpi_s D = sum_sign (- 1) X B \<and> mpi_n (dest_of InA X B) \<le> mpi_n D"
    have bound: "unat z * mpi_abs Y * wbase ^ c < mpi_abs X + mpi_abs Y * wbase ^ c"
      using digit_bound [of t "mpi_p Y" c "mpi_p X" z] Y1 Y Yf(1) X(2) z(1) by (simp add: divisor_def mpi_abs_def)
    have aB: "mpi_abs B = unat z * mpi_abs Y * wbase ^ c" unfolding A(2) B(2) two_power_limbs by (simp only: ac_simps)
    have sB: "mpi_s B = 1" using A(1) B(1) Y1(1) by simp
    have S: "2 \<le> mpi_n B" "mpi_n X \<le> mpi_n D" using z(2) A(4) B(3) D by (auto simp: dest_of_def)
    have "mpi_val D = mpi_val X - mpi_val B" using D by blast
    then have vD: "mpi_val D = int (mpi_abs X) - int (mpi_abs B)" unfolding mpi_val_def [of X] mpi_val_def [of B] using X(1) sB by simp
    have sD: "mpi_s D = (if mpi_abs X < mpi_abs B then -1 else 1)" using D X(1) sB by (simp add: sum_sign_def)
    have cD: "mpi_cmp_int D 0 < 0 \<longleftrightarrow> mpi_abs X < mpi_abs B"
      using D vD by (subst mpi_cmp_int_0) (auto simp: proper_def sgn_if)
    show "returns (if mpi_cmp_int D 0 < 0 then
       MPI_CHK (\<lambda>_. (D, Z, B, S2)) (mpi_copy H B Y k4) (\<lambda>T1 k.
       MPI_CHK (\<lambda>_. (D, Z, T1, S2)) (mpi_shift_l H T1 (32 * c) k) (\<lambda>T1 k.
       MPI_CHK (\<lambda>X. (X, Z, T1, S2)) (mpi_add_mpi H InA D T1 k) (\<lambda>X k. do {
         p \<leftarrow> upd_opt (mpi_p Z) c (z - 1);
         Some (0, (X, Z\<lparr>mpi_p := p\<rparr>, T1, S2), k) })))
     else do {
       p \<leftarrow> upd_opt (mpi_p Z) c z;
       Some (0, (D, Z\<lparr>mpi_p := p\<rparr>, B, S2), k4) }) ?Q"
    proof (rule returns_if)
      assume "\<not> mpi_cmp_int D 0 < 0"
      then have le: "mpi_abs B \<le> mpi_abs X" using cD by simp
      then have aD: "mpi_abs D + mpi_abs B = mpi_abs X" "mpi_s D = 1" using vD sD by (simp_all add: mpi_val_def)
      from store_digit [OF st [unfolded st'], of z] obtain p where p: "upd_opt (mpi_p Z) c z = Some p" "length p = mpi_n Z"
        "val p = mpi_abs Z + wbase ^ c * unat z" "\<forall>j < c. p ! j = 0" by blast
      have "mpi_abs D + mpi_abs Y * val p = mpi_abs X + mpi_abs Y * mpi_abs Z"
        using aD(1) aB p(3) by (simp add: algebra_simps)
      then show "returns (upd_opt (mpi_p Z) c z \<bind> (\<lambda>p. Some (0, (D, Z\<lparr>mpi_p := p\<rparr>, B, S2), k4))) ?Q"
        using p S z st aD(2) by (auto simp: returns_def dividing_def quot_sum_def st' mpi_abs_def)
    next
      assume "mpi_cmp_int D 0 < 0"
      then have less: "mpi_abs X < mpi_abs B" using cD by simp
      then have sD': "mpi_s D = -1" and aD: "mpi_abs D = mpi_abs B - mpi_abs X" using sD vD by (simp_all add: mpi_val_def)
      show "returns (MPI_CHK (\<lambda>_. (D, Z, B, S2)) (mpi_copy H B Y k4) (\<lambda>T1 k.
       MPI_CHK (\<lambda>_. (D, Z, T1, S2)) (mpi_shift_l H T1 (32 * c) k) (\<lambda>T1 k.
       MPI_CHK (\<lambda>X. (X, Z, T1, S2)) (mpi_add_mpi H InA D T1 k) (\<lambda>X k. do {
         p \<leftarrow> upd_opt (mpi_p Z) c (z - 1);
         Some (0, (X, Z\<lparr>mpi_p := p\<rparr>, T1, S2), k) })))) ?Q"
      proof (rule returns_CHK [OF copy_returns [OF H]], elim conjE, rule returns_CHK [OF shift_l_returns' [OF H]])
        fix E :: mpi and k5
        assume "mpi_n E = max (mpi_n B) (limbs_kept (mpi_p Y))"
        then show "mpi_p E \<noteq> []" using S(1) by auto
      next
        fix E F :: mpi and k5 k6
        assume E: "mpi_s E = mpi_s Y" "mpi_abs E = mpi_abs Y" "mpi_n E = max (mpi_n B) (limbs_kept (mpi_p Y))"
          and F: "mpi_s F = mpi_s E \<and> mpi_abs F = 2 ^ (32 * c) * mpi_abs E \<and> mpi_n E \<le> mpi_n F \<and> mpi_p F \<noteq> []"
        have "mpi_abs F = 2 ^ (32 * c) * mpi_abs Y" using E(2) F by simp
        then have f: "mpi_abs F = mpi_abs Y * wbase ^ c" unfolding two_power_limbs by (simp only: mult.commute)
        have f': "mpi_s F = 1" "proper F" "2 \<le> mpi_n F"
          using E F Y1(1) S(1) by (auto simp: proper_def sign_ok_def)
        have aDF: "mpi_abs D < mpi_abs F" using bound less aB aD f by linarith
        show "returns (MPI_CHK (\<lambda>X. (X, Z, F, S2)) (mpi_add_mpi H InA D F k6) (\<lambda>X k. do {
            p \<leftarrow> upd_opt (mpi_p Z) c (z - 1); Some (0, (X, Z\<lparr>mpi_p := p\<rparr>, F, S2), k) })) ?Q"
        proof (rule returns_CHK [OF add_mpi_returns [OF H _ f'(2)]])
          show "proper D" using D by blast
        next
          fix G :: mpi and k7
          assume G: "mpi_val G = mpi_val D + mpi_val F \<and> proper G \<and> mpi_s G = sum_sign 1 D F \<and> mpi_n (dest_of InA D F) \<le> mpi_n G"
          have sG: "mpi_s G = 1" "mpi_n X \<le> mpi_n G" using G sD' f'(1) aDF S(2) by (auto simp: sum_sign_def dest_of_def)
          have "int (mpi_abs G) = int (mpi_abs X) - int (mpi_abs B) + int (mpi_abs F)"
            using G sG(1) vD f'(1) by (simp add: mpi_val_def)
          then have aG: "mpi_abs G + mpi_abs B = mpi_abs X + mpi_abs F" by linarith
          have "z \<noteq> 0" using less aB by auto
          then have z1: "unat z = Suc (unat (z - 1))" by (simp add: unat_minus_one unat_gt_0)
          from store_digit [OF st [unfolded st'], of "z - 1"] obtain p where p: "upd_opt (mpi_p Z) c (z - 1) = Some p" "length p = mpi_n Z"
            "val p = mpi_abs Z + wbase ^ c * unat (z - 1)" "\<forall>j < c. p ! j = 0" by blast
          have "mpi_abs B = unat (z - 1) * mpi_abs Y * wbase ^ c + mpi_abs F" unfolding aB f z1 by (simp add: algebra_simps)
          then have "mpi_abs G + mpi_abs Y * val p = mpi_abs X + mpi_abs Y * mpi_abs Z"
            using aG p(3) by (simp add: algebra_simps)
          then show "returns (upd_opt (mpi_p Z) c (z - 1) \<bind> (\<lambda>p. Some (0, (G, Z\<lparr>mpi_p := p\<rparr>, F, S2), k7))) ?Q"
            using p S z st sG f'(3) by (auto simp: returns_def dividing_def quot_sum_def st' mpi_abs_def)
        qed
      qed
    qed
  qed
qed

end
