(* ===== verification/Division.thy ===== *)
theory Division
  imports Quotient_Digits
begin

text \<open>
  What \<^verbatim>\<open>mpi_div_mpi\<close> and \<^verbatim>\<open>mpi_mod_mpi\<close> compute. A digit may be estimated too small, so that the quotient is too
  small and the remainder too large; they always recombine to the dividend, and the loop of \<^verbatim>\<open>mpi_mod_mpi\<close> takes the
  rest away.
\<close>

subsection \<open>The loops\<close>

lemma div_loop_returns:
  assumes H: "heap_ok H" and Y: "divisor Y t"
  shows "dividing t c st \<Longrightarrow> returns (div_loop H Y t c st k) (\<lambda>st'. dividing t 0 st' \<and> quot_sum Y st' = quot_sum Y st)"
proof (induction c arbitrary: st k)
  case 0
  then show ?case by (simp add: returns_def)
next
  case (Suc c)
  show ?case
    unfolding div_loop.simps
  proof (rule returns_CHK [OF div_step_returns [OF H Y Suc.prems]], elim conjE)
    fix st' k'
    assume "dividing t c st'" and q: "quot_sum Y st' = quot_sum Y st"
    from Suc.IH [OF this(1)] show "returns (div_loop H Y t c st' k') (\<lambda>st'. dividing t 0 st' \<and> quot_sum Y st' = quot_sum Y st)"
      unfolding q .
  qed
qed

lemma div_top_value:
  assumes H: "heap_ok H" and Y: "mpi_s Y = 1" "mpi_p Y \<noteq> []" "mpi_abs Y = wbase ^ i * y" "0 < y"
  shows "mpi_s X = 1 \<Longrightarrow> mpi_p X \<noteq> [] \<Longrightarrow> i < mpi_n Z \<Longrightarrow>
    unat (mpi_p Z ! i) * mpi_abs Y + mpi_abs X < wbase * mpi_abs Y \<Longrightarrow>
    \<exists>X' Z' k'. div_top H Y i X Z k = Some (X', Z', k') \<and> mpi_s X' = 1 \<and> mpi_n X \<le> mpi_n X' \<and> mpi_n Z' = mpi_n Z \<and>
      (\<forall>j < i. mpi_p Z' ! j = mpi_p Z ! j) \<and> mpi_abs X' + y * mpi_abs Z' = mpi_abs X + y * mpi_abs Z"
proof (induction "mpi_abs X" arbitrary: X Z k rule: less_induct)
  case less
  have Y0: "0 < mpi_abs Y" using Y(3,4) by simp
  have c: "mpi_cmp_mpi X Y = sgn (int (mpi_abs X) - int (mpi_abs Y))"
    using less.prems(1) Y(1) by (subst mpi_cmp_mpi_same) (simp_all add: sign_ok_def mpi_val_def)
  show ?case
  proof (cases "mpi_abs Y \<le> mpi_abs X")
    case False
    then have "\<not> mpi_cmp_mpi X Y \<ge> 0" unfolding c by (simp add: sgn_if)
    then show ?thesis using less.prems by (subst div_top.simps) auto
  next
    case True
    then have cmp: "mpi_cmp_mpi X Y \<ge> 0" unfolding c by (simp add: sgn_if)
    let ?z = "mpi_p Z ! i" and ?p = "(mpi_p Z)[i := mpi_p Z ! i + 1]"
    have "(unat ?z + 1) * mpi_abs Y < wbase * mpi_abs Y" using less.prems(4) True by simp
    then have z: "unat ?z + 1 < wbase" by (simp only: mult_less_cancel2)
    then have z1: "unat (?z + 1) = unat ?z + 1" by (subst unat_add_lt [of ?z 1]) (simp_all add: wbase_def)
    have v: "val ?p = mpi_abs Z + wbase ^ i"
      using val_update [of i "mpi_p Z" "?z + 1"] less.prems(3) by (simp add: z1 mpi_abs_def distrib_left)
    have "proper X" "proper Y" using less.prems Y by (simp_all add: proper_def sign_ok_def)
    from sub_mpi_returns [OF H this] obtain X1 k1 where X1: "mpi_sub_mpi H InA X Y k = Some (0, X1, k1)"
      "mpi_val X1 = mpi_val X - mpi_val Y" "proper X1" "mpi_s X1 = sum_sign (-1) X Y" "mpi_n (dest_of InA X Y) \<le> mpi_n X1"
      unfolding returns_def by blast
    have s1: "mpi_s X1 = 1" "mpi_n X \<le> mpi_n X1" "mpi_p X1 \<noteq> []"
      using X1 less.prems(1) Y(1) True by (auto simp: sum_sign_def dest_of_def proper_def)
    have a1: "mpi_abs X1 + mpi_abs Y = mpi_abs X" using X1(2) s1(1) less.prems(1) Y(1) by (simp add: mpi_val_def)
    let ?Z = "Z\<lparr>mpi_p := ?p\<rparr>"
    have "mpi_abs X1 < mpi_abs X" using a1 Y0 by linarith
    moreover have "i < mpi_n ?Z" using less.prems(3) by simp
    moreover have "unat (mpi_p ?Z ! i) * mpi_abs Y + mpi_abs X1 < wbase * mpi_abs Y"
      using less.prems(3,4) a1 by (simp add: z1)
    ultimately obtain X' Z' k' where r: "div_top H Y i X1 ?Z k1 = Some (X', Z', k')" "mpi_s X' = 1" "mpi_n X1 \<le> mpi_n X'"
      "mpi_n Z' = mpi_n ?Z" "\<forall>j < i. mpi_p Z' ! j = mpi_p ?Z ! j" "mpi_abs X' + y * mpi_abs Z' = mpi_abs X1 + y * mpi_abs ?Z"
      using less.hyps [of X1 ?Z k1] s1 by blast
    have "div_top H Y i X Z k = Some (X', Z', k')"
      using cmp less.prems(3) X1(1) r(1) by (subst div_top.simps) (simp add: nth_opt_def upd_opt_def)
    moreover have "mpi_abs X' + y * mpi_abs Z' = mpi_abs X + y * mpi_abs Z"
      using r(6) a1 Y(3) v by (simp add: mpi_abs_def distrib_left mult.commute)
    ultimately show ?thesis using r s1(2) by auto
  qed
qed

lemma top_limb_ge: "t < length p \<Longrightarrow> val p < wbase ^ Suc t \<Longrightarrow> wbase ^ t * c \<le> val p \<Longrightarrow> c \<le> unat (p ! t)"
proof -
  assume t: "t < length p" "val p < wbase ^ Suc t" "wbase ^ t * c \<le> val p"
  have "val p = val (take (Suc t) p)" using t(2) by (intro val_used_more [symmetric]) (simp only: limbs_used_iff)
  also have "\<dots> = val (take t p) + wbase ^ t * unat (p ! t)" using t(1) by (simp add: take_Suc_conv_app_nth val_append)
  also have "\<dots> < wbase ^ t * Suc (unat (p ! t))" using val_lt [of "take t p"] t(1) by simp
  finally have "wbase ^ t * c < wbase ^ t * Suc (unat (p ! t))" using t(3) by linarith
  then show ?thesis by (simp only: mult_less_cancel1) simp
qed

lemma digits_return:
  assumes H: "heap_ok H" and X: "mpi_s X = 1" "mpi_n X = Suc n" and Y: "mpi_s Y = 1" "mpi_n Y = Suc t" "mpi_abs Y < wbase ^ Suc t"
      "wbase ^ t * 2 ^ 30 \<le> mpi_abs Y"
    and Z: "mpi_abs Z = 0" "n - t < mpi_n Z" and le: "t \<le> n" and T: "2 \<le> mpi_n T1" "3 \<le> mpi_n T2"
  shows "returns (div_digits H X Y Z T1 T2 k)
    (\<lambda>(X', Z', _). mpi_s X' = 1 \<and> mpi_p X' \<noteq> [] \<and> mpi_abs X' + mpi_abs Y * mpi_abs Z' = mpi_abs X)"
proof -
  let ?c = "n - t"
  have neY: "mpi_p Y \<noteq> []" and neX: "mpi_p X \<noteq> []" using Y(2) X(2) by auto
  from shift_l_returns' [OF H neY] obtain Y' k1 where Y': "mpi_shift_l H Y (32 * ?c) k = Some (0, Y', k1)" "mpi_s Y' = mpi_s Y"
    "mpi_abs Y' = 2 ^ (32 * ?c) * mpi_abs Y" "mpi_n Y \<le> mpi_n Y'" "mpi_p Y' \<noteq> []" unfolding returns_def by blast
  have a: "mpi_abs Y' = wbase ^ ?c * mpi_abs Y" using Y'(3) by (simp only: two_power_limbs)
  have pos: "0 < mpi_abs Y" using Y(4) by (intro less_le_trans [OF _ Y(4)]) simp
  have pt: "wbase ^ ?c * wbase ^ t = wbase ^ n" using le by (simp add: power_add [symmetric])
  have "mpi_abs X < wbase ^ n * wbase" using val_lt [of "mpi_p X"] X(2) by (simp add: mpi_abs_def mult.commute)
  also have "\<dots> \<le> wbase ^ n * (wbase * 2 ^ 30)" by (intro mult_le_mono2) simp
  also have "\<dots> = wbase * (wbase ^ ?c * (wbase ^ t * 2 ^ 30))" unfolding pt [symmetric] by (simp only: ac_simps)
  also have "\<dots> \<le> wbase * mpi_abs Y'" unfolding a by (intro mult_le_mono2 Y(4))
  finally have lt: "mpi_abs X < wbase * mpi_abs Y'" .
  have Z0: "mpi_p Z ! j = 0" if "j < mpi_n Z" for j using zero_limbs [OF Z(1)] that by (metis nth_replicate)
  obtain X1 Z1 k2 where t: "div_top H Y' ?c X Z k1 = Some (X1, Z1, k2)" "mpi_s X1 = 1" "mpi_n X \<le> mpi_n X1" "mpi_n Z1 = mpi_n Z"
      "\<forall>j < ?c. mpi_p Z1 ! j = mpi_p Z ! j" "mpi_abs X1 + mpi_abs Y * mpi_abs Z1 = mpi_abs X + mpi_abs Y * mpi_abs Z"
    using div_top_value [OF H _ Y'(5) a pos X(1) neX Z(2), of k1] lt Z0 [OF Z(2)] Y'(2) Y(1) by auto
  let ?Y = "mpi_shift_r Y' (32 * ?c)"
  have aY: "mpi_abs ?Y = mpi_abs Y" unfolding shift_r_value(3) Y'(3) by simp
  have "2 ^ 30 \<le> unat (mpi_p ?Y ! t)"
    using Y(2,3,4) Y'(4) aY by (intro top_limb_ge) (simp_all add: shift_r_value mpi_abs_def [symmetric])
  then have "0 < unat (drop_bit 16 (mpi_p ?Y ! t))" unfolding unat_drop_bit by (simp add: div_greater_zero_iff)
  then have "drop_bit 16 (mpi_p ?Y ! t) \<noteq> 0" by (simp only: unat_gt_0 simp_thms)
  then have d: "divisor ?Y t" using Y Y'(2,4) aY unfolding divisor_def by (simp add: shift_r_value)
  have "dividing t ?c (X1, Z1, T1, T2)"
    using t X le Z(2) Z0 T unfolding dividing_def by simp
  from div_loop_returns [OF H d this, of k2] obtain st2 k3 where
    l0: "div_loop H ?Y t ?c (X1, Z1, T1, T2) k2 = Some (0, st2, k3)" "dividing t 0 st2" "quot_sum ?Y st2 = quot_sum ?Y (X1, Z1, T1, T2)"
    unfolding returns_def by blast
  obtain X2 Z2 T1' T2' where st2: "st2 = (X2, Z2, T1', T2')" by (cases st2)
  have l: "div_loop H ?Y t ?c (X1, Z1, T1, T2) k2 = Some (0, (X2, Z2, T1', T2'), k3)" "mpi_s X2 = 1"
      "mpi_abs X2 + mpi_abs ?Y * mpi_abs Z2 = mpi_abs X1 + mpi_abs ?Y * mpi_abs Z1"
    using l0 unfolding st2 dividing_def quot_sum_def by simp_all
  have "mpi_abs X2 + mpi_abs Y * mpi_abs Z2 = mpi_abs X" using l(3) t(6) Z(1) unfolding aY by simp
  moreover have "mpi_p X2 \<noteq> []" using l0(2) unfolding st2 dividing_def by auto
  ultimately show ?thesis using Y' t(1) l(1,2) X(2) Y(2) by (simp add: div_digits_def Let_def returns_def)
qed

lemma align_returns:
  assumes H: "heap_ok H" and X: "mpi_p X \<noteq> []" "0 < mpi_abs X"
  shows "returns (if bits > 0 then mpi_shift_l H X bits k else Some (0, X, k))
    (\<lambda>Y. mpi_s Y = mpi_s X \<and> mpi_abs Y = 2 ^ bits * mpi_abs X \<and> mpi_n X \<le> mpi_n Y \<and>
      (\<forall>n. mpi_n X \<le> n \<longrightarrow> 2 ^ bits * mpi_abs X < wbase ^ n \<longrightarrow> mpi_n Y \<le> n))"
proof (cases "bits > 0")
  case True
  from mpi_msb_value [OF X(1)] X(2) obtain m where m: "mpi_msb X = Some m" "2 ^ (m - 1) \<le> mpi_abs X" "0 < m" by (metis less_irrefl)
  have "(m + bits + 31) div 32 \<le> n" if n: "2 ^ bits * mpi_abs X < wbase ^ n" for n
  proof (rule ccontr)
    assume "\<not> (m + bits + 31) div 32 \<le> n"
    then have "32 * n \<le> bits + (m - 1)" using m(3) by linarith
    then have "(2 :: nat) ^ (32 * n) \<le> 2 ^ bits * 2 ^ (m - 1)" unfolding power_add [symmetric] by (rule power_increasing) simp
    also have "\<dots> \<le> 2 ^ bits * mpi_abs X" using m(2) by simp
    finally show False using n by (simp only: two_power_limbs linorder_not_less [symmetric]) simp
  qed
  then show ?thesis using True by (auto intro!: returns_mono [OF shift_l_returns [OF H m(1)]])
qed (simp add: returns_def)

subsection \<open>The quotient and the remainder\<close>

text \<open>What a division stores for dividend \<open>A\<close> when \<open>q\<close> and \<open>r\<close> are the absolute values it has found. A remainder
  that takes the place of a negative dividend loses the sign.\<close>

definition quotient :: "int \<Rightarrow> nat \<Rightarrow> mpi option \<Rightarrow> mpi option \<Rightarrow> bool" where
  "quotient s q Q Q' = (case Q' of None \<Rightarrow> Q = None | Some X \<Rightarrow> Q \<noteq> None \<and> mpi_val X = s * int q)"

definition remainder :: "dest option \<Rightarrow> mpi \<Rightarrow> mpi \<Rightarrow> nat \<Rightarrow> mpi option \<Rightarrow> bool" where
  "remainder R A B r R' = (case R' of None \<Rightarrow> R = None | Some X \<Rightarrow> R \<noteq> None \<and> proper X \<and> mpi_abs X = r \<and>
     mpi_n (dest_of (the R) A B) \<le> mpi_n X \<and>
     (mpi_s A = 1 \<longrightarrow> mpi_s X = 1) \<and> (R \<noteq> Some InA \<longrightarrow> mpi_val X = mpi_s A * int r))"

lemma store_quotient_value:
  assumes "heap_ok H"
  shows "\<exists>Q' k'. store_quotient H Q Z s k = Some (Q', k') \<and> quotient s (mpi_abs Z) Q Q'"
proof (cases Q)
  case None
  then show ?thesis by (simp add: store_quotient_def quotient_def)
next
  case (Some X)
  from copy_returns [OF assms] obtain X' k' where "mpi_copy H X Z k = Some (0, X', k')" "mpi_abs X' = mpi_abs Z"
    unfolding returns_def by blast
  then show ?thesis using Some by (simp add: store_quotient_def quotient_def mpi_val_def mpi_abs_def)
qed

lemma store_remainder_value:
  assumes H: "heap_ok H" and A: "proper A" and X: "mpi_s X = 1" "mpi_p X \<noteq> []" "mpi_abs X = 2 ^ bits * r"
  shows "\<exists>R' k'. store_remainder H R A B bits X k = Some (R', k') \<and> remainder R A B r R'"
proof (cases R)
  case None
  then show ?thesis by (simp add: store_remainder_def remainder_def)
next
  case (Some D)
  let ?X = "mpi_shift_r X bits"
  from copy_returns [OF H] obtain X' k' where X': "mpi_copy H (dest_of D A B) ?X k = Some (0, X', k')" "mpi_s X' = mpi_s ?X"
    "mpi_abs X' = mpi_abs ?X" "mpi_n X' = max (mpi_n (dest_of D A B)) (limbs_kept (mpi_p ?X))" unfolding returns_def by blast
  have r: "mpi_s X' = 1" "mpi_abs X' = r" using X' X by (simp_all add: shift_r_value)
  have "mpi_p ?X \<noteq> []" using X(2) shift_r_value(2) [of X bits] by (metis length_0_conv)
  from limbs_kept_bounds(3) [OF this] have ne: "mpi_p X' \<noteq> []" using X'(4) by auto
  define X2 where "X2 = (if D = InA then X' else X'\<lparr>mpi_s := mpi_s A\<rparr>)"
  have s2: "sign_ok X2" "mpi_abs X2 = r" "mpi_p X2 \<noteq> []" "mpi_s A = 1 \<Longrightarrow> mpi_s X2 = 1" "D \<noteq> InA \<Longrightarrow> mpi_s X2 = mpi_s A"
    using A r ne by (auto simp: X2_def proper_def sign_ok_def mpi_abs_def)
  have n2: "mpi_n (dest_of D A B) \<le> mpi_n X2" using X'(4) by (simp add: X2_def)
  define X3 where "X3 = (if mpi_cmp_int X2 0 = 0 then X2\<lparr>mpi_s := 1\<rparr> else X2)"
  have z: "mpi_cmp_int X2 0 = 0 \<longleftrightarrow> r = 0"
    using s2(1,2) by (subst mpi_cmp_int_0) (auto simp: sgn_if mpi_val_def sign_ok_def)
  have "store_remainder H R A B bits X k = Some (Some X3, k')"
    using Some X'(1) by (simp add: store_remainder_def Let_def X2_def X3_def)
  moreover have "remainder R A B r (Some X3)"
    using s2 n2 Some by (cases "r = 0") (auto simp: X3_def z remainder_def proper_def sign_ok_def mpi_val_def mpi_abs_def)
  ultimately show ?thesis by blast
qed

lemma div_short:
  assumes H: "heap_ok H" and A: "proper A"
  shows "returns (MPI_CHK (\<lambda>Q. (Q, map_option (\<lambda>D. dest_of D A B) R)) (case Q of None \<Rightarrow> Some (0, None, k)
            | Some X \<Rightarrow> map_option (\<lambda>(r, X, k). (r, Some X, k)) (mpi_lset H X 0 k)) (\<lambda>Q k.
        MPI_CHK (\<lambda>R. (Q, R)) (case R of None \<Rightarrow> Some (0, None, k) | Some InA \<Rightarrow> Some (0, map_option (\<lambda>D. dest_of D A B) R, k)
            | Some D \<Rightarrow> map_option (\<lambda>(r, X, k). (r, Some X, k)) (mpi_copy H (dest_of D A B) A k)) (\<lambda>R k.
        Some (0, (Q, R), k)))) (\<lambda>(Q', R'). quotient s 0 Q Q' \<and> remainder R A B (mpi_abs A) R')"
proof (rule returns_CHK [where Q = "quotient s 0 Q"])
  show "returns (case Q of None \<Rightarrow> Some (0, None, k)
            | Some X \<Rightarrow> map_option (\<lambda>(r, X, k). (r, Some X, k)) (mpi_lset H X 0 k)) (quotient s 0 Q)"
  proof (cases Q)
    case (Some X)
    from lset_returns [OF H, of 0] obtain X' k' where "mpi_lset H X 0 k = Some (0, X', k')" "mpi_abs X' = 0"
      unfolding returns_def by force
    then show ?thesis using Some by (simp add: returns_def quotient_def mpi_val_def)
  qed (simp add: returns_def quotient_def)
next
  fix Q' k1
  assume Q': "quotient s 0 Q Q'"
  have "returns (case R of None \<Rightarrow> Some (0, None, k1) | Some InA \<Rightarrow> Some (0, map_option (\<lambda>D. dest_of D A B) R, k1)
            | Some D \<Rightarrow> map_option (\<lambda>(r, X, k). (r, Some X, k)) (mpi_copy H (dest_of D A B) A k1)) (remainder R A B (mpi_abs A))"
  proof (cases R)
    case (Some D)
    from copy_returns [OF H] obtain X' k' where X': "mpi_copy H (dest_of D A B) A k1 = Some (0, X', k')" "mpi_s X' = mpi_s A"
      "mpi_abs X' = mpi_abs A" "mpi_n X' = max (mpi_n (dest_of D A B)) (limbs_kept (mpi_p A))" unfolding returns_def by blast
    have "mpi_p X' \<noteq> []" using X'(4) A limbs_kept_bounds(3) [of "mpi_p A"] by (auto simp: proper_def)
    then show ?thesis using Some A X'
      by (cases D) (auto simp: returns_def remainder_def dest_of_def proper_def sign_ok_def mpi_val_def)
  qed (simp add: returns_def remainder_def)
  then show "returns (MPI_CHK (\<lambda>R. (Q', R)) (case R of None \<Rightarrow> Some (0, None, k1) | Some InA \<Rightarrow> Some (0, map_option (\<lambda>D. dest_of D A B) R, k1)
            | Some D \<Rightarrow> map_option (\<lambda>(r, X, k). (r, Some X, k)) (mpi_copy H (dest_of D A B) A k1)) (\<lambda>R k.
        Some (0, (Q', R), k))) (\<lambda>(Q', R'). quotient s 0 Q Q' \<and> remainder R A B (mpi_abs A) R')"
    by (rule returns_CHK) (simp add: returns_def Q')
qed

lemma new_copy_returns:
  assumes H: "heap_ok H" and A: "proper A"
  shows "returns (mpi_copy H mpi_init A k) (\<lambda>X. mpi_p X \<noteq> [] \<and> mpi_abs X = mpi_abs A \<and> mpi_n X = limbs_kept (mpi_p A))"
  by (rule returns_mono [OF copy_returns [OF H]])
    (use A limbs_kept_bounds(3) [of "mpi_p A"] in \<open>auto simp: mpi_init_def proper_def\<close>)

lemma new_zero_returns:
  assumes "heap_ok H"
  shows "returns (mpi_lset H Z 0 k) (\<lambda>Y. mpi_abs Y = 0 \<and> mpi_n Z \<le> mpi_n Y)"
  by (rule returns_mono [OF lset_returns [OF assms]]) simp_all

lemma new_grow_returns:
  assumes "heap_ok H"
  shows "returns (mpi_grow H mpi_init n k) (\<lambda>Y. mpi_n Y = n)"
  by (rule returns_mono [OF grow_returns [OF assms]]) (simp add: mpi_init_def)

lemma limbs_kept_le: "val p < wbase ^ Suc n \<Longrightarrow> limbs_kept p \<le> Suc n"
  by (simp only: limbs_kept_def limbs_used_iff [symmetric]) simp

lemma div_long_returns:
  assumes H: "heap_ok H" and A: "proper A" and B: "proper B" "0 < mpi_abs B" and le: "mpi_abs B \<le> mpi_abs A"
  shows "returns (div_long H Q R A B k) (\<lambda>(Q', R'). \<exists>q r. mpi_abs A = q * mpi_abs B + r \<and>
    quotient (mpi_s A * mpi_s B) q Q Q' \<and> remainder R A B r R')"
  unfolding div_long_def Let_def
proof (rule returns_CHK [OF new_copy_returns [OF H A]], rule returns_CHK [OF new_copy_returns [OF H B(1)]],
    rule returns_CHK [OF new_grow_returns [OF H]], rule returns_CHK [OF new_zero_returns [OF H]],
    rule returns_CHK [OF new_grow_returns [OF H]], rule returns_CHK [OF new_grow_returns [OF H]])
  fix X Y Z0 Z T1 T2 :: mpi and k
  assume X: "mpi_p X \<noteq> [] \<and> mpi_abs X = mpi_abs A \<and> mpi_n X = limbs_kept (mpi_p A)"
    and Y: "mpi_p Y \<noteq> [] \<and> mpi_abs Y = mpi_abs B \<and> mpi_n Y = limbs_kept (mpi_p B)"
    and Z: "mpi_n Z0 = mpi_n A + 2" "mpi_abs Z = 0 \<and> mpi_n Z0 \<le> mpi_n Z" and T: "mpi_n T1 = 2" "mpi_n T2 = 3"
  let ?P = "\<lambda>(Q', R'). \<exists>q r. mpi_abs A = q * mpi_abs B + r \<and> quotient (mpi_s A * mpi_s B) q Q Q' \<and> remainder R A B r R'"
  let ?X = "X\<lparr>mpi_s := 1\<rparr>" and ?Y = "Y\<lparr>mpi_s := 1\<rparr>"
  have X1: "mpi_p ?X \<noteq> []" "0 < mpi_abs ?X" "mpi_abs ?X = mpi_abs A" and Y1: "mpi_p ?Y \<noteq> []" "0 < mpi_abs ?Y" "mpi_abs ?Y = mpi_abs B"
    using X Y B le by (auto simp: mpi_abs_def)
  from mpi_msb_value [OF Y1(1)] Y1(2,3) obtain m where m: "mpi_msb ?Y = Some m" "mpi_abs B < 2 ^ m" "2 ^ (m - 1) \<le> mpi_abs B" "0 < m"
    by (metis less_irrefl)
  let ?b = "31 - m mod 32" and ?t = "m div 32" and ?out = "\<lambda>_. (Q, map_option (\<lambda>D. dest_of D A B) R)"
  show "returns (mpi_msb ?Y \<bind> (\<lambda>m.
      MPI_CHK ?out (if 31 - m mod 32 > 0 then mpi_shift_l H ?X (31 - m mod 32) k else Some (0, ?X, k)) (\<lambda>X k.
      MPI_CHK ?out (if 31 - m mod 32 > 0 then mpi_shift_l H ?Y (31 - m mod 32) k else Some (0, ?Y, k)) (\<lambda>Y k.
      MPI_CHK ?out (div_digits H X Y Z T1 T2 k) (\<lambda>(X, Z, T1, T2) k. do {
        (Q, k) \<leftarrow> store_quotient H Q Z (mpi_s A * mpi_s B) k;
        (R, k) \<leftarrow> store_remainder H R A B (31 - m mod 32) X k;
        Some (0, (Q, R), k) }))))) ?P"
  proof (rule returns_bind [OF m(1)], rule returns_CHK [OF align_returns [OF H X1(1,2)]], rule returns_CHK [OF align_returns [OF H Y1(1,2)]], elim conjE)
    fix X2 Y2 :: mpi and k2
    assume X2: "mpi_s X2 = mpi_s ?X" "mpi_abs X2 = 2 ^ ?b * mpi_abs ?X" "mpi_n ?X \<le> mpi_n X2"
        "\<forall>n. mpi_n ?X \<le> n \<longrightarrow> 2 ^ ?b * mpi_abs ?X < wbase ^ n \<longrightarrow> mpi_n X2 \<le> n"
      and Y2: "mpi_s Y2 = mpi_s ?Y" "mpi_abs Y2 = 2 ^ ?b * mpi_abs ?Y" "mpi_n ?Y \<le> mpi_n Y2"
        "\<forall>n. mpi_n ?Y \<le> n \<longrightarrow> 2 ^ ?b * mpi_abs ?Y < wbase ^ n \<longrightarrow> mpi_n Y2 \<le> n"
    have bm: "?b + m = 32 * ?t + 31" using mod_less_divisor [of 32 m] mult_div_mod_eq [of 32 m] by linarith
    have "2 ^ ?b * mpi_abs B < 2 ^ ?b * 2 ^ m" using m(2) by simp
    then have "mpi_abs Y2 < 2 ^ (32 * ?t + 31)" using Y2(2) Y1(3) unfolding bm [symmetric] power_add by simp
    also have "\<dots> \<le> 2 ^ (32 * Suc ?t)" by (rule power_increasing) simp_all
    finally have ylt: "mpi_abs Y2 < wbase ^ Suc ?t" by (simp only: two_power_limbs)
    have "2 ^ ?b * 2 ^ (m - 1) \<le> mpi_abs Y2" using m(3) Y2(2) Y1(3) by simp
    moreover have "?b + (m - 1) = 32 * ?t + 30" using bm m(4) by linarith
    ultimately have yge: "wbase ^ ?t * 2 ^ 30 \<le> mpi_abs Y2" by (simp only: power_add [symmetric] two_power_limbs [symmetric])
    have nY: "mpi_n Y2 = Suc ?t"
    proof (rule antisym)
      have "mpi_abs B \<le> mpi_abs Y2" using Y2(2) Y1(3) by simp
      then have "limbs_kept (mpi_p B) \<le> Suc ?t" using ylt by (intro limbs_kept_le) (simp add: mpi_abs_def)
      then show "mpi_n Y2 \<le> Suc ?t" using Y2(2,4) ylt Y by simp
      have "wbase ^ ?t < wbase ^ mpi_n Y2"
        using val_lt [of "mpi_p Y2"] yge mult_le_mono2 [of 1 "2 ^ 30" "wbase ^ ?t"] unfolding mpi_abs_def by simp
      then show "Suc ?t \<le> mpi_n Y2" by (simp add: wbase_def power_strict_increasing_iff)
    qed
    have "mpi_abs Y2 \<le> mpi_abs X2" using X2(2) Y2(2) X1(3) Y1(3) le by simp
    then have "wbase ^ ?t < wbase ^ mpi_n X2"
      using val_lt [of "mpi_p X2"] yge mult_le_mono2 [of 1 "2 ^ 30" "wbase ^ ?t"] unfolding mpi_abs_def by simp
    then have tX: "?t < mpi_n X2" by (simp add: wbase_def power_strict_increasing_iff)
    then obtain n where n: "mpi_n X2 = Suc n" "?t \<le> n" by (cases "mpi_n X2") auto
    have "2 ^ ?b * mpi_abs ?X < wbase * wbase ^ mpi_n A"
      using val_lt [of "mpi_p A"] X1(3) power_strict_increasing [of ?b 32 "2 :: nat"]
      unfolding mpi_abs_def by (intro mult_strict_mono) (simp_all add: wbase_def)
    then have "mpi_n X2 \<le> Suc (mpi_n A)" using X2(4) X limbs_kept_bounds(1) [of "mpi_p A"] by simp
    then have nZ: "n - ?t < mpi_n Z" using n Z by linarith
    have s: "mpi_s X2 = 1" "mpi_s Y2 = 1" using X2(1) Y2(1) by simp_all
    show "returns (MPI_CHK ?out (div_digits H X2 Y2 Z T1 T2 k2) (\<lambda>(X, Z, T1, T2) k. do {
        (Q, k) \<leftarrow> store_quotient H Q Z (mpi_s A * mpi_s B) k;
        (R, k) \<leftarrow> store_remainder H R A B ?b X k;
        Some (0, (Q, R), k) })) ?P"
    proof (rule returns_CHK [OF digits_return [OF H s(1) n(1) s(2) nY ylt yge _ nZ n(2)]])
      show "mpi_abs Z = 0" "2 \<le> mpi_n T1" "3 \<le> mpi_n T2" using Z T by simp_all
    next
      fix st :: div_state and k3
      assume "case st of (X', Z', _) \<Rightarrow> mpi_s X' = 1 \<and> mpi_p X' \<noteq> [] \<and> mpi_abs X' + mpi_abs Y2 * mpi_abs Z' = mpi_abs X2"
      then obtain X' Z' T1' T2' where st: "st = (X', Z', T1', T2')" "mpi_s X' = 1" "mpi_p X' \<noteq> []"
        and e: "mpi_abs X' + mpi_abs Y2 * mpi_abs Z' = mpi_abs X2" by (cases st) auto
      have e': "mpi_abs X' + 2 ^ ?b * (mpi_abs Z' * mpi_abs B) = 2 ^ ?b * mpi_abs A"
        using e X2(2) Y2(2) X1(3) Y1(3) by (simp only: ac_simps)
      then have "2 ^ ?b * (mpi_abs Z' * mpi_abs B) \<le> 2 ^ ?b * mpi_abs A" by linarith
      then have q: "mpi_abs Z' * mpi_abs B \<le> mpi_abs A" by simp
      define r where "r = mpi_abs A - mpi_abs Z' * mpi_abs B"
      have a: "mpi_abs A = mpi_abs Z' * mpi_abs B + r" using q by (simp add: r_def)
      have "mpi_abs X' = 2 ^ ?b * r" using e' unfolding a distrib_left by linarith
      from store_remainder_value [OF H A st(2,3) this] have R': "\<exists>R' k'. store_remainder H R A B ?b X' k = Some (R', k') \<and> remainder R A B r R'" for k .
      from store_quotient_value [OF H] obtain Q' k4 where
        Q': "store_quotient H Q Z' (mpi_s A * mpi_s B) k3 = Some (Q', k4)" "quotient (mpi_s A * mpi_s B) (mpi_abs Z') Q Q'" by blast
      from R' obtain R' k5 where "store_remainder H R A B ?b X' k4 = Some (R', k5)" "remainder R A B r R'" by blast
      then show "returns ((\<lambda>(X, Z, T1, T2) k. do {
        (Q, k) \<leftarrow> store_quotient H Q Z (mpi_s A * mpi_s B) k;
        (R, k) \<leftarrow> store_remainder H R A B ?b X k;
        Some (0, (Q, R), k) }) st k3) ?P" using Q' a unfolding st prod.case returns_def by auto
    qed
  qed
qed

lemma div_mpi_returns:
  assumes H: "heap_ok H" and A: "proper A" and B: "proper B" "mpi_abs B \<noteq> 0"
  shows "returns (mpi_div_mpi H Q R A B k) (\<lambda>(Q', R'). \<exists>q r. mpi_abs A = q * mpi_abs B + r \<and>
    quotient (mpi_s A * mpi_s B) q Q Q' \<and> remainder R A B r R')"
proof -
  have z: "mpi_cmp_int B 0 \<noteq> 0" using B by (subst mpi_cmp_int_0) (auto simp: proper_def sign_ok_def mpi_val_def sgn_if)
  show ?thesis
    unfolding mpi_div_mpi_def if_not_P [OF z] Let_def
  proof (rule returns_if)
    show "returns (MPI_CHK (\<lambda>Q. (Q, map_option (\<lambda>D. dest_of D A B) R)) (case Q of None \<Rightarrow> Some (0, None, k)
            | Some X \<Rightarrow> map_option (\<lambda>(r, X, k). (r, Some X, k)) (mpi_lset H X 0 k)) (\<lambda>Q k.
        MPI_CHK (\<lambda>R. (Q, R)) (case R of None \<Rightarrow> Some (0, None, k) | Some InA \<Rightarrow> Some (0, map_option (\<lambda>D. dest_of D A B) R, k)
            | Some D \<Rightarrow> map_option (\<lambda>(r, X, k). (r, Some X, k)) (mpi_copy H (dest_of D A B) A k)) (\<lambda>R k.
        Some (0, (Q, R), k)))) (\<lambda>(Q', R'). \<exists>q r. mpi_abs A = q * mpi_abs B + r \<and>
          quotient (mpi_s A * mpi_s B) q Q Q' \<and> remainder R A B r R')"
      by (rule returns_mono [OF div_short [OF H A, where s = "mpi_s A * mpi_s B"]]) (auto intro: exI [of _ 0])
  next
    assume "\<not> mpi_cmp_abs A B < 0"
    then have "mpi_abs B \<le> mpi_abs A" unfolding mpi_cmp_abs_val by (simp add: sgn_if split: if_splits)
    with div_long_returns [OF H A B(1)] B(2) show "returns (div_long H Q R A B k) (\<lambda>(Q', R'). \<exists>q r.
      mpi_abs A = q * mpi_abs B + r \<and> quotient (mpi_s A * mpi_s B) q Q Q' \<and> remainder R A B r R')" by simp
  qed
qed

end
