(* ===== verification/Montgomery.thy ===== *)
theory Montgomery
  imports MpiSum
begin

text \<open>
  Montgomery multiplication: \<open>mpi_montg_init\<close> finds the negative inverse of the lowest limb, \<open>mpi_montmul\<close> computes
  a number below the modulus that gives the product when it is multiplied by \<^verbatim>\<open>2^32\<close> to the number of limbs.
\<close>

subsection \<open>The inverse of a limb\<close>

lemma odd_unat [simp]: "even (unat (x :: u32)) \<longleftrightarrow> even x"
proof -
  have "bit (unat x) 0 = bit x 0" by (simp only: bit_unsigned_iff) simp
  then show ?thesis by (simp only: bit_0) blast
qed

lemma montg_start:
  assumes "odd (m :: u32)"
  shows "16 dvd m * (m + push_bit 1 ((m + 2) AND 4)) - 1"
proof -
  define r q where rq: "r = take_bit 4 m" "q = drop_bit 4 m"
  have m: "m = 16 * q + r"
    using bits_ident [of 4 m] by (simp add: rq push_bit_eq_mult mult.commute)
  have "unat r < 16" using take_bit_nat_less_exp [of 4 "unat m"] by (simp add: rq unsigned_take_bit_eq)
  moreover have "odd (unat r)"
    using assms by (simp add: rq unsigned_take_bit_eq even_take_bit_eq)
  moreover have "n < 16 \<Longrightarrow> odd n \<Longrightarrow> n \<in> {1, 3, 5, 7, 9, 11, 13, 15}" for n :: nat
    unfolding insert_iff empty_iff by presburger
  ultimately have "unat r \<in> {1, 3, 5, 7, 9, 11, 13, 15}" by blast
  then have r: "r \<in> {1, 3, 5, 7, 9, 11, 13, 15}" by (auto simp: word_unat_eq_iff)
  have and4: "x AND 4 = take_bit 4 x AND 4" for x :: u32
    by (simp add: take_bit_eq_mask mask_eq_exp_minus_1 and.assoc)
  have "take_bit 4 (m + 2) = take_bit 4 (r + 2)" unfolding rq
    by (simp add: word_unat_eq_iff unsigned_take_bit_eq unat_word_ariths take_bit_eq_mod mod_mod_cancel mod_simps)
  then have c: "(m + 2) AND 4 = take_bit 4 (r + 2) AND 4" by (simp add: and4 [of "m + 2"])
  have d: "16 dvd (n :: u32)" if "16 * k = n" for n k using that by (metis dvd_triv_left)
  have "16 dvd r * (r + push_bit 1 (take_bit 4 (r + 2) AND 4)) - 1"
    using r d [of 2] d [of 4] d [of 3] d [of 5] d [of 13] d [of 17] d [of 14] by auto
  then obtain z where "r * (r + push_bit 1 (take_bit 4 (r + 2) AND 4)) - 1 = 16 * z" by (elim dvdE)
  then have "m * (m + push_bit 1 ((m + 2) AND 4)) - 1 = 16 * (q * (m + push_bit 1 ((m + 2) AND 4)) + r * q + z)"
    unfolding c by (simp add: m algebra_simps)
  then show ?thesis by (rule dvdI)
qed

lemma montg_step_square: "m * montg_step m x - 1 = - ((m * x - 1) * (m * x - 1))" for m :: u32
  by (simp add: montg_step_def algebra_simps)

lemma montg_step_dvd: "e dvd m * x - 1 \<Longrightarrow> e * e dvd m * montg_step m x - 1" for m :: u32
  unfolding montg_step_square dvd_minus_iff by (rule mult_dvd_mono)

lemma montg_init_value:
  assumes "mpi_p N = m0 # ms" "odd m0"
  shows "\<exists>mm. mpi_montg_init N = Some mm \<and> m0 * mm = - 1"
proof -
  let ?x = "m0 + push_bit 1 ((m0 + 2) AND 4)"
  let ?y = "montg_step m0 (montg_step m0 (montg_step m0 ?x))"
  have "16 * 16 dvd m0 * montg_step m0 ?x - 1" by (intro montg_step_dvd montg_start assms)
  then have "256 dvd m0 * montg_step m0 ?x - 1" by simp
  from montg_step_dvd [OF this] have "65536 dvd m0 * montg_step m0 (montg_step m0 ?x) - 1" by simp
  from montg_step_dvd [OF this] have "65536 * 65536 dvd m0 * ?y - 1" .
  moreover have "(65536 :: u32) * 65536 = 0" by (simp add: word_unat_eq_iff unat_word_ariths)
  ultimately have "m0 * ?y - 1 = 0" by (simp only: dvd_0_left_iff)
  then have "m0 * (- ?y) = - 1" by simp
  moreover have "mpi_montg_init N = Some (- ?y)"
    using assms(1) by (simp add: mpi_montg_init_def nth_opt_def minus_eq_not_plus_1 Let_def)
  ultimately show ?thesis by blast
qed

subsection \<open>The rows\<close>

lemma of_nat_val: "(of_nat (val (x # xs)) :: u32) = x"
proof -
  have "(of_nat wbase :: u32) = 0" by (simp add: wbase_def)
  then show ?thesis by simp
qed

lemma val_small_update: "val p < wbase ^ i \<Longrightarrow> p[i := 0] = p"
proof (cases "i < length p")
  case True
  assume "val p < wbase ^ i"
  then have "limbs_used p \<le> i" by (simp add: limbs_used_iff)
  then have "p ! i = 0" using True top_limb_zeros by (simp add: limbs_used_def)
  then show ?thesis by (metis list_update_id)
qed (simp add: list_update_beyond)

lemma mont_rows_value:
  assumes n: "m = n0 # ns" "n0 * mm = - 1" and b: "b \<noteq> []" "val b \<le> val m" "length b \<le> length m"
  shows "val d < 2 * val m \<Longrightarrow> length us + length m + 2 \<le> length d \<Longrightarrow>
    \<exists>d' q. mont_rows us b m mm d = Some (us, d') \<and> length d' = length d - length us \<and> val d' < 2 * val m \<and>
      wbase ^ length us * val d' = val d + val us * val b + q * val m"
proof (induction us arbitrary: d)
  case Nil
  then show ?case by (intro exI [of _ d] exI [of _ 0]) simp
next
  case (Cons u us)
  let ?n = "length m"
  obtain b0 bs where b0: "b = b0 # bs" using b(1) by (cases b) auto
  have "d \<noteq> []" using Cons.prems(2) by auto
  then obtain d0 ds where d0: "d = d0 # ds" by (cases d) auto
  define v where "v = (d0 + u * b0) * mm"
  have mlt: "val m < wbase ^ ?n" by (rule val_lt)
  have ub: "unat u * val b + val m \<le> wbase * val m"
  proof -
    have "unat u * val b + val m \<le> Suc (unat u) * val m" using mult_le_mono2 [OF b(2), of "unat u"] by simp
    also have "\<dots> \<le> wbase * val m" using Suc_leI [OF unat_lt_wbase [of u]] by (rule mult_le_mono1)
    finally show ?thesis .
  qed
  have vm: "unat v * val m + val m \<le> wbase * val m"
    using mult_le_mono1 [OF Suc_leI [OF unat_lt_wbase [of v]], of "val m"] by simp
  have total: "val d + unat u * val b + unat v * val m < 2 * (wbase * val m)"
    using Cons.prems(1) ub vm by linarith
  have "2 * (wbase * val m) \<le> wbase * (wbase * wbase ^ ?n)"
    using mlt by (intro order_trans [OF mult_le_mono1 mult_le_mono2]) (simp_all add: wbase_def)
  also have "\<dots> \<le> wbase ^ length d"
    unfolding power_Suc [symmetric] using Cons.prems(2) by (intro wbase_power_mono) simp
  finally have big: "2 * (wbase * val m) \<le> wbase ^ length d" .
  have "val d + val b * unat u + unat (0 :: u32) < wbase ^ length d" using total big by (simp add: mult.commute)
  from mpi_mul_hlp_value [OF _ this] b(3) Cons.prems(2) obtain d1 where d1: "mpi_mul_hlp b d u 0 = Some d1" "length d1 = length d"
    "val d1 = val d + unat u * val b" by (auto simp: mult.commute)
  have "val d1 + val m * unat v + unat (0 :: u32) < wbase ^ length d1" using total big d1 by (simp add: mult.commute)
  from mpi_mul_hlp_value [OF _ this] d1(2) Cons.prems(2) obtain d2 where d2: "mpi_mul_hlp m d1 v 0 = Some d2" "length d2 = length d"
    "val d2 = val d + unat u * val b + unat v * val m" using d1(3) by (auto simp: mult.commute)
  have "(of_nat (val d2) :: u32) = d0 + u * b0 + v * n0"
    unfolding d2(3) d0 b0 n(1) by (simp add: of_nat_val del: val.simps)
  also have "\<dots> = (d0 + u * b0) * (1 + n0 * mm)" unfolding v_def by (simp add: algebra_simps)
  also have "\<dots> = 0" using n(2) by simp
  finally have z: "(of_nat (val d2) :: u32) = 0" .
  obtain x ds2 where x: "d2 = x # ds2" using d2(2) d0 by (cases d2) auto
  then have ds2: "val d2 = wbase * val ds2" using z of_nat_val [of x ds2] by (simp only: val.simps unsigned_0 add_0)
  have lt: "val ds2 < 2 * val m"
  proof -
    have "wbase * val ds2 < wbase * (2 * val m)" using total unfolding ds2 [symmetric] d2(3) by simp
    then show ?thesis by (simp only: mult_less_cancel1 wbase_pos simp_thms)
  qed
  have "2 * val m \<le> wbase * wbase ^ ?n" using mlt by (intro mult_le_mono) (simp_all add: wbase_def)
  then have up: "ds2[?n + 1 := 0] = ds2" using lt by (intro val_small_update) simp
  have "?n + 1 < length ds2" using Cons.prems(2) d2(2) x by simp
  then have st: "mont_rows (u # us) b m mm d = do { (done, d) \<leftarrow> mont_rows us b m mm ds2; Some (u # done, d) }"
    using d1(1) d2(1) x up by (simp add: d0 b0 nth_opt_def upd_opt_def v_def Let_def)
  from Cons.IH [OF lt] Cons.prems(2) d2(2) x obtain d' q where r: "mont_rows us b m mm ds2 = Some (us, d')"
    "length d' = length ds2 - length us" "val d' < 2 * val m"
    "wbase ^ length us * val d' = val ds2 + val us * val b + q * val m" by auto
  have "wbase ^ length (u # us) * val d' = wbase * (val ds2 + val us * val b + q * val m)"
    unfolding r(4) [symmetric] by simp
  also have "\<dots> = val d + val (u # us) * val b + (unat v + wbase * q) * val m"
    using d2(3) unfolding distrib_left ds2 [symmetric] by (simp add: algebra_simps)
  finally show ?case using st r d2(2) x by auto
qed

subsection \<open>The product\<close>

text \<open>A modulus with its inverse: its lowest limb is odd.\<close>

definition modulus :: "mpi \<Rightarrow> u32 \<Rightarrow> bool" where
  "modulus N mm \<longleftrightarrow> sign_ok N \<and> mpi_s N = 1 \<and> (\<exists>n0 ns. mpi_p N = n0 # ns \<and> odd n0 \<and> n0 * mm = - 1)"

lemma modulus_odd: "modulus N mm \<Longrightarrow> odd (mpi_abs N)"
  by (auto simp: modulus_def mpi_abs_def wbase_def)

lemma modulus_pos: "modulus N mm \<Longrightarrow> 0 < mpi_abs N"
  using modulus_odd [of N mm] by (cases "mpi_abs N") auto

lemma montmul_value:
  assumes N: "modulus N mm" and A: "mpi_abs A < wbase ^ mpi_n N" "mpi_n N < mpi_n A"
    and B: "mpi_p B \<noteq> []" "mpi_abs B \<le> mpi_abs N" and T: "2 * mpi_n N + 2 \<le> mpi_n T"
  obtains A' T' where "mpi_montmul A B N mm T = Some (A', T')" "mpi_s A' = mpi_s A" "mpi_n A' = mpi_n A" "mpi_n T' = mpi_n T"
    "mpi_abs A' < mpi_abs N" "wbase ^ mpi_n N * mpi_abs A' mod mpi_abs N = mpi_abs A * mpi_abs B mod mpi_abs N"
proof -
  let ?n = "mpi_n N" and ?N = "mpi_abs N" and ?a = "take (mpi_n N) (mpi_p A)" and ?b = "take (min (mpi_n N) (mpi_n B)) (mpi_p B)"
  obtain n0 ns where n0: "mpi_p N = n0 # ns" "n0 * mm = - 1" using N by (auto simp: modulus_def)
  have N0: "0 < ?N" using N by (rule modulus_pos)
  have Nlt: "?N < wbase ^ ?n" unfolding mpi_abs_def by (rule val_lt)
  have va: "val ?a = mpi_abs A" using A(1) unfolding mpi_abs_def by (intro val_used_more) (simp add: limbs_used_iff)
  have vb: "val ?b = mpi_abs B"
    using le_less_trans [OF B(2) Nlt] unfolding mpi_abs_def
    by (intro val_used_more) (simp add: limbs_used_iff [symmetric])
  have la: "length ?a = ?n" using A(2) by simp
  have "?b \<noteq> []" using B(1) n0(1) by simp
  moreover have "val ?b \<le> val (mpi_p N)" unfolding vb using B(2) by (simp add: mpi_abs_def)
  moreover have "length ?b \<le> length (mpi_p N)" by simp
  ultimately obtain d q where d: "mont_rows ?a ?b (mpi_p N) mm (replicate (mpi_n T) 0) = Some (?a, d)" "length d = mpi_n T - ?n"
    "val d < 2 * ?N" "wbase ^ ?n * val d = mpi_abs A * mpi_abs B + q * ?N"
    using mont_rows_value [OF n0, of ?b "replicate (mpi_n T) 0" ?a] N0 T la by (auto simp: va vb mpi_abs_def)
  have "2 * ?N \<le> wbase * wbase ^ ?n" using Nlt by (intro mult_le_mono) (simp_all add: wbase_def)
  then have td: "val (take (?n + 1) d) = val d" using d(3) by (intro val_used_more) (simp add: limbs_used_iff)
  define A1 where "A1 = A\<lparr>mpi_p := take (?n + 1) d @ drop (?n + 1) (mpi_p A)\<rparr>"
  have ld: "?n + 1 \<le> length d" using d(2) T by simp
  have cp: "memcpy (mpi_p A) 0 d (?n + 1) = Some (mpi_p A1)"
    using memcpy_Some [of "?n + 1" d 0 "mpi_p A"] ld A(2) by (simp add: A1_def)
  have "val (drop (?n + 1) (mpi_p A)) = 0"
  proof -
    have "mpi_abs A = mpi_abs A + wbase ^ (?n + 1) * val (drop (?n + 1) (mpi_p A))"
      using val_split [of "?n + 1" "mpi_p A"] A(2) val_used_more [of "mpi_p A" "?n + 1"] A(1) less_le_trans [OF A(1) wbase_power_mono [of ?n "?n + 1"]]
      by (simp add: mpi_abs_def limbs_used_iff)
    then show ?thesis by simp
  qed
  then have v1: "mpi_abs A1 = val d" using td by (simp add: A1_def mpi_abs_def val_append)
  have s1: "mpi_s A1 = mpi_s A" "mpi_n A1 = mpi_n A" using ld A(2) by (simp_all add: A1_def)
  have cong: "wbase ^ ?n * val d mod ?N = mpi_abs A * mpi_abs B mod ?N" unfolding d(4) by simp
  define T1 where "T1 = T\<lparr>mpi_p := ?a @ d\<rparr>"
  have lT: "mpi_n T1 = mpi_n T" using d(2) la T by (simp add: T1_def)
  have mm: "mpi_montmul A B N mm T = (if mpi_cmp_abs A1 N \<ge> 0 then do { p \<leftarrow> mpi_sub_hlp (mpi_p N) (mpi_p A1) 0; Some (A1\<lparr>mpi_p := p\<rparr>, T1) }
     else do { p \<leftarrow> mpi_sub_hlp (take ?n (mpi_p A1)) (mpi_p T1) 0; Some (A1, T1\<lparr>mpi_p := p\<rparr>) })"
    unfolding mpi_montmul_def Let_def
    using d(1) cp A(2) by (simp add: rd_def A1_def T1_def min_def split: if_splits)
  show ?thesis
  proof (cases "?N \<le> val d")
    case True
    then have c: "mpi_cmp_abs A1 N \<ge> 0" by (simp add: mpi_cmp_abs_val v1 sgn_if)
    from mpi_sub_hlp_value [of "mpi_p N" "mpi_p A1" 0] True v1 s1(2) A(2) obtain p
      where p: "mpi_sub_hlp (mpi_p N) (mpi_p A1) 0 = Some p" "length p = mpi_n A1" "val p + ?N = val d"
      by (auto simp: mpi_abs_def)
    have "wbase ^ ?n * val p mod ?N = (wbase ^ ?n * val p + wbase ^ ?n * ?N) mod ?N" by simp
    also have "\<dots> = wbase ^ ?n * val d mod ?N" unfolding distrib_left [symmetric] p(3) ..
    finally have "wbase ^ ?n * val p mod ?N = mpi_abs A * mpi_abs B mod ?N" using cong by simp
    then show ?thesis using that [of "A1\<lparr>mpi_p := p\<rparr>" T1] mm c p s1 lT d(3) by (simp add: mpi_abs_def)
  next
    case False
    then have c: "\<not> mpi_cmp_abs A1 N \<ge> 0" by (simp add: mpi_cmp_abs_val v1 sgn_if)
    have "val (take ?n (mpi_p A1)) \<le> val d"
      using val_split [of ?n "mpi_p A1"] v1 s1(2) A(2) by (simp add: mpi_abs_def)
    also have "\<dots> \<le> wbase ^ ?n * val d" using wbase_power_mono [of 0 ?n] by simp
    also have "\<dots> \<le> val (mpi_p T1)" using la by (simp add: T1_def val_append)
    finally obtain p where p: "mpi_sub_hlp (take ?n (mpi_p A1)) (mpi_p T1) 0 = Some p" "length p = mpi_n T1"
      using mpi_sub_hlp_value [of "take ?n (mpi_p A1)" "mpi_p T1" 0] lT T by (auto simp: min_le_iff_disj)
    then show ?thesis using that [of A1 "T1\<lparr>mpi_p := p\<rparr>"] mm c s1 lT v1 False cong by simp
  qed
qed

end
