(* ===== verification/Powers.thy ===== *)
theory Powers
  imports Montgomery
begin

text \<open>
  Powers by sliding windows: the table, the loop over the bits of the exponent and the bits left over. \<open>mont N x X\<close>
  says that \<open>X\<close> holds the Montgomery form of \<open>x\<close>.
\<close>

subsection \<open>Montgomery form\<close>

definition mont :: "mpi \<Rightarrow> nat \<Rightarrow> mpi \<Rightarrow> bool" where
  "mont N x X \<longleftrightarrow> mpi_abs X = (x * wbase ^ mpi_n N) mod mpi_abs N \<and> mpi_n N < mpi_n X"

definition scratch :: "mpi \<Rightarrow> mpi \<Rightarrow> bool" where
  "scratch N T \<longleftrightarrow> 2 * mpi_n N + 2 \<le> mpi_n T"

lemma mod_cancel:
  assumes "coprime r n" "(r * a) mod n = (r * b) mod n"
  shows "a mod n = b mod (n :: nat)"
proof -
  have "int n dvd int r * int a - int r * int b"
    using assms(2) by (metis mod_eq_dvd_iff of_nat_mod of_nat_mult)
  then have "int n dvd int r * (int a - int b)" by (simp add: right_diff_distrib)
  moreover have "coprime (int n) (int r)" using assms(1) by (simp add: coprime_commute)
  ultimately have "int n dvd int a - int b" by (simp add: coprime_dvd_mult_right_iff)
  then show ?thesis by (metis mod_eq_dvd_iff of_nat_eq_iff of_nat_mod)
qed

lemma modulus_coprime: "modulus N mm \<Longrightarrow> coprime (wbase ^ k) (mpi_abs N)"
  using modulus_odd [of N mm] unfolding wbase_def power_mult [symmetric] coprime_power_left_iff coprime_left_2_iff_odd by blast

lemma mont_ne: "mont N x X \<Longrightarrow> mpi_p X \<noteq> []"
  by (auto simp: mont_def)

lemma mont_lt: "modulus N mm \<Longrightarrow> mont N x X \<Longrightarrow> mpi_abs X < mpi_abs N"
  using modulus_pos by (simp add: mont_def)

lemma mod_lt_base: "modulus N mm \<Longrightarrow> mpi_abs X < mpi_abs N \<Longrightarrow> mpi_abs X < wbase ^ mpi_n N"
  using val_lt [of "mpi_p N"] by (simp add: mpi_abs_def)

lemma montmul_mont:
  assumes N: "modulus N mm" and X: "mont N x X" and Y: "mont N y Y" and T: "scratch N T"
  obtains Z T' where "mpi_montmul X Y N mm T = Some (Z, T')" "mont N (x * y) Z" "scratch N T'" "mpi_s Z = mpi_s X"
proof -
  let ?R = "wbase ^ mpi_n N" and ?N = "mpi_abs N"
  have "mpi_abs X < ?R" using mod_lt_base [OF N mont_lt [OF N X]] .
  moreover have "mpi_n N < mpi_n X" using X by (simp add: mont_def)
  ultimately obtain Z T' where Z: "mpi_montmul X Y N mm T = Some (Z, T')" "mpi_s Z = mpi_s X" "mpi_n Z = mpi_n X"
    "mpi_n T' = mpi_n T" "mpi_abs Z < ?N" "?R * mpi_abs Z mod ?N = mpi_abs X * mpi_abs Y mod ?N"
    using montmul_value [OF N, of X Y T] mont_ne [OF Y] mont_lt [OF N Y] T by (auto simp: scratch_def)
  have "mpi_abs X * mpi_abs Y mod ?N = (x * ?R) * (y * ?R) mod ?N"
    using X Y by (simp add: mont_def mod_mult_eq)
  then have "?R * mpi_abs Z mod ?N = ?R * (x * y * ?R) mod ?N" using Z(6) by (simp add: ac_simps)
  from mod_cancel [OF modulus_coprime [OF N] this] have "mpi_abs Z = (x * y * ?R) mod ?N" using Z(5) by simp
  with Z that X T show ?thesis by (simp add: mont_def scratch_def)
qed

lemma montmul_into_mont:
  assumes N: "modulus N mm" and X: "mpi_abs X < mpi_abs N" "mpi_n N < mpi_n X" and T: "scratch N T"
    and Y: "mpi_p Y \<noteq> []" "mpi_abs Y = (wbase ^ mpi_n N * wbase ^ mpi_n N) mod mpi_abs N"
  obtains Z T' where "mpi_montmul X Y N mm T = Some (Z, T')" "mont N (mpi_abs X) Z" "scratch N T'" "mpi_s Z = mpi_s X"
proof -
  let ?R = "wbase ^ mpi_n N" and ?N = "mpi_abs N"
  have "mpi_abs Y \<le> ?N" using Y(2) modulus_pos [OF N] by (simp add: less_imp_le)
  then obtain Z T' where Z: "mpi_montmul X Y N mm T = Some (Z, T')" "mpi_s Z = mpi_s X" "mpi_n Z = mpi_n X"
    "mpi_n T' = mpi_n T" "mpi_abs Z < ?N" "?R * mpi_abs Z mod ?N = mpi_abs X * mpi_abs Y mod ?N"
    using montmul_value [OF N mod_lt_base [OF N X(1)] X(2) Y(1)] T by (auto simp: scratch_def)
  have "mpi_abs X * mpi_abs Y mod ?N = ?R * (mpi_abs X * ?R) mod ?N"
    unfolding Y(2) mod_mult_right_eq by (simp add: ac_simps)
  with Z(6) have "?R * mpi_abs Z mod ?N = ?R * (mpi_abs X * ?R) mod ?N" by simp
  from mod_cancel [OF modulus_coprime [OF N] this] have "mpi_abs Z = (mpi_abs X * ?R) mod ?N" using Z(5) by simp
  with Z that X T show ?thesis by (simp add: mont_def scratch_def)
qed

lemma one_mpi_abs: "mpi_abs \<lparr>mpi_s = 1, mpi_p = [1]\<rparr> = 1"
  by (simp add: mpi_abs_def)

lemma montred_value:
  assumes N: "modulus N mm" and X: "mont N x X" and T: "scratch N T"
  obtains Z T' where "mpi_montred X N mm T = Some (Z, T')" "mpi_abs Z = x mod mpi_abs N" "mpi_s Z = mpi_s X" "mpi_n Z = mpi_n X"
proof -
  let ?R = "wbase ^ mpi_n N" and ?N = "mpi_abs N" and ?one = "\<lparr>mpi_s = 1, mpi_p = [1]\<rparr>"
  have c: "mpi_n N < mpi_n X" "mpi_p ?one \<noteq> []" "mpi_abs ?one \<le> ?N" "2 * mpi_n N + 2 \<le> mpi_n T"
    using X T modulus_pos [OF N] by (simp_all add: mont_def scratch_def one_mpi_abs)
  obtain Z T' where Z: "mpi_montmul X ?one N mm T = Some (Z, T')" "mpi_s Z = mpi_s X" "mpi_n Z = mpi_n X"
    "mpi_abs Z < ?N" "?R * mpi_abs Z mod ?N = mpi_abs X * mpi_abs ?one mod ?N"
    by (rule montmul_value [OF N mod_lt_base [OF N mont_lt [OF N X]] c])
  then have "?R * mpi_abs Z mod ?N = ?R * x mod ?N" using X by (simp add: one_mpi_abs mont_def mult.commute)
  from mod_cancel [OF modulus_coprime [OF N] this] have "mpi_abs Z = x mod ?N" using Z(4) by simp
  with Z that show ?thesis by (simp add: mpi_montred_def)
qed

lemma montred_mont_one:
  assumes N: "modulus N mm" and X: "mpi_n N < mpi_n X" "mpi_abs X = (wbase ^ mpi_n N * wbase ^ mpi_n N) mod mpi_abs N"
    and T: "scratch N T"
  obtains Z T' where "mpi_montred X N mm T = Some (Z, T')" "mont N 1 Z" "mpi_s Z = mpi_s X" "scratch N T'"
proof -
  let ?R = "wbase ^ mpi_n N" and ?N = "mpi_abs N" and ?one = "\<lparr>mpi_s = 1, mpi_p = [1]\<rparr>"
  have "mpi_abs X < ?N" using X(2) modulus_pos [OF N] by simp
  then obtain Z T' where Z: "mpi_montmul X ?one N mm T = Some (Z, T')" "mpi_s Z = mpi_s X" "mpi_n Z = mpi_n X" "mpi_n T' = mpi_n T"
    "mpi_abs Z < ?N" "?R * mpi_abs Z mod ?N = mpi_abs X * mpi_abs ?one mod ?N"
    using montmul_value [OF N mod_lt_base [OF N], of X ?one T] modulus_pos [OF N] T X(1)
    by (auto simp: scratch_def one_mpi_abs Suc_le_eq)
  then have "?R * mpi_abs Z mod ?N = ?R * ?R mod ?N" using X(2) by (simp add: one_mpi_abs)
  from mod_cancel [OF modulus_coprime [OF N] this] have "mpi_abs Z = ?R mod ?N" using Z(5) by simp
  with Z that X T show ?thesis by (simp add: mpi_montred_def mont_def scratch_def)
qed

lemma mont_squares_mont:
  assumes N: "modulus N mm"
  shows "mont N x X \<Longrightarrow> scratch N T \<Longrightarrow>
    \<exists>Z T'. mont_squares i X N mm T = Some (Z, T') \<and> mont N (x ^ 2 ^ i) Z \<and> scratch N T' \<and> mpi_s Z = mpi_s X"
proof (induction i arbitrary: x X T)
  case (Suc i)
  from montmul_mont [OF N Suc.prems(1,1,2)] obtain Z T' where
    Z: "mpi_montmul X X N mm T = Some (Z, T')" "mont N (x * x) Z" "scratch N T'" "mpi_s Z = mpi_s X" by blast
  from Suc.IH [OF Z(2,3)] Z show ?case by (auto simp: power2_eq_square [symmetric] power_mult [symmetric])
qed simp

subsection \<open>The bits of the exponent\<close>

definition bits_val :: "nat \<Rightarrow> bool list \<Rightarrow> nat" where
  "bits_val e bs = foldl (\<lambda>e b. 2 * e + of_bool b) e bs"

lemma bits_val_word: "bits_val e (map (bit x) (rev [0..<n])) = 2 ^ n * e + take_bit n (unat x)" for x :: u32
proof (induction n arbitrary: e)
  case (Suc n)
  have b: "bit x n = bit (unat x) n" by (simp add: bit_unsigned_iff)
  show ?case using Suc [of "2 * e + of_bool (bit x n)"]
    by (simp add: bits_val_def take_bit_Suc_from_most b algebra_simps)
qed (simp add: bits_val_def)

lemma bits_val_append: "bits_val e (xs @ ys) = bits_val (bits_val e xs) ys"
  by (simp add: bits_val_def)

lemma bits_val_exp: "bits_val 0 (exp_bits E) = mpi_abs E"
proof -
  have w: "bits_val e (map (bit x) (rev [0..<32])) = wbase * e + unat x" for x :: u32 and e
    using bits_val_word [of e x 32] unat_u32_lt [of x] by (simp add: wbase_def take_bit_nat_eq_self del: upt_rec_numeral)
  have "bits_val 0 (concat (map (\<lambda>x. map (bit x) (rev [0..<32])) (rev p))) = val p" for p :: limbs
    by (induction p) (simp_all add: bits_val_append w del: upt_rec_numeral, simp add: bits_val_def)
  then show ?thesis by (simp add: exp_bits_def mpi_abs_def del: upt_rec_numeral)
qed

text \<open>The windows: \<open>W\<close> holds the powers of \<open>a\<close> with the top bit of the window set, and \<open>a\<close> itself.\<close>

definition windows :: "mpi \<Rightarrow> nat \<Rightarrow> nat \<Rightarrow> mpi list \<Rightarrow> bool" where
  "windows N a wsize W \<longleftrightarrow> (\<forall>i. i = 1 \<or> 2 ^ (wsize - 1) \<le> i \<and> i < 2 ^ wsize \<longrightarrow> i < length W \<and> mont N (a ^ i) (W ! i))"

definition exp_inv :: "mpi \<Rightarrow> nat \<Rightarrow> nat \<Rightarrow> int \<Rightarrow> nat \<Rightarrow> exp_state \<Rightarrow> bool" where
  "exp_inv N a wsize s e = (\<lambda>(X, nbits, wbits, state, T). \<exists>e0 u.
     mont N (a ^ e0) X \<and> mpi_s X = s \<and> scratch N T \<and> nbits < wsize \<and> u < 2 ^ nbits \<and> wbits = u * 2 ^ (wsize - nbits) \<and>
     e = e0 * 2 ^ nbits + u \<and> (state = 0 \<and> e0 = 0 \<and> nbits = 0 \<or> state = 1 \<and> nbits = 0 \<or>
       state = 2 \<and> 0 < nbits \<and> 2 ^ (nbits - 1) \<le> u))"

lemma or_low_bit: "u * 2 ^ Suc k OR (if b then push_bit k 1 else 0) = (2 * u + of_bool b) * 2 ^ k" for u :: nat
proof (cases b)
  case True
  have "2 ^ k < (2 :: nat) ^ Suc k" by simp
  from or_push_bit [OF this, of u] have "2 ^ k OR u * 2 ^ Suc k = 2 ^ k + u * 2 ^ Suc k"
    by (simp add: push_bit_eq_mult)
  then show ?thesis using True by (simp add: push_bit_eq_mult or.commute [of "2 ^ k"] algebra_simps)
qed simp

lemma exp_step_inv:
  assumes N: "modulus N mm" and W: "windows N a wsize W" and i: "exp_inv N a wsize s e st"
  shows "\<exists>st'. exp_step W wsize N mm ei st = Some st' \<and> exp_inv N a wsize s (2 * e + of_bool ei) st'"
proof -
  obtain X nbits wbits state T where st: "st = (X, nbits, wbits, state, T)" by (cases st) auto
  from i obtain e0 u where v: "mont N (a ^ e0) X" "mpi_s X = s" "scratch N T" "nbits < wsize" "u < 2 ^ nbits"
    "wbits = u * 2 ^ (wsize - nbits)" "e = e0 * 2 ^ nbits + u" and
    c: "state = 0 \<and> e0 = 0 \<and> nbits = 0 \<or> state = 1 \<and> nbits = 0 \<or> state = 2 \<and> 0 < nbits \<and> 2 ^ (nbits - 1) \<le> u"
    unfolding exp_inv_def st by auto
  consider "\<not> ei" "state = 0" | "\<not> ei" "state = 1" | "ei \<or> state = 2" "ei \<or> state \<noteq> 0" "ei \<or> state \<noteq> 1" using c by auto
  then show ?thesis
  proof cases
    case 1
    then show ?thesis using i c v(5,7) by (auto simp: exp_step_def st)
  next
    case 2
    then have n: "nbits = 0" "u = 0" using c v(5) by auto
    from montmul_mont [OF N v(1,1,3)] obtain Z T' where z: "mpi_montmul X X N mm T = Some (Z, T')"
      "mont N (a ^ e0 * a ^ e0) Z" "scratch N T'" "mpi_s Z = mpi_s X" .
    have "mont N (a ^ (2 * e0)) Z" using z(2) by (simp add: power_add mult_2)
    then have "exp_inv N a wsize s (2 * e) (Z, 0, 0, 1, T')"
      unfolding exp_inv_def using v z(3,4) n by auto
    then show ?thesis using 2 z n v(6) by (simp add: exp_step_def st)
  next
    case 3
    let ?u = "2 * u + of_bool ei"
    have k: "wsize - nbits = Suc (wsize - (nbits + 1))" using v(4) by simp
    have wb: "wbits OR (if ei then push_bit (wsize - (nbits + 1)) 1 else 0) = ?u * 2 ^ (wsize - (nbits + 1))"
      unfolding v(6) k by (rule or_low_bit)
    have top: "2 ^ nbits \<le> ?u"
    proof (cases "state = 2")
      case True
      then have "0 < nbits" "2 ^ (nbits - 1) \<le> u" using c by auto
      then show ?thesis by (cases nbits) auto
    next
      case False
      then show ?thesis using 3 c by auto
    qed
    have ult: "?u < 2 ^ (nbits + 1)" using v(5) by (auto simp: of_bool_def)
    have e: "2 * e + of_bool ei = e0 * 2 ^ (nbits + 1) + ?u" using v(7) by simp
    have step: "exp_step W wsize N mm ei st =
      (if nbits + 1 = wsize then do {
            (X, T) \<leftarrow> mont_squares wsize X N mm T;
            w \<leftarrow> nth_opt W (?u * 2 ^ (wsize - (nbits + 1)));
            (X, T) \<leftarrow> mpi_montmul X w N mm T;
            Some (X, 0, 0, 1, T) }
          else Some (X, nbits + 1, ?u * 2 ^ (wsize - (nbits + 1)), 2, T))"
      using 3 unfolding exp_step_def st prod.case Let_def wb by auto
    show ?thesis
    proof (cases "nbits + 1 = wsize")
      case False
      then have "exp_inv N a wsize s (2 * e + of_bool ei) (X, nbits + 1, ?u * 2 ^ (wsize - (nbits + 1)), 2, T)"
        unfolding exp_inv_def using v top ult e by auto
      then show ?thesis using step False by simp
    next
      case True
      from mont_squares_mont [OF N v(1,3), of wsize] obtain Z T' where
        z: "mont_squares wsize X N mm T = Some (Z, T')" "mont N ((a ^ e0) ^ 2 ^ wsize) Z" "scratch N T'" "mpi_s Z = mpi_s X" by blast
      have w: "?u < length W" "mont N (a ^ ?u) (W ! ?u)"
        using W top ult True unfolding windows_def by auto
      from montmul_mont [OF N z(2) w(2) z(3)] obtain Y T'' where
        y: "mpi_montmul Z (W ! ?u) N mm T' = Some (Y, T'')" "mont N ((a ^ e0) ^ 2 ^ wsize * a ^ ?u) Y" "scratch N T''" "mpi_s Y = mpi_s Z" .
      have "mont N (a ^ (2 * e + of_bool ei)) Y" using y(2) unfolding e True by (simp only: power_add power_mult)
      then have "exp_inv N a wsize s (2 * e + of_bool ei) (Y, 0, 0, 1, T'')"
        unfolding exp_inv_def using v(2,4) z(4) y(3,4) by auto
      then show ?thesis using step True z(1) y(1) w(1) by (simp add: nth_opt_def)
    qed
  qed
qed

lemma exp_run_inv:
  "modulus N mm \<Longrightarrow> windows N a wsize W \<Longrightarrow> exp_inv N a wsize s e st \<Longrightarrow>
    \<exists>st'. exp_run W wsize N mm bs st = Some st' \<and> exp_inv N a wsize s (bits_val e bs) st'"
proof (induction bs arbitrary: e st)
  case (Cons b bs)
  from exp_step_inv [OF Cons.prems] obtain st' where "exp_step W wsize N mm b st = Some st'"
    "exp_inv N a wsize s (2 * e + of_bool b) st'" by blast
  moreover from Cons.IH [OF Cons.prems(1,2) calculation(2)] obtain st'' where "exp_run W wsize N mm bs st' = Some st''"
    "exp_inv N a wsize s (bits_val (2 * e + of_bool b) bs) st''" by blast
  ultimately show ?case by (auto simp: bits_val_def)
qed (simp add: bits_val_def)

lemma exp_rest_mont:
  assumes N: "modulus N mm" and W: "windows N a wsize W"
  shows "mont N (a ^ e0) X \<Longrightarrow> scratch N T \<Longrightarrow> i \<le> wsize \<Longrightarrow>
    \<exists>Z T'. exp_rest W wsize N mm i wbits X T = Some (Z, T') \<and> mpi_s Z = mpi_s X \<and> scratch N T' \<and>
      mont N (a ^ (e0 * 2 ^ i + take_bit i (wbits div 2 ^ (wsize - i)))) Z"
proof (induction i arbitrary: e0 X T wbits)
  case (Suc i)
  from montmul_mont [OF N Suc.prems(1,1,2)] obtain Y T1 where y: "mpi_montmul X X N mm T = Some (Y, T1)"
    "mont N (a ^ e0 * a ^ e0) Y" "scratch N T1" "mpi_s Y = mpi_s X" .
  let ?b = "bit (push_bit 1 wbits) wsize" and ?v = "wbits div 2 ^ (wsize - Suc i)"
  have w1: "1 < length W" "mont N a (W ! 1)" using W unfolding windows_def by auto
  have p: "a ^ (2 * e0 + of_bool c) = a ^ e0 * a ^ e0 * (if c then a else 1)" for c
    by (simp add: mult_2 power_add)
  have "\<exists>Z T2. (if ?b then do { w \<leftarrow> nth_opt W 1; mpi_montmul Y w N mm T1 } else Some (Y, T1)) = Some (Z, T2) \<and>
      mont N (a ^ (2 * e0 + of_bool ?b)) Z \<and> scratch N T2 \<and> mpi_s Z = mpi_s X"
  proof (cases ?b)
    case True
    from montmul_mont [OF N y(2) w1(2) y(3)] obtain Z T2 where "mpi_montmul Y (W ! 1) N mm T1 = Some (Z, T2)"
      "mont N (a ^ e0 * a ^ e0 * a) Z" "scratch N T2" "mpi_s Z = mpi_s Y" .
    with True y(4) w1(1) show ?thesis unfolding p by (auto simp: nth_opt_def)
  next
    case False
    with y show ?thesis unfolding p by auto
  qed
  then obtain Z T2 where z: "(if ?b then do { w \<leftarrow> nth_opt W 1; mpi_montmul Y w N mm T1 } else Some (Y, T1)) = Some (Z, T2)"
    "mont N (a ^ (2 * e0 + of_bool ?b)) Z" "scratch N T2" "mpi_s Z = mpi_s X" by blast
  have k: "wsize - i = Suc (wsize - Suc i)" using Suc.prems(3) by simp
  have d: "push_bit 1 wbits div 2 ^ (wsize - i) = ?v" unfolding k by (simp add: push_bit_eq_mult)
  have "bit ?v i = bit wbits (wsize - Suc i + i)" by (simp add: bit_drop_bit_eq flip: drop_bit_eq_div)
  also have "wsize - Suc i + i = wsize - 1" using Suc.prems(3) by simp
  also have "bit wbits (wsize - 1) = ?b" using Suc.prems(3) unfolding bit_push_bit_iff_nat by simp
  finally have "(2 * e0 + of_bool ?b) * 2 ^ i + take_bit i ?v = e0 * 2 ^ Suc i + take_bit (Suc i) ?v"
    by (simp add: take_bit_Suc_from_most algebra_simps)
  then show ?case using Suc.IH [OF z(2,3), of "push_bit 1 wbits"] Suc.prems(3) y(1) z d
    by (simp add: Let_def)
qed auto

lemma exp_main_value:
  assumes N: "modulus N mm" and W: "windows N a wsize W" "0 < wsize" and X: "mont N 1 X" "scratch N T"
  obtains Z where "exp_main E N mm wsize W X T = Some Z" "mpi_abs Z = a ^ mpi_abs E mod mpi_abs N" "mpi_s Z = mpi_s X" "mpi_p Z \<noteq> []"
proof -
  have "exp_inv N a wsize (mpi_s X) 0 (X, 0, 0, 0, T)" unfolding exp_inv_def using X W(2) by auto
  from exp_run_inv [OF N W(1) this, of "exp_bits E"] obtain Y nbits wbits state T1 where
    y: "exp_run W wsize N mm (exp_bits E) (X, 0, 0, 0, T) = Some (Y, nbits, wbits, state, T1)"
    "exp_inv N a wsize (mpi_s X) (mpi_abs E) (Y, nbits, wbits, state, T1)"
    unfolding bits_val_exp by (auto simp: split_paired_Ex)
  from y(2) obtain e0 u where v: "mont N (a ^ e0) Y" "mpi_s Y = mpi_s X" "scratch N T1" "nbits < wsize" "u < 2 ^ nbits"
    "wbits = u * 2 ^ (wsize - nbits)" "mpi_abs E = e0 * 2 ^ nbits + u" unfolding exp_inv_def by auto
  have "take_bit nbits (wbits div 2 ^ (wsize - nbits)) = u" using v(5) by (simp add: v(6) take_bit_nat_eq_self)
  with exp_rest_mont [OF N W(1) v(1,3), of nbits wbits] v(4,7) obtain Z T2 where
    z: "exp_rest W wsize N mm nbits wbits Y T1 = Some (Z, T2)" "mpi_s Z = mpi_s Y" "scratch N T2" "mont N (a ^ mpi_abs E) Z" by auto
  from montred_value [OF N z(4,3)] obtain Q T3 where q: "mpi_montred Z N mm T2 = Some (Q, T3)"
    "mpi_abs Q = a ^ mpi_abs E mod mpi_abs N" "mpi_s Q = mpi_s Z" "mpi_n Q = mpi_n Z" .
  have "mpi_p Q \<noteq> []" using q(4) mont_ne [OF z(4)] by auto
  with q z(1,2) y(1) v(2) that show ?thesis by (simp add: exp_main_def)
qed

end
