(* ===== verification/Residues.thy ===== *)
theory Residues
  imports Division Powers
begin

text \<open>
  Remainders. \<^verbatim>\<open>mpi_mod_mpi\<close> brings the remainder of a division into range by adding or subtracting the divisor. A
  negative number that is a multiple of the divisor can leave a zero with the sign of a negative number, which
  \<^verbatim>\<open>mpi_cmp_mpi\<close> takes for larger than the divisor.
\<close>

lemma neg_if_sign: "sign_ok R \<Longrightarrow> mpi_val R < 0 \<Longrightarrow> mpi_s R = -1"
  by (auto simp: sign_ok_def mpi_val_def)

lemma mod_up_returns:
  assumes H: "heap_ok H" and B: "proper B" "mpi_s B = 1" "mpi_abs B \<noteq> 0"
  shows "proper R \<Longrightarrow> returns (mod_up H B R k) (\<lambda>R'. proper R' \<and> mpi_val R' mod mpi_val B = mpi_val R mod mpi_val B \<and>
    0 \<le> mpi_val R' \<and> mpi_n R \<le> mpi_n R' \<and> (mpi_s R = 1 \<longrightarrow> mpi_s R' = 1))"
proof (induction "nat (- mpi_val R)" arbitrary: R k rule: less_induct)
  case less
  have c: "mpi_cmp_int R 0 = sgn (mpi_val R)" using less.prems by (intro mpi_cmp_int_0) (simp add: proper_def)
  have b: "0 < mpi_val B" using B by (simp add: mpi_val_def)
  let ?P = "\<lambda>R'. proper R' \<and> mpi_val R' mod mpi_val B = mpi_val R mod mpi_val B \<and> 0 \<le> mpi_val R' \<and> mpi_n R \<le> mpi_n R' \<and> (mpi_s R = 1 \<longrightarrow> mpi_s R' = 1)"
  show ?case
  proof (subst mod_up.simps, rule returns_if)
    assume "mpi_cmp_int R 0 < 0"
    then have neg: "mpi_val R < 0" unfolding c by (simp add: sgn_if split: if_splits)
    then have s: "mpi_s R = -1" using less.prems by (simp add: proper_def neg_if_sign)
    show "returns (MPI_CHK (\<lambda>R. R) (mpi_add_mpi H InA R B k) (mod_up H B)) ?P"
    proof (rule returns_CHK [OF add_mpi_returns [OF H less.prems B(1)]], elim conjE)
      fix Y :: mpi and k'
      assume Y: "mpi_val Y = mpi_val R + mpi_val B" "proper Y" and n: "mpi_n (dest_of InA R B) \<le> mpi_n Y"
      then have "nat (- mpi_val Y) < nat (- mpi_val R)" using neg b by simp
      from less.hyps [OF this Y(2)] show "returns (mod_up H B Y k') ?P"
        by (rule returns_mono) (use Y(1) s n in \<open>auto simp: dest_of_def\<close>)
    qed
  next
    assume "\<not> mpi_cmp_int R 0 < 0"
    then have "0 \<le> mpi_val R" unfolding c by (simp add: sgn_if split: if_splits)
    then show "returns (Some (0, R, k)) ?P" using less.prems by (simp add: returns_def)
  qed
qed

lemma mod_down_returns:
  assumes H: "heap_ok H" and B: "proper B" "mpi_s B = 1" "mpi_abs B \<noteq> 0"
  shows "proper R \<Longrightarrow> mpi_s R = 1 \<Longrightarrow> returns (mod_down H B R k) (\<lambda>R'. proper R' \<and> mpi_s R' = 1 \<and> mpi_n R \<le> mpi_n R' \<and>
    mpi_val R' = mpi_val R mod mpi_val B)"
proof (induction "mpi_abs R" arbitrary: R k rule: less_induct)
  case less
  have c: "mpi_cmp_mpi R B = sgn (int (mpi_abs R) - int (mpi_abs B))"
    using less.prems B by (subst mpi_cmp_mpi_same) (simp_all add: sign_ok_def mpi_val_def)
  let ?P = "\<lambda>R'. proper R' \<and> mpi_s R' = 1 \<and> mpi_n R \<le> mpi_n R' \<and> mpi_val R' = mpi_val R mod mpi_val B"
  show ?case
  proof (subst mod_down.simps, rule returns_if)
    assume "mpi_cmp_mpi R B \<ge> 0"
    then have le: "mpi_abs B \<le> mpi_abs R" unfolding c by (simp add: sgn_if split: if_splits)
    show "returns (MPI_CHK (\<lambda>R. R) (mpi_sub_mpi H InA R B k) (mod_down H B)) ?P"
    proof (rule returns_CHK [OF sub_mpi_returns [OF H less.prems(1) B(1)]], elim conjE)
      fix Y :: mpi and k'
      assume Y: "mpi_val Y = mpi_val R - mpi_val B" "proper Y" "mpi_s Y = sum_sign (-1) R B" and n: "mpi_n (dest_of InA R B) \<le> mpi_n Y"
      then have s: "mpi_s Y = 1" using le less.prems(2) B(2) by (simp add: sum_sign_def)
      then have "int (mpi_abs Y) = int (mpi_abs R) - int (mpi_abs B)" using Y(1) less.prems(2) B(2) by (simp add: mpi_val_def)
      then have "mpi_abs Y < mpi_abs R" using B(3) by linarith
      from less.hyps [OF this Y(2) s] show "returns (mod_down H B Y k') ?P"
        by (rule returns_mono) (use Y(1) n in \<open>auto simp: dest_of_def\<close>)
    qed
  next
    assume "\<not> mpi_cmp_mpi R B \<ge> 0"
    then have "mpi_abs R < mpi_abs B" unfolding c by (simp add: sgn_if split: if_splits)
    then show "returns (Some (0, R, k)) ?P" using less.prems B by (simp add: returns_def mpi_val_def)
  qed
qed

text \<open>A zero with the sign of a negative number is not left alone: its result is minus the divisor.\<close>

lemma mod_down_negative_zero:
  assumes H: "heap_ok H" and B: "proper B" "mpi_s B = 1" "mpi_abs B \<noteq> 0" and R: "proper R" "mpi_s R = -1" "mpi_abs R = 0"
  shows "returns (mod_down H B R k) (\<lambda>R'. proper R' \<and> mpi_val R' = - mpi_val B)"
proof -
  have "limbs_used (mpi_p R) < limbs_used (mpi_p B)" 
  proof -
    have "limbs_used (mpi_p R) = 0" "limbs_used (mpi_p B) \<noteq> 0" using R(3) B(3) by (simp_all add: mpi_abs_def)
    then show ?thesis by linarith
  qed
  then have c: "mpi_cmp_mpi R B \<ge> 0" using R B by (subst mpi_cmp_mpi_value) (auto simp: proper_def mpi_val_def sgn_if)
  show ?thesis
  proof (subst mod_down.simps, simp only: if_P [OF c], rule returns_CHK [OF sub_mpi_returns [OF H R(1) B(1)]], elim conjE)
    fix Y :: mpi and k'
    assume Y: "mpi_val Y = mpi_val R - mpi_val B" "proper Y" "mpi_s Y = sum_sign (-1) R B"
    then have v: "mpi_val Y = - mpi_val B" using R(3) by (simp add: mpi_val_def)
    have s: "mpi_s Y = -1" using Y(3) R B by (simp add: sum_sign_def)
    have "mpi_abs Y = mpi_abs B" using v s B(2) by (simp add: mpi_val_def)
    then have "limbs_used (mpi_p Y) = limbs_used (mpi_p B)"
      using limbs_used_mono [of "mpi_p Y" "mpi_p B"] limbs_used_mono [of "mpi_p B" "mpi_p Y"] by (simp add: mpi_abs_def)
    then have "\<not> mpi_cmp_mpi Y B \<ge> 0" using Y(2) B v
      by (subst mpi_cmp_mpi_value) (auto simp: proper_def sgn_if mpi_val_def [of B])
    then have "mod_down H B Y k' = Some (0, Y, k')" by (subst mod_down.simps) simp
    then show "returns (mod_down H B Y k') (\<lambda>R'. proper R' \<and> mpi_val R' = - mpi_val B)" using v Y(2) by (simp add: returns_def)
  qed
qed

lemma mod_mpi_returns:
  assumes H: "heap_ok H" and A: "proper A" and B: "proper B" "mpi_s B = 1" "mpi_abs B \<noteq> 0" and D: "D \<noteq> InA \<or> mpi_s A = 1"
  shows "returns (mpi_mod_mpi H D A B k) (\<lambda>R. proper R \<and> mpi_val R mod mpi_val B = mpi_val A mod mpi_val B \<and>
    (mpi_s A = 1 \<or> \<not> mpi_val B dvd mpi_val A \<longrightarrow> mpi_s R = 1 \<and> mpi_n (dest_of D A B) \<le> mpi_n R \<and> mpi_val R = mpi_val A mod mpi_val B))"
  unfolding mpi_mod_mpi_def
proof (rule returns_CHK [OF div_mpi_returns [OF H A B(1,3)]])
  fix QR :: "mpi option \<times> mpi option" and k1
  assume "case QR of (Q', R') \<Rightarrow> \<exists>q r. mpi_abs A = q * mpi_abs B + r \<and> quotient (mpi_s A * mpi_s B) q None Q' \<and> remainder (Some D) A B r R'"
  moreover obtain Q' R' where QR': "QR = (Q', R')" by (cases QR)
  ultimately obtain q r where q: "mpi_abs A = q * mpi_abs B + r" and R': "remainder (Some D) A B r R'" by auto
  then obtain R where "R' = Some R" by (cases R') (simp_all add: remainder_def)
  with QR' R' have QR: "QR = (Q', Some R)" and R: "remainder (Some D) A B r (Some R)" by simp_all
  have p: "proper R" and s1: "mpi_s A = 1 \<Longrightarrow> mpi_s R = 1" using R by (auto simp: remainder_def)
  have nR: "mpi_n (dest_of D A B) \<le> mpi_n R" using R by (simp add: remainder_def)
  have v: "mpi_val R = mpi_s A * int r" using R D by (auto simp: remainder_def mpi_val_def)
  have "mpi_val A = mpi_val R + mpi_s A * int q * mpi_val B" using q v B(2) by (simp add: mpi_val_def algebra_simps)
  then have cong: "mpi_val R mod mpi_val B = mpi_val A mod mpi_val B" by simp
  have b: "0 < mpi_val B" using B by (simp add: mpi_val_def)
  let ?P = "\<lambda>R. proper R \<and> mpi_val R mod mpi_val B = mpi_val A mod mpi_val B \<and>
    (mpi_s A = 1 \<or> \<not> mpi_val B dvd mpi_val A \<longrightarrow> mpi_s R = 1 \<and> mpi_n (dest_of D A B) \<le> mpi_n R \<and> mpi_val R = mpi_val A mod mpi_val B)"
  show "returns ((\<lambda>(Q, R) k. MPI_CHK (\<lambda>R. R) (mod_up H B (the R) k) (mod_down H B)) QR k1) ?P"
    unfolding QR prod.case option.sel
  proof (rule returns_CHK [OF mod_up_returns [OF H B p]], elim conjE)
    fix Y :: mpi and k2
    assume Y: "proper Y" "mpi_val Y mod mpi_val B = mpi_val R mod mpi_val B" "0 \<le> mpi_val Y" "mpi_s R = 1 \<longrightarrow> mpi_s Y = 1" and nY: "mpi_n R \<le> mpi_n Y"
    show "returns (mod_down H B Y k2) ?P"
    proof (cases "mpi_s Y = 1")
      case True
      show ?thesis by (rule returns_mono [OF mod_down_returns [OF H B Y(1) True]]) (use Y(2) cong nR nY in auto)
    next
      case False
      then have s: "mpi_s Y = -1" using Y(1) by (auto simp: proper_def sign_ok_def)
      then have z: "mpi_abs Y = 0" using Y(3) by (simp add: mpi_val_def)
      then have "mpi_val A mod mpi_val B = 0" using Y(2) cong by (simp add: mpi_val_def)
      moreover have "mpi_s A \<noteq> 1" using s s1 Y(4) by auto
      ultimately show ?thesis
        by (intro returns_mono [OF mod_down_negative_zero [OF H B Y(1) s z]]) (auto simp: mod_eq_0_iff_dvd)
    qed
  qed
qed

end
