(* ===== verification/ExpMod.thy ===== *)
theory ExpMod
  imports Residues
begin

text \<open>
  Modular exponentiation: the table of windows, the Montgomery factor and \<^verbatim>\<open>mpi_exp_mod\<close> as a whole, for an odd
  modulus and a base that is not negative.
\<close>

subsection \<open>The table of windows\<close>

definition table_to :: "mpi \<Rightarrow> nat \<Rightarrow> nat \<Rightarrow> nat \<Rightarrow> mpi list \<times> mpi \<Rightarrow> bool" where
  "table_to N a j i = (\<lambda>(W, T). length W = 64 \<and> scratch N T \<and> (\<forall>l. l = 1 \<or> j \<le> l \<and> l < i \<longrightarrow> mont N (a ^ l) (W ! l)))"

lemma copy_mont:
  assumes H: "heap_ok H" and Y: "mont N y Y"
  shows "returns (mpi_copy H (X :: mpi) Y k) (\<lambda>Z. mpi_n N < mpi_n X \<longrightarrow> mont N y Z)"
  by (rule returns_mono [OF copy_returns [OF H]]) (use Y in \<open>auto simp: mont_def\<close>)

lemma window_entries_returns:
  assumes H: "heap_ok H" and N: "modulus N mm" and j: "2 \<le> j"
  shows "j < i \<Longrightarrow> i + m \<le> 64 \<Longrightarrow> table_to N a j i WT \<Longrightarrow>
    returns (window_entries H N mm [i..<i + m] WT k) (table_to N a j (i + m))"
proof (induction m arbitrary: i WT k)
  case 0
  then show ?case by (simp add: returns_def)
next
  case (Suc m)
  obtain W T where WT: "WT = (W, T)" by (cases WT)
  have l: "[i..<i + Suc m] = i # [Suc i..<Suc i + m]" by (simp add: upt_conv_Cons)
  have W: "length W = 64" "scratch N T" "\<And>l. l = 1 \<or> j \<le> l \<and> l < i \<Longrightarrow> mont N (a ^ l) (W ! l)"
    using Suc.prems(3) by (auto simp: WT table_to_def)
  have m1: "mont N (a ^ (i - 1)) (W ! (i - 1))" "mont N (a ^ 1) (W ! 1)" 
  proof -
    have "j \<le> i - 1" "i - 1 < i" using Suc.prems(1) by simp_all
    then show "mont N (a ^ (i - 1)) (W ! (i - 1))" "mont N (a ^ 1) (W ! 1)" using W(3) by blast+
  qed
  show ?case unfolding l WT window_entries.simps
  proof (rule returns_CHK [OF grow_returns [OF H]], rule returns_CHK [OF copy_mont [OF H m1(1)]])
    fix X Y :: mpi and k1 k2
    assume "X = (W ! i)\<lparr>mpi_p := mpi_p (W ! i) @ replicate (mpi_n N + 1 - mpi_n (W ! i)) 0\<rparr>" "mpi_n N < mpi_n X \<longrightarrow> mont N (a ^ (i - 1)) Y"
    then have Y: "mont N (a ^ (i - 1)) Y" by simp
    from montmul_mont [OF N Y m1(2) W(2)] obtain Z T' where Z: "mpi_montmul Y (W ! 1) N mm T = Some (Z, T')"
      "mont N (a ^ (i - 1) * a ^ 1) Z" "scratch N T'" "mpi_s Z = mpi_s Y" .
    have "mont N (a ^ i) Z" using Z(2) Suc.prems(1) by (cases i) (simp_all add: mult.commute)
    then have "table_to N a j (Suc i) (W[i := Z], T')"
      using W W(3) [of 1] Z(3) Suc.prems(1,2) j by (auto simp: table_to_def nth_list_update less_Suc_eq)
    from Suc.IH [OF _ _ this, of k2] Suc.prems(1,2) have "returns (window_entries H N mm [Suc i..<Suc i + m] (W[i := Z], T') k2) (table_to N a j (i + Suc m))"
      by simp
    then show "returns (mpi_montmul Y (W ! 1) N mm T \<bind> (\<lambda>(X, T). window_entries H N mm [Suc i..<Suc i + m] (W[i := X], T) k2))
        (table_to N a j (i + Suc m))" using Z(1) by simp
  qed
qed

lemma window_table_returns:
  assumes H: "heap_ok H" and N: "modulus N mm" and w: "0 < wsize" "wsize \<le> 6"
    and W: "length W = 64" "mont N a (W ! 1)" "scratch N T"
  shows "returns (window_table H N mm wsize (W, T) k) (\<lambda>(W', T'). windows N a wsize W' \<and> scratch N T')"
proof (cases "wsize > 1")
  case False
  then have "wsize = 1" using w(1) by simp
  then show ?thesis using W by (auto simp: window_table_def returns_def windows_def numeral_2_eq_2 less_Suc_eq)
next
  case True
  let ?j = "(2 :: nat) ^ (wsize - 1)"
  have j: "2 \<le> ?j" using True self_le_power [of 2 "wsize - 1"] by simp
  have p: "2 ^ wsize = ?j + ?j" using True by (cases wsize) simp_all
  have "2 ^ wsize \<le> (2 :: nat) ^ 6" by (rule power_increasing) (use w in simp_all)
  then have le: "?j + ?j \<le> 64" using p by simp
  have e: "[?j + 1..<2 ^ wsize] = [?j + 1..<?j + 1 + (?j - 1)]" using p j by simp
  show ?thesis
    unfolding window_table_def prod.case if_P [OF True] Let_def
  proof (rule returns_CHK [OF grow_returns [OF H]], rule returns_CHK [OF copy_mont [OF H W(2)]])
    fix X Y :: mpi and k1 k2
    assume "X = (W ! ?j)\<lparr>mpi_p := mpi_p (W ! ?j) @ replicate (mpi_n N + 1 - mpi_n (W ! ?j)) 0\<rparr>" "mpi_n N < mpi_n X \<longrightarrow> mont N a Y"
    then have Y: "mont N a Y" by simp
    from mont_squares_mont [OF N Y W(3), of "wsize - 1"] obtain Z T' where Z: "mont_squares (wsize - 1) Y N mm T = Some (Z, T')"
      "mont N (a ^ ?j) Z" "scratch N T'" by blast
    have m: "mont N (a ^ l) (W[?j := Z] ! l)" if l: "l = 1 \<or> ?j \<le> l \<and> l < ?j + 1" for l
    proof (cases "l = ?j")
      case True
      then show ?thesis using Z(2) W(1) le by simp
    next
      case False
      then have "l = 1" using l by linarith
      then show ?thesis unfolding nth_list_update_neq [OF False [symmetric]] using W(2) by simp
    qed
    have "table_to N a ?j (?j + 1) (W[?j := Z], T')"
      using W(1) Z(3) m unfolding table_to_def prod.case by simp
    from window_entries_returns [OF H N j _ _ this, of "?j - 1"] le
    have "returns (window_entries H N mm [?j + 1..<2 ^ wsize] (W[?j := Z], T') k2) (table_to N a ?j (?j + 1 + (?j - 1)))" unfolding e by simp
    then have "returns (window_entries H N mm [?j + 1..<2 ^ wsize] (W[?j := Z], T') k2) (\<lambda>(W', T'). windows N a wsize W' \<and> scratch N T')"
      by (rule returns_mono) (use j p le in \<open>auto simp: table_to_def windows_def\<close>)
    then show "returns (mont_squares (wsize - 1) Y N mm T \<bind> (\<lambda>(X, T). window_entries H N mm [?j + 1..<2 ^ wsize] (W[?j := X], T) k2))
       (\<lambda>(W', T'). windows N a wsize W' \<and> scratch N T')" using Z(1) by simp
  qed
qed

subsection \<open>The exponentiation\<close>

definition factor_ok :: "mpi \<Rightarrow> mpi \<Rightarrow> bool" where
  "factor_ok N R \<longleftrightarrow> mpi_s R = 1 \<and> mpi_p R \<noteq> [] \<and> mpi_abs R = (wbase ^ mpi_n N * wbase ^ mpi_n N) mod mpi_abs N"

text \<open>The number that keeps the factor between calls is empty or holds the factor.\<close>

definition cache_ok :: "mpi \<Rightarrow> mpi option \<Rightarrow> bool" where
  "cache_ok N RR \<longleftrightarrow> (\<forall>R. RR = Some R \<longrightarrow> mpi_p R = [] \<or> factor_ok N R)"

lemma modulus_proper: "modulus N mm \<Longrightarrow> proper N \<and> mpi_s N = 1 \<and> mpi_abs N \<noteq> 0"
  using modulus_pos [of N mm] by (auto simp: modulus_def proper_def)

lemma mont_factor_returns:
  assumes H: "heap_ok H" and N: "modulus N mm" and RR: "cache_ok N RR"
  shows "returns (mont_factor H RR N k) (factor_ok N)"
proof (cases "RR = None \<or> mpi_p (the RR) = []")
  case False
  then have "factor_ok N (the RR)" using RR by (auto simp: cache_ok_def)
  then show ?thesis using False by (auto simp: mont_factor_def returns_def)
next
  case True
  have N': "proper N" "mpi_s N = 1" "mpi_abs N \<noteq> 0" using modulus_proper [OF N] by simp_all
  show ?thesis
    unfolding mont_factor_def if_P [OF True]
  proof (rule returns_CHK [OF lset_returns [OF H]], simp, elim conjE, rule returns_CHK [OF shift_l_returns' [OF H]])
    fix X :: mpi
    assume "mpi_n X = max (mpi_n mpi_init) 1"
    then show "mpi_p X \<noteq> []" by auto
  next
    fix X Y :: mpi and k1 k2
    assume X: "mpi_s X = int_sign 1" "mpi_abs X = nat \<bar>1\<bar>"
      and Y: "mpi_s Y = mpi_s X \<and> mpi_abs Y = 2 ^ (mpi_n N * 2 * 32) * mpi_abs X \<and> mpi_n X \<le> mpi_n Y \<and> mpi_p Y \<noteq> []"
    have s: "mpi_s Y = 1" "proper Y" using X Y by (auto simp: int_sign_def proper_def sign_ok_def)
    have "mpi_abs Y = 2 ^ (32 * (mpi_n N * 2))" using X Y by (simp add: mult.commute)
    then have a: "mpi_abs Y = wbase ^ mpi_n N * wbase ^ mpi_n N" unfolding two_power_limbs by (simp add: power_mult power2_eq_square)
    show "returns (MPI_CHK (\<lambda>_. mpi_init) (mpi_mod_mpi H InA Y N k2) (\<lambda>R k. Some (0, R, k))) (factor_ok N)"
    proof (rule returns_CHK [OF mod_mpi_returns [OF H s(2) N' disjI2 [OF s(1)]]])
      fix R :: mpi and k3
      assume R: "proper R \<and> mpi_val R mod mpi_val N = mpi_val Y mod mpi_val N \<and>
        (mpi_s Y = 1 \<or> \<not> mpi_val N dvd mpi_val Y \<longrightarrow> mpi_s R = 1 \<and> mpi_n (dest_of InA Y N) \<le> mpi_n R \<and> mpi_val R = mpi_val Y mod mpi_val N)"
      then have r: "proper R" "mpi_s R = 1" "mpi_val R = mpi_val Y mod mpi_val N" using s by auto
      then have "int (mpi_abs R) = int (mpi_abs Y mod mpi_abs N)" using s N'(2) by (simp add: mpi_val_def of_nat_mod)
      then have "mpi_abs R = mpi_abs Y mod mpi_abs N" by (simp only: of_nat_eq_iff)
      then show "returns (Some (0, R, k3)) (factor_ok N)" using r a by (simp add: returns_def factor_ok_def proper_def)
    qed
  qed
qed

text \<open>The first entry of the table: the base below the modulus, in a number with room for it.\<close>

lemma reduce_base:
  assumes H: "heap_ok H" and N: "modulus N mm" and A: "proper A" "mpi_s A = 1" and W: "mpi_n N < mpi_n W"
  shows "returns (if mpi_cmp_mpi A N \<ge> 0 then mpi_mod_mpi H (Into W) A N k else mpi_copy H W A k)
    (\<lambda>X. mpi_abs X = mpi_abs A mod mpi_abs N \<and> mpi_n N < mpi_n X)"
proof -
  have N': "proper N" "mpi_s N = 1" "mpi_abs N \<noteq> 0" using modulus_proper [OF N] by simp_all
  have c: "mpi_cmp_mpi A N = sgn (int (mpi_abs A) - int (mpi_abs N))"
    using A N' by (subst mpi_cmp_mpi_same) (simp_all add: sign_ok_def mpi_val_def)
  show ?thesis
  proof (rule returns_if)
    show "returns (mpi_mod_mpi H (Into W) A N k) (\<lambda>X. mpi_abs X = mpi_abs A mod mpi_abs N \<and> mpi_n N < mpi_n X)"
    proof (rule returns_mono [OF mod_mpi_returns [OF H A(1) N' disjI2 [OF A(2)]]])
      fix R :: mpi
      assume "proper R \<and> mpi_val R mod mpi_val N = mpi_val A mod mpi_val N \<and>
        (mpi_s A = 1 \<or> \<not> mpi_val N dvd mpi_val A \<longrightarrow> mpi_s R = 1 \<and> mpi_n (dest_of (Into W) A N) \<le> mpi_n R \<and> mpi_val R = mpi_val A mod mpi_val N)"
      then have r: "mpi_s R = 1" "mpi_n W \<le> mpi_n R" "mpi_val R = mpi_val A mod mpi_val N" using A by (auto simp: dest_of_def)
      then have "int (mpi_abs R) = int (mpi_abs A mod mpi_abs N)" using A N'(2) by (simp add: mpi_val_def of_nat_mod)
      then have "mpi_abs R = mpi_abs A mod mpi_abs N" by (simp only: of_nat_eq_iff)
      then show "mpi_abs R = mpi_abs A mod mpi_abs N \<and> mpi_n N < mpi_n R" using r W by simp
    qed
  next
    assume "\<not> mpi_cmp_mpi A N \<ge> 0"
    then have "mpi_abs A < mpi_abs N" unfolding c by (simp add: sgn_if split: if_splits)
    then show "returns (mpi_copy H W A k) (\<lambda>X. mpi_abs X = mpi_abs A mod mpi_abs N \<and> mpi_n N < mpi_n X)"
      by (intro returns_mono [OF copy_returns [OF H]]) (use W in auto)
  qed
qed

lemma exp_tail_returns:
  assumes H: "heap_ok H" and N: "modulus N mm" and W1: "mpi_abs W1 = a mod mpi_abs N" "mpi_n N < mpi_n W1"
    and F: "factor_ok N F" and T: "scratch N T" and X: "mpi_n N < mpi_n X" and w: "0 < wsize" "wsize \<le> 6"
  shows "returns (do {
         (W1, T) \<leftarrow> mpi_montmul W1 F N mm T;
         MPI_CHK (\<lambda>X. (X, RR)) (mpi_copy H X F k) (\<lambda>X k. do {
           (X, T) \<leftarrow> mpi_montred X N mm T;
           MPI_CHK (\<lambda>_. (X, RR)) (window_table H N mm wsize ((replicate 64 \<lparr>mpi_s = 0, mpi_p = []\<rparr>)[1 := W1], T) k)
             (\<lambda>(W, T) k. do {
               X \<leftarrow> exp_main E N mm wsize W X T;
               Some (0, (X, RR), k) }) }) })
    (\<lambda>(Z, RR'). mpi_s Z = 1 \<and> mpi_p Z \<noteq> [] \<and> mpi_abs Z = a ^ mpi_abs E mod mpi_abs N \<and> RR' = RR)"
proof -
  let ?P = "\<lambda>(Z, RR'). mpi_s Z = 1 \<and> mpi_p Z \<noteq> [] \<and> mpi_abs Z = a ^ mpi_abs E mod mpi_abs N \<and> RR' = RR"
  have "mpi_abs W1 < mpi_abs N" using W1(1) modulus_pos [OF N] by simp
  then obtain W2 T2 where W2: "mpi_montmul W1 F N mm T = Some (W2, T2)" "mont N (mpi_abs W1) W2" "scratch N T2"
    using montmul_into_mont [OF N _ W1(2) T] F by (metis factor_ok_def)
  let ?W = "(replicate 64 \<lparr>mpi_s = 0, mpi_p = []\<rparr>)[1 := W2]"
  have "returns (MPI_CHK (\<lambda>X. (X, RR)) (mpi_copy H X F k) (\<lambda>X k. do {
           (X, T) \<leftarrow> mpi_montred X N mm T2;
           MPI_CHK (\<lambda>_. (X, RR)) (window_table H N mm wsize (?W, T) k)
             (\<lambda>(W, T) k. do {
               X \<leftarrow> exp_main E N mm wsize W X T;
               Some (0, (X, RR), k) }) })) ?P"
  proof (rule returns_CHK [OF copy_returns [OF H]], elim conjE)
    fix Y :: mpi and k1
    assume Y: "mpi_s Y = mpi_s F" "mpi_abs Y = mpi_abs F" "mpi_n Y = max (mpi_n X) (limbs_kept (mpi_p F))"
    have "mpi_n N < mpi_n Y" "mpi_abs Y = wbase ^ mpi_n N * wbase ^ mpi_n N mod mpi_abs N" using Y F X by (auto simp: factor_ok_def)
    from montred_mont_one [OF N this W2(3)] obtain Z T3 where Z: "mpi_montred Y N mm T2 = Some (Z, T3)" "mont N 1 Z"
      "mpi_s Z = mpi_s Y" "scratch N T3" .
    have W: "length ?W = 64" "mont N (mpi_abs W1) (?W ! 1)" using W2(2) by simp_all
    have "returns (MPI_CHK (\<lambda>_. (Z, RR)) (window_table H N mm wsize (?W, T3) k1)
             (\<lambda>(W, T) k. do { X \<leftarrow> exp_main E N mm wsize W Z T; Some (0, (X, RR), k) })) ?P"
    proof (rule returns_CHK [OF window_table_returns [OF H N w W Z(4)]])
      fix WT k2
      assume "case WT of (W', T') \<Rightarrow> windows N (mpi_abs W1) wsize W' \<and> scratch N T'"
      then obtain W' T' where WT: "WT = (W', T')" "windows N (mpi_abs W1) wsize W'" "scratch N T'" by (cases WT) auto
      from exp_main_value [OF N WT(2) w(1) Z(2) WT(3)] obtain R where R: "exp_main E N mm wsize W' Z T' = Some R"
        "mpi_abs R = mpi_abs W1 ^ mpi_abs E mod mpi_abs N" "mpi_s R = mpi_s Z" "mpi_p R \<noteq> []" .
      have "mpi_abs R = a ^ mpi_abs E mod mpi_abs N" using R(2) unfolding W1(1) power_mod .
      then show "returns ((\<lambda>(W, T) k. do { X \<leftarrow> exp_main E N mm wsize W Z T; Some (0, (X, RR), k) }) WT k2) ?P"
        using R Z(3) Y(1) F unfolding WT(1) by (simp add: returns_def factor_ok_def)
    qed
    then show "returns (do {
           (X, T) \<leftarrow> mpi_montred Y N mm T2;
           MPI_CHK (\<lambda>_. (X, RR)) (window_table H N mm wsize (?W, T) k1)
             (\<lambda>(W, T) k. do {
               X \<leftarrow> exp_main E N mm wsize W X T;
               Some (0, (X, RR), k) }) }) ?P" using Z(1) by simp
  qed
  then show ?thesis using W2(1) by simp
qed

definition odd_modulus :: "mpi \<Rightarrow> bool" where
  "odd_modulus N \<longleftrightarrow> proper N \<and> mpi_s N = 1 \<and> odd (mpi_abs N)"

lemma odd_modulus_init:
  assumes "odd_modulus N"
  obtains n0 mm where "nth_opt (mpi_p N) 0 = Some n0" "n0 AND 1 \<noteq> 0" "mpi_montg_init N = Some mm" "modulus N mm"
proof -
  from assms obtain n0 ns where n0: "mpi_p N = n0 # ns" by (cases "mpi_p N") (auto simp: odd_modulus_def proper_def)
  then have "odd n0" using assms by (auto simp: odd_modulus_def mpi_abs_def wbase_def)
  moreover from montg_init_value [OF n0 this] obtain mm where "mpi_montg_init N = Some mm" "n0 * mm = -1" by blast
  ultimately show ?thesis using assms n0 that
    by (auto simp: modulus_def odd_modulus_def proper_def nth_opt_def and_one_eq odd_iff_mod_2_eq_one)
qed

lemma window_size_bounds: "0 < window_size i" "window_size i \<le> 6"
  by (simp_all add: window_size_def)

lemma returns_bind3: "returns m Q \<Longrightarrow> (\<And>y k. Q y \<Longrightarrow> returns (g 0 y k) P) \<Longrightarrow> returns (m \<bind> (\<lambda>(r, y, k). g r y k)) P"
  by (auto simp: returns_def)

lemma exp_mod_returns:
  assumes H: "heap_ok H" and N: "odd_modulus N" and A: "proper A" "mpi_s A = 1" and E: "mpi_p E \<noteq> []" and RR: "cache_ok N RR"
    and D: "D \<noteq> InB"
  shows "returns (mpi_exp_mod H D A E N RR k) (\<lambda>(Z, RR'). mpi_s Z = 1 \<and> mpi_p Z \<noteq> [] \<and>
    mpi_abs Z = mpi_abs A ^ mpi_abs E mod mpi_abs N \<and> cache_ok N RR' \<and> (RR' = None \<longleftrightarrow> RR = None))"
proof -
  from odd_modulus_init [OF N] obtain n0 mm where n0: "nth_opt (mpi_p N) 0 = Some n0" "n0 AND 1 \<noteq> 0"
    and mm: "mpi_montg_init N = Some mm" "modulus N mm" .
  from mpi_msb_value [OF E] obtain i where i: "mpi_msb E = Some i" by metis
  have "\<not> mpi_cmp_int N 0 < 0" using N by (subst mpi_cmp_int_0) (auto simp: odd_modulus_def proper_def mpi_val_def sgn_if)
  then have g: "\<not> (mpi_cmp_int N 0 < 0 \<or> n0 AND 1 = 0)" using n0(2) by simp
  show ?thesis
    unfolding mpi_exp_mod_def Let_def
  proof (rule returns_bind [OF n0(1)], subst if_not_P [OF g], rule returns_bind [OF mm(1)], rule returns_bind [OF i],
      rule returns_CHK [OF grow_returns [OF H]], rule returns_CHK [OF grow_returns [OF H]], rule returns_CHK [OF new_grow_returns [OF H]],
      rule returns_CHK [OF mont_factor_returns [OF H mm(2) RR]])
    fix X W T F :: mpi and k1 k2 k3 k4
    let ?A = "case D of Into _ \<Rightarrow> A | _ \<Rightarrow> X" and ?RR = "map_option (\<lambda>_. F) RR"
    assume X: "X = (dest_of D A A)\<lparr>mpi_p := mpi_p (dest_of D A A) @ replicate (mpi_n N + 1 - mpi_n (dest_of D A A)) 0\<rparr>"
      and W: "W = \<lparr>mpi_s = 0, mpi_p = []\<rparr>\<lparr>mpi_p := mpi_p \<lparr>mpi_s = 0, mpi_p = []\<rparr> @ replicate (mpi_n N + 1 - mpi_n \<lparr>mpi_s = 0, mpi_p = []\<rparr>) 0\<rparr>"
      and T: "mpi_n T = (mpi_n N + 1) * 2" and F: "factor_ok N F"
    have A': "proper ?A" "mpi_s ?A = 1" "mpi_abs ?A = mpi_abs A"
      using A X by (cases D; auto simp: dest_of_def proper_def sign_ok_def mpi_abs_def)+
    have c: "scratch N T" "mpi_n N < mpi_n X" "mpi_n N < mpi_n W" using X W T by (simp_all add: scratch_def)
    have "cache_ok N ?RR" using F by (auto simp: cache_ok_def)
    then show "returns (do {
         (r, W1, k) \<leftarrow> (if mpi_cmp_mpi ?A N \<ge> 0 then mpi_mod_mpi H (Into W) ?A N k4 else mpi_copy H W ?A k4);
         (W1, T) \<leftarrow> mpi_montmul W1 F N mm T;
         MPI_CHK (\<lambda>X. (X, ?RR)) (mpi_copy H X F k) (\<lambda>X k. do {
           (X, T) \<leftarrow> mpi_montred X N mm T;
           MPI_CHK (\<lambda>_. (X, ?RR)) (window_table H N mm (window_size i) ((replicate 64 \<lparr>mpi_s = 0, mpi_p = []\<rparr>)[1 := W1], T) k)
             (\<lambda>(W, T) k. do {
               X \<leftarrow> exp_main E N mm (window_size i) W X T;
               Some (0, (X, ?RR), k) }) }) })
       (\<lambda>(Z, RR'). mpi_s Z = 1 \<and> mpi_p Z \<noteq> [] \<and> mpi_abs Z = mpi_abs A ^ mpi_abs E mod mpi_abs N \<and> cache_ok N RR' \<and> (RR' = None \<longleftrightarrow> RR = None))"
      by (intro returns_bind3 [OF reduce_base [OF H mm(2) A'(1,2) c(3)]] returns_mono [OF exp_tail_returns [OF H mm(2) _ _ F c(1,2) window_size_bounds]])
        (auto simp: A'(3))
  qed
qed

end
