(* ===== verification/RsaCorrect.thy ===== *)
theory RsaCorrect
  imports ExpMod
begin

text \<open>
  RSA. The public operation is a power modulo \<open>N\<close>; the private one, by Chinese remainders, is the number below \<open>N\<close>
  with the two powers as its remainders modulo \<open>P\<close> and \<open>Q\<close>.
\<close>

subsection \<open>The output\<close>

lemma write_output_value:
  assumes T: "mpi_p T \<noteq> []" "mpi_abs T < 256 ^ ctx_len c" and out: "ctx_len c \<le> length output"
  shows "\<exists>b. write_output T c output k = Some (0, (c, b @ drop (ctx_len c) output), k) \<and> length b = ctx_len c \<and> be_val b = mpi_abs T"
proof -
  have r: "rd output 0 (ctx_len c) = Some (take (ctx_len c) output)" using out by (simp add: rd_def)
  have l: "length (take (ctx_len c) output) = ctx_len c" using out by simp
  obtain b where b: "mpi_write_binary T (take (ctx_len c) output) = Some (0, b)" "length b = ctx_len c" "be_val b = mpi_abs T"
    using write_binary_value [of T "take (ctx_len c) output"] T unfolding l by blast
  have "wr output 0 b = Some (b @ drop (ctx_len c) output)" using out b(2) by (simp add: wr_def)
  then show ?thesis using r b by (simp add: write_output_def)
qed

lemma cmp_modulus:
  "mpi_s T = 1 \<Longrightarrow> mpi_s N = 1 \<Longrightarrow> mpi_cmp_mpi T N \<ge> 0 \<longleftrightarrow> mpi_abs N \<le> mpi_abs T"
  by (subst mpi_cmp_mpi_same) (auto simp: sign_ok_def mpi_val_def sgn_if)

lemma rsa_result_0: "m = Some (0, x, k) \<Longrightarrow> rsa_result f m = Some (0, x, k)"
  by (simp add: rsa_result_def)

subsection \<open>The public operation\<close>

definition public_ok :: "rsa_context \<Rightarrow> bool" where
  "public_ok c \<longleftrightarrow> odd_modulus (ctx_N c) \<and> mpi_abs (ctx_N c) \<le> 256 ^ ctx_len c \<and> mpi_p (ctx_E c) \<noteq> [] \<and>
     cache_ok (ctx_N c) (Some (ctx_RN c))"

definition input_value :: "rsa_context \<Rightarrow> bytes \<Rightarrow> nat" where
  "input_value c input = be_val (take (ctx_len c) input)"

lemma read_input:
  assumes "heap_ok H" "ctx_len c \<le> length input"
  obtains T k' where "rd input 0 (ctx_len c) = Some (take (ctx_len c) input)"
    "mpi_read_binary H mpi_init (take (ctx_len c) input) k = Some (0, T, k')" "mpi_s T = 1" "mpi_abs T = input_value c input"
    "proper T"
proof -
  from read_binary_returns [OF assms(1), of "take (ctx_len c) input" k] obtain T k' where
    "mpi_read_binary H mpi_init (take (ctx_len c) input) k = Some (0, T, k')" "mpi_s T = 1" "mpi_abs T = input_value c input" "mpi_p T \<noteq> []"
    unfolding returns_def input_value_def by blast
  then show ?thesis using that assms(2) by (simp add: rd_def proper_def sign_ok_def)
qed

lemma rsa_public_value:
  assumes H: "heap_ok H" and c: "public_ok c" and len: "ctx_len c \<le> length input" "ctx_len c \<le> length output"
    and m: "input_value c input < mpi_abs (ctx_N c)"
  shows "\<exists>b R k'. rsa_public_op H c input output k = Some (0, (c\<lparr>ctx_RN := R\<rparr>, b @ drop (ctx_len c) output), k') \<and>
    length b = ctx_len c \<and> be_val b = input_value c input ^ mpi_abs (ctx_E c) mod mpi_abs (ctx_N c) \<and>
    public_ok (c\<lparr>ctx_RN := R\<rparr>)"
proof -
  obtain T k1 where T: "rd input 0 (ctx_len c) = Some (take (ctx_len c) input)"
    "mpi_read_binary H mpi_init (take (ctx_len c) input) k = Some (0, T, k1)" "mpi_s T = 1" "mpi_abs T = input_value c input" "proper T"
    by (rule read_input [OF H len(1)])
  have N: "odd_modulus (ctx_N c)" "mpi_p (ctx_E c) \<noteq> []" "cache_ok (ctx_N c) (Some (ctx_RN c))" "mpi_s (ctx_N c) = 1"
    using c by (auto simp: public_ok_def odd_modulus_def)
  have "\<not> mpi_cmp_mpi T (ctx_N c) \<ge> 0" using cmp_modulus [OF T(3) N(4)] T(4) m by simp
  moreover from exp_mod_returns [OF H N(1) T(5,3) N(2,3), of InA k1] obtain Z RR k2 where
    Z: "mpi_exp_mod H InA T (ctx_E c) (ctx_N c) (Some (ctx_RN c)) k1 = Some (0, (Z, RR), k2)" "mpi_p Z \<noteq> []"
      "mpi_abs Z = mpi_abs T ^ mpi_abs (ctx_E c) mod mpi_abs (ctx_N c)" "cache_ok (ctx_N c) RR" "RR \<noteq> None"
    unfolding returns_def by auto
  moreover from Z(5) obtain R where R: "RR = Some R" by blast
  moreover have "mpi_abs Z < 256 ^ ctx_len c"
    using c Z(3) m mod_less_divisor [of "mpi_abs (ctx_N c)" "mpi_abs T ^ mpi_abs (ctx_E c)"] unfolding public_ok_def by linarith
  then obtain b where "write_output Z (c\<lparr>ctx_RN := R\<rparr>) output k2 = Some (0, (c\<lparr>ctx_RN := R\<rparr>, b @ drop (ctx_len c) output), k2)"
    "length b = ctx_len c" "be_val b = mpi_abs Z"
    using write_output_value [OF Z(2), of "c\<lparr>ctx_RN := R\<rparr>" "output" k2] len(2) by auto
  ultimately show ?thesis using T c
    by (auto simp: rsa_public_op_def rsa_result_def MPI_CHK_def public_ok_def)
qed

lemma rsa_public_too_large:
  assumes H: "heap_ok H" and c: "public_ok c" and len: "ctx_len c \<le> length input"
    and m: "mpi_abs (ctx_N c) \<le> input_value c input"
  shows "\<exists>k'. rsa_public_op H c input output k = Some (RSA_BAD_INPUT_DATA, (c, output), k')"
proof -
  obtain T k1 where T: "rd input 0 (ctx_len c) = Some (take (ctx_len c) input)"
    "mpi_read_binary H mpi_init (take (ctx_len c) input) k = Some (0, T, k1)" "mpi_s T = 1" "mpi_abs T = input_value c input" "proper T"
    by (rule read_input [OF H len])
  have "mpi_s (ctx_N c) = 1" using c by (auto simp: public_ok_def odd_modulus_def)
  then have "mpi_cmp_mpi T (ctx_N c) \<ge> 0" using cmp_modulus [OF T(3)] T(4) m by simp
  then show ?thesis using T by (simp add: rsa_public_op_def)
qed

subsection \<open>The private operation\<close>

definition private_ok :: "rsa_context \<Rightarrow> bool" where
  "private_ok c \<longleftrightarrow> odd_modulus (ctx_N c) \<and> odd_modulus (ctx_P c) \<and> odd_modulus (ctx_Q c) \<and>
     mpi_abs (ctx_N c) = mpi_abs (ctx_P c) * mpi_abs (ctx_Q c) \<and> coprime (mpi_abs (ctx_P c)) (mpi_abs (ctx_Q c)) \<and>
     mpi_abs (ctx_Q c) < mpi_abs (ctx_P c) \<and> mpi_abs (ctx_N c) \<le> 256 ^ ctx_len c \<and>
     mpi_p (ctx_DP c) \<noteq> [] \<and> mpi_p (ctx_DQ c) \<noteq> [] \<and> proper (ctx_QP c) \<and> mpi_s (ctx_QP c) = 1 \<and>
     (mpi_abs (ctx_QP c) * mpi_abs (ctx_Q c)) mod mpi_abs (ctx_P c) = 1 \<and>
     cache_ok (ctx_P c) (Some (ctx_RP c)) \<and> cache_ok (ctx_Q c) (Some (ctx_RQ c))"

lemma crt_values:
  fixes p q qp t1 t2 :: nat
  assumes q: "(qp * q) mod p = 1" and t: "t1 < p" "t2 < q"
  defines "h \<equiv> nat ((int t1 - int t2) * int qp mod int p)"
  shows "t2 + h * q < p * q" "(t2 + h * q) mod p = t1" "(t2 + h * q) mod q = t2"
proof -
  have p: "0 < p" using t by simp
  have h: "int h = (int t1 - int t2) * int qp mod int p" using p by (simp add: h_def)
  have "h < p" using h p by (metis of_nat_0_less_iff of_nat_less_iff pos_mod_bound)
  then have "h * q + q \<le> p * q" by (metis Suc_leI mult_Suc mult_le_mono1 add.commute)
  then show "t2 + h * q < p * q" using t(2) by linarith
  show "(t2 + h * q) mod q = t2" using t(2) by simp
  have one: "int qp * int q mod int p = 1 mod int p" using q p by (metis of_nat_1 of_nat_mod of_nat_mult mod_mod_trivial)
  have "int ((t2 + h * q) mod p) = (int t2 + (int t1 - int t2) * int qp mod int p * int q) mod int p"
    by (simp add: h of_nat_mod)
  also have "\<dots> = (int t2 + (int t1 - int t2) * (int qp * int q)) mod int p"
    unfolding mult.assoc [symmetric] by (subst (1 2) mod_add_right_eq [symmetric]) (simp only: mod_mult_left_eq)
  also have "\<dots> = (int t2 + (int t1 - int t2) * (int qp * int q mod int p)) mod int p"
    by (subst (1 2) mod_add_right_eq [symmetric]) (simp only: mod_mult_right_eq)
  also have "\<dots> = (int t2 + (int t1 - int t2) * 1) mod int p" unfolding one
    by (subst (1 2) mod_add_right_eq [symmetric]) (simp only: mod_mult_right_eq)
  also have "\<dots> = int t1" using t(1) by simp
  finally show "(t2 + h * q) mod p = t1" by (simp only: of_nat_eq_iff)
qed

lemma not_dvd_difference:
  fixes p q qp t1 t2 :: nat
  assumes "(qp * q) mod p = 1" "t1 < t2" "t2 < q" "q < p"
  shows "\<not> int p dvd (int t1 - int t2) * int qp"
proof
  assume d: "int p dvd (int t1 - int t2) * int qp"
  have "int p dvd (int t1 - int t2) * int qp * int q" using d by (rule dvd_mult2)
  moreover have "(int t1 - int t2) * int qp * int q mod int p = (int t1 - int t2) * (int (qp * q) mod int p) mod int p"
    by (simp add: mod_simps ac_simps)
  ultimately have "int p dvd (int t1 - int t2)" using assms(1)
    by (metis dvd_eq_mod_eq_0 mult.right_neutral of_nat_1 of_nat_mod)
  then have "int p \<le> \<bar>int t1 - int t2\<bar>" using assms(2) dvd_imp_le_int [of "int t1 - int t2" "int p"] by simp
  then show False using assms by linarith
qed

lemma recombine_returns:
  assumes H: "heap_ok H" and c: "private_ok c" and T1: "mpi_s T1 = 1" "mpi_p T1 \<noteq> []" "mpi_abs T1 < mpi_abs (ctx_P c)"
    and T2: "mpi_s T2 = 1" "mpi_p T2 \<noteq> []" "mpi_abs T2 < mpi_abs (ctx_Q c)"
  shows "returns (rsa_recombine H c T T1 T2 k) (\<lambda>X. mpi_p X \<noteq> [] \<and> mpi_abs X < mpi_abs (ctx_N c) \<and>
    mpi_abs X mod mpi_abs (ctx_P c) = mpi_abs T1 \<and> mpi_abs X mod mpi_abs (ctx_Q c) = mpi_abs T2)"
proof -
  let ?p = "mpi_abs (ctx_P c)" and ?q = "mpi_abs (ctx_Q c)" and ?qp = "mpi_abs (ctx_QP c)"
  have P: "proper (ctx_P c)" "mpi_s (ctx_P c) = 1" "?p \<noteq> 0" using c T1(3) by (auto simp: private_ok_def odd_modulus_def)
  have Q: "mpi_s (ctx_Q c) = 1" "proper (ctx_Q c)" using c by (auto simp: private_ok_def odd_modulus_def)
  have QP: "proper (ctx_QP c)" "mpi_s (ctx_QP c) = 1" "(?qp * ?q) mod ?p = 1" "?q < ?p" using c by (auto simp: private_ok_def)
  have p: "proper T1" "proper T2" using T1 T2 by (simp_all add: proper_def sign_ok_def)
  let ?d = "int (mpi_abs T1) - int (mpi_abs T2)"
  define h where "h = nat (?d * int ?qp mod int ?p)"
  note crt = crt_values [OF QP(3) T1(3) T2(3), folded h_def]
  show ?thesis
    unfolding rsa_recombine_def
  proof (rule returns_CHK [OF sub_mpi_returns [OF H p]], elim conjE, rule returns_CHK [OF mul_mpi_returns [OF H]], elim conjE)
    fix X Y :: mpi and k1 k2
    assume X: "mpi_val X = mpi_val T1 - mpi_val T2" "proper X" "mpi_s X = sum_sign (-1) T1 T2"
      and Y: "mpi_s Y = mpi_s X * mpi_s (ctx_QP c)" "mpi_abs Y = mpi_abs X * ?qp" "mpi_p Y \<noteq> []"
    have vX: "mpi_val X = ?d" using X(1) T1(1) T2(1) by (simp add: mpi_val_def)
    have sX: "mpi_s X = (if mpi_abs T1 < mpi_abs T2 then -1 else 1)" using X(3) T1(1) T2(1) by (simp add: sum_sign_def)
    have pY: "proper Y" using X(2) Y QP(2) by (simp add: proper_def sign_ok_def)
    have vY: "mpi_val Y = ?d * int ?qp" using Y(1,2) QP(2) vX unfolding mpi_val_def [of Y] mpi_val_def [of X] by simp
    have vP: "mpi_val (ctx_P c) = int ?p" using P(2) by (simp add: mpi_val_def)
    have good: "mpi_s Y = 1 \<or> \<not> mpi_val (ctx_P c) dvd mpi_val Y"
    proof (cases "mpi_abs T1 < mpi_abs T2")
      case True
      then show ?thesis using not_dvd_difference [OF QP(3) True T2(3) QP(4)] unfolding vY vP by simp
    next
      case False
      then show ?thesis using sX Y(1) QP(2) by simp
    qed
    show "returns (MPI_CHK (\<lambda>T. T) (mpi_mod_mpi H (Into X) Y (ctx_P c) k2) (\<lambda>T k.
       MPI_CHK (\<lambda>_. T) (mpi_mul_mpi H (Into Y) T (ctx_Q c) k) (\<lambda>T1 k. mpi_add_mpi H (Into T) T2 T1 k)))
       (\<lambda>X. mpi_p X \<noteq> [] \<and> mpi_abs X < mpi_abs (ctx_N c) \<and> mpi_abs X mod ?p = mpi_abs T1 \<and> mpi_abs X mod ?q = mpi_abs T2)"
    proof (rule returns_CHK [OF mod_mpi_returns [OF H pY P]], simp, elim conjE, rule returns_CHK [OF mul_mpi_returns [OF H]], elim conjE)
      fix R Z :: mpi and k3 k4
      assume "mpi_s Y = 1 \<or> \<not> mpi_val (ctx_P c) dvd mpi_val Y \<longrightarrow>
          mpi_s R = 1 \<and> mpi_n (dest_of (Into X) Y (ctx_P c)) \<le> mpi_n R \<and> mpi_val R = mpi_val Y mod mpi_val (ctx_P c)"
        and Z: "mpi_s Z = mpi_s R * mpi_s (ctx_Q c)" "mpi_abs Z = mpi_abs R * ?q" "mpi_p Z \<noteq> []"
      with good have R: "mpi_s R = 1" "mpi_val R = mpi_val Y mod mpi_val (ctx_P c)" by auto
      have "mpi_abs R = h" using R vY vP by (simp add: h_def mpi_val_def [of R] flip: nat_eq_iff2)
      then have aZ: "mpi_abs Z = h * ?q" "mpi_s Z = 1" using Z R(1) Q(1) by simp_all
      have pZ: "proper Z" using aZ(2) Z(3) by (simp add: proper_def sign_ok_def)
      show "returns (mpi_add_mpi H (Into R) T2 Z k4)
         (\<lambda>X. mpi_p X \<noteq> [] \<and> mpi_abs X < mpi_abs (ctx_N c) \<and> mpi_abs X mod ?p = mpi_abs T1 \<and> mpi_abs X mod ?q = mpi_abs T2)"
      proof (rule returns_mono [OF add_mpi_returns [OF H p(2) pZ]], elim conjE)
        fix S :: mpi
        assume S: "mpi_val S = mpi_val T2 + mpi_val Z" "proper S" "mpi_s S = sum_sign 1 T2 Z"
        then have "mpi_s S = 1" using T2(1) aZ(2) by (simp add: sum_sign_def)
        then have "int (mpi_abs S) = int (mpi_abs T2 + h * ?q)" using S(1) T2(1) aZ by (simp add: mpi_val_def)
        then have "mpi_abs S = mpi_abs T2 + h * ?q" by (simp only: of_nat_eq_iff)
        then show "mpi_p S \<noteq> [] \<and> mpi_abs S < mpi_abs (ctx_N c) \<and> mpi_abs S mod ?p = mpi_abs T1 \<and> mpi_abs S mod ?q = mpi_abs T2"
          using crt S(2) c by (simp add: proper_def private_ok_def)
      qed
    qed
  qed
qed

end
