(* ===== verification/RsaTrip.thy ===== *)
theory RsaTrip
  imports RsaCorrect
begin

text \<open>
  The private operation undoes the public one, for the keys of \<^verbatim>\<open>rsa_gen_key\<close>, whose exponents are inverse modulo
  \<open>P - 1\<close> and \<open>Q - 1\<close>, and a padded message comes back.
\<close>

subsection \<open>The private operation\<close>

lemma rsa_private_value:
  assumes H: "heap_ok H" and c: "private_ok c" and len: "ctx_len c \<le> length input" "ctx_len c \<le> length output"
    and m: "input_value c input < mpi_abs (ctx_N c)"
  shows "\<exists>b c' k'. rsa_private_op H c input output k = Some (0, (c', b @ drop (ctx_len c) output), k') \<and>
    length b = ctx_len c \<and> be_val b < mpi_abs (ctx_N c) \<and>
    be_val b mod mpi_abs (ctx_P c) = input_value c input ^ mpi_abs (ctx_DP c) mod mpi_abs (ctx_P c) \<and>
    be_val b mod mpi_abs (ctx_Q c) = input_value c input ^ mpi_abs (ctx_DQ c) mod mpi_abs (ctx_Q c) \<and>
    (\<exists>R S. c' = c\<lparr>ctx_RP := R, ctx_RQ := S\<rparr>) \<and> private_ok c'"
proof -
  obtain T k1 where T: "rd input 0 (ctx_len c) = Some (take (ctx_len c) input)"
    "mpi_read_binary H mpi_init (take (ctx_len c) input) k = Some (0, T, k1)" "mpi_s T = 1" "mpi_abs T = input_value c input" "proper T"
    by (rule read_input [OF H len(1)])
  have N: "odd_modulus (ctx_N c)" "mpi_s (ctx_N c) = 1" and P: "odd_modulus (ctx_P c)" and Q: "odd_modulus (ctx_Q c)"
    and e: "mpi_p (ctx_DP c) \<noteq> []" "mpi_p (ctx_DQ c) \<noteq> []"
    and RR: "cache_ok (ctx_P c) (Some (ctx_RP c))" "cache_ok (ctx_Q c) (Some (ctx_RQ c))"
    using c by (auto simp: private_ok_def odd_modulus_def)
  have pos: "0 < mpi_abs (ctx_P c)" "0 < mpi_abs (ctx_Q c)" using P Q by (auto simp: odd_modulus_def intro: Nat.gr0I)
  have cmp: "\<not> mpi_cmp_mpi T (ctx_N c) \<ge> 0" using cmp_modulus [OF T(3) N(2)] T(4) m by simp
  from exp_mod_returns [OF H P T(5,3) e(1) RR(1), of "Into mpi_init" k1] obtain T1 RR1 k2 where
    T1: "mpi_exp_mod H (Into mpi_init) T (ctx_DP c) (ctx_P c) (Some (ctx_RP c)) k1 = Some (0, (T1, RR1), k2)" "mpi_p T1 \<noteq> []" "mpi_s T1 = 1"
      "mpi_abs T1 = mpi_abs T ^ mpi_abs (ctx_DP c) mod mpi_abs (ctx_P c)" "cache_ok (ctx_P c) RR1" "RR1 \<noteq> None"
    unfolding returns_def by auto
  then obtain R where R: "RR1 = Some R" by blast
  from exp_mod_returns [OF H Q T(5,3) e(2) RR(2), of "Into mpi_init" k2] obtain T2 RR2 k3 where
    T2: "mpi_exp_mod H (Into mpi_init) T (ctx_DQ c) (ctx_Q c) (Some (ctx_RQ c)) k2 = Some (0, (T2, RR2), k3)" "mpi_p T2 \<noteq> []" "mpi_s T2 = 1"
      "mpi_abs T2 = mpi_abs T ^ mpi_abs (ctx_DQ c) mod mpi_abs (ctx_Q c)" "cache_ok (ctx_Q c) RR2" "RR2 \<noteq> None"
    unfolding returns_def by auto
  then obtain S where S: "RR2 = Some S" by blast
  let ?c = "c\<lparr>ctx_RP := R, ctx_RQ := S\<rparr>"
  have c': "private_ok ?c" using c T1(5) T2(5) R S by (simp add: private_ok_def)
  have lt: "mpi_abs T1 < mpi_abs (ctx_P ?c)" "mpi_abs T2 < mpi_abs (ctx_Q ?c)" using T1(4) T2(4) pos by simp_all
  from recombine_returns [OF H c' T1(3,2) lt(1) T2(3,2) lt(2), of T k3] obtain X k4 where
    X: "rsa_recombine H ?c T T1 T2 k3 = Some (0, X, k4)" "mpi_p X \<noteq> []" "mpi_abs X < mpi_abs (ctx_N c)"
      "mpi_abs X mod mpi_abs (ctx_P c) = mpi_abs T1" "mpi_abs X mod mpi_abs (ctx_Q c) = mpi_abs T2"
    unfolding returns_def by auto
  have "mpi_abs X < 256 ^ ctx_len ?c" using X(3) c by (simp add: private_ok_def)
  from write_output_value [OF X(2) this, of "output" k4] len(2) obtain b where
    b: "write_output X ?c output k4 = Some (0, (?c, b @ drop (ctx_len c) output), k4)" "length b = ctx_len c" "be_val b = mpi_abs X"
    by auto
  have "rsa_private_op H c input output k = Some (0, (?c, b @ drop (ctx_len c) output), k4)"
    using T(1,2) cmp T1(1) T2(1) X(1) b(1) R S by (simp add: rsa_private_op_def rsa_result_def MPI_CHK_def Let_def)
  then show ?thesis using b X T1(4) T2(4) T(4) c' by auto
qed

subsection \<open>Keys\<close>

definition prime_number :: "nat \<Rightarrow> bool" where
  "prime_number p \<longleftrightarrow> 1 < p \<and> (\<forall>d. d dvd p \<longrightarrow> d = 1 \<or> d = p)"

lemma prime_coprime: "prime_number p \<Longrightarrow> 0 < k \<Longrightarrow> k < p \<Longrightarrow> coprime p k"
proof -
  assume p: "prime_number p" "0 < k" "k < p"
  then have "gcd p k = 1 \<or> gcd p k = p" by (simp add: prime_number_def)
  moreover have "gcd p k \<noteq> p" using p dvd_imp_le [of p k] by (metis gcd_dvd2 not_le)
  ultimately show ?thesis by (simp add: coprime_iff_gcd_eq_1)
qed

lemma prime_dvd_binomial: "prime_number p \<Longrightarrow> 0 < k \<Longrightarrow> k < p \<Longrightarrow> p dvd (p choose k)"
proof -
  assume p: "prime_number p" "0 < k" "k < p"
  have "k * (p choose k) = p * ((p - 1) choose (k - 1))" using p(2) by (rule times_binomial_minus1_eq)
  then have "p dvd k * (p choose k)" by simp
  then show ?thesis using prime_coprime [OF p] by (simp add: coprime_dvd_mult_right_iff)
qed

text \<open>Fermat's little theorem.\<close>

lemma power_prime: "prime_number p \<Longrightarrow> x ^ p mod p = x mod p"
proof (induction x)
  case 0
  then show ?case by (simp add: prime_number_def zero_power)
next
  case (Suc x)
  let ?f = "\<lambda>k. (p choose k) * x ^ k"
  have p: "1 < p" using Suc.prems by (simp add: prime_number_def)
  have "(x + 1) ^ p = (\<Sum>k\<le>p. ?f k)" using binomial [of x 1 p] by simp
  also have "\<dots> = ?f 0 + (\<Sum>k\<in>{1..<p}. ?f k) + ?f p"
  proof -
    have "{..p} = insert 0 (insert p {1..<p})" using p by auto
    then show ?thesis using p by simp
  qed
  finally have e: "(x + 1) ^ p = 1 + (\<Sum>k\<in>{1..<p}. ?f k) + x ^ p" by simp
  have "p dvd (\<Sum>k\<in>{1..<p}. ?f k)" using prime_dvd_binomial [OF Suc.prems] by (intro dvd_sum dvd_mult2) auto
  then obtain r where "(\<Sum>k\<in>{1..<p}. ?f k) = p * r" by (rule dvdE)
  then have "(x + 1) ^ p mod p = (1 + x ^ p) mod p" unfolding e by (metis add.assoc add.commute mod_mult_self2)
  also have "\<dots> = (1 + x) mod p" using Suc by (metis mod_add_right_eq)
  finally show ?case by simp
qed

lemma power_exponent: "prime_number p \<Longrightarrow> n mod (p - 1) = 1 \<Longrightarrow> x ^ n mod p = x mod p"
proof -
  assume p: "prime_number p" and n: "n mod (p - 1) = 1"
  have p1: "p = Suc (p - 1)" using p by (simp add: prime_number_def)
  have "x ^ (1 + j * (p - 1)) mod p = x mod p" for j
  proof (induction j)
    case (Suc j)
    have "x ^ (1 + Suc j * (p - 1)) mod p = (x ^ (1 + j * (p - 1)) mod p) * x ^ (p - 1) mod p"
      unfolding mod_mult_left_eq by (simp add: power_add [symmetric] ac_simps)
    also have "\<dots> = x * x ^ (p - 1) mod p" unfolding Suc by (simp only: mod_mult_left_eq)
    also have "x * x ^ (p - 1) = x ^ p" using p1 by (metis power_Suc)
    also have "x ^ p mod p = x mod p" by (rule power_prime [OF p])
    finally show ?case .
  qed simp
  moreover have "n = 1 + n div (p - 1) * (p - 1)" using n by (metis add.commute mod_div_decomp)
  ultimately show ?thesis by metis
qed

text \<open>The two halves of a key: the exponents undo each other modulo both factors. They do when the factors are primes
  and the exponents inverse modulo the primes less one.\<close>

definition key_pair :: "rsa_context \<Rightarrow> rsa_context \<Rightarrow> bool" where
  "key_pair cp cs \<longleftrightarrow> public_ok cp \<and> private_ok cs \<and> ctx_len cp = ctx_len cs \<and> mpi_abs (ctx_N cp) = mpi_abs (ctx_N cs) \<and>
     (\<forall>x. x ^ (mpi_abs (ctx_E cp) * mpi_abs (ctx_DP cs)) mod mpi_abs (ctx_P cs) = x mod mpi_abs (ctx_P cs)) \<and>
     (\<forall>x. x ^ (mpi_abs (ctx_E cp) * mpi_abs (ctx_DQ cs)) mod mpi_abs (ctx_Q cs) = x mod mpi_abs (ctx_Q cs))"

lemma key_pair_primes:
  assumes "public_ok cp" "private_ok cs" "ctx_len cp = ctx_len cs" "mpi_abs (ctx_N cp) = mpi_abs (ctx_N cs)"
    and "prime_number (mpi_abs (ctx_P cs))" "prime_number (mpi_abs (ctx_Q cs))"
    and "(mpi_abs (ctx_E cp) * mpi_abs (ctx_DP cs)) mod (mpi_abs (ctx_P cs) - 1) = 1"
    and "(mpi_abs (ctx_E cp) * mpi_abs (ctx_DQ cs)) mod (mpi_abs (ctx_Q cs) - 1) = 1"
  shows "key_pair cp cs"
  using assms power_exponent by (simp add: key_pair_def)

lemma crt_unique:
  fixes x y p q :: nat
  assumes "coprime p q" "x mod p = y mod p" "x mod q = y mod q" "x < p * q" "y < p * q"
  shows "x = y"
proof -
  have "int p dvd int x - int y" "int q dvd int x - int y"
    using assms(2,3) by (metis mod_eq_dvd_iff of_nat_mod)+
  moreover have "coprime (int p) (int q)" using assms(1) by simp
  ultimately have "int (p * q) dvd int x - int y" by (simp add: divides_mult)
  then show ?thesis using assms(4,5) dvd_imp_le_int [of "int x - int y" "int (p * q)"]
    by (cases "int x - int y = 0") (auto simp flip: of_nat_mult)
qed

lemma be_val_inj: "length a = length b \<Longrightarrow> be_val a = be_val b \<Longrightarrow> a = b"
proof -
  have le: "length a = length b \<Longrightarrow> le_val a = le_val b \<Longrightarrow> a = b" for a b
  proof (induction a b rule: list_induct2)
    case (Cons x xs y ys)
    from Cons.prems have e: "unat x + 256 * le_val xs = unat y + 256 * le_val ys" by simp
    have "unat x = (unat x + 256 * le_val xs) mod 256" "unat y = (unat y + 256 * le_val ys) mod 256"
      "le_val xs = (unat x + 256 * le_val xs) div 256" "le_val ys = (unat y + 256 * le_val ys) div 256"
      using unat_u8_lt [of x] unat_u8_lt [of y] by simp_all
    then have "unat x = unat y" "le_val xs = le_val ys" unfolding e by simp_all
    then show ?case using Cons.IH by (simp add: word_unat_eq_iff)
  qed simp
  show "length a = length b \<Longrightarrow> be_val a = be_val b \<Longrightarrow> a = b"
    using le [of "rev a" "rev b"] by (simp add: be_val_rev)
qed

lemma rsa_inverse:
  assumes H: "heap_ok H" and key: "key_pair cp cs" and m: "length m = ctx_len cp" "be_val m < mpi_abs (ctx_N cp)"
    and len: "take (ctx_len cp) input = m" "ctx_len cp \<le> length input" "ctx_len cp \<le> length output" "ctx_len cp \<le> length buf"
  shows "\<exists>cp' e k1 cs' k2. rsa_public_op H cp input output k = Some (0, (cp', e @ drop (ctx_len cp) output), k1) \<and> length e = ctx_len cp \<and>
    rsa_private_op H cs (e @ drop (ctx_len cp) output) buf k1 = Some (0, (cs', m @ drop (ctx_len cp) buf), k2) \<and> (\<exists>R S. cs' = cs\<lparr>ctx_RP := R, ctx_RQ := S\<rparr>)"
proof -
  let ?p = "mpi_abs (ctx_P cs)" and ?q = "mpi_abs (ctx_Q cs)" and ?n = "mpi_abs (ctx_N cp)"
  have c: "public_ok cp" "private_ok cs" "ctx_len cs = ctx_len cp" "mpi_abs (ctx_N cs) = ?n"
    and inv: "\<And>x. x ^ (mpi_abs (ctx_E cp) * mpi_abs (ctx_DP cs)) mod ?p = x mod ?p"
      "\<And>x. x ^ (mpi_abs (ctx_E cp) * mpi_abs (ctx_DQ cs)) mod ?q = x mod ?q"
    using key by (auto simp: key_pair_def)
  have n: "?n = ?p * ?q" "coprime ?p ?q" using c(2,4) by (auto simp: private_ok_def)
  have v: "input_value cp input = be_val m" using len(1) by (simp add: input_value_def)
  obtain e R k1 where e: "rsa_public_op H cp input output k = Some (0, (cp\<lparr>ctx_RN := R\<rparr>, e @ drop (ctx_len cp) output), k1)"
    "length e = ctx_len cp" "be_val e = be_val m ^ mpi_abs (ctx_E cp) mod ?n"
    using rsa_public_value [OF H c(1) len(2,3)] m(2) unfolding v by blast
  have ve: "input_value cs (e @ drop (ctx_len cp) output) = be_val e" using e(2) c(3) by (simp add: input_value_def)
  have "0 < ?n" using m(2) by simp
  then have "input_value cs (e @ drop (ctx_len cp) output) < mpi_abs (ctx_N cs)" unfolding ve e(3) c(4) by simp
  moreover have "ctx_len cs \<le> length (e @ drop (ctx_len cp) output)" "ctx_len cs \<le> length buf" using e(2) len(4) c(3) by simp_all
  ultimately obtain b cs' k2 where
    "rsa_private_op H cs (e @ drop (ctx_len cp) output) buf k1 = Some (0, (cs', b @ drop (ctx_len cs) buf), k2)"
    "length b = ctx_len cs" "be_val b < mpi_abs (ctx_N cs)" "be_val b mod ?p = be_val e ^ mpi_abs (ctx_DP cs) mod ?p"
    "be_val b mod ?q = be_val e ^ mpi_abs (ctx_DQ cs) mod ?q" "\<exists>R S. cs' = cs\<lparr>ctx_RP := R, ctx_RQ := S\<rparr>"
    using rsa_private_value [OF H c(2), of "e @ drop (ctx_len cp) output" buf k1, unfolded ve] unfolding ve by blast
  note b = this [unfolded c(3,4)]
  have pw: "(x ^ a mod ?n) ^ d mod r = x ^ (a * d) mod r" if "r dvd ?n" for x a d r
    using that by (metis mod_mod_cancel power_mod power_mult)
  have "be_val b mod ?p = be_val m mod ?p" unfolding b(4) e(3) by (subst pw) (simp_all add: n(1) inv(1))
  moreover have "be_val b mod ?q = be_val m mod ?q" unfolding b(5) e(3) by (subst pw) (simp_all add: n(1) inv(2))
  ultimately have "be_val b = be_val m" using crt_unique [OF n(2)] b(3) m(2) n(1) by metis
  then have "b = m" using be_val_inj b(2) m(1) by metis
  with e b show ?thesis by blast
qed

end
