(* ===== verification/Pkcs1.thy ===== *)
theory Pkcs1
  imports RsaTrip
begin

text \<open>
  The padding of PKCS 1: what \<^verbatim>\<open>rsa_pkcs1_encrypt\<close> builds, what \<^verbatim>\<open>rsa_pkcs1_decrypt\<close> takes off, and both around the
  two operations.
\<close>

subsection \<open>Random bytes\<close>

text \<open>The generator gives a byte that is not zero again and again.\<close>

definition random_ok :: "(nat \<Rightarrow> int) \<Rightarrow> bool" where
  "random_ok rnd \<longleftrightarrow> (\<forall>j. \<exists>i \<ge> j. (of_int (rnd i) :: u8) \<noteq> 0)"

lemma rand_byte_returns:
  assumes "random_ok rnd"
  shows "\<exists>b j'. rand_byte rnd j = Some (b, j') \<and> b \<noteq> 0"
proof -
  from assms obtain i where i: "j \<le> i" "(of_int (rnd i) :: u8) \<noteq> 0" unfolding random_ok_def by blast
  then show ?thesis
  proof (induction "i - j" arbitrary: j)
    case 0
    then show ?case by (subst rand_byte.simps) simp
  next
    case (Suc d)
    show ?case
    proof (cases "(of_int (rnd j) :: u8) = 0")
      case True
      then have "j \<noteq> i" using Suc.prems by auto
      then have "\<exists>b j'. rand_byte rnd (j + 1) = Some (b, j') \<and> b \<noteq> 0"
        using Suc.hyps(1) [of "j + 1"] Suc.hyps(2) Suc.prems by simp
      then show ?thesis using True by (subst rand_byte.simps) simp
    qed (subst rand_byte.simps, simp)
  qed
qed

lemma rand_bytes_returns:
  "random_ok rnd \<Longrightarrow> \<exists>bs. rand_bytes rnd n j = Some bs \<and> length bs = n \<and> (\<forall>b \<in> set bs. b \<noteq> 0)"
proof (induction n arbitrary: j)
  case (Suc n)
  from rand_byte_returns [OF Suc.prems, of j] obtain b j' where b: "rand_byte rnd j = Some (b, j')" "b \<noteq> 0" by blast
  from Suc.IH [OF Suc.prems, of j'] obtain bs where "rand_bytes rnd n j' = Some bs" "length bs = n" "\<forall>b \<in> set bs. b \<noteq> 0" by blast
  then show ?case using b by simp
qed simp

subsection \<open>The padding\<close>

lemma padding_end_skips:
  "(\<forall>b \<in> set pad. b \<noteq> 0) \<Longrightarrow> length pre + length pad < n \<Longrightarrow>
     padding_end (pre @ pad @ 0 # m) n (length pre) = Some (Some (length pre + length pad + 1))"
proof (induction pad arbitrary: pre)
  case Nil
  then show ?case by (subst padding_end.simps) (simp add: nth_opt_def)
next
  case (Cons x pad)
  have "padding_end (pre @ (x # pad) @ 0 # m) n (length pre) = padding_end ((pre @ [x]) @ pad @ 0 # m) n (length (pre @ [x]))"
    using Cons.prems by (subst padding_end.simps) (simp add: nth_opt_def)
  also have "\<dots> = Some (Some (length (pre @ [x]) + length pad + 1))" using Cons.prems by (intro Cons.IH) simp_all
  finally show ?case by simp
qed

lemma be_val_zero: "be_val (0 # b) = be_val b"
  by (simp add: be_val_def)

lemma pkcs1_block:
  assumes "random_ok rnd" "ilen + 11 \<le> n"
  obtains pad where "rand_bytes rnd (n - 3 - ilen) 0 = Some pad" "length pad = n - 3 - ilen" "\<forall>b \<in> set pad. b \<noteq> 0"
  using rand_bytes_returns [OF assms(1)] by blast

text \<open>A message of at most \<^verbatim>\<open>len - 11\<close> bytes, encrypted under a key whose modulus fills its \<^verbatim>\<open>len\<close> bytes, is what the
  decryption with the other half of the key stores.\<close>

lemma pkcs1_inverse:
  assumes H: "heap_ok H" and rnd: "random_ok rnd" and key: "key_pair cp cs" "256 ^ (ctx_len cp - 1) \<le> mpi_abs (ctx_N cp)"
    and padding: "rsa_padding cp = RSA_PKCS_V15" "rsa_padding cs = RSA_PKCS_V15"
    and len: "16 \<le> ctx_len cp" "length m + 11 \<le> ctx_len cp" "take (length m) input = m"
    and room: "ctx_len cp \<le> length enc" "ctx_len cp \<le> length buf" "length m \<le> length output" "int (length m) \<le> room_len"
  shows "\<exists>cp' e k1 cs' buf' k2.
    pkcs1_encrypt H rnd cp RSA_PUBLIC (int (length m)) input enc k = Some (0, (cp', e), k1) \<and> length e = length enc \<and>
    pkcs1_decrypt H cs RSA_PRIVATE olen e output room_len buf k1 =
      Some (0, (cs', int (length m), m @ drop (length m) output, buf'), k2)"
proof -
  let ?n = "ctx_len cp"
  obtain pad where pad: "rand_bytes rnd (?n - 3 - length m) 0 = Some pad" "length pad = ?n - 3 - length m" "\<forall>b \<in> set pad. b \<noteq> 0"
    by (rule pkcs1_block [OF rnd len(2)])
  define blk where "blk = [0, RSA_CRYPT] @ pad @ 0 # m"
  have lb: "length blk = ?n" using pad(2) len(2) by (simp add: blk_def)
  have "rd input 0 (length m) = Some m" using len(3) by (simp add: rd_def) (metis length_take min.cobounded1 min.absorb_iff2)
  moreover have "wr enc 0 blk = Some (blk @ drop ?n enc)" using room(1) lb by (simp add: wr_def)
  ultimately have enc: "pkcs1_encrypt H rnd cp RSA_PUBLIC (int (length m)) input enc k =
      rsa_public_op H cp (blk @ drop ?n enc) (blk @ drop ?n enc) k"
    using padding(1) pad(1) len(2) by (simp add: pkcs1_encrypt_def blk_def)
  have "be_val blk < 256 ^ (?n - 1)"
  proof -
    have "blk = 0 # tl blk" by (simp add: blk_def)
    then have "be_val blk = le_val (rev (tl blk))" by (metis be_val_zero be_val_rev)
    then show ?thesis using le_val_lt [of "rev (tl blk)"] lb by simp
  qed
  then have v: "be_val blk < mpi_abs (ctx_N cp)" using key(2) by simp
  have a: "take ?n (blk @ drop ?n enc) = blk" "?n \<le> length (blk @ drop ?n enc)" "drop ?n (blk @ drop ?n enc) = drop ?n enc"
    using lb by simp_all
  from rsa_inverse [OF H key(1) lb v a(1,2,2) room(2), of k] obtain cp' e k1 cs' k2 where
    r: "rsa_public_op H cp (blk @ drop ?n enc) (blk @ drop ?n enc) k = Some (0, (cp', e @ drop ?n enc), k1)" "length e = ?n"
      "rsa_private_op H cs (e @ drop ?n enc) buf k1 = Some (0, (cs', blk @ drop ?n buf), k2)" "\<exists>R S. cs' = cs\<lparr>ctx_RP := R, ctx_RQ := S\<rparr>"
    unfolding a(3) by blast
  have n: "ctx_len cs = ?n" using key(1) by (simp add: key_pair_def)
  have p: "rsa_padding cs' = RSA_PKCS_V15" using r(4) padding(2) by auto
  have pe: "padding_end (blk @ drop ?n buf) ?n 2 = Some (Some (?n - length m))"
    using padding_end_skips [of pad "[0, RSA_CRYPT]" ?n "m @ drop ?n buf"] pad len(2) by (simp add: blk_def numeral_2_eq_2)
  have b01: "nth_opt (blk @ drop ?n buf) 0 = Some 0" "nth_opt (blk @ drop ?n buf) 1 = Some RSA_CRYPT"
    by (simp_all add: blk_def nth_opt_def)
  have "take (length m) (drop (?n - length m) (blk @ drop ?n buf)) = m"
  proof -
    have "?n - length m = length ([0, RSA_CRYPT] @ pad @ [0])" using pad(2) len(2) by simp
    moreover have "blk @ drop ?n buf = ([0, RSA_CRYPT] @ pad @ [0]) @ m @ drop ?n buf" by (simp add: blk_def)
    ultimately show ?thesis by (metis append_eq_conv_conj)
  qed
  then have rd': "rd (blk @ drop ?n buf) (?n - length m) (length m) = Some m" using lb len(2) by (simp add: rd_def)
  have "wr output 0 m = Some (m @ drop (length m) output)" using room(3) by (simp add: wr_def)
  then have "pkcs1_decrypt H cs RSA_PRIVATE olen (e @ drop ?n enc) output room_len buf k1 =
      Some (0, (cs', int (length m), m @ drop (length m) output, blk @ drop ?n buf), k2)"
    using r(3) p pe b01 rd' len(1,2) room(2,4) by (simp add: pkcs1_decrypt_def n Let_def)
  then show ?thesis using enc r(1,2) room(1) by auto
qed

end
