(* ===== verification/RsaProps.thy ===== *)
theory RsaProps
  imports Pkcs1
begin

text \<open>
  The properties of the bundled RSA, with the keys that serve their witnesses.
\<close>

lemma prime_number_iff: "prime_number p \<longleftrightarrow> 1 < p \<and> (\<forall>d \<in> {2..<p}. \<not> d dvd p)"
proof
  assume "prime_number p"
  then show "1 < p \<and> (\<forall>d \<in> {2..<p}. \<not> d dvd p)" by (auto simp: prime_number_def)
next
  assume p: "1 < p \<and> (\<forall>d \<in> {2..<p}. \<not> d dvd p)"
  have "d = 1 \<or> d = p" if d: "d dvd p" for d
  proof -
    have "d \<le> p" "0 < d" using d p by (auto intro: dvd_imp_le Nat.gr0I)
    then consider "d = 1" | "d \<in> {2..<p}" | "d = p" by force
    then show ?thesis using p d by cases auto
  qed
  then show "prime_number p" using p by (simp add: prime_number_def)
qed

text \<open>A key with the primes 11 and 3, and a key of 16 bytes whose factors are coprime and whose exponents are 1.\<close>

definition mpi_of :: "limbs \<Rightarrow> mpi" where
  "mpi_of p = \<lparr>mpi_s = 1, mpi_p = p\<rparr>"

definition prime_key :: rsa_context where
  "prime_key = (rsa_init 0 0)\<lparr>ctx_len := 1, ctx_N := mpi_of [33], ctx_E := mpi_of [3], ctx_P := mpi_of [11],
     ctx_Q := mpi_of [3], ctx_DP := mpi_of [7], ctx_DQ := mpi_of [1], ctx_QP := mpi_of [4]\<rparr>"

definition long_key :: rsa_context where
  "long_key = (rsa_init 0 0)\<lparr>ctx_len := 16, ctx_N := mpi_of [0xFFFFFFFF, 0xFFFFFFFF, 0xFFFFFFFF, 0xFFFFFFFF], ctx_E := mpi_of [1], ctx_P := mpi_of [1, 0, 1],
     ctx_Q := mpi_of [0xFFFFFFFF, 0xFFFFFFFF], ctx_DP := mpi_of [1], ctx_DQ := mpi_of [1], ctx_QP := mpi_of [0, 0x80000000]\<rparr>"

lemma mpi_of_value: "mpi_s (mpi_of p) = 1" "mpi_p (mpi_of p) = p" "mpi_abs (mpi_of p) = val p" "proper (mpi_of p) \<longleftrightarrow> p \<noteq> []"
  by (simp_all add: mpi_of_def mpi_abs_def proper_def sign_ok_def)

lemma prime_key_coprime: "coprime (11 :: nat) 3"
proof -
  have "gcd (11 :: nat) 3 = gcd 3 2" by (subst gcd_red_nat) simp
  also have "\<dots> = gcd 2 1" by (subst gcd_red_nat) simp
  finally show ?thesis by (simp add: coprime_iff_gcd_eq_1)
qed

lemma prime_key_ok: "public_ok prime_key" "private_ok prime_key"
  using prime_key_coprime
  by (simp_all add: prime_key_def rsa_init_def Let_def public_ok_def private_ok_def odd_modulus_def cache_ok_def mpi_of_value wbase_def)

lemma long_key_coprime: "coprime (18446744073709551617 :: nat) 18446744073709551615"
proof -
  have "gcd (18446744073709551617 :: nat) 18446744073709551615 = gcd 18446744073709551615 2" by (subst gcd_red_nat) simp
  also have "\<dots> = gcd 2 1" by (subst gcd_red_nat) simp
  finally show ?thesis by (simp add: coprime_iff_gcd_eq_1)
qed

lemma long_key_ok: "public_ok long_key" "private_ok long_key"
  using long_key_coprime
  by (simp_all add: long_key_def rsa_init_def Let_def public_ok_def private_ok_def odd_modulus_def cache_ok_def mpi_of_value wbase_def)

lemma long_key_pair: "key_pair long_key long_key"
  using long_key_ok by (simp add: key_pair_def long_key_def rsa_init_def Let_def mpi_of_value)










lemma right_quotient: "val [0, 0x4000FFFE] div val [0x4000FFFF] = 0xFFFFFFFC"
  by (simp add: wbase_def)

end
