(* ===== verification/Spec2Isabelle.thy ===== *)
theory Spec2Isabelle
  imports JdProps RsaProps
begin

text \<open>
  \<^bold>\<open>The firmware.\<close> The program is the firmware of a Wi-Fi module (HF-LPB) in an air purifier. It connects the
  device on the serial line to a cloud: it opens a TCP connection, authenticates with four messages, takes
  over a session key, relays commands and reports under AES, updates itself over the air, serves local
  clients and answers broadcasts. The sources are under \<^verbatim>\<open>src/src\<close>: \<^verbatim>\<open>ZC\<close> is the cloud protocol, \<^verbatim>\<open>AC\<close> the
  device side, \<^verbatim>\<open>aes\<close> the cipher, \<^verbatim>\<open>zc_hf_adpter.c\<close> the platform, \<^verbatim>\<open>main.c\<close> the application, \<^verbatim>\<open>jdsmart\<close> a
  second cloud.

  \<^bold>\<open>State and effects.\<close> Theory \<open>State\<close> holds the record \<open>world\<close>, one field for every global variable of the C
  code. An operation is a function from \<open>world\<close> to \<open>world option\<close>; \<^term>\<open>None\<close> is undefined behaviour: an access
  outside a buffer, a null pointer, an index past a table. Structures are records, \<^verbatim>\<open>u8\<close>, \<^verbatim>\<open>u16\<close> and \<^verbatim>\<open>u32\<close> are
  words, buffers are byte lists of their declared length with checked reads and writes (theory \<open>Prelude\<close>).
  What the code does to the outside (frames sent, sockets, flash, serial line, timers of the SDK) is the list
  of events \<open>io\<close>, newest first. What it gets back from libraries that are not under \<^verbatim>\<open>src\<close> is the
  parameter \<open>sdk\<close>, a record of functions of the events so far; uninitialised bytes are a parameter too
  (\<open>sdk_junk\<close>). The security engine also calls RSA through this parameter; the bundled RSA library is modelled
  apart from it (below). Hypotheses on
  it are named: \<open>sdk_wf\<close> (reads of the flash and answers of the module have the length asked for), \<open>rsa_ok\<close>
  (RSA writes at most one block), \<open>rsa_works\<close> and \<open>net_works\<close> (the calls succeed). \<open>quiet_sdk\<close> satisfies all of
  them and serves the witnesses.

  \<^bold>\<open>The theories\<close>, in the order of their imports:
  \<^item> \<open>Crc\<close>: \<^verbatim>\<open>ZC/crc.c\<close>, three routines proved equal to one shift register, detection of bursts.
  \<^item> \<open>MsgQueue\<close>: the ring queue of \<^verbatim>\<open>zc_message_queue.c\<close>, refined to a bounded queue.
  \<^item> \<open>Reassembly\<close> states the contract of a stream receiver as a locale; \<open>MsgRecv\<close> (\<^verbatim>\<open>MSG_RecvData\<close>) and
    \<open>UartAsm\<close> (\<^verbatim>\<open>ZC_AssemblePkt\<close>) interpret it.
  \<^item> \<open>Wire\<close>: message heads, builders and the check of \<^verbatim>\<open>zc_cloud_event.c\<close> and \<^verbatim>\<open>PCT_CheckCrc\<close>.
  \<^item> \<open>AesTables\<close>, \<open>Aes\<close>, \<open>Cbc\<close>, \<open>AesCorrect\<close>, \<open>CbcCorrect\<close>: \<^verbatim>\<open>aes_core.c\<close> and \<^verbatim>\<open>aes_cbc.c\<close>, decryption inverts
    encryption.
  \<^item> \<open>Config\<close>: \<^verbatim>\<open>zc_configuration.c\<close> and the flash image. \<open>Slots\<close>, \<open>Timers\<close>: the contract of a table of
    slots as a locale, and the timer table of \<^verbatim>\<open>zc_timer.c\<close> with the SDK timers.
  \<^item> \<open>Sec\<close>: \<^verbatim>\<open>zc_sec_engine.c\<close>. \<open>Device\<close>: \<^verbatim>\<open>ac_hal.c\<close>. \<open>Adapter\<close>, \<open>System\<close>: \<^verbatim>\<open>zc_hf_adpter.c\<close> with the start
    \<open>HF_Init\<close>, the tasks \<open>HF_Cloudfunc\<close> and \<open>HF_CloudRecvfunc\<close>, and the network events.
  \<^item> \<open>Link\<close>: framing, encryption and buffers together; a message arrives at a peer with the same key.
  \<^item> \<open>Pct\<close>, \<open>PctRecv\<close>: \<^verbatim>\<open>zc_protocol_controller.c\<close>, sending and receiving handlers, the state machine \<open>PCT_Run\<close>,
    the expiry of timers.
  \<^item> \<open>Module\<close>: \<^verbatim>\<open>zc_moudle_manager.c\<close>. \<open>Client\<close>, \<open>ClientTable\<close>: \<^verbatim>\<open>zc_client_manager.c\<close> and \<^verbatim>\<open>zc_bc.c\<close>; the client
    table interprets \<open>Slots\<close>. \<open>App\<close>, \<open>UartLine\<close>: \<^verbatim>\<open>main.c\<close> and the serial commands of \<^verbatim>\<open>jdsmart.c\<close>.
  \<^item> \<open>Json\<close>, \<open>JsonPrint\<close>, \<open>JsonEdit\<close>: the bundled JSON library \<^verbatim>\<open>cJSON.c\<close>, its parser, its printer and the
    functions that build and change items. A text is a list of bytes and the remaining text is what the pointer
    of the C code sees. Two records are parameters: \<open>fpu\<close> holds the arithmetic on doubles (words of 64 bits),
    \<open>heap\<close> says which calls of \<^verbatim>\<open>malloc\<close> succeed. \<open>JsonRound\<close> has the abstract values \<open>json\<close>, their text and the
    printer's side of the round trip, \<open>JsonRead\<close> and \<open>JsonTrip\<close> the parser's side, \<open>JsonSafe\<close> the bounds of both.
    Hypotheses: \<open>fpu_exact\<close> (integers below \<^verbatim>\<open>2^31\<close> are exact), \<open>fpu_prints\<close> (the width of a printed double) and
    \<open>heap_ok\<close> (no call fails); \<open>whole_fpu\<close> and \<open>full_heap\<close> satisfy them.
  \<^item> \<open>Malloc\<close>: the record \<open>heap\<close> for the JSON library and the big numbers. \<open>Mpi\<close>, \<open>MpiArith\<close>, \<open>MpiDiv\<close>, \<open>MpiMod\<close>,
    \<open>MpiPrime\<close>: \<^verbatim>\<open>tropicssl/bignum.c\<close>, as \<^verbatim>\<open>secconfig.h\<close> configures it (limbs of 32 bits, no \<^verbatim>\<open>long long\<close>); of the
    cores of the multiplication the one in C. A number is its sign with its list of limbs; a call returns its
    \<^verbatim>\<open>int\<close>, the object and the count of allocations, and \<open>dest\<close> says whether the result goes to another object
    or over an operand. Loops whose end the code does not show are partial functions with the value \<^term>\<open>None\<close> for
    no return. \<open>MpiValue\<close>, \<open>MpiShift\<close>, \<open>MpiSum\<close>: values, import and export, shifts, sums, products;
    \<open>Quotient_Digits\<close>, \<open>Division\<close>, \<open>Residues\<close>: division and remainders; \<open>Montgomery\<close>, \<open>Powers\<close>, \<open>ExpMod\<close>: Montgomery
    products, windows, modular exponentiation. These lemmas say that the calls return, with \<open>returns m P\<close>.
  \<^item> \<open>Rsa\<close>: \<^verbatim>\<open>tropicssl/rsa.c\<close>. \<open>RsaCorrect\<close>, \<open>RsaTrip\<close>, \<open>Pkcs1\<close>, \<open>RsaProps\<close>: the two operations, Chinese remainders,
    Fermat's theorem for the keys, the padding, and the properties with their keys.
  \<^item> \<open>JdText\<close>, \<open>Jd\<close>, \<open>JdService\<close>, \<open>JdSearch\<close>: the second cloud, its own state \<open>jd_state\<close> around \<open>world\<close>: texts,
    the TLS connection (\<^verbatim>\<open>common.c\<close>), commands, upgrade and task (\<^verbatim>\<open>jdservice.c\<close>, \<^verbatim>\<open>ota.c\<close>), the search on the local
    network (\<^verbatim>\<open>jdudp.c\<close>). The answers of TLS and HTTP, and the doubles and the heap of the JSON library, are the
    parameter \<open>jd_sdk\<close>; \<open>JdProps\<close> has the properties, with \<open>echo_sdk\<close> for the witnesses.

  \<^bold>\<open>Runs.\<close> \<open>System\<close> defines the runs of the firmware: \<open>start\<close> is the state after the start-up, \<open>step\<close> one turn of a
  task, one expiry of a timer in use, bytes of the serial line, a network event or a command of the second
  cloud, \<open>reach\<close> the states of all runs. The tasks of the SDK are cooperative and switch in
  \<^verbatim>\<open>msleep\<close>, \<^verbatim>\<open>select\<close> and the socket calls; one turn of a task is one step here. The start-up runs before the
  tasks, although \<^verbatim>\<open>HF_Init\<close> creates them in its middle. \<open>jd_step\<close> and \<open>jd_reach\<close> (theory \<open>JdSearch\<close>) are the runs of
  firmware and second cloud together, which \<open>jd_reachable\<close> projects to runs of the firmware.

  \<^bold>\<open>The lemmas.\<close>
  \<^item> \<open>Outbound\<close> describes what sending changes, once for all senders. \<open>Inv\<close> defines the invariant \<open>safe\<close>: tables,
    buffers, queues, keys and stored data well formed (\<open>ginv\<close>), the key received from message 2 on (\<open>auth\<close>),
    the update within its length (\<open>ota_ok\<close>). \<open>Safe\<close>, \<open>SafeRun\<close>, \<open>SafeRecv\<close> show that every operation keeps it,
    \<open>SysSafe\<close> that every reachable state has it.
  \<^item> \<open>Total\<close>, \<open>TotalRun\<close>, \<open>Turns\<close>: no handler, timer or turn of the cloud task is undefined, given that the
    payload length of the waiting message lies in its buffer, which the code does not check.
  \<^item> \<open>Control\<close>: the automaton \<open>pct_next\<close> that a turn of the controller refines. \<open>Handshake\<close>: an honest cloud
    gets the firmware connected. \<open>Relay\<close>: firmware update, repetition of commands, refusal to send, timers.
  \<^item> This theory: the properties of all reachable states and of the controller, and the loss and recovery of
    the connection.

  \<^bold>\<open>Bounds.\<close> Message buffers have 424 bytes, the serial buffer 50, the packet buffer 1000; there are 5 timers, 4
  clients, 3 cells in a queue. The loops of the modelled code are structural recursions or have a measure,
  save those of the big numbers, which are partial functions; no fuel is used. \<^verbatim>\<open>recv\<close> returns at most 500 bytes at a time.

  \<^bold>\<open>Not modelled.\<close> The start-up of the second cloud in \<^verbatim>\<open>jdsmart.c\<close> (AT commands of the SDK); the freeing
  of JSON items, the hooks of \<^verbatim>\<open>cJSON.c\<close> and its error pointer, which nothing reads; \<^verbatim>\<open>rsa_gen_key\<close> and the text forms
  of numbers in \<^verbatim>\<open>tropicssl\<close>, compiled out, and its assembler cores; \<^verbatim>\<open>zc_jd.c\<close>, compiled out; \<^verbatim>\<open>startup.c\<close>, reset vectors; the SDK and its examples; the wait
  loops of \<^verbatim>\<open>app_main\<close> and of the tasks; the trace output.
\<close>

section \<open>Every reachable state\<close>

lemma quiet_ok: "sdk_wf quiet_sdk" "rsa_ok quiet_sdk" "rsa_works quiet_sdk" "net_works quiet_sdk"
  by (simp_all add: sdk_wf_def rsa_ok_def rsa_works_def net_works_def quiet_sdk_def)

lemmas quiet_run = handshake_run [OF quiet_ok, of "replicate 16 7", simplified]

text \<open>C4: In every state the firmware can reach from its start, in whatever order tasks, timers, serial line,
  network events and commands interleave: the controller waits for message 4, is connected or waits for the
  unbinding only if it has received the session key.\<close>

theorem reachable_authenticated:
  assumes "sdk_wf S" "reach S w"
    and "main_state w \<in> {PCT_STATE_WAIT_MSG4, PCT_STATE_CONNECT_CLOUD, PCT_STATE_WAIT_UNBIND}"
  shows "key_recv w = PCT_KEY_RECVED"
  using reach_safe [OF assms(2,1)] assms(3) by (auto simp: safe_def auth_def)

lemma reachable_authenticated_witness:
  "\<exists>w. reach quiet_sdk w \<and> main_state w = PCT_STATE_CONNECT_CLOUD \<and> key_recv w = PCT_KEY_RECVED"
proof -
  obtain w where w: "reach quiet_sdk w" "main_state w = 6" using quiet_run(2) by blast
  with reachable_authenticated [OF quiet_ok(1) w(1)] show ?thesis by auto
qed

text \<open>C3: Every frame the firmware ever sends to the cloud has at most 424 bytes and a head that announces
  exactly the bytes that follow it.\<close>

theorem reachable_frames:
  assumes "sdk_wf S" "reach S w" "E_tcp_send fd d \<in> set (io w)"
  shows "length d \<le> 424 \<and> 4 \<le> length d \<and> unat (ZC_HTONS (u16TotalMsg (SecHead_of d))) = length d - 4"
  using reach_safe [OF assms(2,1)] assms(3) by (auto simp: safe_def ginv_def sent_ok_def frame_ok_def)

lemma reachable_frames_witness:
  "\<exists>w fd d. reach quiet_sdk w \<and> E_tcp_send fd d \<in> set (io w) \<and> length d \<le> 424"
proof -
  obtain w fd d where w: "reach quiet_sdk w" "E_tcp_send fd d \<in> set (io w)"
    using quiet_run(3) unfolding has_sent_def by blast
  with reachable_frames [OF quiet_ok(1) w] show ?thesis by auto
qed

text \<open>C6: In every reachable state the timer table has its five entries and every timer index the controller
  uses lies in it, the message buffers have their sizes and consistent lengths, the send buffer is free, a
  message that waits is in the full receive buffer, the keys and the stored data have their sizes, and a
  repetition timer runs only while a command is kept.\<close>

theorem reachable_well_formed:
  assumes "sdk_wf S" "reach S w"
  shows "timers_ok w \<and> bufs_ok w \<and> queues_ok w \<and> store_ok w \<and> relay_ok w"
  using reach_safe [OF assms(2,1)] by (simp add: safe_def ginv_def)

lemma reachable_well_formed_witness:
  "\<exists>w. reach quiet_sdk w \<and> main_state w = PCT_STATE_CONNECT_CLOUD \<and> timers_ok w \<and> queues_ok w"
proof -
  obtain w where w: "reach quiet_sdk w" "main_state w = 6" using quiet_run(2) by blast
  with reachable_well_formed [OF quiet_ok(1) w(1)] show ?thesis by auto
qed



text \<open>C8: From every reachable state a turn of the cloud task is defined, provided the length a waiting message
  announces fits in the receive buffer and the RSA library writes one block: no handler leaves its
  buffers, reads an uninitialised pointer or a timer that does not exist.\<close>

theorem cloud_task_defined:
  assumes "sdk_wf S" "rsa_ok S" "reach S w" "recv_msg_ok w"
  shows "\<exists>w'. HF_Cloudfunc S w = Some w'"
  using defd_Cloudfunc [OF reach_safe [OF assms(3,1)] assms(4)] assms(2) by (auto simp: defd_def)

lemma cloud_task_defined_witness: "\<exists>w w'. reach quiet_sdk w \<and> waiting w \<and> HF_Cloudfunc quiet_sdk w = Some w'"
proof -
  obtain w where w: "reach quiet_sdk w" "authentic ZC_CODE_HANDSHAKE_2 w" using quiet_run(4) by blast
  have "recv_msg_ok w" by (rule authentic_recv_ok [OF reach_safe [OF w(1) quiet_ok(1)] w(2)])
  with cloud_task_defined [OF quiet_ok(1,2) w(1)] w show ?thesis by (auto simp: authentic_def)
qed



section \<open>The controller\<close>

text \<open>C1: One turn of the controller refines the automaton \<open>pct_next\<close>: it leaves the handshake states
  forward only for the message that is authentic, taking over the key it carries, and for an authentic
  message always; every other change of state is one of those listed.\<close>

theorem PCT_Run_refines_automaton:
  assumes "sdk_wf S" "reach S w" "PCT_Run S w = Some w'"
  shows "pct_next w w'"
  by (rule ensD [OF ens_Run_next [OF reach_safe [OF assms(2,1)]] assms(3)])

lemma PCT_Run_refines_automaton_witness:
  "\<exists>w w'. reach quiet_sdk w \<and> main_state w = PCT_STATE_WAIT_ACCESSRSP \<and> PCT_Run quiet_sdk w = Some w' \<and> main_state w' = PCT_STATE_WAIT_MSG4"
proof -
  obtain w where w: "reach quiet_sdk w" "main_state w = 4" "authentic ZC_CODE_HANDSHAKE_2 w" using quiet_run(4) by blast
  from Run_authentic [OF reach_safe [OF w(1) quiet_ok(1)] w(3), of quiet_sdk] w(2) obtain w' where
    w': "PCT_Run quiet_sdk w = Some w'" by auto
  from PCT_Run_refines_automaton [OF quiet_ok(1) w(1) w'] w w' show ?thesis by (auto simp: pct_next_def)
qed

text \<open>C2: The handshake makes progress: when an authentic message 2, or 4, waits in the state that expects it,
  the turn of the controller is defined and takes it to the next state; after message 2 the session key
  and both vectors are the 16 bytes the message carries.\<close>

theorem handshake_progress:
  assumes "sdk_wf S" "reach S w"
    and "main_state w = PCT_STATE_WAIT_ACCESSRSP \<and> authentic ZC_CODE_HANDSHAKE_2 w \<or>
      main_state w = PCT_STATE_WAIT_MSG4 \<and> authentic ZC_CODE_HANDSHAKE_4 w"
  shows "\<exists>w'. PCT_Run S w = Some w' \<and> main_state w' = main_state w + 1 \<and>
    (main_state w = PCT_STATE_WAIT_ACCESSRSP \<longrightarrow> has_key (take 16 (drop 40 (recv_msg w))) w')"
proof -
  have "main_state w \<noteq> 3" using assms(3) by auto
  with Run_authentic [OF reach_safe [OF assms(2,1)], of _ S] assms(3) obtain w' where
    "PCT_Run S w = Some w'" "pct_next w w'" by blast
  with assms(3) show ?thesis by (auto simp: pct_next_def)
qed

lemma handshake_progress_witness:
  "\<exists>w w'. reach quiet_sdk w \<and> main_state w = PCT_STATE_WAIT_ACCESSRSP \<and> PCT_Run quiet_sdk w = Some w' \<and>
     has_key (take 16 (drop 40 (recv_msg w))) w'"
proof -
  obtain w where w: "reach quiet_sdk w" "main_state w = 4" "authentic ZC_CODE_HANDSHAKE_2 w" using quiet_run(4) by blast
  with handshake_progress [OF quiet_ok(1) w(1)] show ?thesis by auto
qed





text \<open>C14: The receiver takes a frame without encryption in every state of the connection, also when the
  session keys are set: its payload becomes the waiting message.\<close>

theorem plaintext_accepted:
  assumes "safe w" "u8Status (g_struRecvBuffer w) = MSG_BUFFER_IDLE" "length p \<le> 420"
  shows "\<exists>w'. MSG_RecvDataFromCloud S (plain_frame p) (of_nat (length (plain_frame p))) w = Some w' \<and> waiting w' \<and>
    take (length p) (recv_msg w') = p \<and> con w' = con w"
  using plaintext_received [of w p S] assms by (auto simp: fresh_def)

lemma plaintext_accepted_witness:
  "\<exists>w w'. main_state w = PCT_STATE_CONNECT_CLOUD \<and> key_recv w = PCT_KEY_RECVED \<and>
     MSG_RecvDataFromCloud quiet_sdk (plain_frame [1, 2, 3]) 7 w = Some w' \<and> waiting w' \<and> con w' = con w"
proof -
  let ?w = "set_state 6 (set_keyRecv 1 (PCT_Init zero_world))"
  have "safe ?w" "u8Status (g_struRecvBuffer ?w) = 0" using PCT_Init_idle
    by (auto simp: inv_defs idle_def PCT_Init_def MSG_Init_def TIMER_Init_def Let_def)
  from plaintext_accepted [OF this, of "[1, 2, 3]" quiet_sdk]
  obtain w' where "MSG_RecvDataFromCloud quiet_sdk (plain_frame [1, 2, 3]) 7 ?w = Some w'" "waiting w'" "con w' = con ?w"
    by (auto simp: plain_frame_def)
  then show ?thesis by (intro exI [of _ ?w] exI [of _ w']) simp
qed

section \<open>Loss of the connection\<close>





text \<open>C12: The first expiry of the reconnection timer only starts it again, the second one sends the controller to
  the network access and frees the timer.\<close>

theorem reconnect_timer_fires:
  assumes "safe w" "unat i \<in> timer_used w" "tm_Type (g_struTimer w ! unat i) = PCT_TIMER_RECONNECT"
  shows "if u32FirstFlag (g_struHfTimer w ! unat i) = 1
    then (\<exists>w'. HF_timer_callback S i w = Some w' \<and> u32FirstFlag (g_struHfTimer w' ! unat i) = 0 \<and> con w' = con w \<and>
      g_struTimer w' = g_struTimer w)
    else (\<exists>w'. HF_timer_callback S i w = Some w' \<and> main_state w' = PCT_STATE_ACCESS_NET \<and>
      u8ReconnectTimer (con w') = PCT_TIMER_INVAILD \<and> timer_used w' = timer_used w - {unat i})"
proof -
  have l: "length (g_struTimer w) = 5" "length (g_struHfTimer w) = 5" using assms(1) by (simp_all add: inv_defs)
  have i: "unat i < 5" using assms(2) l by (simp add: timer_used_def)
  define x where "x = upd_con (\<lambda>c. c\<lparr>u8ReconnectTimer := PCT_TIMER_INVAILD, u8MainState := PCT_STATE_ACCESS_NET\<rparr>) w"
  have xi: "timer_inv x" "timer_used x = timer_used w" using assms(1) by (auto simp: x_def inv_defs timer_inv_def timer_used_def)
  from TIMER_StopTimer_defined [OF xi(1) i] obtain y where y: "TIMER_StopTimer i x = Some y" by blast
  have "TIMER_TimeoutAction S (unat i) w = Some x" using assms(3) i l by (simp add: TIMER_TimeoutAction_def nth_opt_def x_def)
  then show ?thesis
    using y TIMER_StopTimer_con [OF y] timers.free_ok [OF xi(1) y] xi(2) i l
    by (auto simp: HF_timer_callback_def nth_opt_def x_def)
qed

lemma reconnect_timer_fires_witness:
  "\<exists>w w'. main_state w = PCT_STATE_INIT \<and> timer_used w = {0} \<and> HF_timer_callback quiet_sdk 0 w = Some w' \<and>
     u32FirstFlag (g_struHfTimer w' ! 0) = 0"
proof -
  have "safe (PCT_Init zero_world)" "u8ReconnectTimer (con (PCT_Init zero_world)) = 0xFF"
    using PCT_Init_idle by (simp_all add: idle_def PCT_Init_def Let_def)
  from Reconnect_effect [OF this, of quiet_sdk 1000] obtain w where
    w: "safe w" "main_state w = 1" "timer_used w = {0}" "tm_Type (g_struTimer w ! 0) = 0" "u32FirstFlag (g_struHfTimer w ! 0) = 1"
    by auto
  with reconnect_timer_fires [OF w(1), of 0 quiet_sdk] show ?thesis by auto
qed

end
